(* ===== verification/Take_Range.thy ===== *)
theory Take_Range
  imports Improv_Prelude
begin

text \<open>
  \<open>crates/verified/src/take.rs\<close>: the index range \<open>TAKE\<close> and \<open>DROP\<close> keep of a list.
  \<open>range_spec\<close> and \<open>within\<close> are the source's specifications over naturals,
  \<open>take_range\<close> is the executable \<open>range\<close> over \<open>usize\<close>.
\<close>

definition range_spec :: "nat \<Rightarrow> nat \<Rightarrow> bool \<Rightarrow> bool \<Rightarrow> nat \<times> nat" where
  "range_spec len m from_end drp =
     (if \<not> from_end \<and> \<not> drp then (0, m)
      else if from_end \<and> \<not> drp then (len - m, len)
      else if \<not> from_end \<and> drp then (m, len)
      else (0, len - m))"

definition take_range :: "usize \<Rightarrow> usize \<Rightarrow> bool \<Rightarrow> bool \<Rightarrow> usize \<times> usize" where
  "take_range len m from_end drp =
     (case (from_end, drp) of
        (False, False) \<Rightarrow> (0, m)
      | (True, False) \<Rightarrow> (len - m, len)
      | (False, True) \<Rightarrow> (m, len)
      | (True, True) \<Rightarrow> (0, len - m))"

definition within :: "nat \<times> nat \<Rightarrow> nat \<Rightarrow> bool" where
  "within r i \<longleftrightarrow> fst r \<le> i \<and> i < snd r"

lemma take_range_spec:
  assumes "m \<le> len"
  shows "map_prod unat unat (take_range len m from_end drp)
       = range_spec (unat len) (unat m) from_end drp"
  using assms by (auto simp: take_range_def range_spec_def unat_sub)

lemma range_spec_partition:
  "m \<le> len \<Longrightarrow> i < len \<Longrightarrow>
   within (range_spec len m from_end False) i \<noteq> within (range_spec len m from_end True) i"
  by (auto simp: range_spec_def within_def)

text \<open>What the range selects of a list.\<close>

definition slice :: "'a list \<Rightarrow> nat \<times> nat \<Rightarrow> 'a list" where
  "slice xs r = List.drop (fst r) (take (snd r) xs)"

lemma slice_take_drop:
  assumes "m \<le> length xs"
  shows "slice xs (range_spec (length xs) m False False) = take m xs"
    and "slice xs (range_spec (length xs) m False True) = List.drop m xs"
    and "slice xs (range_spec (length xs) m True False) = List.drop (length xs - m) xs"
    and "slice xs (range_spec (length xs) m True True) = take (length xs - m) xs"
  using assms by (simp_all add: slice_def range_spec_def)

lemma slice_partition:
  assumes "m \<le> length xs"
  shows "slice xs (range_spec (length xs) m False False)
         @ slice xs (range_spec (length xs) m False True) = xs"
    and "slice xs (range_spec (length xs) m True True)
         @ slice xs (range_spec (length xs) m True False) = xs"
  using assms by (simp_all add: slice_take_drop)

text \<open>
  For a count \<open>m\<close> of at most \<open>len\<close>, \<open>range\<close> never underflows: the range it
  returns is in bounds, keeps \<open>m\<close> values for \<open>TAKE\<close> and \<open>len - m\<close> for \<open>DROP\<close>,
  and every index is in exactly one of the two ranges.
\<close>

theorem take_drop_partition:
  assumes "m \<le> len" and "i < unat len"
  shows "let t = map_prod unat unat (take_range len m from_end False);
             d = map_prod unat unat (take_range len m from_end True)
         in fst t \<le> snd t \<and> snd t \<le> unat len \<and> snd t - fst t = unat m \<and>
            fst d \<le> snd d \<and> snd d \<le> unat len \<and> snd d - fst d = unat len - unat m \<and>
            within t i \<noteq> within d i"
proof -
  have m: "unat m \<le> unat len" using assms(1) by (simp add: word_le_nat_alt)
  show ?thesis
    using m range_spec_partition [OF m assms(2), of from_end]
    unfolding take_range_spec [OF assms(1)] Let_def
    by (auto simp: range_spec_def)
qed

theorem take_drop_partition_witness:
  "let t = map_prod unat unat (take_range 5 2 True False);
       d = map_prod unat unat (take_range 5 2 True True)
   in fst t \<le> snd t \<and> snd t \<le> unat (5 :: usize) \<and> snd t - fst t = unat (2 :: usize) \<and>
      fst d \<le> snd d \<and> snd d \<le> unat (5 :: usize)
      \<and> snd d - fst d = unat (5 :: usize) - unat (2 :: usize) \<and>
      within t 3 \<noteq> within d 3"
  by (rule take_drop_partition) simp_all

end
