(* ===== verification/Bit_Ops.thy ===== *)
theory Bit_Ops
  imports Improv_Prelude
begin

unbundle bit_operations_syntax

text \<open>
  \<open>crates/verified/src/bits.rs\<close>: the 48-bit operations behind \<open>BITAND\<close>, \<open>BITOR\<close>,
  \<open>BITXOR\<close>, \<open>BITLSHIFT\<close> and \<open>BITRSHIFT\<close>, on \<open>u64\<close> operands below \<open>2 ^ 48\<close>.
\<close>

definition LIMIT :: u64 where
  "LIMIT = 0x1000000000000"

definition bit_and :: "u64 \<Rightarrow> u64 \<Rightarrow> u64" where
  "bit_and a b = a AND b"

definition bit_or :: "u64 \<Rightarrow> u64 \<Rightarrow> u64" where
  "bit_or a b = a OR b"

definition bit_xor :: "u64 \<Rightarrow> u64 \<Rightarrow> u64" where
  "bit_xor a b = a XOR b"

text \<open>\<open>shl\<close> forms \<open>1u64 << n\<close> and multiplies in \<open>u128\<close>.\<close>

definition bit_shl :: "u64 \<Rightarrow> u32 \<Rightarrow> u128" where
  "bit_shl x n = (let p = push_bit (unat n) (1 :: u64) in ucast x * ucast p)"

definition bit_shr :: "u64 \<Rightarrow> u32 \<Rightarrow> u64" where
  "bit_shr x n = drop_bit (unat n) x"

lemma LIMIT_mask: "a < LIMIT \<longleftrightarrow> take_bit 48 a = a"
proof -
  have "a < LIMIT \<longleftrightarrow> uint a < 2 ^ 48"
    by (simp add: word_less_def LIMIT_def)
  also have "\<dots> \<longleftrightarrow> take_bit 48 (uint a) = uint a"
    by (simp add: take_bit_int_eq_self_iff)
  also have "\<dots> \<longleftrightarrow> take_bit 48 a = a"
    by (simp add: word_uint_eq_iff unsigned_take_bit_eq)
  finally show ?thesis .
qed

lemma bit_ops_below:
  assumes "a < LIMIT" and "b < LIMIT"
  shows "bit_and a b < LIMIT" and "bit_or a b < LIMIT" and "bit_xor a b < LIMIT"
  using assms by (simp_all add: LIMIT_mask bit_and_def bit_or_def bit_xor_def)

lemma le_bit_or: "a \<le> bit_or a b" "b \<le> bit_or a b"
  by (simp_all add: bit_or_def le_word_or1 le_word_or2)

lemma bit_and_le: "bit_and a b \<le> a" "bit_and a b \<le> b"
  by (simp_all add: bit_and_def word_and_le1 word_and_le2)

lemma bit_shl_unat:
  assumes "x < LIMIT" and "unat n \<le> 53"
  shows "unat (bit_shl x n) = unat x * 2 ^ unat n" and "unat x * 2 ^ unat n < 2 ^ 101"
proof -
  have x: "unat x < 2 ^ 48" using assms(1) by (simp add: LIMIT_def word_less_nat_alt)
  have p: "(2 :: nat) ^ unat n \<le> 2 ^ 53" using assms(2) by (intro power_increasing) auto
  have "unat x * 2 ^ unat n < 2 ^ 48 * 2 ^ 53"
    by (rule mult_less_le_imp_less [OF x p]) simp_all
  then show b: "unat x * 2 ^ unat n < 2 ^ 101" by (simp flip: power_add)
  have u: "unat (2 ^ unat n :: u64) = 2 ^ unat n" using assms(2) by (intro unat_2_power_u64) simp
  have "unat x * unat (2 ^ unat n :: u64) < 2 ^ 128" using b u by simp
  then show "unat (bit_shl x n) = unat x * 2 ^ unat n"
    using u by (simp add: bit_shl_def Let_def push_bit_eq_mult unat_mult_u128)
qed

lemma bit_shr_unat:
  assumes "unat n \<le> 53"
  shows "unat (bit_shr x n) = unat x div 2 ^ unat n"
  using unat_2_power_u64 [of "unat n"] assms
  by (simp add: bit_shr_def drop_bit_eq_div unat_div_distrib)

text \<open>
  On operands below \<open>2 ^ 48\<close>, the bitwise operations stay below it, \<open>AND\<close> is at
  most either operand and \<open>OR\<close> at least either; a shift of at most 53 places to the left
  is the exact product (the \<open>u128\<close> never wraps), and to the right the floor of the quotient.
\<close>

theorem bit_ops_exact:
  assumes "a < LIMIT" and "b < LIMIT" and "unat n \<le> 53"
  shows "bit_and a b < LIMIT \<and> bit_and a b \<le> a \<and> bit_and a b \<le> b \<and>
         bit_or a b < LIMIT \<and> a \<le> bit_or a b \<and> b \<le> bit_or a b \<and>
         bit_xor a b < LIMIT \<and>
         unat (bit_shl a n) = unat a * 2 ^ unat n \<and> unat (bit_shl a n) < 2 ^ 101 \<and>
         unat (bit_shr a n) = unat a div 2 ^ unat n \<and> bit_shr a n \<le> a"
  using bit_ops_below [OF assms(1,2)] le_bit_or bit_and_le bit_shl_unat [OF assms(1,3)]
  by (simp add: bit_shr_unat [OF assms(3)] word_le_nat_alt)

theorem bit_ops_exact_witness:
  "bit_and 12 10 < LIMIT \<and> bit_and 12 10 \<le> 12 \<and> bit_and 12 10 \<le> 10 \<and>
   bit_or 12 10 < LIMIT \<and> 12 \<le> bit_or 12 10 \<and> 10 \<le> bit_or 12 10 \<and>
   bit_xor 12 10 < LIMIT \<and>
   unat (bit_shl 12 3) = unat (12 :: u64) * 2 ^ unat (3 :: u32) \<and> unat (bit_shl 12 3) < 2 ^ 101 \<and>
   unat (bit_shr 12 3) = unat (12 :: u64) div 2 ^ unat (3 :: u32) \<and> bit_shr 12 3 \<le> 12"
  by (rule bit_ops_exact) (simp_all add: LIMIT_def)

end
