(* ===== verification/Gcd_Lcm.thy ===== *)
theory Gcd_Lcm
  imports Improv_Prelude
begin

text \<open>
  \<open>crates/verified/src/gcd.rs\<close>: Euclid's algorithm on \<open>u64\<close> and the capped least common
  multiple behind \<open>GCD\<close> and \<open>LCM\<close>. The source's specifications \<open>divides\<close>, \<open>gcd_spec\<close> and
  \<open>lcm_spec\<close> are kept and shown to be the library's divisibility, \<open>gcd\<close> and \<open>lcm\<close>.
\<close>

definition divides :: "int \<Rightarrow> int \<Rightarrow> bool" where
  "divides d n \<longleftrightarrow> (\<exists>k. d * k = n)"

fun gcd_spec :: "nat \<Rightarrow> nat \<Rightarrow> nat" where
  "gcd_spec a b = (if b = 0 then a else gcd_spec b (a mod b))"

declare gcd_spec.simps [simp del]

text \<open>The loop of \<open>gcd\<close>: \<open>while y != 0 { t = x % y; x = y; y = t }\<close>.\<close>

function gcd_loop :: "u64 \<Rightarrow> u64 \<Rightarrow> u64" where
  "gcd_loop x y = (if y = 0 then x else gcd_loop y (x mod y))"
  by pat_completeness auto
termination
  by (relation "measure (\<lambda>(x, y). unat y)") (auto simp: unat_mod unat_gt_0)

declare gcd_loop.simps [simp del]

definition gcd_u64 :: "u64 \<Rightarrow> u64 \<Rightarrow> u64" where
  "gcd_u64 a b = gcd_loop a b"

definition lcm_spec :: "nat \<Rightarrow> nat \<Rightarrow> int" where
  "lcm_spec a b = int (a div gcd_spec a b) * int b"

text \<open>\<open>lcm_below\<close>: the product is formed and compared in \<open>u128\<close>.\<close>

definition lcm_below :: "u64 \<Rightarrow> u64 \<Rightarrow> u64 \<Rightarrow> u64 option" where
  "lcm_below a b cap =
     (let g = gcd_u64 a b;
          q = a div g;
          m = (ucast q :: u128) * ucast b
      in if m < ucast cap then Some (ucast m) else None)"

lemma divides_iff_dvd: "divides d n \<longleftrightarrow> d dvd n"
  by (auto simp: divides_def dvd_def)

lemma gcd_spec_gcd: "gcd_spec a b = gcd a b"
proof (induction a b rule: gcd_spec.induct)
  case (1 a b)
  then show ?case
    using gcd_red_nat [of a b] by (subst gcd_spec.simps) (simp add: gcd.commute)
qed

lemma gcd_loop_gcd: "unat (gcd_loop x y) = gcd (unat x) (unat y)"
proof (induction x y rule: gcd_loop.induct)
  case (1 x y)
  then show ?case
    using gcd_red_nat [of "unat x" "unat y"]
    by (subst gcd_loop.simps) (simp add: unat_mod gcd.commute)
qed

lemma div_gcd_mult: "a div gcd a b * b = lcm (a :: nat) b"
proof -
  have "a div gcd a b * b = a * b div gcd a b" by (simp add: dvd_div_mult)
  then show ?thesis by (simp add: lcm_nat_def)
qed

lemma lcm_spec_lcm: "lcm_spec a b = int (lcm a b)"
  using arg_cong [OF div_gcd_mult [of a b], of int] by (simp add: lcm_spec_def gcd_spec_gcd)

lemma lcm_product: "unat ((ucast (a div gcd_u64 a b) :: u128) * ucast b) = lcm (unat a) (unat b)"
proof -
  let ?q = "unat a div gcd (unat a) (unat b)"
  have q: "unat (a div gcd_u64 a b) = ?q" by (simp add: unat_div gcd_u64_def gcd_loop_gcd)
  have "?q \<le> unat a" by (rule div_le_dividend)
  then have "?q * unat b \<le> unat a * unat b" by simp
  also have "\<dots> \<le> 2 ^ 64 * unat b" using u64_lt [of a] by (intro mult_right_mono) auto
  also have "\<dots> < 2 ^ 64 * 2 ^ 64" using u64_lt [of b] by simp
  finally have "?q * unat b < 2 ^ 128" by simp
  then show ?thesis using q by (simp add: unat_mult_u128 div_gcd_mult)
qed

text \<open>
  \<open>gcd\<close> meets its specification: the result divides both operands, every common
  divisor divides it, it is Euclid's \<open>gcd_spec\<close>, and \<open>gcd(a, 0) = a\<close>.
\<close>

theorem gcd_greatest_common_divisor:
  "unat (gcd_u64 a b) = gcd_spec (unat a) (unat b) \<and>
   divides (uint (gcd_u64 a b)) (uint a) \<and> divides (uint (gcd_u64 a b)) (uint b) \<and>
   {d. divides d (uint a) \<and> divides d (uint b)} = {d. divides d (uint (gcd_u64 a b))} \<and>
   gcd_u64 a 0 = a"
proof -
  have g: "unat (gcd_u64 a b) = gcd (unat a) (unat b)" by (simp add: gcd_u64_def gcd_loop_gcd)
  then have "int (unat (gcd_u64 a b)) = int (gcd (unat a) (unat b))" by (rule arg_cong)
  then have u: "uint (gcd_u64 a b) = gcd (uint a) (uint b)"
    by (simp only: gcd_int_int_eq [symmetric] uint_nat [symmetric])
  have "gcd_u64 a 0 = a" unfolding gcd_u64_def by (subst gcd_loop.simps) simp
  then show ?thesis
    unfolding g u gcd_spec_gcd divides_iff_dvd by auto
qed

text \<open>
  For positive operands \<open>lcm_below\<close> returns \<open>None\<close> exactly when the true least common
  multiple is at least \<open>cap\<close>, and otherwise returns it: no wrap-around in \<open>u128\<close> or in
  the cast back to \<open>u64\<close> can hide an overflow.
\<close>

theorem lcm_below_exact:
  assumes "0 < a" and "0 < b"
  shows "(lcm_below a b cap = None \<longleftrightarrow> uint cap \<le> lcm_spec (unat a) (unat b)) \<and>
         (lcm_below a b cap = None \<or>
          (\<exists>m. lcm_below a b cap = Some m \<and> unat m = lcm (unat a) (unat b) \<and> m < cap \<and> 0 < m))"
proof -
  let ?m = "(ucast (a div gcd_u64 a b) :: u128) * ucast b"
  have m: "unat ?m = lcm (unat a) (unat b)" by (rule lcm_product)
  have lt: "?m < ucast cap \<longleftrightarrow> lcm (unat a) (unat b) < unat cap"
    using m by (simp add: word_less_nat_alt)
  have pos: "0 < lcm (unat a) (unat b)" using assms by (simp add: word_less_nat_alt lcm_pos_nat)
  show ?thesis
  proof (cases "lcm (unat a) (unat b) < unat cap")
    case True
    then have "unat (ucast ?m :: u64) = lcm (unat a) (unat b)"
      using m u64_lt [of cap] by (simp add: unat_ucast_u64)
    moreover have "lcm_below a b cap = Some (ucast ?m)"
      using True lt by (simp add: lcm_below_def Let_def)
    moreover have "\<not> uint cap \<le> lcm_spec (unat a) (unat b)"
      using True by (simp add: lcm_spec_lcm uint_nat del: of_nat_unat)
    ultimately show ?thesis
      using True pos by (auto simp: word_less_nat_alt)
  next
    case False
    moreover have "lcm_below a b cap = None"
      using False lt by (simp add: lcm_below_def Let_def)
    ultimately show ?thesis by (simp add: lcm_spec_lcm uint_nat del: of_nat_unat)
  qed
qed

theorem lcm_below_exact_witness:
  "(lcm_below 4 6 13 = None \<longleftrightarrow> uint (13 :: u64) \<le> lcm_spec (unat (4 :: u64)) (unat (6 :: u64))) \<and>
   (lcm_below 4 6 13 = None \<or>
    (\<exists>m. lcm_below 4 6 13 = Some m \<and> unat m = lcm (unat (4 :: u64)) (unat (6 :: u64))
       \<and> m < 13 \<and> 0 < m))"
  by (rule lcm_below_exact) simp_all

end
