(* ===== verification/Coord_Keys.thy ===== *)
theory Coord_Keys
  imports Improv_Prelude
begin

text \<open>
  \<open>crates/verified/src/keys.rs\<close>: projection and union of coordinate keys, the key arithmetic
  of every dimensional join. A key is a list of (category, item) pairs. The locale
  \<open>coord_key_algebra\<close> is the contract the joins rely on: keys are finite maps from
  categories to items, \<open>project\<close> restricts them and \<open>union\<close> merges them with the left
  one winning. Its lemmas are proved from the contract alone; the interpretation at the end
  shows that the code's list functions meet it.
\<close>

section \<open>The key functions\<close>

type_synonym coord_key = "(u32 \<times> u32) list"

text \<open>\<open>sorted\<close>: strictly increasing categories.\<close>

definition key_sorted :: "coord_key \<Rightarrow> bool" where
  "key_sorted k \<longleftrightarrow> sorted_wrt (\<lambda>p q. fst p < fst q) k"

definition kept :: "u32 list \<Rightarrow> u32 \<times> u32 \<Rightarrow> bool" where
  "kept keep p \<longleftrightarrow> fst p \<in> set keep"

definition has_cat :: "coord_key \<Rightarrow> u32 \<Rightarrow> bool" where
  "has_cat k c \<longleftrightarrow> (\<exists>p\<in>set k. fst p = c)"

definition key_agree :: "coord_key \<Rightarrow> coord_key \<Rightarrow> bool" where
  "key_agree a b \<longleftrightarrow> (\<forall>p\<in>set a. \<forall>q\<in>set b. fst p = fst q \<longrightarrow> p = q)"

text \<open>\<open>has\<close>: the linear scan of \<open>keep\<close>.\<close>

fun key_has :: "u32 list \<Rightarrow> u32 \<Rightarrow> bool" where
  "key_has [] c = False"
| "key_has (x # keep) c = (if x = c then True else key_has keep c)"

text \<open>\<open>project\<close>: the loop pushes each pair whose category is kept.\<close>

fun project :: "coord_key \<Rightarrow> u32 list \<Rightarrow> coord_key" where
  "project [] keep = []"
| "project (x # k) keep = (if key_has keep (fst x) then x # project k keep else project k keep)"

text \<open>\<open>union_keys\<close>: the merge loop; on a shared category the left pair is pushed and both advance.\<close>

fun union_keys :: "coord_key \<Rightarrow> coord_key \<Rightarrow> coord_key" where
  "union_keys [] [] = []"
| "union_keys (x # a) [] = x # union_keys a []"
| "union_keys [] (y # b) = y # union_keys [] b"
| "union_keys (x # a) (y # b) =
     (if fst x < fst y then x # union_keys a (y # b)
      else if fst y < fst x then y # union_keys (x # a) b
      else x # union_keys a b)"

section \<open>The contract of the dimensional joins\<close>

locale coord_key_algebra =
  fixes proj :: "'k \<Rightarrow> 'c list \<Rightarrow> 'k"
    and join :: "'k \<Rightarrow> 'k \<Rightarrow> 'k"
    and item_at :: "'k \<Rightarrow> 'c \<Rightarrow> 'i option"
    and valid :: "'k \<Rightarrow> bool"
  assumes valid_proj: "valid k \<Longrightarrow> valid (proj k cs)"
    and valid_join: "valid a \<Longrightarrow> valid b \<Longrightarrow> valid (join a b)"
    and item_at_proj: "valid k \<Longrightarrow> item_at (proj k cs) = item_at k |` set cs"
    and item_at_join: "valid a \<Longrightarrow> valid b \<Longrightarrow> item_at (join a b) = item_at b ++ item_at a"
    and valid_ext: "valid a \<Longrightarrow> valid b \<Longrightarrow> item_at a = item_at b \<Longrightarrow> a = b"
begin

lemma join_assoc:
  assumes "valid a" "valid b" "valid c"
  shows "join a (join b c) = join (join a b) c"
  by (rule valid_ext) (simp_all add: assms valid_join item_at_join)

lemma join_self: "valid a \<Longrightarrow> join a a = a"
  by (rule valid_ext)
     (auto simp: valid_join item_at_join map_add_def fun_eq_iff split: option.split)

lemma join_commute:
  assumes "valid a" "valid b"
    and agree: "\<And>c i j. item_at a c = Some i \<Longrightarrow> item_at b c = Some j \<Longrightarrow> i = j"
  shows "join a b = join b a"
proof (rule valid_ext)
  show "item_at (join a b) = item_at (join b a)"
    using agree by (auto simp: item_at_join assms map_add_def fun_eq_iff split: option.split)
qed (simp_all add: assms valid_join)

lemma proj_join:
  assumes "valid a" "valid b"
  shows "proj (join a b) cs = join (proj a cs) (proj b cs)"
proof (rule valid_ext)
  show "item_at (proj (join a b) cs) = item_at (join (proj a cs) (proj b cs))"
    by (auto simp: assms valid_join valid_proj item_at_join item_at_proj restrict_map_def
        map_add_def fun_eq_iff)
qed (simp_all add: assms valid_join valid_proj)

lemma proj_proj:
  assumes "valid k" "set es = set cs \<inter> set ds"
  shows "proj (proj k cs) ds = proj k es"
  by (rule valid_ext) (auto simp: assms valid_proj item_at_proj restrict_map_def fun_eq_iff)

lemma proj_all:
  assumes "valid k" "dom (item_at k) \<subseteq> set cs"
  shows "proj k cs = k"
proof (rule valid_ext)
  show "item_at (proj k cs) = item_at k"
  proof
    fix c
    show "item_at (proj k cs) c = item_at k c"
    proof (cases "c \<in> set cs")
      case False
      then have "item_at k c = None" using assms(2) by (metis domIff subsetD)
      with False show ?thesis by (simp add: item_at_proj assms(1))
    qed (simp add: item_at_proj assms(1))
  qed
qed (simp_all add: assms valid_proj)

text \<open>A joined cell projects back onto its left operand's key.\<close>

lemma proj_join_left:
  assumes "valid a" "valid b" "dom (item_at a) = set cs"
  shows "proj (join a b) cs = a"
proof (rule valid_ext)
  show "item_at (proj (join a b) cs) = item_at a"
  proof
    fix c
    show "item_at (proj (join a b) cs) c = item_at a c"
    proof (cases "c \<in> set cs")
      case True
      with assms(3) obtain i where "item_at a c = Some i" by (metis domD)
      with True show ?thesis by (simp add: assms valid_join item_at_join item_at_proj)
    next
      case False
      with assms(3) have "item_at a c = None" by (metis domIff)
      with False show ?thesis by (simp add: assms valid_join item_at_proj)
    qed
  qed
qed (simp_all add: assms valid_join valid_proj)

text \<open>Partners that agree on their shared categories are both recovered from the join.\<close>

lemma proj_join_right:
  assumes "valid a" "valid b" "dom (item_at b) = set cs"
    and agree: "\<And>c i j. item_at a c = Some i \<Longrightarrow> item_at b c = Some j \<Longrightarrow> i = j"
  shows "proj (join a b) cs = b"
  using proj_join_left [OF assms(2,1,3)] join_commute [OF assms(1,2) agree] by simp

end

section \<open>The code meets the contract\<close>

lemma key_has_set [simp]: "key_has keep c \<longleftrightarrow> c \<in> set keep"
  by (induction keep) auto

lemma project_filter: "project k keep = filter (kept keep) k"
  by (induction k) (auto simp: kept_def)

lemma key_sorted_simps [simp]:
  "key_sorted []"
  "key_sorted (x # k) \<longleftrightarrow> (\<forall>p\<in>set k. fst x < fst p) \<and> key_sorted k"
  by (simp_all add: key_sorted_def)

lemma key_sorted_distinct: "key_sorted k \<Longrightarrow> distinct (map fst k)"
  by (induction k) auto

lemma map_of_None_above: "\<forall>p\<in>set (k :: coord_key). c < fst p \<Longrightarrow> map_of k c = None"
  by (induction k) auto

lemma key_sorted_project: "key_sorted k \<Longrightarrow> key_sorted (project k keep)"
  by (induction k) (auto simp: project_filter)

lemma set_union_keys_subset: "set (union_keys a b) \<subseteq> set a \<union> set b"
  by (induction a b rule: union_keys.induct) auto

lemma key_sorted_union: "key_sorted a \<Longrightarrow> key_sorted b \<Longrightarrow> key_sorted (union_keys a b)"
proof (induction a b rule: union_keys.induct)
  case (4 x a y b)
  have sub: "set (union_keys c d) \<subseteq> set c \<union> set d" for c d by (rule set_union_keys_subset)
  consider "fst x < fst y" | "fst y < fst x" | "fst x = fst y" by (meson linorder_less_linear)
  then show ?case
  proof cases
    case 1
    then have "\<forall>p\<in>set a \<union> set (y # b). fst x < fst p" using "4.prems" by force
    with 1 show ?thesis using 4 sub [of a "y # b"] by auto
  next
    case 2
    then have "\<forall>p\<in>set (x # a) \<union> set b. fst y < fst p" using "4.prems" by force
    with 2 show ?thesis using 4 sub [of "x # a" b] by auto
  next
    case 3
    then have "\<forall>p\<in>set a \<union> set b. fst x < fst p" using "4.prems" by force
    with 3 show ?thesis using 4 sub [of a b] by auto
  qed
qed (use set_union_keys_subset in force)+

lemma map_of_project: "map_of (project k keep) = map_of k |` set keep"
  by (induction k) (auto simp: restrict_map_def fun_eq_iff)

lemma map_of_union_keys:
  "key_sorted a \<Longrightarrow> key_sorted b \<Longrightarrow> map_of (union_keys a b) = map_of b ++ map_of a"
proof (induction a b rule: union_keys.induct)
  case (4 x a y b)
  consider "fst x < fst y" | "fst y < fst x" | "fst x = fst y" by (meson linorder_less_linear)
  then show ?case
  proof cases
    case 1
    then show ?thesis using 4 by (simp add: fun_eq_iff map_add_def)
  next
    case 2
    then have "\<forall>p\<in>set a. fst y < fst p" using "4.prems"(1) by force
    then have "map_of a (fst y) = None" by (rule map_of_None_above)
    with 2 show ?thesis using 4 by (auto simp: fun_eq_iff map_add_def split: option.split)
  next
    case 3
    then show ?thesis using 4 by (auto simp: fun_eq_iff map_add_def split: option.split)
  qed
qed (auto simp: fun_eq_iff map_add_def)

lemma key_sorted_ext: "key_sorted a \<Longrightarrow> key_sorted b \<Longrightarrow> map_of a = map_of b \<Longrightarrow> a = b"
proof (induction a arbitrary: b)
  case Nil
  then show ?case by (cases b) (auto simp: fun_eq_iff split: if_splits)
next
  case (Cons x a)
  then obtain y b' where b: "b = y # b'"
    by (cases b) (auto simp: fun_eq_iff split: if_splits)
  have none: "map_of a c = None" if "c \<le> fst x" for c
    using Cons.prems(1) that by (intro map_of_None_above) auto
  have none': "map_of b' c = None" if "c \<le> fst y" for c
    using Cons.prems(2) that by (intro map_of_None_above) (auto simp: b)
  have eq: "map_of (x # a) c = map_of (y # b') c" for c
    using fun_cong [OF Cons.prems(3), of c] b by simp
  have fst: "fst x = fst y"
  proof (rule ccontr)
    assume "fst x \<noteq> fst y"
    then consider "fst x < fst y" | "fst y < fst x" by (meson linorder_less_linear)
    then show False
      using eq [of "fst x"] eq [of "fst y"] none none' by cases (auto split: if_splits)
  qed
  then have xy: "x = y" using eq [of "fst x"] by (simp add: prod_eq_iff)
  have "map_of a = map_of b'"
  proof
    fix c
    show "map_of a c = map_of b' c"
      using eq [of c] none [of c] none' [of c] fst by (cases "c = fst x") (auto split: if_splits)
  qed
  with Cons.IH [of b'] Cons.prems(1,2) b xy show ?case by simp
qed

interpretation keys: coord_key_algebra project union_keys map_of key_sorted
proof unfold_locales
  fix k a b :: coord_key and cs :: "u32 list"
  show "key_sorted k \<Longrightarrow> key_sorted (project k cs)" by (rule key_sorted_project)
  show "key_sorted a \<Longrightarrow> key_sorted b \<Longrightarrow> key_sorted (union_keys a b)" by (rule key_sorted_union)
  show "map_of (project k cs) = map_of k |` set cs" by (rule map_of_project)
  show "key_sorted a \<Longrightarrow> key_sorted b \<Longrightarrow> map_of (union_keys a b) = map_of b ++ map_of a"
    by (rule map_of_union_keys)
  show "key_sorted a \<Longrightarrow> key_sorted b \<Longrightarrow> map_of a = map_of b \<Longrightarrow> a = b"
    by (rule key_sorted_ext)
qed

section \<open>Properties\<close>

text \<open>
  C24: \<open>project\<close> and \<open>union_keys\<close> refine restriction and left-biased merge of finite maps:
  on sorted keys the results are sorted (no category twice), a projected key reads as the key
  restricted to the kept categories, and a union reads the left key first and the right one
  where the left lacks the category.
\<close>

theorem coord_keys_refine_maps:
  assumes "key_sorted a" and "key_sorted b"
  shows "key_sorted (project a keep) \<and> project a keep = filter (kept keep) a \<and>
         map_of (project a keep) = map_of a |` set keep \<and>
         key_sorted (union_keys a b) \<and> map_of (union_keys a b) = map_of b ++ map_of a"
  using assms
  by (simp add: key_sorted_project project_filter [symmetric] map_of_project key_sorted_union
      map_of_union_keys)

theorem coord_keys_refine_maps_witness:
  "key_sorted (project [(1, 10), (3, 30)] [3, 9])
   \<and> project [(1, 10), (3, 30)] [3, 9] = filter (kept [3, 9]) [(1, 10), (3, 30)] \<and>
   map_of (project [(1, 10), (3, 30)] [3, 9]) = map_of [(1, 10), (3, 30)] |` set [3, 9] \<and>
   key_sorted (union_keys [(1, 10), (3, 30)] [(2, 20), (3, 31)]) \<and>
   map_of (union_keys [(1, 10), (3, 30)] [(2, 20), (3, 31)])
     = map_of [(2, 20), (3, 31)] ++ map_of [(1, 10), (3, 30)]"
  by (rule coord_keys_refine_maps) simp_all

lemma key_agree_map_of:
  assumes "key_agree a b" "map_of a c = Some i" "map_of b c = Some j"
  shows "i = j"
  using assms by (fastforce simp: key_agree_def dest: map_of_SomeD)

lemma dom_map_of_cats: "set cs = fst ` set k \<Longrightarrow> dom (map_of k) = set cs"
  by (simp add: dom_map_of_conv_image_fst)

text \<open>
  C25: join partners that agree on their shared categories join to the same key in either
  order, and the joined key projects back onto each partner's own key: no coordinate is lost
  or invented by a dimensional join.
\<close>

theorem join_partners_recovered:
  assumes "key_sorted a" and "key_sorted b" and "key_agree a b"
    and "set as = fst ` set a" and "set bs = fst ` set b"
  shows "union_keys a b = union_keys b a \<and>
         project (union_keys a b) as = a \<and> project (union_keys a b) bs = b"
  using assms(1,2) keys.join_commute [OF assms(1,2) key_agree_map_of [OF assms(3)]]
    keys.proj_join_left [OF assms(1,2) dom_map_of_cats [OF assms(4)]]
    keys.proj_join_right [OF assms(1,2) dom_map_of_cats [OF assms(5)] key_agree_map_of [OF assms(3)]]
  by simp

theorem join_partners_recovered_witness:
  "union_keys [(1, 10), (3, 30)] [(2, 20), (3, 30)] = union_keys [(2, 20), (3, 30)] [(1, 10), (3, 30)] \<and>
   project (union_keys [(1, 10), (3, 30)] [(2, 20), (3, 30)]) [1, 3] = [(1, 10), (3, 30)] \<and>
   project (union_keys [(1, 10), (3, 30)] [(2, 20), (3, 30)]) [2, 3] = [(2, 20), (3, 30)]"
  by (rule join_partners_recovered) (auto simp: key_agree_def)

text \<open>
  C26: the union of three sorted keys does not depend on the grouping, and projecting a union
  is the union of the projections, so a chain of joins may be planned in any grouping.
\<close>

theorem union_keys_assoc_project:
  assumes "key_sorted a" and "key_sorted b" and "key_sorted c"
  shows "union_keys a (union_keys b c) = union_keys (union_keys a b) c \<and>
         project (union_keys a b) keep = union_keys (project a keep) (project b keep)"
  using assms by (simp add: keys.join_assoc keys.proj_join)

theorem union_keys_assoc_project_witness:
  "union_keys [(1, 10)] (union_keys [(1, 11), (2, 20)] [(3, 30)])
     = union_keys (union_keys [(1, 10)] [(1, 11), (2, 20)]) [(3, 30)] \<and>
   project (union_keys [(1, 10)] [(1, 11), (2, 20)]) [2]
     = union_keys (project [(1, 10)] [2]) (project [(1, 11), (2, 20)] [2])"
  by (rule union_keys_assoc_project) simp_all

end
