(* ===== verification/Radix_Digits.thy ===== *)
theory Radix_Digits
  imports Improv_Prelude
begin

text \<open>
  \<open>crates/verified/src/radix.rs\<close>: base conversion behind \<open>BASE\<close> and the 10-digit two's
  complement of \<open>DEC2BIN\<close>, \<open>BIN2DEC\<close> and their octal and hexadecimal kin. Digit vectors
  (\<open>Vec<u8>\<close>, most significant first) are lists of bytes; an \<open>i64\<close> is the integer it stands
  for, with \<open>wrap64\<close> after each operation. The source's contracts require a radix of 2 to 36
  (of 2, 8 or 16 for the two's complement functions).
\<close>

section \<open>What digits mean\<close>

primrec pw :: "nat \<Rightarrow> nat \<Rightarrow> nat" where
  "pw r 0 = 1"
| "pw r (Suc e) = r * pw r e"

fun digits_value :: "u8 list \<Rightarrow> nat \<Rightarrow> nat" where
  "digits_value ds r =
     (if ds = [] then 0 else digits_value (butlast ds) r * r + unat (last ds))"

declare digits_value.simps [simp del]

definition digits_below :: "u8 list \<Rightarrow> nat \<Rightarrow> bool" where
  "digits_below ds r \<longleftrightarrow> (\<forall>d\<in>set ds. unat d < r)"

definition tc_radix :: "u32 \<Rightarrow> bool" where
  "tc_radix r \<longleftrightarrow> r = 2 \<or> r = 8 \<or> r = 16"

definition decode_spec :: "u8 list \<Rightarrow> nat \<Rightarrow> int option" where
  "decode_spec ds r =
     (if 10 < length ds \<or> \<not> digits_below ds r then None
      else if length ds = 10 \<and> r div 2 \<le> unat (hd ds)
      then Some (int (digits_value ds r) - int (pw r 10))
      else Some (int (digits_value ds r)))"

section \<open>The conversions\<close>

text \<open>
  The loop of \<open>to_digits\<close>: push the remainder at the front, divide, stop at zero. The guard
  stands outside the source's contract (\<open>2 \<le> r\<close>): there the loop divides by zero or by one.
\<close>

function to_digits_loop :: "u64 \<Rightarrow> u64 \<Rightarrow> u8 list \<Rightarrow> u8 list" where
  "to_digits_loop x rr ds =
     (if rr < 2 then ds
      else let d = ucast (x mod rr); x' = x div rr; ds' = d # ds
           in if x' = 0 then ds' else to_digits_loop x' rr ds')"
  by pat_completeness auto
termination
proof (relation "measure (\<lambda>(x, rr, ds). unat x)", simp_all)
  fix x rr :: u64
  assume "\<not> rr < 2" "x div rr \<noteq> 0"
  then have "2 \<le> unat rr" "0 < unat x"
    by (auto simp: word_less_nat_alt unat_gt_0)
  then show "unat (x div rr) < unat x" by (simp add: unat_div)
qed

declare to_digits_loop.simps [simp del]

definition to_digits :: "u64 \<Rightarrow> u32 \<Rightarrow> u8 list" where
  "to_digits u r = to_digits_loop u (ucast r) []"

definition full10 :: "u32 \<Rightarrow> int" where
  "full10 r = (if r = 2 then 1024 else if r = 8 then 0x40000000 else 0x10000000000)"

definition encode :: "int \<Rightarrow> u32 \<Rightarrow> u8 list option" where
  "encode v r =
     (let full = full10 r; half = full div 2
      in if v < wrap64 (- half) \<or> half \<le> v then None
         else let u = (if v < 0 then word_of_int (wrap64 (v + full)) else word_of_int v) :: u64
              in Some (to_digits u r))"

fun decode_loop :: "u8 list \<Rightarrow> u32 \<Rightarrow> int \<Rightarrow> int option" where
  "decode_loop [] r v = Some v"
| "decode_loop (d # ds) r v =
     (if r \<le> ucast d then None
      else decode_loop ds r (wrap64 (wrap64 (v * uint r) + uint d)))"

definition decode :: "u8 list \<Rightarrow> u32 \<Rightarrow> int option" where
  "decode ds r =
     (if 10 < length ds then None
      else case decode_loop ds r 0 of
             None \<Rightarrow> None
           | Some v \<Rightarrow> if length ds = 10 \<and> r div 2 \<le> ucast (hd ds)
                       then Some (wrap64 (v - full10 r)) else Some v)"

definition round_trip :: "int \<Rightarrow> u32 \<Rightarrow> bool" where
  "round_trip v r = (case encode v r of Some ds \<Rightarrow> decode ds r = Some v | None \<Rightarrow> False)"

section \<open>Values of digits\<close>

lemma pw_power: "pw r e = r ^ e"
  by (induction e) simp_all

lemma digits_value_Nil [simp]: "digits_value [] r = 0"
  by (subst digits_value.simps) simp

lemma digits_value_snoc [simp]: "digits_value (ds @ [d]) r = digits_value ds r * r + unat d"
  by (subst digits_value.simps) simp

lemma digits_value_Cons: "digits_value (d # ds) r = unat d * r ^ length ds + digits_value ds r"
proof (induction ds rule: rev_induct)
  case Nil
  then show ?case using digits_value_snoc [of "[]" d r] by simp
next
  case (snoc x ds)
  then show ?case
    using digits_value_snoc [of "d # ds" x r] by (simp add: algebra_simps)
qed

lemma digits_below_simps [simp]:
  "digits_below [] r"
  "digits_below (d # ds) r \<longleftrightarrow> unat d < r \<and> digits_below ds r"
  "digits_below (ds @ es) r \<longleftrightarrow> digits_below ds r \<and> digits_below es r"
  by (auto simp: digits_below_def)

lemma digits_value_bound: "digits_below ds r \<Longrightarrow> digits_value ds r < r ^ length ds"
proof (induction ds)
  case (Cons d ds)
  then have "digits_value (d # ds) r < unat d * r ^ length ds + r ^ length ds"
    by (simp add: digits_value_Cons)
  also have "\<dots> = (unat d + 1) * r ^ length ds" by simp
  also have "\<dots> \<le> r * r ^ length ds" using Cons.prems by (intro mult_right_mono) auto
  finally show ?case by simp
qed simp

text \<open>The leading digit pins the value.\<close>

lemma digits_value_first:
  assumes "digits_below (d # ds) r"
  shows "unat d * r ^ length ds \<le> digits_value (d # ds) r"
    and "digits_value (d # ds) r < (unat d + 1) * r ^ length ds"
  using digits_value_bound [of ds r] assms by (auto simp: digits_value_Cons)

section \<open>The digit loop\<close>

lemma to_digits_loop_inv:
  assumes "2 \<le> rr" "rr \<le> 36" "digits_below ds (unat rr)"
  shows "digits_value (to_digits_loop x rr ds) (unat rr)
           = unat x * unat rr ^ length ds + digits_value ds (unat rr)
         \<and> digits_below (to_digits_loop x rr ds) (unat rr)
         \<and> (\<exists>e es. to_digits_loop x rr ds = e # es \<and> (x = 0 \<or> e \<noteq> 0)
                  \<and> (x = 0 \<longrightarrow> es = ds))"
  using assms
proof (induction x rr ds rule: to_digits_loop.induct)
  case (1 x rr ds)
  let ?R = "unat rr"
  let ?d = "ucast (x mod rr) :: u8"
  have R: "2 \<le> ?R" "?R \<le> 36" using "1.prems" by (simp_all add: word_le_nat_alt)
  have "unat x mod ?R < 256"
    using R by (intro less_trans [OF mod_less_divisor]) auto
  then have d: "unat ?d = unat x mod ?R"
    by (simp add: unsigned_ucast_eq take_bit_eq_mod unat_mod)
  have below: "digits_below (?d # ds) ?R" using d R "1.prems"(3) by simp
  have x: "unat x = unat x div ?R * ?R + unat x mod ?R" by simp
  have nlt: "\<not> rr < 2" using "1.prems"(1) by simp
  show ?case
  proof (cases "x div rr = 0")
    case True
    then have "unat x div ?R = 0" by (metis unat_div unat_0)
    then have "unat x < ?R" using R by (simp add: div_eq_0_iff)
    then have dx: "unat ?d = unat x" using d by simp
    moreover have "?d \<noteq> 0" if "x \<noteq> 0" using dx that by (metis unat_0 unat_eq_zero)
    moreover have "to_digits_loop x rr ds = ?d # ds"
      using True nlt by (subst to_digits_loop.simps) (simp add: Let_def)
    ultimately show ?thesis using below by (auto simp: digits_value_Cons)
  next
    case False
    have ne: "x \<noteq> 0" using False by auto
    have step: "to_digits_loop x rr ds = to_digits_loop (x div rr) rr (?d # ds)"
      using False nlt by (subst to_digits_loop.simps) (simp add: Let_def)
    note IH = "1.IH" [OF nlt refl refl refl False "1.prems"(1,2) below]
    have "unat (x div rr) * ?R ^ length (?d # ds) + digits_value (?d # ds) ?R
        = (unat x div ?R * ?R + unat x mod ?R) * ?R ^ length ds + digits_value ds ?R"
      by (simp only: unat_div d digits_value_Cons length_Cons power_Suc distrib_right
          mult.assoc add.assoc)
    also have "\<dots> = unat x * ?R ^ length ds + digits_value ds ?R" by (simp only: x [symmetric])
    finally have eq: "unat (x div rr) * ?R ^ length (?d # ds) + digits_value (?d # ds) ?R
        = unat x * ?R ^ length ds + digits_value ds ?R" .
    show ?thesis unfolding step using IH [unfolded eq] False ne by blast
  qed
qed

lemma radix_u64:
  assumes "2 \<le> r" "r \<le> (36 :: u32)"
  shows "unat (ucast r :: u64) = unat r" and "(2 :: u64) \<le> ucast r" and "(ucast r :: u64) \<le> 36"
proof -
  have "unat r < 2 ^ 64" using assms(2) by (simp add: word_le_nat_alt)
  then show u: "unat (ucast r :: u64) = unat r"
    by (simp add: unsigned_ucast_eq take_bit_nat_eq_self)
  show "(2 :: u64) \<le> ucast r" "(ucast r :: u64) \<le> 36"
    using assms by (simp_all add: word_le_nat_alt u)
qed

lemma to_digits_props:
  assumes "2 \<le> r" "r \<le> 36"
  obtains e es where "to_digits u r = e # es" and "digits_below (e # es) (unat r)"
    and "digits_value (e # es) (unat r) = unat u" and "u = 0 \<longrightarrow> es = []" and "u \<noteq> 0 \<longrightarrow> e \<noteq> 0"
  using to_digits_loop_inv [of "ucast r" "[]" u] radix_u64 [OF assms]
  by (auto simp: to_digits_def)

text \<open>
  \<open>to_digits\<close> writes \<open>u\<close> in radix 2 to 36: the digits are worth exactly \<open>u\<close>, each is
  below the radix, and there is no leading zero (zero is the one digit \<open>0\<close>).
\<close>

theorem to_digits_correct:
  assumes "2 \<le> r" and "r \<le> 36"
  shows "digits_value (to_digits u r) (unat r) = unat u \<and>
         digits_below (to_digits u r) (unat r) \<and>
         to_digits u r \<noteq> [] \<and> (length (to_digits u r) = 1 \<or> hd (to_digits u r) \<noteq> 0)"
  by (rule to_digits_props [OF assms, of u]) auto

theorem to_digits_correct_witness:
  "digits_value (to_digits 255 16) 16 = 255 \<and> digits_below (to_digits 255 16) 16 \<and> to_digits 255 16 \<noteq> []"
  using to_digits_correct [of 16 255] by simp

section \<open>Two's complement\<close>

lemma tc_radix_cases:
  assumes "tc_radix r"
  obtains "r = 2" "unat r = 2" | "r = 8" "unat r = 8" | "r = 16" "unat r = 16"
  using assms by (auto simp: tc_radix_def)

lemma tc_radix_range: "tc_radix r \<Longrightarrow> 2 \<le> r \<and> r \<le> 36"
  by (auto simp: tc_radix_def)

lemma full10_pw: "tc_radix r \<Longrightarrow> full10 r = int (unat r ^ 10)"
  by (erule tc_radix_cases) (simp_all add: full10_def)

lemma full10_bounds: "tc_radix r \<Longrightarrow> 1024 \<le> full10 r \<and> full10 r \<le> 0x10000000000"
  by (erule tc_radix_cases) (simp_all add: full10_def)

lemma half_radix: "tc_radix r \<Longrightarrow> full10 r div 2 = int (unat r div 2 * unat r ^ 9)"
  by (erule tc_radix_cases) (simp_all add: full10_def)

lemma digits_value_le_full:
  assumes "digits_below ds (unat r)" "length ds \<le> 10" "tc_radix r"
  shows "int (digits_value ds (unat r)) < full10 r"
proof -
  have "digits_value ds (unat r) < unat r ^ length ds" by (rule digits_value_bound [OF assms(1)])
  also have "\<dots> \<le> unat r ^ 10"
    using tc_radix_range [OF assms(3)] assms(2)
    by (intro power_increasing) (auto simp: word_le_nat_alt)
  finally show ?thesis using assms(3) by (simp only: full10_pw of_nat_less_iff)
qed

lemma decode_loop_spec:
  assumes "tc_radix r" "digits_below ps (unat r)" "length ps + length ds \<le> 10"
  shows "decode_loop ds r (int (digits_value ps (unat r)))
       = (if digits_below ds (unat r) then Some (int (digits_value (ps @ ds) (unat r))) else None)"
  using assms(2,3)
proof (induction ds arbitrary: ps)
  case (Cons d ds)
  let ?R = "unat r"
  have "unat d < 2 ^ 32" using unsigned_less [of d, where 'a = nat] by simp
  then have cmp: "r \<le> ucast d \<longleftrightarrow> ?R \<le> unat d"
    by (simp add: word_le_nat_alt unsigned_ucast_eq take_bit_nat_eq_self)
  show ?case
  proof (cases "?R \<le> unat d")
    case True
    then show ?thesis using cmp by simp
  next
    case False
    let ?v = "digits_value ps ?R"
    have below: "digits_below (ps @ [d]) ?R" using Cons.prems(1) False by simp
    have b: "int (digits_value (ps @ [d]) ?R) < full10 r"
      using Cons.prems(2) by (intro digits_value_le_full [OF below _ assms(1)]) simp
    then have b': "int ?v * uint r + uint d < full10 r" by simp
    have nn: "0 \<le> int ?v * uint r" "0 \<le> uint d" by simp_all
    have "i64_range (int ?v * uint r)" "i64_range (int ?v * uint r + uint d)"
      using b' nn full10_bounds [OF assms(1)] by (intro i64_range_small; linarith)+
    then have "wrap64 (wrap64 (int ?v * uint r) + uint d) = int (digits_value (ps @ [d]) ?R)"
      by (simp add: wrap64_id)
    then show ?thesis
      using Cons.IH [OF below] Cons.prems(2) False cmp by simp
  qed
qed simp

lemma decode_refines:
  assumes "tc_radix r"
  shows "decode ds r = decode_spec ds (unat r)"
proof (cases "10 < length ds")
  case True
  then show ?thesis by (simp add: decode_def decode_spec_def)
next
  case False
  let ?R = "unat r"
  have loop: "decode_loop ds r 0
      = (if digits_below ds ?R then Some (int (digits_value ds ?R)) else None)"
    using decode_loop_spec [OF assms, of "[]" ds] False by simp
  have hd8: "r div 2 \<le> ucast (d :: u8) \<longleftrightarrow> ?R div 2 \<le> unat d" for d
  proof -
    have "unat d < 2 ^ 32" using unsigned_less [of d, where 'a = nat] by simp
    then show ?thesis
      by (simp add: word_le_nat_alt unsigned_ucast_eq take_bit_nat_eq_self unat_div)
  qed
  have "i64_range (int (digits_value ds ?R) - full10 r)" if "digits_below ds ?R"
    using digits_value_le_full [OF that _ assms] False full10_bounds [OF assms]
    by (intro i64_range_small) auto
  then show ?thesis
    using False loop hd8 full10_pw [OF assms]
    by (auto simp: decode_def decode_spec_def wrap64_id pw_power)
qed

lemma encode_props:
  assumes "tc_radix r" and "- (full10 r div 2) \<le> v" and "v < full10 r div 2"
  obtains ds where "encode v r = Some ds" and "digits_below ds (unat r)" and "ds \<noteq> []"
    and "int (digits_value ds (unat r)) = (if v < 0 then v + full10 r else v)"
    and "length ds = 1 \<or> hd ds \<noteq> 0"
proof -
  let ?u = "if v < 0 then v + full10 r else v"
  note f = full10_bounds [OF assms(1)]
  have half: "i64_range (- (full10 r div 2))" "i64_range (v + full10 r)"
    using f assms(2,3) by (auto simp: i64_range_def)
  have u: "0 \<le> ?u" "?u < 2 ^ 64" using f assms(2,3) by auto
  then have "int (unat (word_of_int ?u :: u64)) = ?u"
    by (simp add: uint_word_of_int take_bit_int_eq_self del: if_splits)
  moreover have "encode v r = Some (to_digits (word_of_int ?u) r)"
    using half assms(2,3) by (auto simp: encode_def Let_def wrap64_id)
  ultimately show thesis
    using that to_digits_correct [of r "word_of_int ?u"] tc_radix_range [OF assms(1)] by auto
qed

text \<open>Between 1 and 10 digits, and the sign is read off the tenth.\<close>

lemma encode_shape:
  assumes "tc_radix r" and v: "- (full10 r div 2) \<le> v" "v < full10 r div 2"
    and below: "digits_below ds (unat r)" and ne: "ds \<noteq> []"
    and val: "int (digits_value ds (unat r)) = (if v < 0 then v + full10 r else v)"
    and lead: "length ds = 1 \<or> hd ds \<noteq> 0"
  shows "length ds \<le> 10" and "v < 0 \<longleftrightarrow> length ds = 10 \<and> unat r div 2 \<le> unat (hd ds)"
proof -
  let ?R = "unat r"
  obtain e es where ds: "ds = e # es" using ne by (cases ds) auto
  note f = full10_bounds [OF assms(1)] and h = half_radix [OF assms(1)] and p = full10_pw [OF assms(1)]
  have R: "2 \<le> ?R" using tc_radix_range [OF assms(1)] by (simp add: word_le_nat_alt)
  have R2: "?R = 2 * (?R div 2)" using assms(1) by (auto elim: tc_radix_cases)
  have lt: "int (digits_value ds ?R) < int (?R ^ 10)" using val v p f by auto
  have lo: "unat e * ?R ^ length es \<le> digits_value ds ?R"
    and hi: "digits_value ds ?R < (unat e + 1) * ?R ^ length es"
    using digits_value_first [of e es ?R] below by (simp_all add: ds)
  show len: "length ds \<le> 10"
  proof (cases "length ds = 1")
    case False
    then have "0 < unat e" using lead by (simp add: ds unat_gt_0)
    then have "?R ^ length es \<le> unat e * ?R ^ length es" by simp
    also have "\<dots> < ?R ^ 10" using lo lt by linarith
    finally have "length es < 10" using R by (simp add: power_less_imp_less_exp)
    then show ?thesis by (simp add: ds)
  qed simp
  show "v < 0 \<longleftrightarrow> length ds = 10 \<and> ?R div 2 \<le> unat (hd ds)"
  proof
    assume neg: "v < 0"
    then have "full10 r div 2 \<le> int (digits_value ds ?R)" using val v by auto
    then have ge: "?R div 2 * ?R ^ 9 \<le> digits_value ds ?R"
      unfolding h by (simp only: of_nat_le_iff)
    have "?R ^ 9 \<le> ?R div 2 * ?R ^ 9" using R by (simp add: div_greater_zero_iff)
    with ge have "?R ^ 9 \<le> digits_value ds ?R" by linarith
    also have "\<dots> < ?R ^ length ds" by (rule digits_value_bound [OF below])
    finally have "9 < length ds" using R by (simp add: power_less_imp_less_exp)
    with len have l: "length ds = 10" by simp
    then have "?R div 2 * ?R ^ 9 < (unat e + 1) * ?R ^ 9" using ge hi by (simp add: ds)
    then have "?R div 2 < unat e + 1" by (simp only: mult_less_cancel2)
    with l show "length ds = 10 \<and> ?R div 2 \<le> unat (hd ds)" by (simp add: ds)
  next
    assume a: "length ds = 10 \<and> ?R div 2 \<le> unat (hd ds)"
    then have "?R div 2 * ?R ^ 9 \<le> unat e * ?R ^ length es" by (simp add: ds)
    then have "?R div 2 * ?R ^ 9 \<le> digits_value ds ?R" using lo by linarith
    then have "full10 r div 2 \<le> int (digits_value ds ?R)"
      unfolding h by (simp only: of_nat_le_iff)
    then show "v < 0" using val v by (auto split: if_splits)
  qed
qed

text \<open>
  C27: two's complement round trip. For radix 2, 8 or 16 \<open>encode\<close> returns \<open>None\<close> exactly when
  \<open>v\<close> is outside the ten-digit range; inside it the digits are in range, at most ten, exactly
  ten for a negative \<open>v\<close>, and \<open>decode\<close> gives \<open>v\<close> back (so the source's \<open>round_trip\<close> holds).
\<close>

theorem encode_decode_roundtrip:
  assumes "tc_radix r"
  shows "(encode v r = None \<longleftrightarrow>
            \<not> (- (int (pw (unat r) 10) div 2) \<le> v \<and> v < int (pw (unat r) 10) div 2)) \<and>
         (encode v r = None \<or>
          (\<exists>ds. encode v r = Some ds \<and> digits_below ds (unat r) \<and> 1 \<le> length ds \<and> length ds \<le> 10 \<and>
                (0 \<le> v \<or> length ds = 10) \<and> decode ds r = Some v \<and> round_trip v r))"
proof (cases "- (full10 r div 2) \<le> v \<and> v < full10 r div 2")
  case True
  then obtain ds where e: "encode v r = Some ds" and d: "digits_below ds (unat r)" "ds \<noteq> []"
      "int (digits_value ds (unat r)) = (if v < 0 then v + full10 r else v)"
      "length ds = 1 \<or> hd ds \<noteq> 0"
    using encode_props [OF assms] by blast
  note shape = encode_shape [OF assms _ _ d] 
  have "decode ds r = Some v"
    using True d shape full10_pw [OF assms]
    by (auto simp: decode_refines [OF assms] decode_spec_def pw_power)
  with e d True shape show ?thesis
    using full10_pw [OF assms] by (auto simp: round_trip_def pw_power Suc_le_eq)
next
  case False
  have "i64_range (- (full10 r div 2))"
    using full10_bounds [OF assms] by (auto simp: i64_range_def)
  with False have "encode v r = None" by (auto simp: encode_def Let_def wrap64_id)
  with False show ?thesis using full10_pw [OF assms] by (auto simp: pw_power)
qed

theorem encode_decode_roundtrip_witness:
  "\<exists>ds. encode (- 1) 16 = Some ds \<and> digits_below ds 16 \<and> length ds = 10 \<and> decode ds 16 = Some (- 1)"
proof -
  have tc: "tc_radix 16" by (simp add: tc_radix_def)
  have "pw 16 10 = 1099511627776" by (simp add: pw_power)
  then show ?thesis using encode_decode_roundtrip [OF tc, of "- 1"] by auto
qed

text \<open>
  C28: \<open>decode\<close> computes its specification on every digit list: nothing for more than ten
  digits or a digit not below the radix, the value less \<open>r ^ 10\<close> for ten digits led by one of
  at least \<open>r / 2\<close>, the plain value otherwise; no step of its \<open>i64\<close> arithmetic wraps.
\<close>

theorem decode_correct:
  assumes "tc_radix r"
  shows "decode ds r = decode_spec ds (unat r)"
  by (rule decode_refines [OF assms])

theorem decode_correct_witness: "decode [15, 15] 16 = decode_spec [15, 15] (unat (16 :: u32))"
  by (rule decode_correct) (simp add: tc_radix_def)

end
