(* ===== verification/Build_Order.thy ===== *)
theory Build_Order
  imports Improv_Prelude
begin

text \<open>
  \<open>crates/verified/src/graph.rs\<close>: the depth-first dependency order of the derived measures,
  which rejects cycles. Nodes are indices, \<open>g ! u\<close> lists the dependencies of \<open>u\<close>. Indexing
  out of range, a panic in the code, is the error \<open>OutOfBounds\<close> of the model; the theorems
  show that it does not occur on well-formed graphs.
\<close>

section \<open>Specifications\<close>

type_synonym graph = "nat list list"

definition edge :: "graph \<Rightarrow> nat \<Rightarrow> nat \<Rightarrow> bool" where
  "edge g u w \<longleftrightarrow> u < length g \<and> w \<in> set (g ! u)"

definition graph_wf :: "graph \<Rightarrow> bool" where
  "graph_wf g \<longleftrightarrow> (\<forall>deps\<in>set g. \<forall>w\<in>set deps. w < length g)"

definition is_path :: "graph \<Rightarrow> nat list \<Rightarrow> bool" where
  "is_path g p \<longleftrightarrow> 1 \<le> length p \<and> (\<forall>i < length p - 1. edge g (p ! i) (p ! (i + 1)))"

definition reachable :: "graph \<Rightarrow> nat list \<Rightarrow> nat \<Rightarrow> bool" where
  "reachable g roots v \<longleftrightarrow> (\<exists>p. is_path g p \<and> p ! 0 \<in> set roots \<and> last p = v)"

definition is_cycle :: "graph \<Rightarrow> nat list \<Rightarrow> bool" where
  "is_cycle g c \<longleftrightarrow> is_path g c \<and> edge g (last c) (c ! 0)"

definition has_reachable_cycle :: "graph \<Rightarrow> nat list \<Rightarrow> bool" where
  "has_reachable_cycle g roots \<longleftrightarrow> (\<exists>c. is_cycle g c \<and> reachable g roots (c ! 0))"

definition topological :: "graph \<Rightarrow> nat list \<Rightarrow> bool" where
  "topological g order \<longleftrightarrow>
     distinct order \<and>
     (\<forall>i < length order. \<forall>w. edge g (order ! i) w \<longrightarrow> w \<in> set (take i order))"

fun unseen :: "u8 list \<Rightarrow> nat" where
  "unseen [] = 0"
| "unseen (s # st) = unseen st + (if s = 0 then 1 else 0)"

section \<open>The depth-first search\<close>

text \<open>
  The outcome of the search: a dependency cycle found at a node (\<open>Err(w)\<close>), or an index out
  of range (a panic). The state \<open>st\<close> marks a node 0 unvisited, 1 on the stack, 2 done.
\<close>

datatype visit_error = Cycle nat | OutOfBounds

text \<open>\<open>visit_deps\<close> is the \<open>while i < n\<close> loop of \<open>visit\<close> over the dependencies not yet walked.\<close>

function visit :: "graph \<Rightarrow> nat \<Rightarrow> u8 list \<Rightarrow> nat list \<Rightarrow> visit_error + u8 list \<times> nat list"
  and visit_deps ::
    "graph \<Rightarrow> nat list \<Rightarrow> u8 list \<Rightarrow> nat list \<Rightarrow> visit_error + u8 list \<times> nat list"
where
  "visit g v st order =
     (if length st \<le> v \<or> length g \<le> v then Inl OutOfBounds
      else rbind (visit_deps g (g ! v) (st[v := 1]) order)
             (\<lambda>(st', order'). Inr (st'[v := 2], order' @ [v])))"
| "visit_deps g [] st order = Inr (st, order)"
| "visit_deps g (w # ws) st order =
     (if length st \<le> w then Inl OutOfBounds
      else if st ! w = 1 then Inl (Cycle w)
      else if st ! w = 0 then
        rbind (visit g w st order) (\<lambda>(st', order'). visit_deps g ws st' order')
      else visit_deps g ws st order)"
  by pat_completeness auto

text \<open>Visiting never makes a node unvisited again, so \<open>unseen\<close> cannot grow.\<close>

definition seen_grows :: "u8 list \<Rightarrow> u8 list \<Rightarrow> bool" where
  "seen_grows st st' \<longleftrightarrow>
     length st' = length st \<and> (\<forall>u < length st. st' ! u = 0 \<longrightarrow> st ! u = 0)"

lemma seen_grows_refl [simp]: "seen_grows st st"
  by (simp add: seen_grows_def)

lemma seen_grows_trans: "seen_grows a b \<Longrightarrow> seen_grows b c \<Longrightarrow> seen_grows a c"
  by (simp add: seen_grows_def)

lemma seen_grows_update: "s \<noteq> 0 \<Longrightarrow> seen_grows st (st[v := s])"
  unfolding seen_grows_def by (metis length_list_update nth_list_update_eq nth_list_update_neq)

lemma unseen_mono: "seen_grows a b \<Longrightarrow> unseen b \<le> unseen a"
proof (induction a arbitrary: b)
  case (Cons x a)
  then obtain y b' where b: "b = y # b'" by (cases b) (auto simp: seen_grows_def)
  have "seen_grows a b'" and "y = 0 \<longrightarrow> x = 0"
    using Cons.prems by (auto simp: seen_grows_def b)
  with Cons.IH [of b'] show ?case by (auto simp: b)
qed (simp add: seen_grows_def)

lemma unseen_mark: "v < length st \<Longrightarrow> st ! v = 0 \<Longrightarrow> s \<noteq> 0 \<Longrightarrow> unseen (st[v := s]) < unseen st"
  by (induction st arbitrary: v) (auto split: nat.splits simp: nth_Cons')

lemma visit_seen_grows:
  "visit_visit_deps_dom (Inl (g, v, st, order)) \<Longrightarrow> visit g v st order = Inr (st', order')
     \<Longrightarrow> seen_grows st st'"
  "visit_visit_deps_dom (Inr (g, ws, st, order)) \<Longrightarrow> visit_deps g ws st order = Inr (st', order')
     \<Longrightarrow> seen_grows st st'"
proof (induction arbitrary: st' order' and st' order' rule: visit_visit_deps.pinduct)
  case (1 g v st order)
  from "1.prems" "1.hyps" obtain st1 o1 where
    v: "\<not> (length st \<le> v \<or> length g \<le> v)"
    and deps: "visit_deps g (g ! v) (st[v := 1]) order = Inr (st1, o1)" and st': "st' = st1[v := 2]"
    by (auto simp: visit.psimps rbind_Inr_iff split: if_splits)
  have "seen_grows st (st[v := 1])" "seen_grows st1 st'"
    unfolding st' by (simp_all add: seen_grows_update)
  with "1.IH" [OF v deps] show ?case by (meson seen_grows_trans)
next
  case (2 g st order)
  then show ?case by (simp add: visit_deps.psimps)
next
  case (3 g w ws st order)
  from "3.prems" "3.hyps" have w: "\<not> length st \<le> w" "st ! w \<noteq> 1"
    by (auto simp: visit_deps.psimps split: if_splits)
  show ?case
  proof (cases "st ! w = 0")
    case True
    with "3.prems" "3.hyps" w obtain st1 o1 where
      one: "visit g w st order = Inr (st1, o1)" and rest: "visit_deps g ws st1 o1 = Inr (st', order')"
      by (auto simp: visit_deps.psimps rbind_Inr_iff)
    from "3.IH"(1) [OF w True one] "3.IH"(2) [OF w True _ refl rest] one show ?thesis
      by (meson seen_grows_trans)
  next
    case False
    with "3.prems" "3.hyps" w have "visit_deps g ws st order = Inr (st', order')"
      by (simp add: visit_deps.psimps)
    then show ?thesis using "3.IH"(3) [OF w False] by simp
  qed
qed

termination visit
proof (relation "inv_image (less_than <*lex*> less_than)
    (\<lambda>x. case x of
       Inl (g, v, st, order) \<Rightarrow> (unseen (st[v := 1]), Suc (length (g ! v)))
     | Inr (g, ws, st, order) \<Rightarrow> (unseen st, length ws))", goal_cases)
  case (4 g w ws st order x st' order')
  then have "seen_grows st st'" using visit_seen_grows(1) by metis
  then show ?case using unseen_mono by (auto simp: le_less)
qed (auto simp: unseen_mark)

declare visit.simps [simp del] visit_deps.simps [simp del]

text \<open>\<open>build_loop\<close> is the loop of \<open>build_order\<close> over the roots.\<close>

fun build_loop :: "graph \<Rightarrow> nat list \<Rightarrow> u8 list \<Rightarrow> nat list \<Rightarrow> visit_error + nat list" where
  "build_loop g [] st order = Inr order"
| "build_loop g (v # roots) st order =
     (if length st \<le> v then Inl OutOfBounds
      else if st ! v = 0 then
        rbind (visit g v st order) (\<lambda>(st', order'). build_loop g roots st' order')
      else build_loop g roots st order)"

definition build_order :: "graph \<Rightarrow> nat list \<Rightarrow> visit_error + nat list" where
  "build_order g roots = build_loop g roots (replicate (length g) 0) []"

section \<open>Paths and reachability\<close>

definition edges :: "graph \<Rightarrow> (nat \<times> nat) set" where
  "edges g = {(u, w). edge g u w}"

lemma edges_iff [simp]: "(u, w) \<in> edges g \<longleftrightarrow> edge g u w"
  by (simp add: edges_def)

lemma path_rtrancl: "is_path g p \<Longrightarrow> i \<le> j \<Longrightarrow> j < length p \<Longrightarrow> (p ! i, p ! j) \<in> (edges g)\<^sup>*"
proof (induction j)
  case (Suc j)
  then have e: "edge g (p ! j) (p ! Suc j)" by (auto simp: is_path_def)
  show ?case
  proof (cases "i = Suc j")
    case False
    with Suc have "(p ! i, p ! j) \<in> (edges g)\<^sup>*" by simp
    with e show ?thesis by (meson edges_iff rtrancl.rtrancl_into_rtrancl)
  qed simp
qed simp

lemma is_path_nonempty: "is_path g p \<Longrightarrow> p \<noteq> []"
  by (auto simp: is_path_def)

lemma is_path_snoc:
  assumes "is_path g p" "edge g (last p) w"
  shows "is_path g (p @ [w])"
proof -
  have "edge g ((p @ [w]) ! i) ((p @ [w]) ! (i + 1))" if i: "i < length p" for i
  proof (cases "i + 1 < length p")
    case True
    then show ?thesis using assms(1) i by (simp add: is_path_def nth_append)
  next
    case False
    then have "i = length p - 1" using i by simp
    then have "p ! i = last p" "(p @ [w]) ! (i + 1) = w"
      using is_path_nonempty [OF assms(1)] by (simp_all add: last_conv_nth)
    with assms(2) i show ?thesis by (simp add: nth_append)
  qed
  then show ?thesis by (simp add: is_path_def)
qed

lemma rtrancl_path: "(u, v) \<in> (edges g)\<^sup>* \<Longrightarrow> \<exists>p. is_path g p \<and> p ! 0 = u \<and> last p = v"
proof (induction rule: rtrancl_induct)
  case base
  show ?case by (rule exI [of _ "[u]"]) (simp add: is_path_def)
next
  case (step v w)
  then obtain p where "is_path g p" "p ! 0 = u" "last p = v" by blast
  with step.hyps show ?case
    by (intro exI [of _ "p @ [w]"]) (simp add: is_path_snoc nth_append is_path_nonempty)
qed

lemma path_last: "is_path g p \<Longrightarrow> (p ! 0, last p) \<in> (edges g)\<^sup>*"
  using path_rtrancl [of g p 0 "length p - 1"] is_path_nonempty [of g p]
  by (simp add: last_conv_nth)

lemma reachable_iff: "reachable g roots v \<longleftrightarrow> (\<exists>r\<in>set roots. (r, v) \<in> (edges g)\<^sup>*)"
  unfolding reachable_def by (metis path_last rtrancl_path)

lemma reachable_root: "v \<in> set roots \<Longrightarrow> reachable g roots v"
  by (auto simp: reachable_iff)

lemma reachable_edge: "reachable g roots u \<Longrightarrow> edge g u w \<Longrightarrow> reachable g roots w"
  unfolding reachable_iff by (meson edges_iff rtrancl.rtrancl_into_rtrancl)

lemma has_reachable_cycle_iff:
  "has_reachable_cycle g roots \<longleftrightarrow> (\<exists>c. reachable g roots c \<and> (c, c) \<in> (edges g)\<^sup>+)"
proof
  assume "has_reachable_cycle g roots"
  then obtain c where "is_path g c" "edge g (last c) (c ! 0)" "reachable g roots (c ! 0)"
    by (auto simp: has_reachable_cycle_def is_cycle_def)
  then show "\<exists>c. reachable g roots c \<and> (c, c) \<in> (edges g)\<^sup>+"
    by (metis edges_iff path_last rtrancl_into_trancl1)
next
  assume "\<exists>c. reachable g roots c \<and> (c, c) \<in> (edges g)\<^sup>+"
  then obtain c where c: "reachable g roots c" "(c, c) \<in> (edges g)\<^sup>+" by blast
  then obtain d where "(c, d) \<in> (edges g)\<^sup>*" "edge g d c" by (auto dest: tranclD2)
  then show "has_reachable_cycle g roots"
    using c(1) unfolding has_reachable_cycle_def is_cycle_def by (metis rtrancl_path)
qed

lemma topological_snoc:
  assumes "topological g order" "v \<notin> set order" "\<forall>w. edge g v w \<longrightarrow> w \<in> set order"
  shows "topological g (order @ [v])"
  using assms by (auto simp: topological_def nth_append less_Suc_eq)

lemma topological_closed:
  assumes "topological g order" "u \<in> set order" "edge g u w"
  shows "w \<in> set order"
proof -
  obtain i where "i < length order" "order ! i = u" using assms(2) by (auto simp: in_set_conv_nth)
  then have "w \<in> set (take i order)" using assms(1,3) by (auto simp: topological_def)
  then show ?thesis by (rule in_set_takeD)
qed

lemma topological_closed_rtrancl:
  assumes "topological g order" "u \<in> set order"
  shows "(u, w) \<in> (edges g)\<^sup>* \<Longrightarrow> w \<in> set order"
  by (induction rule: rtrancl_induct) (use assms topological_closed in auto)

text \<open>In a topological order an edge leads strictly backwards, so no listed node is on a cycle.\<close>

lemma topological_index:
  assumes "topological g order" "i < length order" "edge g (order ! i) w"
  shows "\<exists>j < i. order ! j = w"
proof -
  have "w \<in> set (take i order)" using assms by (auto simp: topological_def)
  then show ?thesis using assms(2) by (auto simp: in_set_conv_nth)
qed

lemma topological_trancl_index:
  assumes "topological g order" "i < length order" "(order ! i, w) \<in> (edges g)\<^sup>+"
  shows "\<exists>j < i. order ! j = w"
  using assms(3)
proof (induction rule: trancl_induct)
  case (base w)
  then show ?case using topological_index [OF assms(1,2)] by simp
next
  case (step w x)
  then obtain j where "j < i" "order ! j = w" by blast
  then show ?case
    using topological_index [OF assms(1), of j x] step.hyps assms(2) by (auto intro: less_trans)
qed

lemma topological_acyclic:
  assumes "topological g order" "v \<in> set order"
  shows "(v, v) \<notin> (edges g)\<^sup>+"
proof
  assume c: "(v, v) \<in> (edges g)\<^sup>+"
  obtain i where i: "i < length order" "order ! i = v" using assms(2) by (auto simp: in_set_conv_nth)
  with topological_trancl_index [OF assms(1) i(1)] c obtain j where "j < i" "order ! j = v" by auto
  with i assms(1) show False by (auto simp: topological_def nth_eq_iff_index_eq)
qed

section \<open>The search invariant\<close>

text \<open>
  Done nodes are exactly the order, which is topological and reachable. The nodes on the
  stack are not named by the functions; \<open>on_path\<close> says that each of them leads to the node
  being visited.
\<close>

definition dfs_inv :: "graph \<Rightarrow> nat list \<Rightarrow> u8 list \<Rightarrow> nat list \<Rightarrow> bool" where
  "dfs_inv g roots st order \<longleftrightarrow>
     length st = length g \<and> (\<forall>u < length g. st ! u = 0 \<or> st ! u = 1 \<or> st ! u = 2) \<and>
     (\<forall>u < length g. st ! u = 2 \<longleftrightarrow> u \<in> set order) \<and>
     (\<forall>u\<in>set order. u < length g \<and> reachable g roots u) \<and> topological g order"

definition on_path :: "graph \<Rightarrow> nat list \<Rightarrow> u8 list \<Rightarrow> nat \<Rightarrow> bool" where
  "on_path g roots st v \<longleftrightarrow>
     reachable g roots v \<and> (\<forall>u < length st. st ! u = 1 \<longrightarrow> (u, v) \<in> (edges g)\<^sup>*)"

text \<open>What a visit may change: unvisited nodes may become done, nothing else changes.\<close>

definition dfs_step :: "u8 list \<Rightarrow> u8 list \<Rightarrow> bool" where
  "dfs_step st st' \<longleftrightarrow>
     length st' = length st \<and>
     (\<forall>u < length st. st' ! u = st ! u \<or> st ! u = 0 \<and> st' ! u = 2)"

lemma dfs_step_refl [simp]: "dfs_step st st"
  by (simp add: dfs_step_def)

lemma dfs_step_trans: "dfs_step a b \<Longrightarrow> dfs_step b c \<Longrightarrow> dfs_step a c"
  unfolding dfs_step_def by force

lemma dfs_step_done: "dfs_step a b \<Longrightarrow> u < length a \<Longrightarrow> a ! u = 2 \<Longrightarrow> b ! u = 2"
  unfolding dfs_step_def by force

lemma on_path_step: "on_path g roots st v \<Longrightarrow> dfs_step st st' \<Longrightarrow> on_path g roots st' v"
  unfolding on_path_def dfs_step_def by force

definition cycle_at :: "graph \<Rightarrow> nat list \<Rightarrow> visit_error \<Rightarrow> bool" where
  "cycle_at g roots e \<longleftrightarrow> (\<exists>w. e = Cycle w \<and> reachable g roots w \<and> (w, w) \<in> (edges g)\<^sup>+)"

definition dfs_result ::
  "graph \<Rightarrow> nat list \<Rightarrow> u8 list \<Rightarrow> nat list \<Rightarrow> visit_error + u8 list \<times> nat list \<Rightarrow> bool" where
  "dfs_result g roots st ws r \<longleftrightarrow>
     (case r of Inl e \<Rightarrow> cycle_at g roots e
      | Inr (st', order') \<Rightarrow>
          dfs_inv g roots st' order' \<and> dfs_step st st' \<and> (\<forall>w\<in>set ws. st' ! w = 2))"

lemma dfs_result_simps [simp]:
  "dfs_result g roots st ws (Inl e) \<longleftrightarrow> cycle_at g roots e"
  "dfs_result g roots st ws (Inr (st', order')) \<longleftrightarrow>
     dfs_inv g roots st' order' \<and> dfs_step st st' \<and> (\<forall>w\<in>set ws. st' ! w = 2)"
  by (simp_all add: dfs_result_def)

lemma graph_wf_edge: "graph_wf g \<Longrightarrow> edge g u w \<Longrightarrow> w < length g"
  by (auto simp: graph_wf_def edge_def)

lemma dfs_inv_states:
  "dfs_inv g roots st order \<Longrightarrow> u < length g \<Longrightarrow> st ! u = 0 \<or> st ! u = 1 \<or> st ! u = 2"
  unfolding dfs_inv_def by blast

lemma dfs_inv_mark:
  assumes inv: "dfs_inv g roots st order" and v: "v < length g" "st ! v = 0"
  shows "dfs_inv g roots (st[v := 1]) order"
proof -
  have "st[v := 1] ! u = (if u = v then 1 else st ! u)" for u
    using inv v by (simp add: dfs_inv_def nth_list_update)
  moreover have "v \<notin> set order" using inv v by (force simp: dfs_inv_def)
  ultimately show ?thesis using inv by (auto simp: dfs_inv_def)
qed

lemma dfs_inv_finish:
  assumes inv: "dfs_inv g roots st order" and v: "v < length g" "st ! v = 1"
    and deps: "\<forall>w. edge g v w \<longrightarrow> st ! w = 2" and wf: "graph_wf g" and r: "reachable g roots v"
  shows "dfs_inv g roots (st[v := 2]) (order @ [v])"
proof -
  have len: "length st = length g" using inv by (simp add: dfs_inv_def)
  have new: "v \<notin> set order" using inv v by (force simp: dfs_inv_def)
  have "w \<in> set order" if "edge g v w" for w
    using inv deps graph_wf_edge [OF wf that] that by (auto simp: dfs_inv_def)
  then have "topological g (order @ [v])"
    using inv new by (intro topological_snoc) (auto simp: dfs_inv_def)
  moreover have "st[v := 2] ! u = (if u = v then 2 else st ! u)" if "u < length g" for u
    using that len by (simp add: nth_list_update)
  ultimately show ?thesis
    using inv v r len by (auto simp: dfs_inv_def)
qed

lemma visit_correct:
  "graph_wf g \<Longrightarrow> dfs_inv g roots st order \<Longrightarrow> v < length g \<Longrightarrow> st ! v = 0 \<Longrightarrow>
     on_path g roots st v \<Longrightarrow> dfs_result g roots st [v] (visit g v st order)"
  "graph_wf g \<Longrightarrow> dfs_inv g roots st order \<Longrightarrow> u < length g \<Longrightarrow> st ! u = 1 \<Longrightarrow>
     on_path g roots st u \<Longrightarrow> set ws \<subseteq> set (g ! u) \<Longrightarrow>
     dfs_result g roots st ws (visit_deps g ws st order)"
proof (induction g v st order and g ws st order arbitrary: u and u rule: visit_visit_deps.induct)
  case (1 g v st order)
  let ?st = "st[v := 1]"
  have len: "length st = length g" using "1.prems"(2) by (simp add: dfs_inv_def)
  have ok: "\<not> (length st \<le> v \<or> length g \<le> v)" using "1.prems"(3) len by simp
  have inv1: "dfs_inv g roots ?st order" using "1.prems"(2-4) by (rule dfs_inv_mark)
  have "on_path g roots ?st v"
    using "1.prems"(5) ok by (auto simp: on_path_def nth_list_update split: if_splits)
  then have res: "dfs_result g roots ?st (g ! v) (visit_deps g (g ! v) ?st order)"
    using "1.IH" [OF ok "1.prems"(1) inv1 "1.prems"(3)] ok by simp
  show ?case
  proof (cases "visit_deps g (g ! v) ?st order")
    case (Inl e)
    then show ?thesis using res ok by (simp add: visit.simps)
  next
    case (Inr p)
    obtain st' o' where p: "p = (st', o')" by (cases p)
    from res Inr p have inv': "dfs_inv g roots st' o'" and step: "dfs_step ?st st'"
      and fin: "\<forall>w\<in>set (g ! v). st' ! w = 2" by simp_all
    have "?st ! v = 1" "v < length ?st" using ok by simp_all
    then have v1: "st' ! v = 1" using step unfolding dfs_step_def by (metis one_neq_zero)
    have "dfs_inv g roots (st'[v := 2]) (o' @ [v])"
      using inv' "1.prems"(3) v1 fin "1.prems"(1,5)
      by (intro dfs_inv_finish) (auto simp: edge_def on_path_def)
    moreover have "dfs_step st (st'[v := 2])"
      using step "1.prems"(4) ok by (auto simp: dfs_step_def nth_list_update)
    moreover have "st'[v := 2] ! v = 2" using step ok by (simp add: dfs_step_def)
    ultimately show ?thesis using ok Inr p by (simp add: visit.simps)
  qed
next
  case (2 g st order)
  then show ?case by (simp add: visit_deps.simps)
next
  case (3 g w ws st order)
  have len: "length st = length g" using "3.prems"(2) by (simp add: dfs_inv_def)
  have e: "edge g u w" using "3.prems"(3,6) by (simp add: edge_def)
  then have w: "w < length g" using "3.prems"(1) graph_wf_edge by blast
  then have ok: "\<not> length st \<le> w" using len by simp
  have rw: "reachable g roots w" using "3.prems"(5) e by (auto simp: on_path_def reachable_edge)
  have gray: "(x, w) \<in> (edges g)\<^sup>+" if "x < length st" "st ! x = 1" for x
    using that "3.prems"(5) e by (auto simp: on_path_def intro: rtrancl_into_trancl1)
  show ?case
  proof (cases "st ! w = 1")
    case True
    then show ?thesis using ok rw gray by (simp add: visit_deps.simps cycle_at_def)
  next
    case n1: False
    show ?thesis
    proof (cases "st ! w = 0")
      case True
      have "on_path g roots st w" using rw gray by (auto simp: on_path_def trancl_into_rtrancl)
      then have res: "dfs_result g roots st [w] (visit g w st order)"
        using "3.IH"(1) [OF ok n1 True "3.prems"(1,2) w True] by simp
      show ?thesis
      proof (cases "visit g w st order")
        case (Inl err)
        then show ?thesis using res ok n1 True by (simp add: visit_deps.simps)
      next
        case (Inr p)
        obtain st1 o1 where p: "p = (st1, o1)" by (cases p)
        from res Inr p have inv1: "dfs_inv g roots st1 o1" and step: "dfs_step st st1"
          and wd: "st1 ! w = 2" by simp_all
        have u1: "st1 ! u = 1" using step "3.prems"(3,4) len by (force simp: dfs_step_def)
        have "dfs_result g roots st1 ws (visit_deps g ws st1 o1)"
          using "3.IH"(2) [OF ok n1 True Inr p [symmetric] "3.prems"(1) inv1 "3.prems"(3) u1]
            on_path_step [OF "3.prems"(5) step] "3.prems"(6) by simp
        moreover have "w < length st1" using step ok by (simp add: dfs_step_def)
        ultimately show ?thesis
          using ok n1 True Inr p step wd
          by (auto simp: visit_deps.simps dfs_result_def split: sum.splits
              intro: dfs_step_trans dfs_step_done)
      qed
    next
      case False
      have "st ! w = 2" using dfs_inv_states [OF "3.prems"(2) w] False n1 by blast
      moreover have "dfs_result g roots st ws (visit_deps g ws st order)"
        using "3.IH"(3) [OF ok n1 False "3.prems"(1-5)] "3.prems"(6) by simp
      ultimately show ?thesis
        using ok n1 False
        by (auto simp: visit_deps.simps dfs_result_def split: sum.splits intro: dfs_step_done)
    qed
  qed
qed

lemma build_loop_correct:
  assumes "graph_wf g"
  shows "dfs_inv g all st order \<Longrightarrow> \<forall>u < length g. st ! u \<noteq> 1 \<Longrightarrow> set roots \<subseteq> set all \<Longrightarrow>
    \<forall>r\<in>set roots. r < length g \<Longrightarrow>
    (case build_loop g roots st order of
       Inl e \<Rightarrow> cycle_at g all e
     | Inr order' \<Rightarrow> \<exists>st'. dfs_inv g all st' order' \<and> dfs_step st st' \<and> (\<forall>r\<in>set roots. st' ! r = 2))"
proof (induction roots arbitrary: st order)
  case Nil
  then show ?case by auto
next
  case (Cons v roots)
  have len: "length st = length g" using Cons.prems(1) by (simp add: dfs_inv_def)
  have v: "v < length g" "\<not> length st \<le> v" using Cons.prems(4) len by auto
  show ?case
  proof (cases "st ! v = 0")
    case True
    have "on_path g all st v"
      using Cons.prems(2,3) len by (auto simp: on_path_def reachable_root)
    then have res: "dfs_result g all st [v] (visit g v st order)"
      by (intro visit_correct(1) assms Cons.prems(1) v True)
    show ?thesis
    proof (cases "visit g v st order")
      case (Inl e)
      then show ?thesis using res v True by simp
    next
      case (Inr p)
      obtain st1 o1 where p: "p = (st1, o1)" by (cases p)
      from res Inr p have inv1: "dfs_inv g all st1 o1" and step: "dfs_step st st1"
        and vd: "st1 ! v = 2" by simp_all
      have n1: "\<forall>u < length g. st1 ! u \<noteq> 1"
        using step Cons.prems(2) len by (force simp: dfs_step_def)
      have v1: "v < length st1" using step v by (simp add: dfs_step_def)
      from Cons.IH [OF inv1 n1] Cons.prems(3,4) show ?thesis
        using v True Inr p step vd v1
        by (auto split: sum.splits intro: dfs_step_trans dfs_step_done)
    qed
  next
    case False
    have vd: "st ! v = 2" using dfs_inv_states [OF Cons.prems(1) v(1)] False Cons.prems(2) v(1) by blast
    have step: "build_loop g (v # roots) st order = build_loop g roots st order"
      using v False by simp
    note IH = Cons.IH [OF Cons.prems(1,2)]
    show ?thesis
    proof (cases "build_loop g roots st order")
      case (Inl e)
      with IH Cons.prems(3,4) show ?thesis unfolding step by simp
    next
      case (Inr order')
      with IH Cons.prems(3,4) obtain st' where
        "dfs_inv g all st' order'" "dfs_step st st'" "\<forall>r\<in>set roots. st' ! r = 2" by auto
      moreover from this have "st' ! v = 2" using v vd by (auto intro: dfs_step_done)
      ultimately show ?thesis unfolding step using Inr by auto
    qed
  qed
qed

lemma build_order_cases:
  assumes "graph_wf g" and "\<forall>r\<in>set roots. r < length g"
  obtains w where "build_order g roots = Inl (Cycle w)"
      and "reachable g roots w" and "(w, w) \<in> (edges g)\<^sup>+"
  | order st where "build_order g roots = Inr order" and "dfs_inv g roots st order"
      and "\<forall>r\<in>set roots. r \<in> set order"
proof -
  have "dfs_inv g roots (replicate (length g) 0) []"
    by (simp add: dfs_inv_def topological_def)
  note res = build_loop_correct [OF assms(1) this _ order.refl assms(2)]
  show thesis
  proof (cases "build_order g roots")
    case (Inl e)
    with res that(1) show thesis by (auto simp: build_order_def cycle_at_def)
  next
    case (Inr order)
    with res obtain st where st: "dfs_inv g roots st order" "\<forall>r\<in>set roots. st ! r = 2"
      by (auto simp: build_order_def)
    with assms(2) have "\<forall>r\<in>set roots. r \<in> set order" by (simp add: dfs_inv_def)
    with that(2) Inr st(1) show thesis by blast
  qed
qed

lemma dfs_inv_closed:
  assumes "dfs_inv g roots st order" and "\<forall>r\<in>set roots. r \<in> set order"
  shows "v \<in> set order \<longleftrightarrow> reachable g roots v"
  using assms topological_closed_rtrancl by (auto simp: dfs_inv_def reachable_iff)

section \<open>Properties\<close>

text \<open>
  C16: on a well-formed graph with roots in range, a result \<open>Ok(order)\<close> of \<open>build_order\<close> is a
  topological order: no node twice, every node after all of its dependencies, and exactly the
  nodes reachable from the roots, all in range.
\<close>

theorem build_order_topological:
  assumes "graph_wf g" and "\<forall>r\<in>set roots. r < length g" and "build_order g roots = Inr order"
  shows "topological g order \<and> (\<forall>v. v \<in> set order \<longleftrightarrow> reachable g roots v) \<and>
         (\<forall>v\<in>set order. v < length g)"
proof (rule build_order_cases [OF assms(1,2)])
  fix order' st
  assume "build_order g roots = Inr order'" and inv: "dfs_inv g roots st order'"
    and roots: "\<forall>r\<in>set roots. r \<in> set order'"
  then have "order' = order" using assms(3) by simp
  with inv dfs_inv_closed [OF inv roots] show ?thesis by (auto simp: dfs_inv_def)
qed (use assms(3) in simp)

theorem build_order_topological_witness:
  "build_order [[1, 2], [2], [], [0]] [3, 0] = Inr [2, 1, 0, 3] \<and>
   topological [[1, 2], [2], [], [0]] [2, 1, 0, 3] \<and>
   (\<forall>v. v \<in> set [2, 1, 0, 3] \<longleftrightarrow> reachable [[1, 2], [2], [], [0]] [3, 0] v)"
proof -
  have r: "build_order [[1, 2], [2], [], [0]] [3, 0] = Inr [2, 1, 0, 3]"
    by (simp add: build_order_def visit.simps visit_deps.simps numeral_eq_Suc)
  show ?thesis
    using r build_order_topological [OF _ _ r] by (simp add: graph_wf_def)
qed

text \<open>
  C17: \<open>build_order\<close> always returns, never indexes out of range, and fails exactly when a
  dependency cycle is reachable from the roots; the node it names is itself reachable and on a
  cycle.
\<close>

theorem build_order_rejects_cycles:
  assumes "graph_wf g" and "\<forall>r\<in>set roots. r < length g"
  shows "(has_reachable_cycle g roots \<longleftrightarrow> (\<exists>w. build_order g roots = Inl (Cycle w))) \<and>
         build_order g roots \<noteq> Inl OutOfBounds \<and>
         (\<forall>w. build_order g roots \<noteq> Inl (Cycle w) \<or>
              (reachable g roots w \<and> (\<exists>c. is_cycle g c \<and> c ! 0 = w)))"
proof (rule build_order_cases [OF assms])
  fix w
  assume *: "build_order g roots = Inl (Cycle w)" "reachable g roots w" "(w, w) \<in> (edges g)\<^sup>+"
  then have c: "has_reachable_cycle g roots" by (auto simp: has_reachable_cycle_iff)
  from *(3) obtain d where "(w, d) \<in> (edges g)\<^sup>*" "edge g d w" by (auto dest: tranclD2)
  then have "\<exists>c. is_cycle g c \<and> c ! 0 = w" using rtrancl_path by (fastforce simp: is_cycle_def)
  with c * show ?thesis by simp
next
  fix order st
  assume *: "build_order g roots = Inr order" and inv: "dfs_inv g roots st order"
    and roots: "\<forall>r\<in>set roots. r \<in> set order"
  have "topological g order" using inv by (simp add: dfs_inv_def)
  then have "\<not> has_reachable_cycle g roots"
    using dfs_inv_closed [OF inv roots] topological_acyclic by (auto simp: has_reachable_cycle_iff)
  with * show ?thesis by simp
qed

theorem build_order_rejects_cycles_witness:
  "build_order [[1], [0], []] [0] = Inl (Cycle 0) \<and> has_reachable_cycle [[1], [0], []] [0] \<and>
   reachable [[1], [0], []] [0] 0 \<and> (\<exists>c. is_cycle [[1], [0], []] c \<and> c ! 0 = 0)"
proof -
  have r: "build_order [[1], [0], []] [0] = Inl (Cycle 0)"
    by (simp add: build_order_def visit.simps visit_deps.simps numeral_eq_Suc)
  have "graph_wf [[1], [0], []]" "\<forall>r\<in>set [0]. r < length [[1], [0], []]"
    by (simp_all add: graph_wf_def)
  from build_order_rejects_cycles [OF this] r show ?thesis by auto
qed

end
