(* ===== verification/Doubles.thy ===== *)
theory Doubles
  imports Improv_Prelude
begin

unbundle bit_operations_syntax

text \<open>
  IEEE doubles as their 64-bit patterns (Rust's \<open>f64::to_bits\<close>): the fields of a pattern, the
  integer it stands for in units of \<open>2 ^ -1074\<close> (the least subnormal), the tests the compiler
  makes on number literals (\<open>fract() == 0.0\<close>, \<open>as i64\<close>), and the conversion of a length to a
  double.
\<close>

section \<open>Fields\<close>

type_synonym f64 = "64 word"

definition NEG_ZERO :: f64 where
  "NEG_ZERO = 0x8000000000000000"

definition f64_exp :: "f64 \<Rightarrow> u64" where
  "f64_exp x = drop_bit 52 x AND 0x7ff"

definition f64_frac :: "f64 \<Rightarrow> u64" where
  "f64_frac x = x AND mask 52"

definition f64_neg :: "f64 \<Rightarrow> bool" where
  "f64_neg x \<longleftrightarrow> drop_bit 63 x = 1"

definition f64_finite :: "f64 \<Rightarrow> bool" where
  "f64_finite x \<longleftrightarrow> f64_exp x \<noteq> 0x7ff"

text \<open>\<open>|x| = m * 2 ^ s\<close> units, for a finite \<open>x\<close>.\<close>

definition f64_mant :: "f64 \<Rightarrow> u64" where
  "f64_mant x = (if f64_exp x = 0 then f64_frac x else f64_frac x OR push_bit 52 1)"

definition f64_shift :: "f64 \<Rightarrow> nat" where
  "f64_shift x = (if f64_exp x = 0 then 0 else unat (f64_exp x - 1))"

definition f64_minus :: "f64 \<Rightarrow> f64" where
  "f64_minus x = x XOR NEG_ZERO"

text \<open>What a finite double adds to a sum, in units of \<open>2 ^ -1074\<close>.\<close>

definition units :: "f64 \<Rightarrow> int" where
  "units x = (if f64_neg x then - 1 else 1) * int (unat (f64_mant x)) * 2 ^ f64_shift x"

section \<open>Whole numbers\<close>

text \<open>
  \<open>x.fract() == 0.0\<close>, with the integer \<open>x\<close> is: \<open>None\<close> for a fraction, an infinity or a NaN
  (whose \<open>fract\<close> is a NaN).
\<close>

definition f64_whole :: "f64 \<Rightarrow> int option" where
  "f64_whole x =
     (if f64_finite x \<and> units x mod 2 ^ 1074 = 0 then Some (units x div 2 ^ 1074) else None)"

text \<open>\<open>x as i64\<close> of a whole \<open>x\<close>: saturating.\<close>

definition sat_i64 :: "int \<Rightarrow> int" where
  "sat_i64 n = max (- (2 ^ 63)) (min n (2 ^ 63 - 1))"

text \<open>\<open>n as f64\<close> for a \<open>usize\<close>: to nearest, ties to even.\<close>

function floor_log2 :: "nat \<Rightarrow> nat" where
  "floor_log2 n = (if n < 2 then 0 else 1 + floor_log2 (n div 2))"
  by pat_completeness auto
termination
  by (relation "measure id") auto

declare floor_log2.simps [simp del]

definition round_half_even :: "nat \<Rightarrow> nat \<Rightarrow> nat" where
  "round_half_even n d =
     (let q = n div 2 ^ d; r = n mod 2 ^ d
      in if 2 * r < 2 ^ d \<or> 2 * r = 2 ^ d \<and> even q then q else q + 1)"

definition f64_of_nat :: "nat \<Rightarrow> f64" where
  "f64_of_nat n =
     (if n = 0 then 0
      else let k = floor_log2 n;
               q = (if k \<le> 52 then n * 2 ^ (52 - k) else round_half_even n (k - 52))
           in of_nat ((1023 + k) * 2 ^ 52 + (q - 2 ^ 52)))"

lemma floor_log2_bounds: "0 < n \<Longrightarrow> 2 ^ floor_log2 n \<le> n \<and> n < 2 ^ (floor_log2 n + 1)"
proof (induction n rule: floor_log2.induct)
  case (1 n)
  show ?case
  proof (cases "n < 2")
    case True
    with "1.prems" show ?thesis by (subst (1 2) floor_log2.simps) simp
  next
    case False
    with 1 have "2 ^ floor_log2 (n div 2) \<le> n div 2 \<and> n div 2 < 2 ^ (floor_log2 (n div 2) + 1)" by simp
    moreover have "floor_log2 n = 1 + floor_log2 (n div 2)" using False by (subst floor_log2.simps) simp
    ultimately show ?thesis by (auto simp: less_mult_imp_div_less)
  qed
qed

end
