(* ===== verification/Exact_Sum.thy ===== *)
theory Exact_Sum
  imports Doubles "HOL-Library.Multiset"
begin

unbundle bit_operations_syntax

text \<open>
  \<open>crates/engine/src/exact.rs\<close>: the superaccumulator behind \<open>SUM\<close> and \<open>AVERAGE\<close>. A double
  is its 64-bit pattern; the accumulator holds the sum in units of \<open>2 ^ -1074\<close> as 67 signed
  digits in base \<open>2 ^ 32\<close>, kept in \<open>i64\<close>s. An index out of the digit array, a panic in the
  code, is \<open>None\<close>. The rounding of the exact sum to a double (\<open>Exact::value\<close>) is not modelled
  here: the theorems are about the exact sum it rounds.
\<close>

section \<open>The accumulator\<close>

definition DIGITS :: nat where "DIGITS = 67"

definition CARRY_EVERY :: nat where "CARRY_EVERY = 2 ^ 20"

definition NOT_NEG_ZERO :: u8 where "NOT_NEG_ZERO = 1"
definition POS_INF :: u8 where "POS_INF = 2"
definition NEG_INF :: u8 where "NEG_INF = 4"
definition NAN :: u8 where "NAN = 8"

record exact_sum =
  digs :: "int list"
  lo :: nat
  hi :: nat
  terms :: nat
  flags :: u8

text \<open>A compact sum: its balanced digits (\<open>i32\<close>s) from the lowest nonzero one up.\<close>

record exact =
  xlo :: nat
  xd :: "int list"
  xflags :: u8

definition sum_default :: exact_sum where
  "sum_default = \<lparr>digs = replicate DIGITS 0, lo = DIGITS, hi = 0, terms = 0, flags = 0\<rparr>"

text \<open>\<open>self.d[i + j] += w_j\<close> for consecutive \<open>j\<close>.\<close>

fun add_digits :: "int list \<Rightarrow> nat \<Rightarrow> int list \<Rightarrow> int list option" where
  "add_digits d i [] = Some d"
| "add_digits d i (w # ws) =
     (if i < length d then add_digits (d[i := wrap64 (d ! i + w)]) (i + 1) ws else None)"

text \<open>The loop of \<open>carry\<close>: \<open>x >> 32\<close> is the floor, the last digit keeps its carries.\<close>

function carry_loop :: "nat \<Rightarrow> int list \<Rightarrow> nat \<Rightarrow> int \<Rightarrow> (int list \<times> nat) option" where
  "carry_loop h d i c =
     (if i < h \<or> c \<noteq> 0 then
        if i < length d then
          let x = wrap64 (d ! i + c);
              c' = (if i + 1 = DIGITS then 0 else wrap64 (x + 2 ^ 31) div 2 ^ 32)
          in carry_loop h (d[i := wrap64 (x - wrap64 (c' * 2 ^ 32))]) (i + 1) c'
        else None
      else Some (d, i))"
  by pat_completeness auto
termination
  by (relation "measure (\<lambda>(h, d, i, c). length d - i)") auto

declare carry_loop.simps [simp del]

definition carry :: "exact_sum \<Rightarrow> exact_sum option" where
  "carry s =
     (case carry_loop (hi s) (digs s) (lo s) 0 of
        None \<Rightarrow> None
      | Some (d', i) \<Rightarrow> Some (s\<lparr>digs := d', terms := 0, hi := max (hi s) i\<rparr>))"

definition touch :: "nat \<Rightarrow> nat \<Rightarrow> exact_sum \<Rightarrow> exact_sum option" where
  "touch l h s =
     (let s' = s\<lparr>lo := min (lo s) l, hi := max (hi s) h, terms := terms s + 1\<rparr>
      in if terms s' = CARRY_EVERY then carry s' else Some s')"

text \<open>The three base-\<open>2 ^ 32\<close> digits of \<open>m << (s % 32)\<close>, formed in \<open>u128\<close>, signed.\<close>

definition term_digits :: "f64 \<Rightarrow> int list" where
  "term_digits x =
     (let v = push_bit (f64_shift x mod 32) (ucast (f64_mant x) :: u128);
          ws = [ucast v, ucast (drop_bit 32 v), ucast (drop_bit 64 v)] :: u32 list
      in map (\<lambda>w. if f64_neg x then - uint w else uint w) ws)"

text \<open>The flag bits a term sets.\<close>

definition zero_flag :: "f64 \<Rightarrow> u8" where
  "zero_flag x = (if x \<noteq> NEG_ZERO then NOT_NEG_ZERO else 0)"

definition special_flag :: "f64 \<Rightarrow> u8" where
  "special_flag x =
     (if f64_frac x = 0 then if f64_neg x then NEG_INF else POS_INF else NAN)"

definition sum_add :: "f64 \<Rightarrow> exact_sum \<Rightarrow> exact_sum option" where
  "sum_add x s =
     (let s1 = s\<lparr>flags := flags s OR zero_flag x\<rparr>
      in if f64_exp x = 0x7ff then Some (s1\<lparr>flags := flags s1 OR special_flag x\<rparr>)
         else if f64_mant x = 0 then Some s1
         else let i = f64_shift x div 32
              in Option.bind (add_digits (digs s1) i (term_digits x))
                   (\<lambda>d'. touch i (i + 3) (s1\<lparr>digs := d'\<rparr>)))"

definition add_exact :: "exact \<Rightarrow> exact_sum \<Rightarrow> exact_sum option" where
  "add_exact x s =
     (let s1 = s\<lparr>flags := flags s OR xflags x\<rparr>
      in if xd x = [] then Some s1
         else Option.bind (add_digits (digs s1) (xlo x) (xd x))
                (\<lambda>d'. touch (xlo x) (xlo x + length (xd x)) (s1\<lparr>digs := d'\<rparr>)))"

function trim_lo :: "int list \<Rightarrow> nat \<Rightarrow> nat \<Rightarrow> nat" where
  "trim_lo d l h = (if l < h \<and> d ! l = 0 then trim_lo d (l + 1) h else l)"
  by pat_completeness auto
termination
  by (relation "measure (\<lambda>(d, l, h). h - l)") auto

fun trim_hi :: "int list \<Rightarrow> nat \<Rightarrow> nat \<Rightarrow> nat" where
  "trim_hi d l 0 = 0"
| "trim_hi d l (Suc h) = (if l < Suc h \<and> d ! h = 0 then trim_hi d l h else Suc h)"

declare trim_lo.simps [simp del]

definition clamp_i32 :: "int \<Rightarrow> int" where
  "clamp_i32 w = max (- (2 ^ 31)) (min w (2 ^ 31 - 1))"

definition to_exact :: "exact_sum \<Rightarrow> (exact_sum \<times> exact) option" where
  "to_exact s =
     Option.bind (carry s) (\<lambda>s'.
       let l = trim_lo (digs s') (lo s') (hi s');
           h = trim_hi (digs s') l (hi s');
           (l, h) = (if h \<le> l then (0, 0) else (l, h))
       in if length (digs s') < h then None
          else Some (s', \<lparr>xlo = l, xd = map clamp_i32 (take (h - l) (drop l (digs s'))),
                          xflags = flags s'\<rparr>))"

section \<open>What the digits stand for\<close>

fun dsum :: "int list \<Rightarrow> int" where
  "dsum [] = 0"
| "dsum (x # xs) = x + 2 ^ 32 * dsum xs"

lemma dsum_update:
  "i < length d \<Longrightarrow> dsum (d[i := y]) = dsum d + (y - d ! i) * 2 ^ (32 * i)"
proof (induction d arbitrary: i)
  case (Cons x d)
  then show ?case
  proof (cases i)
    case (Suc j)
    then have "dsum (d[j := y]) = dsum d + (y - d ! j) * 2 ^ (32 * j)" using Cons by simp
    then show ?thesis by (simp add: Suc power_add algebra_simps)
  qed simp
qed simp

lemma dsum_replicate_0 [simp]: "dsum (replicate n 0) = 0"
  by (induction n) auto

definition balanced :: "int \<Rightarrow> bool" where
  "balanced w \<longleftrightarrow> - (2 ^ 31) \<le> w \<and> w < 2 ^ 31"

text \<open>Balanced digits below a free top digit are determined by the sum.\<close>

lemma balanced_unique:
  assumes "length d = length e" "dsum d = dsum e"
    and "\<forall>i < length d - 1. balanced (d ! i)" "\<forall>i < length e - 1. balanced (e ! i)"
  shows "d = e"
  using assms
proof (induction d e rule: list_induct2)
  case (Cons x d y e)
  show ?case
  proof (cases "d = []")
    case True
    with Cons show ?thesis by simp
  next
    case False
    then have "0 < length d" by simp
    with Cons.prems(2,3) Cons.hyps have x: "balanced x" and y: "balanced y"
      by (metis One_nat_def Suc_pred length_Cons nth_Cons_0 diff_Suc_1)+
    have eq: "x - y = 2 ^ 32 * (dsum e - dsum d)" using Cons.prems(1) by (simp add: algebra_simps)
    then have "2 ^ 32 dvd x - y" by simp
    moreover have "\<bar>x - y\<bar> < 2 ^ 32" using x y by (auto simp: balanced_def)
    ultimately have xy: "x = y" by (metis dvd_imp_le_int abs_ge_zero abs_numeral eq_iff_diff_eq_0
          linorder_not_less power_abs)
    have "d = e"
    proof (rule Cons.IH)
      show "dsum d = dsum e" using eq xy by simp
      show "\<forall>i<length d - 1. balanced (d ! i)"
        using Cons.prems(2) by (metis Suc_diff_1 \<open>0 < length d\<close> diff_Suc_1 length_Cons nth_Cons_Suc Suc_less_eq)
      show "\<forall>i<length e - 1. balanced (e ! i)"
        using Cons.prems(3) Cons.hyps
        by (metis Suc_diff_1 \<open>0 < length d\<close> diff_Suc_1 length_Cons nth_Cons_Suc Suc_less_eq)
    qed
    with xy show ?thesis by simp
  qed
qed simp

section \<open>The digit invariant\<close>

text \<open>
  \<open>digit_bound t w d\<close>: after \<open>t\<close> terms since the last carry pass a digit is within
  \<open>t * (2 ^ 32 - 1)\<close> of balanced, and the last digit, which keeps the carries, within \<open>w\<close>.
\<close>

definition slack :: "nat \<Rightarrow> int \<Rightarrow> bool" where
  "slack t w \<longleftrightarrow> - (2 ^ 31) - int t * (2 ^ 32 - 1) \<le> w \<and> w \<le> 2 ^ 31 - 1 + int t * (2 ^ 32 - 1)"

definition digit_bound :: "nat \<Rightarrow> int \<Rightarrow> int list \<Rightarrow> bool" where
  "digit_bound t w d \<longleftrightarrow>
     length d = DIGITS \<and> (\<forall>i < 66. slack t (d ! i)) \<and> \<bar>d ! 66\<bar> \<le> w"

text \<open>
  \<open>pending n s\<close>: the digits' invariant, with at most \<open>n\<close> units in the last digit once the
  terms added since the last pass have carried; \<open>sum_inv\<close> is \<open>pending\<close> between operations.
\<close>

definition pending :: "int \<Rightarrow> exact_sum \<Rightarrow> bool" where
  "pending n s \<longleftrightarrow>
     digit_bound (terms s) (n - int (terms s)) (digs s) \<and> terms s \<le> CARRY_EVERY \<and>
     lo s \<le> DIGITS \<and> hi s \<le> DIGITS \<and>
     (\<forall>i < DIGITS. i < lo s \<or> hi s \<le> i \<longrightarrow> digs s ! i = 0)"

definition sum_inv :: "int \<Rightarrow> exact_sum \<Rightarrow> bool" where
  "sum_inv n s \<longleftrightarrow> pending n s \<and> terms s < CARRY_EVERY"

text \<open>The value a sum stands for, in units of \<open>2 ^ -1074\<close>.\<close>

definition sum_units :: "exact_sum \<Rightarrow> int" where
  "sum_units s = dsum (digs s)"

lemma slack_0: "slack 0 w \<longleftrightarrow> balanced w"
  by (auto simp: slack_def balanced_def)

lemma slack_mono: "slack t w \<Longrightarrow> slack (t + 1) w"
  by (simp add: slack_def algebra_simps)

lemma slack_add: "slack t w \<Longrightarrow> \<bar>v\<bar> < 2 ^ 32 \<Longrightarrow> slack (t + 1) (w + v)"
  by (auto simp: slack_def algebra_simps)

lemma slack_zero [simp]: "slack t 0"
  by (simp add: slack_def)

text \<open>
  One digit of the carry pass: a digit with slack \<open>t\<close> and an incoming carry of at most \<open>t\<close>
  leaves a balanced digit and a carry of at most \<open>t\<close>.
\<close>

lemma carry_digit:
  fixes x c :: int
  assumes "slack t d" "\<bar>c\<bar> \<le> int t"
  defines "q \<equiv> (d + c + 2 ^ 31) div 2 ^ 32"
  shows "\<bar>q\<bar> \<le> int t" and "balanced (d + c - q * 2 ^ 32)"
proof -
  let ?n = "d + c + 2 ^ 31"
  have n: "?n = q * 2 ^ 32 + ?n mod 2 ^ 32" unfolding q_def by simp
  have m: "0 \<le> ?n mod 2 ^ 32" "?n mod 2 ^ 32 < 2 ^ 32" by simp_all
  have "?n \<le> 2 ^ 32 - 1 + int t * 2 ^ 32" "- (int t * 2 ^ 32) \<le> ?n"
    using assms(1,2) by (auto simp: slack_def algebra_simps)
  then have "q * 2 ^ 32 < (int t + 1) * 2 ^ 32" "(- int t - 1) * 2 ^ 32 < q * 2 ^ 32"
    using n m by (auto simp: algebra_simps)
  then show "\<bar>q\<bar> \<le> int t" by (simp add: mult_less_cancel_right)
  show "balanced (d + c - q * 2 ^ 32)" using n m by (auto simp: balanced_def)
qed

lemma slack_small: "slack t d \<Longrightarrow> t \<le> CARRY_EVERY \<Longrightarrow> \<bar>d\<bar> \<le> 2 ^ 53"
proof -
  assume "slack t d" "t \<le> CARRY_EVERY"
  moreover from this have "int t * (2 ^ 32 - 1) \<le> 2 ^ 20 * (2 ^ 32 - 1)"
    by (intro mult_right_mono) (simp_all add: CARRY_EVERY_def)
  ultimately show ?thesis by (auto simp: slack_def)
qed

lemma i64_abs: "\<bar>x\<bar> \<le> 2 ^ 62 \<Longrightarrow> i64_range x"
  unfolding i64_range_def abs_le_iff by auto

lemma carry_step_digit:
  assumes "slack t x" "\<bar>c\<bar> \<le> int t" "t \<le> CARRY_EVERY"
  defines "y \<equiv> wrap64 (x + c)"
  defines "q \<equiv> wrap64 (y + 2 ^ 31) div 2 ^ 32"
  shows "y = x + c" and "\<bar>q\<bar> \<le> int t" and "balanced (wrap64 (y - wrap64 (q * 2 ^ 32)))"
    and "wrap64 (y - wrap64 (q * 2 ^ 32)) = x + c - q * 2 ^ 32"
proof -
  have b: "\<bar>x\<bar> \<le> 2 ^ 53" "\<bar>c\<bar> \<le> 2 ^ 20"
    using slack_small [OF assms(1,3)] assms(2,3) by (simp_all add: CARRY_EVERY_def)
  show y: "y = x + c"
    unfolding y_def by (rule wrap64_id, rule i64_abs) (use b in simp)
  have "wrap64 (y + 2 ^ 31) = x + c + 2 ^ 31"
    unfolding y by (rule wrap64_id, rule i64_abs) (use b in simp)
  then have q: "q = (x + c + 2 ^ 31) div 2 ^ 32" by (simp add: q_def)
  show qt: "\<bar>q\<bar> \<le> int t" unfolding q by (rule carry_digit [OF assms(1,2)])
  then have "\<bar>q\<bar> \<le> 2 ^ 20" using assms(3) by (simp add: CARRY_EVERY_def)
  then have "wrap64 (q * 2 ^ 32) = q * 2 ^ 32" by (intro wrap64_id i64_abs) simp
  moreover have bal: "balanced (x + c - q * 2 ^ 32)" unfolding q by (rule carry_digit [OF assms(1,2)])
  moreover from bal have "wrap64 (x + c - q * 2 ^ 32) = x + c - q * 2 ^ 32"
    by (intro wrap64_id i64_abs) (auto simp: balanced_def abs_le_iff)
  ultimately show "balanced (wrap64 (y - wrap64 (q * 2 ^ 32)))"
    and "wrap64 (y - wrap64 (q * 2 ^ 32)) = x + c - q * 2 ^ 32" by (simp_all add: y)
qed

definition carried :: "nat \<Rightarrow> int list \<Rightarrow> nat \<Rightarrow> int \<Rightarrow> nat \<Rightarrow> int \<Rightarrow> int list \<times> nat \<Rightarrow> bool" where
  "carried h d i c t w r \<longleftrightarrow>
     (case r of (d', k) \<Rightarrow>
        i \<le> k \<and> k \<le> DIGITS \<and> h \<le> k \<and> length d' = DIGITS \<and>
        (\<forall>j < DIGITS. j < i \<or> k \<le> j \<longrightarrow> d' ! j = d ! j) \<and>
        (\<forall>j < 66. i \<le> j \<and> j < k \<longrightarrow> balanced (d' ! j)) \<and>
        \<bar>d' ! 66\<bar> \<le> w + int t \<and> dsum d' = dsum d + c * 2 ^ (32 * i))"

text \<open>The two kinds of step of the carry pass, and how a step extends the rest of the pass.\<close>

lemma carry_step_inner:
  fixes d :: "int list" and c :: int
  defines "x \<equiv> \<lambda>i. wrap64 (d ! i + c)"
  defines "q \<equiv> \<lambda>i. (if i + 1 = DIGITS then 0 else wrap64 (x i + 2 ^ 31) div 2 ^ 32)"
  assumes "i < 66" "slack t (d ! i)" "\<bar>c\<bar> \<le> int t" "t \<le> CARRY_EVERY"
  shows "wrap64 (x i - wrap64 (q i * 2 ^ 32)) = d ! i + c - q i * 2 ^ 32" "\<bar>q i\<bar> \<le> int t"
    "balanced (wrap64 (x i - wrap64 (q i * 2 ^ 32)))"
proof -
  have ne: "i + 1 \<noteq> DIGITS" using assms(3) by (simp add: DIGITS_def)
  show "wrap64 (x i - wrap64 (q i * 2 ^ 32)) = d ! i + c - q i * 2 ^ 32" "\<bar>q i\<bar> \<le> int t"
    "balanced (wrap64 (x i - wrap64 (q i * 2 ^ 32)))"
    unfolding q_def x_def if_not_P [OF ne]
    by (rule carry_step_digit [OF assms(4-6)])+
qed

lemma carry_step_last:
  fixes d :: "int list" and c :: int
  assumes "\<bar>d ! 66\<bar> \<le> w" "\<bar>c\<bar> \<le> int t" "w + int t \<le> 2 ^ 62"
  shows "wrap64 (d ! 66 + c) = d ! 66 + c" "\<bar>d ! 66 + c\<bar> \<le> w + int t"
proof -
  show *: "\<bar>d ! 66 + c\<bar> \<le> w + int t" using assms(1,2) by linarith
  show "wrap64 (d ! 66 + c) = d ! 66 + c"
    by (rule wrap64_id, rule i64_abs) (use * assms(3) in linarith)
qed

lemma carried_step:
  assumes c: "carried h (d[i := y]) (i + 1) q t w (d', k)" and i: "i < length d"
    and y: "y = d ! i + c - q * 2 ^ 32" and b: "i < 66 \<longrightarrow> balanced y" and "length d = DIGITS"
  shows "carried h d i c t w (d', k)"
proof -
  define P :: int where "P = 2 ^ (32 * i)"
  have P: "2 ^ (32 * (i + 1)) = 4294967296 * P" by (simp add: P_def power_add)
  have "dsum d' = dsum (d[i := y]) + q * (4294967296 * P)"
    using c unfolding carried_def prod.case P by blast
  then have s: "dsum d' = dsum d + c * P"
    unfolding dsum_update [OF i] y P_def [symmetric] by (simp add: algebra_simps)
  have di: "d' ! i = y" using c i assms(5) by (simp add: carried_def)
  have "\<forall>j<66. i + 1 \<le> j \<and> j < k \<longrightarrow> balanced (d' ! j)"
    using c by (simp add: carried_def)
  then have "\<forall>j<66. i \<le> j \<and> j < k \<longrightarrow> balanced (d' ! j)"
    using b di by (metis Suc_eq_plus1 le_antisym not_less_eq_eq)
  moreover have "\<forall>j < DIGITS. j < i \<or> k \<le> j \<longrightarrow> d' ! j = d ! j"
    using c by (auto simp: carried_def)
  moreover have "i \<le> k \<and> k \<le> DIGITS \<and> h \<le> k \<and> length d' = DIGITS \<and> \<bar>d' ! 66\<bar> \<le> w + int t"
    using c by (simp add: carried_def)
  ultimately show ?thesis using s unfolding carried_def P_def by blast
qed

lemma carry_loop_correct:
  assumes "length d = DIGITS" "i \<le> DIGITS" "h \<le> DIGITS" "\<bar>c\<bar> \<le> int t" "t \<le> CARRY_EVERY"
    and "\<forall>j < 66. i \<le> j \<longrightarrow> slack t (d ! j)"
    and "\<bar>d ! 66\<bar> \<le> (if i \<le> 66 then w else w + int t)" and "w + int t \<le> 2 ^ 62"
    and "i = DIGITS \<longrightarrow> c = 0"
  shows "\<exists>r. carry_loop h d i c = Some r \<and> carried h d i c t w r"
  using assms
proof (induction h d i c rule: carry_loop.induct)
  case (1 h d i c)
  show ?case
  proof (cases "i < h \<or> c \<noteq> 0")
    case False
    have "\<bar>d ! 66\<bar> \<le> w + int t" using "1.prems"(7) by (auto split: if_splits)
    with False show ?thesis
      using "1.prems" by (subst carry_loop.simps) (auto simp: carried_def)
  next
    case True
    have i: "i < length d" using True "1.prems"(1-3,9) by (auto simp: DIGITS_def)
    define x where "x = wrap64 (d ! i + c)"
    define q where "q = (if i + 1 = DIGITS then 0 else wrap64 (x + 2 ^ 31) div 2 ^ 32)"
    define y where "y = wrap64 (x - wrap64 (q * 2 ^ 32))"
    have step: "carry_loop h d i c = carry_loop h (d[i := y]) (i + 1) q"
      using True i by (subst carry_loop.simps) (simp add: Let_def x_def q_def y_def)
    have facts: "y = d ! i + c - q * 2 ^ 32" "\<bar>q\<bar> \<le> int t"
        "i < 66 \<longrightarrow> balanced y" "i = 66 \<longrightarrow> \<bar>y\<bar> \<le> w + int t"
    proof -
      have "i < 66 \<or> i = 66" using i "1.prems"(1) by (auto simp: DIGITS_def)
      then have "y = d ! i + c - q * 2 ^ 32 \<and> \<bar>q\<bar> \<le> int t \<and> (i < 66 \<longrightarrow> balanced y) \<and>
          (i = 66 \<longrightarrow> \<bar>y\<bar> \<le> w + int t)"
      proof
        assume 1: "i < 66"
        with "1.prems"(6) have "slack t (d ! i)" by simp
        from carry_step_inner [OF 1 this "1.prems"(4,5)] 1
        show ?thesis unfolding y_def q_def x_def by simp
      next
        assume 2: "i = 66"
        then have "\<bar>d ! 66\<bar> \<le> w" using "1.prems"(7) by simp
        from carry_step_last [OF this "1.prems"(4,8)] 2
        show ?thesis by (simp add: y_def q_def x_def DIGITS_def) (simp add: wrap64_def)
      qed
      then show "y = d ! i + c - q * 2 ^ 32" "\<bar>q\<bar> \<le> int t"
        "i < 66 \<longrightarrow> balanced y" "i = 66 \<longrightarrow> \<bar>y\<bar> \<le> w + int t" by blast+
    qed
    have last0: "i = 66 \<longrightarrow> q = 0" by (simp add: q_def DIGITS_def)
    have d66: "\<bar>d[i := y] ! 66\<bar> \<le> (if i + 1 \<le> 66 then w else w + int t)"
      using facts(4) i "1.prems"(1,7) by (auto simp: nth_list_update DIGITS_def)
    have IH: "\<exists>r. carry_loop h (d[i := y]) (i + 1) q = Some r \<and> carried h (d[i := y]) (i + 1) q t w r"
      unfolding y_def q_def x_def
    proof (rule "1.IH" [OF True i refl refl], fold x_def, fold q_def, fold y_def)
      show "\<forall>j<66. i + 1 \<le> j \<longrightarrow> slack t (d[i := y] ! j)" using "1.prems"(6) by simp
      show "i + 1 = DIGITS \<longrightarrow> q = 0" using last0 by (simp add: DIGITS_def)
      show "length (d[i := y]) = DIGITS" "i + 1 \<le> DIGITS" using "1.prems"(1) i by simp_all
    qed (fact "1.prems" facts d66)+
    then obtain d' k where r: "carry_loop h (d[i := y]) (i + 1) q = Some (d', k)"
      and c': "carried h (d[i := y]) (i + 1) q t w (d', k)" by auto
    have "carried h d i c t w (d', k)"
      by (rule carried_step [OF c' i facts(1,3) "1.prems"(1)])
    with r step show ?thesis by auto
  qed
qed

section \<open>The operations keep the invariant and the exact sum\<close>

lemma sum_default_inv: "sum_inv 0 sum_default"
  by (simp add: sum_inv_def pending_def digit_bound_def sum_default_def CARRY_EVERY_def DIGITS_def)

lemma carry_ok:
  assumes "pending n s" "n \<le> 2 ^ 62"
  shows "\<exists>s'. carry s = Some s' \<and> sum_inv n s' \<and> terms s' = 0 \<and>
    sum_units s' = sum_units s \<and> flags s' = flags s"
proof -
  note P = assms(1) [unfolded pending_def digit_bound_def]
  have "\<exists>r. carry_loop (hi s) (digs s) (lo s) 0 = Some r \<and>
      carried (hi s) (digs s) (lo s) 0 (terms s) (n - int (terms s)) r"
    by (rule carry_loop_correct) (use P assms(2) in auto)
  then obtain d' k where r: "carry_loop (hi s) (digs s) (lo s) 0 = Some (d', k)"
    and c: "carried (hi s) (digs s) (lo s) 0 (terms s) (n - int (terms s)) (d', k)" by auto
  let ?s = "s\<lparr>digs := d', terms := 0, hi := max (hi s) k\<rparr>"
  have "balanced (d' ! j)" if "j < 66" for j
  proof (cases "lo s \<le> j \<and> j < k")
    case True
    with c that show ?thesis by (simp add: carried_def)
  next
    case False
    moreover have "hi s \<le> k" "j < DIGITS" using c that by (simp_all add: carried_def DIGITS_def)
    ultimately have "d' ! j = digs s ! j" "digs s ! j = 0"
      using c P by (auto simp: carried_def not_le not_less)
    then show ?thesis by (simp add: balanced_def)
  qed
  then have "sum_inv n ?s"
    using c P by (auto simp: sum_inv_def pending_def digit_bound_def carried_def slack_0 CARRY_EVERY_def)
  moreover have "carry s = Some ?s" by (simp add: carry_def r)
  moreover have "sum_units ?s = sum_units s" using c by (simp add: carried_def sum_units_def)
  ultimately show ?thesis by auto
qed

lemma add_digits_ok:
  assumes "i + length ws \<le> length d" "\<forall>j < length ws. i64_range (d ! (i + j) + ws ! j)"
  shows "\<exists>d'. add_digits d i ws = Some d' \<and> length d' = length d \<and>
    (\<forall>j < length d. d' ! j = d ! j + (if i \<le> j \<and> j < i + length ws then ws ! (j - i) else 0)) \<and>
    dsum d' = dsum d + dsum ws * 2 ^ (32 * i)"
  using assms
proof (induction d i ws rule: add_digits.induct)
  case (2 d i w ws)
  have i: "i < length d" using "2.prems"(1) by simp
  have w: "wrap64 (d ! i + w) = d ! i + w"
    using "2.prems"(2) by (intro wrap64_id) (metis add.right_neutral length_Cons nth_Cons_0 zero_less_Suc)
  let ?d = "d[i := d ! i + w]"
  have "\<forall>j < length ws. i64_range (?d ! (i + 1 + j) + ws ! j)"
  proof (intro allI impI)
    fix j assume "j < length ws"
    with "2.prems"(2) [rule_format, of "Suc j"]
    have "i64_range (d ! (i + Suc j) + (w # ws) ! Suc j)" by (simp only: length_Cons Suc_less_eq)
    then show "i64_range (?d ! (i + 1 + j) + ws ! j)" by simp
  qed
  from "2.IH" [OF i, unfolded w, OF _ this] "2.prems"(1) obtain d' where d': "add_digits ?d (i + 1) ws = Some d'"
      "length d' = length ?d" "dsum d' = dsum ?d + dsum ws * 2 ^ (32 * (i + 1))"
      "\<forall>j < length ?d. d' ! j = ?d ! j +
         (if i + 1 \<le> j \<and> j < i + 1 + length ws then ws ! (j - (i + 1)) else 0)"
    by auto
  have "dsum d' = dsum d + dsum (w # ws) * 2 ^ (32 * i)"
    unfolding d'(3) dsum_update [OF i] by (simp add: power_add algebra_simps)
  moreover have "\<forall>j < length d. d' ! j = d ! j +
      (if i \<le> j \<and> j < i + length (w # ws) then (w # ws) ! (j - i) else 0)"
  proof (intro allI impI)
    fix j assume j: "j < length d"
    then have d: "d' ! j = ?d ! j + (if i + 1 \<le> j \<and> j < i + 1 + length ws then ws ! (j - (i + 1)) else 0)"
      using d'(4) by simp
    consider "j < i" | "j = i" | k where "j = i + Suc k"
      by (metis less_imp_Suc_add linorder_neqE_nat add_Suc_right)
    then show "d' ! j = d ! j + (if i \<le> j \<and> j < i + length (w # ws) then (w # ws) ! (j - i) else 0)"
    proof cases
      case 2
      then show ?thesis using d i by simp
    qed (use d in simp_all)
  qed
  ultimately show ?case using d' i by (simp add: w)
qed auto

lemma touch_ok:
  assumes "pending n (s\<lparr>lo := min (lo s) l, hi := max (hi s) h, terms := terms s + 1\<rparr>)" (is "pending n ?s")
    and "n \<le> 2 ^ 62"
  shows "\<exists>s'. touch l h s = Some s' \<and> sum_inv n s' \<and> sum_units s' = sum_units s \<and> flags s' = flags s"
proof (cases "terms s + 1 = CARRY_EVERY")
  case True
  from carry_ok [OF assms] obtain s' where "carry ?s = Some s'" "sum_inv n s'"
    "sum_units s' = sum_units ?s" "flags s' = flags ?s" by blast
  with True show ?thesis by (simp add: touch_def Let_def sum_units_def)
next
  case False
  moreover have "terms ?s \<le> CARRY_EVERY" using assms(1) by (simp add: pending_def)
  ultimately show ?thesis using assms(1) by (simp add: touch_def Let_def sum_inv_def sum_units_def)
qed

lemma pending_digit:
  assumes "pending n s" "i < DIGITS" "n \<le> 2 ^ 60"
  shows "\<bar>digs s ! i\<bar> \<le> 2 ^ 60"
proof (cases "i < 66")
  case True
  with assms(1) have "slack (terms s) (digs s ! i)" "terms s \<le> CARRY_EVERY"
    by (simp_all add: pending_def digit_bound_def)
  from slack_small [OF this] show ?thesis by simp
next
  case False
  with assms(2) have "i = 66" by (simp add: DIGITS_def)
  then show ?thesis using assms(1,3) by (simp add: pending_def digit_bound_def)
qed

lemma join_ok:
  assumes inv: "sum_inv n s" and len: "i + length ws \<le> DIGITS"
    and ws: "\<forall>j < length ws. \<bar>ws ! j\<bar> < 2 ^ 32"
    and last: "\<forall>j < length ws. i + j = 66 \<longrightarrow> \<bar>ws ! j\<bar> \<le> b" and b: "0 \<le> b" "n + 1 + b \<le> 2 ^ 60"
  shows "\<exists>s'. Option.bind (add_digits (digs s) i ws) (\<lambda>d'. touch i (i + length ws) (s\<lparr>digs := d'\<rparr>)) = Some s' \<and>
    sum_inv (n + 1 + b) s' \<and> sum_units s' = sum_units s + dsum ws * 2 ^ (32 * i) \<and> flags s' = flags s"
proof -
  have P: "pending n s" and t: "terms s < CARRY_EVERY" using inv by (simp_all add: sum_inv_def)
  note P' = P [unfolded pending_def digit_bound_def]
  have dl: "length (digs s) = DIGITS" using P' by simp
  have rng: "\<forall>j < length ws. i64_range (digs s ! (i + j) + ws ! j)"
  proof (intro allI impI)
    fix j assume j: "j < length ws"
    have "\<bar>digs s ! (i + j)\<bar> \<le> 2 ^ 60" using P b j len by (intro pending_digit [OF P]) simp_all
    then show "i64_range (digs s ! (i + j) + ws ! j)" using ws [rule_format, OF j] by (intro i64_abs) simp
  qed
  from add_digits_ok [OF _ rng] len dl obtain d' where d': "add_digits (digs s) i ws = Some d'"
    and l': "length d' = DIGITS" and sum: "dsum d' = dsum (digs s) + dsum ws * 2 ^ (32 * i)"
    and nth: "\<And>j. j < DIGITS \<Longrightarrow> d' ! j = digs s ! j + (if i \<le> j \<and> j < i + length ws then ws ! (j - i) else 0)"
    by auto
  let ?s = "s\<lparr>digs := d', lo := min (lo s) i, hi := max (hi s) (i + length ws), terms := terms s + 1\<rparr>"
  have sl: "slack (terms s + 1) (d' ! j)" if j: "j < 66" for j
  proof -
    have "slack (terms s) (digs s ! j)" "j < DIGITS" using P' j by (simp_all add: DIGITS_def)
    moreover have "\<bar>if i \<le> j \<and> j < i + length ws then ws ! (j - i) else 0\<bar> < 2 ^ 32"
      using ws [rule_format, of "j - i"] by (simp add: less_diff_conv2)
    ultimately show ?thesis unfolding nth [OF \<open>j < DIGITS\<close>] by (intro slack_add)
  qed
  have top: "\<bar>d' ! 66\<bar> \<le> n + 1 + b - int (terms s + 1)"
  proof -
    have "\<bar>digs s ! 66\<bar> \<le> n - int (terms s)" using P' by simp
    moreover have "\<bar>if i \<le> 66 \<and> 66 < i + length ws then ws ! (66 - i) else 0\<bar> \<le> b"
      using last [rule_format, of "66 - i"] b by auto
    moreover have "d' ! 66 = digs s ! 66 + (if i \<le> 66 \<and> 66 < i + length ws then ws ! (66 - i) else 0)"
      by (rule nth) (simp add: DIGITS_def)
    ultimately show ?thesis by linarith
  qed
  have "pending (n + 1 + b) ?s"
    unfolding pending_def digit_bound_def
    using l' sl top t P' len nth by (auto simp: not_less)
  then have "pending (n + 1 + b) ((s\<lparr>digs := d'\<rparr>)\<lparr>lo := min (lo (s\<lparr>digs := d'\<rparr>)) i,
      hi := max (hi (s\<lparr>digs := d'\<rparr>)) (i + length ws), terms := terms (s\<lparr>digs := d'\<rparr>) + 1\<rparr>)"
    by simp
  from touch_ok [OF this] b obtain s' where "touch i (i + length ws) (s\<lparr>digs := d'\<rparr>) = Some s'"
    "sum_inv (n + 1 + b) s'" "sum_units s' = dsum d'" "flags s' = flags s"
    by (auto simp: sum_units_def)
  then show ?thesis using d' sum by (simp add: sum_units_def)
qed

section \<open>The digits of a term\<close>

lemma bit_implicit_one: "bit (push_bit 52 (1 :: u64)) n \<longleftrightarrow> n = 52"
  by (auto simp only: bit_push_bit_iff bit_1_iff) (simp_all)

lemma unat_2047: "unat (x :: u64) = 2047 \<Longrightarrow> x = 2047"
  by (metis of_nat_numeral of_nat_unat ucast_id)

lemma mant_bound: "unat (f64_mant x) < 2 ^ 53"
proof -
  have "f64_mant x = take_bit 53 (f64_mant x)"
    unfolding f64_mant_def f64_frac_def
    by (rule bit_word_eqI) (auto simp only: bit_or_iff bit_and_iff bit_mask_iff bit_take_bit_iff
        bit_implicit_one split: if_splits)
  then have "unat (f64_mant x) = take_bit 53 (unat (f64_mant x))"
    by (metis unsigned_take_bit_eq)
  then show ?thesis by (metis take_bit_nat_less_exp)
qed

lemma exp_bound: "unat (f64_exp x) \<le> 2047"
proof -
  have "f64_exp x = take_bit 11 (f64_exp x)"
    unfolding f64_exp_def take_bit_eq_mask by (rule bit_word_eqI) (simp add: bit_simps mask_numeral)
  then have "unat (f64_exp x) = take_bit 11 (unat (f64_exp x))" by (metis unsigned_take_bit_eq)
  then have "unat (f64_exp x) < 2 ^ 11" by (metis take_bit_nat_less_exp)
  then show ?thesis by simp
qed

lemma shift_bound:
  assumes "f64_exp x \<noteq> 0x7ff"
  shows "f64_shift x \<le> 2045"
proof (cases "f64_exp x = 0")
  case False
  then have "unat (f64_exp x - 1) = unat (f64_exp x) - 1" by (simp add: unat_minus_one)
  moreover have "unat (f64_exp x) \<noteq> 2047" using assms unat_2047 by blast
  ultimately show ?thesis using exp_bound [of x] False by (simp add: f64_shift_def)
qed (simp add: f64_shift_def)

lemma uint_digit: "uint (ucast (drop_bit k (v :: u128)) :: u32) = uint v div 2 ^ k mod 2 ^ 32"
proof -
  have "uint (drop_bit k v) = uint v div 2 ^ k"
    unfolding unsigned_drop_bit_eq unfolding drop_bit_eq_div
    using take_bit_int_eq_self [OF uint_nonnegative, of v 128] uint_bounded [of v] by simp
  then show ?thesis by (simp only: unsigned_ucast_eq take_bit_eq_mod) simp
qed
lemma three_digits: assumes "(n::int) < 2 ^ 96" "0 \<le> n"
  shows "n div 2 ^ 0 mod 2 ^ 32 + 2 ^ 32 * (n div 2 ^ 32 mod 2 ^ 32 + 2 ^ 32 * (n div 2 ^ 64 mod 2 ^ 32)) = n"
proof -
  have "n div 2 ^ 64 < 2 ^ 32"  "0 \<le> n div 2 ^ 64" using assms by (simp_all add: div_less_iff_less_mult  pos_imp_zdiv_nonneg_iff)
  then have "n div 2 ^ 64 mod 2 ^ 32 = n div 2 ^ 32 div 2 ^ 32"
    using zdiv_zmult2_eq [of "2 ^ 32" n "2 ^ 32"] by simp
  moreover have "n div 2 ^ 32 = n div 2 ^ 32 mod 2 ^ 32 + 2 ^ 32 * (n div 2 ^ 32 div 2 ^ 32)" 
    using mod_mult_div_eq [of "n div 2 ^ 32" "2 ^ 32"] by simp
  moreover have "n = n mod 2 ^ 32 + 2 ^ 32 * (n div 2 ^ 32)"
    using mod_mult_div_eq [of "n" "2 ^ 32"] by simp
  ultimately show ?thesis by simp
qed
lemma word_digits:
  fixes v :: u128
  assumes "unat v < 2 ^ 96"
  shows "uint (ucast v :: u32) + 2 ^ 32 * (uint (ucast (drop_bit 32 v) :: u32) +
    2 ^ 32 * uint (ucast (drop_bit 64 v) :: u32)) = uint v"
proof -
  have "int (unat v) < 2 ^ 96" using assms by (metis of_nat_less_iff of_nat_numeral of_nat_power)
  then have "uint v < 2 ^ 96" by simp
  from three_digits [OF this uint_nonnegative]
  show ?thesis using uint_digit [of 0 v] by (simp only: uint_digit drop_bit_0 id_apply)
qed

lemma term_shifted:
  "unat (push_bit (f64_shift x mod 32) (ucast (f64_mant x) :: u128)) =
     unat (f64_mant x) * 2 ^ (f64_shift x mod 32)" (is "?l = ?m * 2 ^ ?r")
  "unat (f64_mant x) * 2 ^ (f64_shift x mod 32) < 2 ^ 84"
proof -
  have "?m * 2 ^ ?r < 2 ^ 53 * 2 ^ ?r" using mant_bound [of x] by simp
  also have "(2 :: nat) ^ ?r \<le> 2 ^ 31" by (intro power_increasing) auto
  then have "2 ^ 53 * 2 ^ ?r \<le> (2 :: nat) ^ 84" by simp
  finally show b: "?m * 2 ^ ?r < 2 ^ 84" .
  have "?l = take_bit 128 (push_bit ?r ?m)" by (simp add: unsigned_push_bit_eq)
  also have "\<dots> = ?m * 2 ^ ?r"
    using less_trans [OF b, of "2 ^ 128"] by (simp add: push_bit_eq_mult take_bit_nat_eq_self)
  finally show "?l = ?m * 2 ^ ?r" .
qed

lemma term_digits_value:
  "dsum (term_digits x) * 2 ^ (32 * (f64_shift x div 32)) = units x"
proof -
  define v where "v = push_bit (f64_shift x mod 32) (ucast (f64_mant x) :: u128)"
  define sg :: int where "sg = (if f64_neg x then - 1 else 1)"
  have "unat v < 2 ^ 96" using term_shifted [of x] by (simp add: v_def)
  from word_digits [OF this]
  have "dsum (term_digits x) = sg * uint v"
    by (simp add: term_digits_def Let_def v_def [symmetric] sg_def algebra_simps)
  also have "uint v = int (unat v)" by simp
  also have "sg * int (unat v) = sg * int (unat (f64_mant x)) * 2 ^ (f64_shift x mod 32)"
    using term_shifted(1) [of x] by (simp add: v_def)
  finally have "dsum (term_digits x) * 2 ^ (32 * (f64_shift x div 32)) =
      sg * int (unat (f64_mant x)) * 2 ^ (f64_shift x mod 32 + 32 * (f64_shift x div 32))"
    by (simp only: power_add mult.assoc)
  then show ?thesis unfolding mod_mult_div_eq units_def sg_def .
qed

lemma term_digits_bound: "length (term_digits x) = 3" "\<forall>j < 3. \<bar>term_digits x ! j\<bar> < 2 ^ 32"
proof -
  have u: "\<bar>uint (w :: u32)\<bar> < 2 ^ 32" for w
    using uint_bounded [of w] uint_nonnegative [of w] by simp
  show "length (term_digits x) = 3" by (simp add: term_digits_def Let_def)
  then have "\<forall>w \<in> set (term_digits x). \<bar>w\<bar> < 2 ^ 32"
    by (auto simp: term_digits_def Let_def u [simplified])
  then show "\<forall>j < 3. \<bar>term_digits x ! j\<bar> < 2 ^ 32"
    using \<open>length (term_digits x) = 3\<close> by (metis nth_mem)
qed

text \<open>What a term adds to the sum and to the flags.\<close>

definition fin_units :: "f64 \<Rightarrow> int" where
  "fin_units x = (if f64_finite x then units x else 0)"

definition term_flags :: "f64 \<Rightarrow> u8" where
  "term_flags x = zero_flag x OR (if f64_finite x then 0 else special_flag x)"

lemma sum_inv_mono: "sum_inv n s \<Longrightarrow> n \<le> m \<Longrightarrow> sum_inv m s"
  by (auto simp: sum_inv_def pending_def digit_bound_def)

lemma sum_inv_flags [simp]: "sum_inv n (s\<lparr>flags := f\<rparr>) = sum_inv n s"
  by (simp add: sum_inv_def pending_def)

lemma sum_units_flags [simp]: "sum_units (s\<lparr>flags := f\<rparr>) = sum_units s"
  by (simp add: sum_units_def)

lemma sum_add_ok:
  assumes inv: "sum_inv n s" and n: "n + 1 \<le> 2 ^ 60"
  shows "\<exists>s'. sum_add x s = Some s' \<and> sum_inv (n + 1) s' \<and>
    sum_units s' = sum_units s + fin_units x \<and> flags s' = flags s OR term_flags x"
proof -
  have inv': "sum_inv (n + 1) s" using inv by (rule sum_inv_mono) simp
  consider "\<not> f64_finite x" | "f64_finite x" "f64_mant x = 0" | "f64_finite x" "f64_mant x \<noteq> 0"
    by blast
  then show ?thesis
  proof cases
    case 1
    then show ?thesis using inv'
      by (simp add: sum_add_def Let_def f64_finite_def fin_units_def term_flags_def or.assoc)
  next
    case 2
    then show ?thesis using inv'
      by (simp add: sum_add_def Let_def f64_finite_def fin_units_def term_flags_def units_def)
  next
    case 3
    define i where "i = f64_shift x div 32"
    have "f64_shift x \<le> 2045" using 3 by (intro shift_bound) (simp add: f64_finite_def)
    then have i: "i \<le> 63" by (simp add: i_def)
    have "\<exists>s'. Option.bind (add_digits (digs (s\<lparr>flags := flags s OR zero_flag x\<rparr>)) i (term_digits x))
        (\<lambda>d'. touch i (i + length (term_digits x)) (s\<lparr>flags := flags s OR zero_flag x, digs := d'\<rparr>)) = Some s' \<and>
      sum_inv (n + 1 + 0) s' \<and>
      sum_units s' = sum_units (s\<lparr>flags := flags s OR zero_flag x\<rparr>) + dsum (term_digits x) * 2 ^ (32 * i) \<and>
      flags s' = flags (s\<lparr>flags := flags s OR zero_flag x\<rparr>)"
      by (rule join_ok) (use inv n i in \<open>auto simp: term_digits_bound(1) term_digits_bound(2) [simplified] DIGITS_def\<close>)
    then show ?thesis using 3
      by (simp add: sum_add_def Let_def f64_finite_def fin_units_def term_flags_def
          term_digits_bound(1) i_def [symmetric] term_digits_value [of x, folded i_def])
  qed
qed

section \<open>Compact sums\<close>

definition exact_units :: "exact \<Rightarrow> int" where
  "exact_units x = dsum (xd x) * 2 ^ (32 * xlo x)"

text \<open>
  \<open>canonical n x\<close>: no zero digit at either end, balanced digits below the last one, and the
  last within \<open>n\<close>: the form in which equal sums are equal values.
\<close>

definition canonical :: "int \<Rightarrow> exact \<Rightarrow> bool" where
  "canonical n x \<longleftrightarrow>
     xlo x + length (xd x) \<le> DIGITS \<and> (xd x = [] \<longrightarrow> xlo x = 0) \<and>
     (xd x \<noteq> [] \<longrightarrow> hd (xd x) \<noteq> 0 \<and> last (xd x) \<noteq> 0) \<and>
     (\<forall>j < length (xd x). if xlo x + j < 66 then balanced (xd x ! j) else \<bar>xd x ! j\<bar> \<le> n)"

lemma add_exact_ok:
  assumes inv: "sum_inv n s" and x: "canonical b x" and b: "0 \<le> b" "b < 2 ^ 31" "n + 1 + b \<le> 2 ^ 60"
  shows "\<exists>s'. add_exact x s = Some s' \<and> sum_inv (n + 1 + b) s' \<and>
    sum_units s' = sum_units s + exact_units x \<and> flags s' = flags s OR xflags x"
proof (cases "xd x = []")
  case True
  moreover have "sum_inv (n + 1 + b) s" using inv by (rule sum_inv_mono) (use b in simp)
  ultimately show ?thesis by (simp add: add_exact_def Let_def exact_units_def)
next
  case False
  have "\<bar>xd x ! j\<bar> < 2 ^ 32" if "j < length (xd x)" for j
  proof (cases "xlo x + j < 66")
    case True
    with x that have "balanced (xd x ! j)" by (simp add: canonical_def)
    then show ?thesis by (auto simp: balanced_def)
  next
    case False
    with x that have "\<bar>xd x ! j\<bar> \<le> b" unfolding canonical_def by auto
    with b(2) show ?thesis by simp
  qed
  moreover have "\<forall>j < length (xd x). xlo x + j = 66 \<longrightarrow> \<bar>xd x ! j\<bar> \<le> b"
    using x unfolding canonical_def by auto
  moreover have "xlo x + length (xd x) \<le> DIGITS" using x by (simp add: canonical_def)
  ultimately have "\<exists>s'. Option.bind (add_digits (digs (s\<lparr>flags := flags s OR xflags x\<rparr>)) (xlo x) (xd x))
        (\<lambda>d'. touch (xlo x) (xlo x + length (xd x)) (s\<lparr>flags := flags s OR xflags x, digs := d'\<rparr>)) = Some s' \<and>
      sum_inv (n + 1 + b) s' \<and>
      sum_units s' = sum_units (s\<lparr>flags := flags s OR xflags x\<rparr>) + dsum (xd x) * 2 ^ (32 * xlo x) \<and>
      flags s' = flags (s\<lparr>flags := flags s OR xflags x\<rparr>)"
    using inv b by (intro join_ok) auto
  then show ?thesis using False by (simp add: add_exact_def Let_def exact_units_def)
qed

lemma trim_lo_spec:
  "l \<le> h \<Longrightarrow> l \<le> trim_lo d l h \<and> trim_lo d l h \<le> h \<and> (\<forall>j. l \<le> j \<and> j < trim_lo d l h \<longrightarrow> d ! j = 0) \<and>
    (trim_lo d l h < h \<longrightarrow> d ! trim_lo d l h \<noteq> 0)"
proof (induction d l h rule: trim_lo.induct)
  case (1 d l h)
  show ?case
  proof (cases "l < h \<and> d ! l = 0")
    case True
    then have "trim_lo d l h = trim_lo d (l + 1) h" by (subst trim_lo.simps) simp
    moreover have "\<forall>j. l \<le> j \<and> j < trim_lo d (l + 1) h \<longrightarrow> d ! j = 0"
    proof (intro allI impI)
      fix j assume "l \<le> j \<and> j < trim_lo d (l + 1) h"
      then show "d ! j = 0" using 1 True by (cases "j = l") auto
    qed
    ultimately show ?thesis using 1 True by simp
  next
    case False
    then have "trim_lo d l h = l" by (subst trim_lo.simps) (simp only: if_False)
    with False "1.prems" show ?thesis by auto
  qed
qed

lemma trim_hi_spec:
  "l \<le> h \<Longrightarrow> l \<le> trim_hi d l h \<and> trim_hi d l h \<le> h \<and> (\<forall>j. trim_hi d l h \<le> j \<and> j < h \<longrightarrow> d ! j = 0) \<and>
    (l < trim_hi d l h \<longrightarrow> d ! (trim_hi d l h - 1) \<noteq> 0)"
proof (induction d l h rule: trim_hi.induct)
  case (2 d l h)
  show ?case
  proof (cases "l < Suc h \<and> d ! h = 0")
    case True
    then have "l \<le> h" by simp
    with "2.IH" [OF True] True show ?thesis by (auto simp: less_Suc_eq)
  next
    case False
    then have "trim_hi d l (Suc h) = Suc h" by (simp only: trim_hi.simps if_False)
    with False "2.prems" show ?thesis by auto
  qed
qed simp

text \<open>The 67 digits a compact sum stands for, and the trimming of their zero ends.\<close>

definition expand :: "exact \<Rightarrow> int list" where
  "expand x = replicate (xlo x) 0 @ xd x @ replicate (DIGITS - (xlo x + length (xd x))) 0"

definition strip :: "int list \<Rightarrow> int list" where
  "strip d = rev (dropWhile (\<lambda>w. w = 0) (rev (dropWhile (\<lambda>w. w = 0) d)))"

lemma dsum_append: "dsum (a @ b) = dsum a + 2 ^ (32 * length a) * dsum b"
  by (induction a) (simp_all add: power_add algebra_simps)

lemma dsum_expand: "dsum (expand x) = exact_units x"
  by (simp add: expand_def dsum_append exact_units_def)

lemma takeWhile_zeros: "u \<noteq> [] \<Longrightarrow> hd u \<noteq> 0 \<Longrightarrow> takeWhile (\<lambda>w. w = 0) (replicate n (0 :: int) @ u @ z) = replicate n 0"
  by (induction n) (cases u; simp)+

lemma dropWhile_zeros: "u \<noteq> [] \<Longrightarrow> hd u \<noteq> 0 \<Longrightarrow> dropWhile (\<lambda>w. w = 0) (replicate n (0 :: int) @ u @ z) = u @ z"
  by (induction n) (cases u; simp)+

lemma strip_zeros:
  assumes "u \<noteq> []" "hd u \<noteq> 0" "last u \<noteq> 0"
  shows "strip (replicate n 0 @ u @ replicate k 0) = u"
proof -
  have "dropWhile (\<lambda>w. w = 0) (replicate k 0 @ rev u @ []) = rev u @ []"
    by (rule dropWhile_zeros) (use assms in \<open>simp_all add: hd_rev\<close>)
  then show ?thesis by (simp add: strip_def dropWhile_zeros [OF assms(1,2)])
qed

lemma dropWhile_all: "\<forall>w \<in> set d. w = 0 \<Longrightarrow> dropWhile (\<lambda>w. w = (0 :: int)) d = []"
  by (induction d) auto

lemma canonical_strip:
  assumes "canonical n x"
  shows "xd x = strip (expand x)"
    and "xlo x = (if strip (expand x) = [] then 0 else length (takeWhile (\<lambda>w. w = 0) (expand x)))"
proof -
  show d: "xd x = strip (expand x)"
  proof (cases "xd x = []")
    case True
    then have z: "dropWhile (\<lambda>w. w = 0) (expand x) = []"
      by (intro dropWhile_all) (auto simp: expand_def)
    show ?thesis unfolding strip_def z True by simp
  next
    case False
    then show ?thesis using assms unfolding expand_def by (intro strip_zeros [symmetric]) (simp_all add: canonical_def)
  qed
  show "xlo x = (if strip (expand x) = [] then 0 else length (takeWhile (\<lambda>w. w = 0) (expand x)))"
    using assms takeWhile_zeros [of "xd x" "xlo x"] unfolding d [symmetric]
    by (auto simp: canonical_def expand_def)
qed

text \<open>Canonical sums of the same value are the same digits.\<close>

lemma canonical_unique:
  assumes x: "canonical n x" and y: "canonical m y" and eq: "exact_units x = exact_units y"
  shows "xd x = xd y" "xlo x = xlo y"
proof -
  have bal: "\<forall>i < length (expand z) - 1. balanced (expand z ! i)" if "canonical k z" for k z
  proof (intro allI impI)
    fix i assume i: "i < length (expand z) - 1"
    have l: "length (expand z) = DIGITS" using that by (simp add: canonical_def expand_def)
    show "balanced (expand z ! i)"
    proof (cases "xlo z \<le> i \<and> i < xlo z + length (xd z)")
      case True
      then have "expand z ! i = xd z ! (i - xlo z)" by (auto simp: expand_def nth_append)
      moreover have "balanced (xd z ! (i - xlo z))"
        using that True i l unfolding canonical_def by (auto simp: DIGITS_def)
      ultimately show ?thesis by simp
    next
      case False
      then have "expand z ! i = 0" using i l by (auto simp: expand_def nth_append DIGITS_def)
      then show ?thesis by (simp add: balanced_def)
    qed
  qed
  have "expand x = expand y"
  proof (rule balanced_unique)
    show "length (expand x) = length (expand y)" using x y by (simp add: canonical_def expand_def)
  qed (use x y bal eq in \<open>simp_all add: dsum_expand\<close>)
  with canonical_strip [OF x] canonical_strip [OF y]
  show "xd x = xd y" "xlo x = xlo y" by simp_all
qed

lemma drop_take_zero:
  assumes "l < h" "h \<le> length d" "d ! l \<noteq> 0" "d ! (h - 1) \<noteq> 0"
  shows "hd (take (h - l) (drop l d)) \<noteq> 0" "last (take (h - l) (drop l d)) \<noteq> (0 :: int)"
    "take (h - l) (drop l d) \<noteq> []"
proof -
  have len: "length (take (h - l) (drop l d)) = h - l" using assms by simp
  then show ne: "take (h - l) (drop l d) \<noteq> []" using assms by auto
  show "hd (take (h - l) (drop l d)) \<noteq> 0" using assms ne by (simp add: hd_conv_nth)
  have "last (take (h - l) (drop l d)) = take (h - l) (drop l d) ! (h - l - 1)"
    using last_conv_nth [OF ne] len by simp
  also have "\<dots> = d ! (h - 1)" using assms by simp
  finally show "last (take (h - l) (drop l d)) \<noteq> 0" using assms by simp
qed

lemma dsum_zero: "\<forall>w \<in> set d. w = 0 \<Longrightarrow> dsum d = 0"
  by (induction d) auto

lemma dsum_slice:
  assumes "l \<le> h" "h \<le> length d" "\<forall>j < length d. j < l \<or> h \<le> j \<longrightarrow> d ! j = 0"
  shows "dsum d = dsum (take (h - l) (drop l d)) * 2 ^ (32 * l)"
proof -
  have "d = take l d @ take (h - l) (drop l d) @ drop h d"
    using assms(1) by (metis append_take_drop_id drop_drop le_add_diff_inverse2)
  then have "dsum d = dsum (take l d) + 2 ^ (32 * length (take l d)) *
      (dsum (take (h - l) (drop l d)) + 2 ^ (32 * length (take (h - l) (drop l d))) * dsum (drop h d))"
    by (metis dsum_append)
  moreover have "dsum (take l d) = 0" "dsum (drop h d) = 0"
    using assms by (auto intro!: dsum_zero simp: in_set_conv_nth)
  ultimately show ?thesis using assms by simp
qed

lemma clamp_id: "\<bar>w\<bar> < 2 ^ 31 \<Longrightarrow> clamp_i32 w = w" "balanced w \<Longrightarrow> clamp_i32 w = w"
  by (auto simp: clamp_i32_def balanced_def)

lemma trim_hi_le: "trim_hi d l h \<le> h"
  by (induction d l h rule: trim_hi.induct) auto

lemma trim_ends:
  assumes out: "\<forall>j < DIGITS. j < l0 \<or> h0 \<le> j \<longrightarrow> d ! j = 0" and h0: "h0 \<le> DIGITS"
  defines "l \<equiv> trim_lo d l0 h0"
  defines "h \<equiv> trim_hi d l h0"
  shows "h \<le> l \<Longrightarrow> \<forall>j < DIGITS. d ! j = 0"
    and "l < h \<Longrightarrow> h \<le> DIGITS \<and> (\<forall>j < DIGITS. j < l \<or> h \<le> j \<longrightarrow> d ! j = 0) \<and> d ! l \<noteq> 0 \<and> d ! (h - 1) \<noteq> 0"
proof -
  have hh: "h \<le> h0" unfolding h_def by (rule trim_hi_le)
  show "\<forall>j < DIGITS. d ! j = 0" if hl: "h \<le> l"
  proof (intro allI impI)
    fix j assume j: "j < DIGITS"
    show "d ! j = 0"
    proof (cases "l0 \<le> j \<and> j < h0")
      case True
      then have "l0 \<le> h0" by simp
      from trim_lo_spec [OF this, of d] have L: "l \<le> h0" "j < l \<longrightarrow> d ! j = 0"
        using True by (simp_all add: l_def)
      from trim_hi_spec [OF L(1), of d] have "h \<le> j \<longrightarrow> d ! j = 0" using True by (simp add: h_def)
      with L(2) hl show ?thesis by linarith
    next
      case False
      with out j show ?thesis by (metis not_le)
    qed
  qed
  show "h \<le> DIGITS \<and> (\<forall>j < DIGITS. j < l \<or> h \<le> j \<longrightarrow> d ! j = 0) \<and> d ! l \<noteq> 0 \<and> d ! (h - 1) \<noteq> 0"
    if lh: "l < h"
  proof -
    have "l0 \<le> h0"
    proof (rule ccontr)
      assume "\<not> l0 \<le> h0"
      then have "\<not> (l0 < h0 \<and> d ! l0 = 0)" by simp
      then have "l = l0" unfolding l_def by (subst trim_lo.simps) (simp only: if_False)
      with \<open>\<not> l0 \<le> h0\<close> hh lh show False by simp
    qed
    from trim_lo_spec [OF this, of d] have L: "l0 \<le> l" "l \<le> h0" "\<forall>j. l0 \<le> j \<and> j < l \<longrightarrow> d ! j = 0"
      "l < h0 \<longrightarrow> d ! l \<noteq> 0" by (simp_all add: l_def)
    from trim_hi_spec [OF L(2), of d] have H: "\<forall>j. h \<le> j \<and> j < h0 \<longrightarrow> d ! j = 0" "l < h \<longrightarrow> d ! (h - 1) \<noteq> 0"
      by (simp_all add: h_def)
    have "d ! j = 0" if "j < DIGITS" "j < l \<or> h \<le> j" for j
      using out L(3) H(1) that by (cases "l0 \<le> j \<and> j < h0") (auto simp: not_le not_less)
    moreover have "l < h0" using lh hh by simp
    ultimately show ?thesis using L(4) H(2) hh h0 lh by simp
  qed
qed

text \<open>A slice of balanced digits with nonzero ends is a canonical sum.\<close>

lemma slice_canonical:
  assumes ld: "length d = DIGITS" and b: "\<forall>j < 66. balanced (d ! j)" "\<bar>d ! 66\<bar> \<le> n"
    and lh: "l < h" "h \<le> DIGITS" "d ! l \<noteq> 0" "d ! (h - 1) \<noteq> 0" and n: "n < 2 ^ 31"
  shows "canonical n \<lparr>xlo = l, xd = take (h - l) (drop l d), xflags = f\<rparr>"
    and "map clamp_i32 (take (h - l) (drop l d)) = take (h - l) (drop l d)"
proof -
  let ?r = "take (h - l) (drop l d)"
  have len: "length ?r = h - l" using lh ld by simp
  have bnd: "if l + j < 66 then balanced (?r ! j) else \<bar>?r ! j\<bar> \<le> n" if j: "j < h - l" for j
  proof -
    have "l + j < 67" using j lh by (simp add: DIGITS_def)
    moreover have "?r ! j = d ! (l + j)" using j lh ld by simp
    moreover from \<open>l + j < 67\<close> have "l + j < 66 \<or> l + j = 66" by linarith
    ultimately show ?thesis using b by auto
  qed
  have hl: "h \<le> length d" using lh ld by simp
  have "l + (h - l) \<le> DIGITS" using lh by simp
  then show "canonical n \<lparr>xlo = l, xd = ?r, xflags = f\<rparr>"
    unfolding canonical_def exact.simps len
    using drop_take_zero [OF lh(1) hl lh(3,4)] bnd lh(1,2) by blast
  show "map clamp_i32 ?r = ?r"
  proof (rule map_idI)
    fix w assume "w \<in> set ?r"
    then obtain j where "j < length ?r" "w = ?r ! j" by (metis in_set_conv_nth)
    with bnd [of j] n len show "clamp_i32 w = w" by (auto intro: clamp_id split: if_splits)
  qed
qed

lemma to_exact_ok:
  assumes inv: "sum_inv n s" and n: "0 \<le> n" "n < 2 ^ 31"
  shows "\<exists>s' x. to_exact s = Some (s', x) \<and> sum_inv n s' \<and> sum_units s' = sum_units s \<and> flags s' = flags s \<and>
    canonical n x \<and> exact_units x = sum_units s \<and> xflags x = flags s"
proof -
  from inv have "pending n s" by (simp add: sum_inv_def)
  moreover have "n \<le> 2 ^ 62" using n by simp
  ultimately obtain s' where c: "carry s = Some s'" and i': "sum_inv n s'"
    and t: "terms s' = 0" and u: "sum_units s' = sum_units s" and f: "flags s' = flags s"
    using carry_ok by blast
  define d where "d = digs s'"
  have P: "length d = DIGITS" "\<forall>j < 66. balanced (d ! j)" "\<bar>d ! 66\<bar> \<le> n" "hi s' \<le> DIGITS"
    "\<forall>j < DIGITS. j < lo s' \<or> hi s' \<le> j \<longrightarrow> d ! j = 0"
    using i' t unfolding sum_inv_def pending_def digit_bound_def by (simp_all add: d_def slack_0)
  define l where "l = trim_lo d (lo s') (hi s')"
  define h where "h = trim_hi d l (hi s')"
  have T: "to_exact s = (if h \<le> l then Some (s', \<lparr>xlo = 0, xd = [], xflags = flags s'\<rparr>)
      else if length d < h then None
      else Some (s', \<lparr>xlo = l, xd = map clamp_i32 (take (h - l) (drop l d)), xflags = flags s'\<rparr>))"
    unfolding to_exact_def c by (simp add: Let_def d_def l_def h_def)
  show ?thesis
  proof (cases "h \<le> l")
    case True
    with trim_ends(1) [OF P(5,4)] have "\<forall>j < DIGITS. d ! j = 0" by (simp add: l_def h_def)
    then have "dsum d = 0" by (intro dsum_zero) (auto simp: in_set_conv_nth P(1))
    then have "sum_units s = 0" using u by (simp add: sum_units_def d_def)
    with True T i' u f show ?thesis by (simp add: canonical_def exact_units_def)
  next
    case False
    then have lh: "l < h" by simp
    with trim_ends(2) [OF P(5,4)] have e: "h \<le> DIGITS" "d ! l \<noteq> 0" "d ! (h - 1) \<noteq> 0"
      "\<forall>j < DIGITS. j < l \<or> h \<le> j \<longrightarrow> d ! j = 0" by (simp_all add: l_def h_def)
    note C = slice_canonical [OF P(1-3) lh e(1-3) n(2)]
    have "dsum d = dsum (take (h - l) (drop l d)) * 2 ^ (32 * l)"
      by (rule dsum_slice) (use lh e P(1) in auto)
    then have "exact_units \<lparr>xlo = l, xd = take (h - l) (drop l d), xflags = flags s\<rparr> = sum_units s"
      using u by (simp add: exact_units_def sum_units_def d_def)
    moreover have "to_exact s = Some (s', \<lparr>xlo = l, xd = take (h - l) (drop l d), xflags = flags s\<rparr>)"
      using False T e(1) P(1) f C(2) by simp
    ultimately show ?thesis using i' u f C(1) by auto
  qed
qed

section \<open>Sums of lists of terms\<close>

fun add_all :: "f64 list \<Rightarrow> exact_sum \<Rightarrow> exact_sum option" where
  "add_all [] s = Some s"
| "add_all (x # xs) s = Option.bind (sum_add x s) (add_all xs)"

fun add_parts :: "exact list \<Rightarrow> exact_sum \<Rightarrow> exact_sum option" where
  "add_parts [] s = Some s"
| "add_parts (x # xs) s = Option.bind (add_exact x s) (add_parts xs)"

text \<open>The exact sum of a list of terms, and of a list of blocks, each summed first.\<close>

definition exact_of :: "f64 list \<Rightarrow> exact option" where
  "exact_of xs = map_option snd (Option.bind (add_all xs sum_default) to_exact)"

definition exact_of_parts :: "exact list \<Rightarrow> exact option" where
  "exact_of_parts xs = map_option snd (Option.bind (add_parts xs sum_default) to_exact)"

definition total :: "f64 list \<Rightarrow> int" where
  "total xs = (\<Sum>x\<leftarrow>xs. fin_units x)"

definition or_flags :: "u8 list \<Rightarrow> u8" where
  "or_flags fs = foldr (OR) fs 0"

lemma or_flags_simps [simp]:
  "or_flags [] = 0" "or_flags (f # fs) = f OR or_flags fs" "or_flags (fs @ gs) = or_flags fs OR or_flags gs"
  by (simp_all add: or_flags_def) (induction fs, simp_all add: or.assoc)

lemma bit_or_flags: "bit (or_flags fs) n \<longleftrightarrow> (\<exists>f \<in> set fs. bit f n)"
  by (induction fs) (auto simp: bit_or_iff)

lemma or_flags_cong: "set fs = set gs \<Longrightarrow> or_flags fs = or_flags gs"
  by (rule bit_eqI) (simp add: bit_or_flags)

lemma total_simps [simp]:
  "total [] = 0" "total (x # xs) = fin_units x + total xs" "total (xs @ ys) = total xs + total ys"
  by (simp_all add: total_def)

lemma total_mset: "mset xs = mset ys \<Longrightarrow> total xs = total ys"
  unfolding total_def by (metis mset_map sum_mset_sum_list)

lemma add_all_ok:
  assumes "sum_inv n s" "n + int (length xs) \<le> 2 ^ 60"
  shows "\<exists>s'. add_all xs s = Some s' \<and> sum_inv (n + int (length xs)) s' \<and>
    sum_units s' = sum_units s + total xs \<and> flags s' = flags s OR or_flags (map term_flags xs)"
  using assms
proof (induction xs arbitrary: s n)
  case (Cons x xs)
  from Cons.prems have "n + 1 \<le> 2 ^ 60" by simp
  from sum_add_ok [OF Cons.prems(1) this, of x] obtain s1 where s1: "sum_add x s = Some s1"
    "sum_inv (n + 1) s1" "sum_units s1 = sum_units s + fin_units x" "flags s1 = flags s OR term_flags x" by blast
  have "n + 1 + int (length xs) \<le> 2 ^ 60" using Cons.prems(2) by simp
  from Cons.IH [OF s1(2) this] s1 show ?case by (auto simp: or.assoc algebra_simps)
qed simp

lemma add_parts_ok:
  assumes "sum_inv n s" "list_all2 canonical bs xs" "\<forall>b \<in> set bs. 0 \<le> b \<and> b < 2 ^ 31"
    and "n + (\<Sum>b\<leftarrow>bs. 1 + b) \<le> 2 ^ 60"
  shows "\<exists>s'. add_parts xs s = Some s' \<and> sum_inv (n + (\<Sum>b\<leftarrow>bs. 1 + b)) s' \<and>
    sum_units s' = sum_units s + (\<Sum>x\<leftarrow>xs. exact_units x) \<and>
    flags s' = flags s OR or_flags (map xflags xs)"
  using assms(2,1,3,4)
proof (induction bs xs arbitrary: s n rule: list_all2_induct)
  case (Cons b bs x xs)
  have "0 \<le> (\<Sum>b\<leftarrow>bs. 1 + b)" using Cons.prems(2) by (intro sum_list_nonneg) auto
  then have "n + 1 + b \<le> 2 ^ 60" using Cons.prems(3) by simp
  moreover have "0 \<le> b" "b < 2 ^ 31" using Cons.prems(2) by auto
  ultimately obtain s1 where s1: "add_exact x s = Some s1" "sum_inv (n + 1 + b) s1"
    "sum_units s1 = sum_units s + exact_units x" "flags s1 = flags s OR xflags x"
    using add_exact_ok [OF Cons.prems(1) Cons.hyps(1)] by blast
  have "n + 1 + b + (\<Sum>b\<leftarrow>bs. 1 + b) \<le> 2 ^ 60" using Cons.prems(3) by simp
  from Cons.IH [OF s1(2) _ this] Cons.prems(2) s1 show ?case
    by (auto simp: or.assoc algebra_simps)
qed simp

lemma exact_of_ok:
  assumes "length xs < 2 ^ 31"
  shows "\<exists>x. exact_of xs = Some x \<and> canonical (int (length xs)) x \<and> exact_units x = total xs \<and>
    xflags x = or_flags (map term_flags xs)"
proof -
  have n: "int (length xs) < 2 ^ 31" using assms by (metis of_nat_less_iff of_nat_numeral of_nat_power)
  then have "0 + int (length xs) \<le> 2 ^ 60" by simp
  from add_all_ok [OF sum_default_inv this] obtain s where s: "add_all xs sum_default = Some s"
    "sum_inv (int (length xs)) s" "sum_units s = total xs" "flags s = or_flags (map term_flags xs)"
    by (auto simp: sum_default_def sum_units_def)
  from to_exact_ok [OF s(2) _ n] s show ?thesis by (auto simp: exact_of_def)
qed

section \<open>Equal sums are equal values\<close>

lemma exact_unique:
  assumes "canonical n x" "canonical m y" "exact_units x = exact_units y" "xflags x = xflags y"
  shows "x = y"
  using canonical_unique [OF assms(1-3)] assms(4) by simp

lemma order_independent_aux:
  assumes "mset xs = mset ys" "length xs < 2 ^ 31"
  shows "exact_of xs = exact_of ys"
proof -
  have l: "length ys < 2 ^ 31" using assms by (metis size_mset)
  have f: "or_flags (map term_flags xs) = or_flags (map term_flags ys)"
    using mset_eq_setD [OF assms(1)] by (intro or_flags_cong) simp
  from exact_of_ok [OF assms(2)] exact_of_ok [OF l] obtain x y where
    "exact_of xs = Some x" "exact_of ys = Some y" "canonical (int (length xs)) x"
    "canonical (int (length ys)) y" "exact_units x = exact_units y" "xflags x = xflags y"
    using total_mset [OF assms(1)] f by auto
  with exact_unique show ?thesis by metis
qed

lemma blocked_aux:
  assumes "length (concat xss) + length xss < 2 ^ 31"
  shows "\<exists>ps. map exact_of xss = map Some ps \<and> exact_of_parts ps = exact_of (concat xss)"
proof -
  have sz: "length xs < 2 ^ 31" if "xs \<in> set xss" for xs
  proof -
    have "length xs \<le> length (concat xss)"
      using that member_le_sum_list [of "length xs" "map length xss"] by (simp add: length_concat)
    then show ?thesis using assms by simp
  qed
  have "\<exists>ps. map exact_of xss = map Some ps \<and> list_all2 canonical (map (\<lambda>xs. int (length xs)) xss) ps \<and>
      (\<Sum>p\<leftarrow>ps. exact_units p) = total (concat xss) \<and>
      or_flags (map xflags ps) = or_flags (map term_flags (concat xss))"
    using sz
  proof (induction xss)
    case (Cons xs xss)
    from Cons.prems exact_of_ok [of xs] obtain p where "exact_of xs = Some p"
      "canonical (int (length xs)) p" "exact_units p = total xs"
      "xflags p = or_flags (map term_flags xs)" by auto
    moreover from Cons obtain ps where "map exact_of xss = map Some ps \<and>
      list_all2 canonical (map (\<lambda>xs. int (length xs)) xss) ps \<and>
      (\<Sum>p\<leftarrow>ps. exact_units p) = total (concat xss) \<and>
      or_flags (map xflags ps) = or_flags (map term_flags (concat xss))" by auto
    ultimately show ?case by (intro exI [of _ "p # ps"]) simp
  qed simp
  then obtain ps where ps: "map exact_of xss = map Some ps"
    "list_all2 canonical (map (\<lambda>xs. int (length xs)) xss) ps"
    "(\<Sum>p\<leftarrow>ps. exact_units p) = total (concat xss)"
    "or_flags (map xflags ps) = or_flags (map term_flags (concat xss))" by blast
  define N where "N = (\<Sum>b\<leftarrow>map (\<lambda>xs. int (length xs)) xss. 1 + b)"
  have "N = int (length (concat xss) + length xss)"
    unfolding N_def by (induction xss) auto
  then have N: "N < 2 ^ 31" "0 \<le> N" using assms by (simp_all flip: of_nat_add)
  have "\<forall>b \<in> set (map (\<lambda>xs. int (length xs)) xss). 0 \<le> b \<and> b < 2 ^ 31"
    using sz by (auto simp flip: of_nat_less_iff)
  moreover have "0 + N \<le> 2 ^ 60" using N by simp
  ultimately obtain s where s: "add_parts ps sum_default = Some s" "sum_inv N s"
    "sum_units s = total (concat xss)" "flags s = or_flags (map term_flags (concat xss))"
    using add_parts_ok [OF sum_default_inv ps(2)] ps(3,4)
    by (auto simp: N_def sum_default_def sum_units_def)
  from to_exact_ok [OF s(2) N(2,1)] s obtain x where x: "exact_of_parts ps = Some x"
    "canonical N x" "exact_units x = total (concat xss)" "xflags x = or_flags (map term_flags (concat xss))"
    by (auto simp: exact_of_parts_def)
  have "length (concat xss) < 2 ^ 31" using assms by simp
  from exact_of_ok [OF this] obtain y where y: "exact_of (concat xss) = Some y"
    "canonical (int (length (concat xss))) y" "exact_units y = total (concat xss)"
    "xflags y = or_flags (map term_flags (concat xss))" by auto
  have "x = y" using exact_unique [OF x(2) y(2)] x(3,4) y(3,4) by simp
  with ps x y show ?thesis by auto
qed

section \<open>Sliding windows\<close>

text \<open>
  \<open>WindowSum\<close>: the digits of the finite terms, and the counts of the terms other than
  \<open>-0.0\<close>, of the infinities and of the NaNs. A term leaves by adding its negation. A count that
  would fall below zero is an underflow, a panic: \<open>None\<close>.
\<close>

record window_sum =
  wsum :: exact_sum
  wn :: "nat list"

definition window_default :: window_sum where
  "window_default = \<lparr>wsum = sum_default, wn = [0, 0, 0, 0]\<rparr>"

definition f64_kinds :: "f64 \<Rightarrow> bool list" where
  "f64_kinds x =
     [x \<noteq> NEG_ZERO, x = 0x7ff0000000000000, x = 0xfff0000000000000, f64_exp x = 0x7ff \<and> f64_frac x \<noteq> 0]"

fun count_kinds :: "bool \<Rightarrow> nat list \<Rightarrow> bool list \<Rightarrow> nat list option" where
  "count_kinds join (n # ns) (k # ks) =
     (if k \<and> join then map_option (Cons (n + 1)) (count_kinds join ns ks)
      else if k then if n = 0 then None else map_option (Cons (n - 1)) (count_kinds join ns ks)
      else map_option (Cons n) (count_kinds join ns ks))"
| "count_kinds join ns ks = Some ns"

definition window_step :: "f64 \<Rightarrow> bool \<Rightarrow> window_sum \<Rightarrow> window_sum option" where
  "window_step x join w =
     Option.bind (count_kinds join (wn w) (f64_kinds x)) (\<lambda>n.
       let w' = w\<lparr>wn := n\<rparr>
       in if f64_finite x
          then map_option (\<lambda>s. w'\<lparr>wsum := s\<rparr>) (sum_add (if join then x else f64_minus x) (wsum w'))
          else Some w')"

text \<open>The sum that \<open>WindowSum::value\<close> rounds: the digits' sum under the counted flags.\<close>

definition count_flags :: "nat list \<Rightarrow> u8" where
  "count_flags n =
     foldl (\<lambda>f (bit, c). f OR bit) 0
       (filter (\<lambda>(bit, c). 0 < c) (zip [NOT_NEG_ZERO, POS_INF, NEG_INF, NAN] n))"

definition window_exact :: "window_sum \<Rightarrow> exact option" where
  "window_exact w = map_option (\<lambda>(s, e). e\<lparr>xflags := count_flags (wn w)\<rparr>) (to_exact (wsum w))"

datatype window_op = Join f64 | Leave f64

fun run_window :: "window_op list \<Rightarrow> window_sum \<Rightarrow> window_sum option" where
  "run_window [] w = Some w"
| "run_window (Join x # ops) w = Option.bind (window_step x True w) (run_window ops)"
| "run_window (Leave x # ops) w = Option.bind (window_step x False w) (run_window ops)"

text \<open>The window's terms after the steps, and whether each term that leaves was in it.\<close>

fun window_after :: "window_op list \<Rightarrow> f64 multiset \<Rightarrow> f64 multiset" where
  "window_after [] m = m"
| "window_after (Join x # ops) m = window_after ops (add_mset x m)"
| "window_after (Leave x # ops) m = window_after ops (m - {#x#})"

fun window_ok :: "window_op list \<Rightarrow> f64 multiset \<Rightarrow> bool" where
  "window_ok [] m \<longleftrightarrow> True"
| "window_ok (Join x # ops) m \<longleftrightarrow> window_ok ops (add_mset x m)"
| "window_ok (Leave x # ops) m \<longleftrightarrow> x \<in># m \<and> window_ok ops (m - {#x#})"

text \<open>The counts and the units a window's terms account for.\<close>

definition kind_counts :: "f64 multiset \<Rightarrow> nat list" where
  "kind_counts m = map (\<lambda>i. size (filter_mset (\<lambda>x. f64_kinds x ! i) m)) [0, 1, 2, 3]"

definition window_units :: "f64 multiset \<Rightarrow> int" where
  "window_units m = (\<Sum>x \<in># m. fin_units x)"

lemma count_join: "count_kinds True (kind_counts m) (f64_kinds x) = Some (kind_counts (add_mset x m))"
  by (simp add: kind_counts_def f64_kinds_def)

lemma filter_remove: "x \<in># m \<Longrightarrow> P x \<Longrightarrow> 0 < size (filter_mset P m) \<and>
    size (filter_mset P (m - {#x#})) = size (filter_mset P m) - 1"
  by (metis Diff_iff bot_nat_0.not_eq_extremum diff_Suc_1 filter_mset_add_mset insert_DiffM size_add_mset size_empty
      zero_less_Suc)

lemma filter_keep: "\<not> P x \<Longrightarrow> filter_mset P (m - {#x#}) = filter_mset P m"
  by (simp add: diff_union_swap2 filter_mset_eq_conv)

lemma count_leave:
  assumes "x \<in># m"
  shows "count_kinds False (kind_counts m) (f64_kinds x) = Some (kind_counts (m - {#x#}))"
proof -
  have "count_kinds False (map (\<lambda>i. size (filter_mset (\<lambda>x. f64_kinds x ! i) m)) ks) (map ((!) (f64_kinds x)) ks)
      = Some (map (\<lambda>i. size (filter_mset (\<lambda>x. f64_kinds x ! i) (m - {#x#}))) ks)" for ks
  proof (induction ks)
    case (Cons i ks)
    show ?case
    proof (cases "f64_kinds x ! i")
      case True
      from filter_remove [of x m "\<lambda>x. f64_kinds x ! i", OF assms True] Cons True
      show ?thesis by (simp del: filter_diff_mset) (use assms in blast)
    next
      case False
      from filter_keep [of "\<lambda>x. f64_kinds x ! i" x m, OF False] Cons False
      show ?thesis by (simp del: filter_diff_mset)
    qed
  qed simp
  from this [of "[0, 1, 2, 3]"] show ?thesis by (simp add: kind_counts_def f64_kinds_def)
qed

text \<open>The bits of a double.\<close>

lemma bit_neg_zero: "bit NEG_ZERO n \<longleftrightarrow> n = 63"
proof -
  have e: "NEG_ZERO = push_bit 63 1" by (simp add: NEG_ZERO_def)
  show ?thesis unfolding e by (auto simp only: bit_push_bit_iff bit_1_iff) simp_all
qed

lemma mask_11: "(0x7ff :: u64) = mask 11"
  by (simp add: mask_numeral)

lemma neg_bit: "f64_neg x \<longleftrightarrow> bit x 63"
  unfolding f64_neg_def
proof
  assume "bit x 63"
  show "drop_bit 63 x = 1"
  proof (rule bit_word_eqI)
    fix n assume "n < LENGTH(64)" show "bit (drop_bit 63 x) n = bit 1 n"
      using \<open>bit x 63\<close> \<open>n < LENGTH(64)\<close>
      by (cases n) (auto simp: bit_simps bit_1_iff dest: bit_imp_le_length)
  qed
next
  assume "drop_bit 63 x = 1"
  then have "bit (drop_bit 63 x) 0" by simp
  then show "bit x 63" by (simp add: bit_drop_bit_eq)
qed

lemma units_minus: "fin_units (f64_minus x) = - fin_units x"
proof -
  have e: "f64_exp (f64_minus x) = f64_exp x"
    unfolding f64_exp_def f64_minus_def mask_11
    by (rule bit_word_eqI) (auto simp only: bit_simps bit_neg_zero o_apply)
  have f: "f64_frac (f64_minus x) = f64_frac x"
    unfolding f64_frac_def f64_minus_def
    by (rule bit_word_eqI) (auto simp only: bit_simps bit_neg_zero)
  have n: "f64_neg (f64_minus x) \<longleftrightarrow> \<not> f64_neg x"
    unfolding neg_bit f64_minus_def by (simp only: bit_xor_iff bit_neg_zero) simp
  show ?thesis
    by (simp add: fin_units_def units_def f64_finite_def f64_mant_def f64_shift_def e f n)
qed

lemma inf_pattern: "bit (0x7ff0000000000000 :: f64) n \<longleftrightarrow> 52 \<le> n \<and> n < 63"
proof -
  have e: "(0x7ff0000000000000 :: f64) = push_bit 52 (mask 11)" by (simp add: mask_numeral)
  show ?thesis unfolding e by (auto simp only: bit_push_bit_iff bit_mask_iff) simp_all
qed

lemma special_bits:
  assumes "f64_exp x = 0x7ff" "f64_frac x = 0"
  shows "x = (if f64_neg x then 0xfff0000000000000 else 0x7ff0000000000000)"
proof -
  have hi: "bit x n" if "52 \<le> n" "n < 63" for n
  proof -
    have "bit (f64_exp x) (n - 52)" unfolding assms(1) mask_11 using that by (simp only: bit_mask_iff) auto
    with that show ?thesis unfolding f64_exp_def by (simp add: bit_simps)
  qed
  have l: "\<not> bit x n" if "n < 52" for n
  proof
    assume "bit x n"
    then have "bit (f64_frac x) n" unfolding f64_frac_def using that by (simp only: bit_simps) simp
    then show False by (simp add: assms(2))
  qed
  have "x = (if f64_neg x then 0x7ff0000000000000 OR NEG_ZERO else 0x7ff0000000000000)"
  proof (rule bit_word_eqI)
    fix n assume n: "n < LENGTH(64)"
    then consider "n < 52" | "52 \<le> n" "n < 63" | "n = 63" by fastforce
    then show "bit x n = bit (if f64_neg x then 0x7ff0000000000000 OR NEG_ZERO else 0x7ff0000000000000) n"
      by cases (auto simp only: hi l neg_bit bit_or_iff inf_pattern bit_neg_zero split: if_splits)
  qed
  moreover have "(0x7ff0000000000000 :: f64) OR NEG_ZERO = 0xfff0000000000000" by (simp add: NEG_ZERO_def)
  ultimately show ?thesis by (simp only: split: if_splits)
qed

lemma special_flag_kinds:
  assumes "\<not> f64_finite x"
  shows "special_flag x = (if x = 0x7ff0000000000000 then POS_INF
    else if x = 0xfff0000000000000 then NEG_INF else NAN)"
proof (cases "f64_frac x = 0")
  case True
  from assms have "f64_exp x = 0x7ff" by (simp add: f64_finite_def)
  from special_bits [OF this True] True show ?thesis by (auto simp: special_flag_def split: if_splits)
next
  case False
  moreover have "f64_frac 0x7ff0000000000000 = 0" "f64_frac 0xfff0000000000000 = 0"
    by (simp_all add: f64_frac_def mask_numeral)
  ultimately show ?thesis by (auto simp: special_flag_def)
qed

definition kind_flags :: "bool list \<Rightarrow> u8" where
  "kind_flags ks = or_flags (map (\<lambda>(b, k). if k then b else 0) (zip [NOT_NEG_ZERO, POS_INF, NEG_INF, NAN] ks))"

lemma term_flags_kinds: "term_flags x = kind_flags (f64_kinds x)"
proof (cases "f64_finite x")
  case True
  moreover have "x \<noteq> 0x7ff0000000000000" "x \<noteq> 0xfff0000000000000"
    using True by (auto simp: f64_finite_def f64_exp_def)
  ultimately show ?thesis
    by (simp add: term_flags_def kind_flags_def f64_kinds_def f64_finite_def zero_flag_def)
next
  case False
  have "f64_frac 0x7ff0000000000000 = 0" "f64_frac 0xfff0000000000000 = 0"
    by (simp_all add: f64_frac_def mask_numeral)
  moreover have "f64_frac x = 0 \<Longrightarrow> x = 0x7ff0000000000000 \<or> x = 0xfff0000000000000"
    using special_bits [of x] False by (auto simp: f64_finite_def split: if_splits)
  ultimately show ?thesis using False
    by (auto simp: term_flags_def kind_flags_def f64_kinds_def f64_finite_def zero_flag_def special_flag_kinds
        NEG_ZERO_def)
qed

lemma size_filter_pos: "0 < size (filter_mset P m) \<longleftrightarrow> (\<exists>x \<in># m. P x)"
  unfolding nonempty_has_size [symmetric] set_mset_eq_empty_iff [symmetric] by auto

lemma count_flags_kinds:
  "count_flags (kind_counts (mset xs)) = or_flags (map term_flags xs)"
proof -
  have ex: "count_flags (kind_counts m) = kind_flags (map (\<lambda>i. \<exists>x \<in># m. f64_kinds x ! i) [0, 1, 2, 3])" for m
    by (simp add: count_flags_def kind_flags_def kind_counts_def size_filter_pos or.assoc)
  have join: "kind_flags [a \<or> a', b \<or> b', c \<or> c', d \<or> d'] = kind_flags [a, b, c, d] OR kind_flags [a', b', c', d']"
    for a a' b b' c c' d d'
    by (rule bit_eqI) (auto simp: kind_flags_def bit_or_iff)
  show ?thesis unfolding ex
  proof (induction xs)
    case (Cons x xs)
    have "f64_kinds x = [f64_kinds x ! 0, f64_kinds x ! 1, f64_kinds x ! 2, f64_kinds x ! 3]"
      by (simp add: f64_kinds_def)
    then have "kind_flags (f64_kinds x) = kind_flags [f64_kinds x ! 0, f64_kinds x ! 1, f64_kinds x ! 2, f64_kinds x ! 3]"
      by (rule arg_cong)
    with Cons show ?case by (simp add: join term_flags_kinds)
  qed (simp add: kind_flags_def)
qed

definition window_inv :: "int \<Rightarrow> f64 multiset \<Rightarrow> window_sum \<Rightarrow> bool" where
  "window_inv n m w \<longleftrightarrow>
     sum_inv n (wsum w) \<and> wn w = kind_counts m \<and> sum_units (wsum w) = window_units m"

lemma window_default_inv: "window_inv 0 {#} window_default"
  using sum_default_inv
  by (simp add: window_inv_def window_default_def kind_counts_def window_units_def sum_units_def sum_default_def)

lemma window_join:
  assumes "window_inv n m w" "n + 1 \<le> 2 ^ 60"
  shows "\<exists>w'. window_step x True w = Some w' \<and> window_inv (n + 1) (add_mset x m) w'"
proof -
  have s: "sum_inv n (wsum w)" and w: "wn w = kind_counts m" "sum_units (wsum w) = window_units m"
    using assms(1) by (simp_all add: window_inv_def)
  have "sum_inv (n + 1) (wsum w)" using s by (rule sum_inv_mono) simp
  moreover from sum_add_ok [OF s assms(2), of x] obtain s' where "sum_add x (wsum w) = Some s'"
    "sum_inv (n + 1) s'" "sum_units s' = sum_units (wsum w) + fin_units x" by blast
  ultimately show ?thesis using w
    by (simp add: window_step_def window_inv_def Let_def count_join window_units_def fin_units_def)
qed

lemma window_leave:
  assumes "window_inv n m w" "n + 1 \<le> 2 ^ 60" "x \<in># m"
  shows "\<exists>w'. window_step x False w = Some w' \<and> window_inv (n + 1) (m - {#x#}) w'"
proof -
  have s: "sum_inv n (wsum w)" and w: "wn w = kind_counts m" "sum_units (wsum w) = window_units m"
    using assms(1) by (simp_all add: window_inv_def)
  have u: "window_units m = fin_units x + window_units (m - {#x#})"
    unfolding window_units_def using assms(3) by (metis insert_DiffM image_mset_add_mset sum_mset.add_mset)
  have "sum_inv (n + 1) (wsum w)" using s by (rule sum_inv_mono) simp
  moreover from sum_add_ok [OF s assms(2), of "f64_minus x"] obtain s' where
    "sum_add (f64_minus x) (wsum w) = Some s'" "sum_inv (n + 1) s'"
    "sum_units s' = sum_units (wsum w) - fin_units x" by (auto simp: units_minus)
  ultimately show ?thesis using w u
    by (simp add: window_step_def window_inv_def Let_def count_leave [OF assms(3)] fin_units_def)
qed

lemma run_window_ok:
  assumes "window_inv n m w" "window_ok ops m" "n + int (length ops) \<le> 2 ^ 60"
  shows "\<exists>w'. run_window ops w = Some w' \<and> window_inv (n + int (length ops)) (window_after ops m) w'"
  using assms
proof (induction ops m arbitrary: n w rule: window_after.induct)
  case (2 x ops m)
  from 2(4) have "n + 1 \<le> 2 ^ 60" "n + 1 + int (length ops) \<le> 2 ^ 60" by simp_all
  with window_join [OF 2(2), of x] 2(1) 2(3) show ?case by (fastforce simp: algebra_simps)
next
  case (3 x ops m)
  from 3(4) have "n + 1 \<le> 2 ^ 60" "n + 1 + int (length ops) \<le> 2 ^ 60" by simp_all
  with window_leave [OF 3(2), of x] 3(1) 3(3) show ?case by (fastforce simp: algebra_simps)
qed simp

section \<open>What the sums promise\<close>

text \<open>
  C18. A sum of fewer than \<open>2 ^ 31\<close> doubles never overflows a digit and never indexes out of
  the digits; its value is exactly the sum of the finite terms, its digits are the canonical
  ones of that value (no zero end, balanced, inside \<open>i32\<close>), and a flag is set iff some term
  sets it.
\<close>

theorem exact_sum_exact:
  assumes "length xs < 2 ^ 31"
  shows "\<exists>x. exact_of xs = Some x \<and> exact_units x = (\<Sum>x\<leftarrow>xs. if f64_finite x then units x else 0) \<and>
    canonical (int (length xs)) x \<and> (\<forall>n. bit (xflags x) n \<longleftrightarrow> (\<exists>t \<in> set xs. bit (term_flags t) n))"
  using exact_of_ok [OF assms] by (auto simp: total_def fin_units_def bit_or_flags)

lemma exact_sum_exact_witness:
  "\<exists>x. exact_of [0x3ff0000000000000, 0xbff8000000000000, 0x7ff0000000000000] = Some x \<and>
    exact_units x = - (2 ^ 1073) \<and> bit (xflags x) 1"
proof -
  have "(1 :: u8) = mask 1" "(2 :: u8) = push_bit 1 (mask 1)" by simp_all
  have "(\<Sum>x\<leftarrow>[0x3ff0000000000000, 0xbff8000000000000, 0x7ff0000000000000].
      if f64_finite x then units x else 0) = - (2 ^ 1073)"
    by (simp add: f64_finite_def f64_exp_def f64_frac_def f64_neg_def f64_mant_def f64_shift_def units_def
        mask_numeral)
  moreover have "bit (term_flags 0x7ff0000000000000) 1"
    by (simp add: term_flags_def zero_flag_def special_flag_def f64_finite_def f64_exp_def f64_frac_def
        f64_neg_def mask_numeral NEG_ZERO_def NOT_NEG_ZERO_def POS_INF_def)
  ultimately show ?thesis
    using exact_sum_exact [of "[0x3ff0000000000000, 0xbff8000000000000, 0x7ff0000000000000]"] by auto
qed

text \<open>
  C19. The exact sum does not depend on the order of its terms, bit for bit.
\<close>

theorem exact_sum_order_independent:
  "mset xs = mset ys \<Longrightarrow> length xs < 2 ^ 31 \<Longrightarrow> exact_of xs = exact_of ys"
  by (rule order_independent_aux)

lemma exact_sum_order_independent_witness:
  "exact_of [0x3ff0000000000000, 0x7fe0000000000000, 0xffe0000000000000] =
   exact_of [0x7fe0000000000000, 0x3ff0000000000000, 0xffe0000000000000]"
  by (rule exact_sum_order_independent) simp_all

text \<open>
  Nor on its grouping: sums of blocks, added up as partial sums, are the flat sum, bit for
  bit. This is what makes a blocked or a partial aggregation agree with a flat one.
\<close>

theorem exact_sum_blocked:
  "length (concat xss) + length xss < 2 ^ 31 \<Longrightarrow>
   \<exists>ps. map exact_of xss = map Some ps \<and> exact_of_parts ps = exact_of (concat xss)"
  by (rule blocked_aux)

lemma exact_sum_blocked_witness:
  "\<exists>p q. exact_of [0x3ff0000000000000, 0x7fe0000000000000] = Some p \<and> exact_of [0xffe0000000000000] = Some q \<and>
    exact_of_parts [p, q] = exact_of [0x3ff0000000000000, 0x7fe0000000000000, 0xffe0000000000000]"
  using exact_sum_blocked [of "[[0x3ff0000000000000, 0x7fe0000000000000], [0xffe0000000000000]]"]
  by (auto simp: Cons_eq_map_conv)

text \<open>
  C20. A sliding window whose leaving terms were in it holds, after any steps, exactly the sum
  of the terms it holds now, flags included, as a fresh sum of them would: what left leaves no
  trace, infinities and NaNs included, and no count underflows.
\<close>

theorem window_sum_fresh:
  assumes "window_ok ops {#}" "length ops < 2 ^ 31" "mset xs = window_after ops {#}"
    and "length xs < 2 ^ 31"
  shows "Option.bind (run_window ops window_default) window_exact = exact_of xs"
proof -
  have n: "int (length ops) < 2 ^ 31" using assms(2) by (metis of_nat_less_iff of_nat_numeral of_nat_power)
  then have "0 + int (length ops) \<le> 2 ^ 60" by simp
  from run_window_ok [OF window_default_inv assms(1) this] obtain w where
    w: "run_window ops window_default = Some w" "sum_inv (int (length ops)) (wsum w)"
      "wn w = kind_counts (mset xs)" "sum_units (wsum w) = window_units (mset xs)"
    by (auto simp: window_inv_def assms(3))
  have "sum_units (wsum w) = total xs"
    unfolding w(4) total_def window_units_def by (metis mset_map sum_mset_sum_list)
  with to_exact_ok [OF w(2) _ n] obtain s x where x: "to_exact (wsum w) = Some (s, x)"
    "canonical (int (length ops)) x" "exact_units x = total xs" by auto
  let ?x = "x\<lparr>xflags := count_flags (wn w)\<rparr>"
  from exact_of_ok [OF assms(4)] obtain y where y: "exact_of xs = Some y" "canonical (int (length xs)) y"
    "exact_units y = total xs" "xflags y = or_flags (map term_flags xs)" by auto
  have "?x = y"
  proof (rule exact_unique)
    show "canonical (int (length ops)) ?x" using x(2) by (simp add: canonical_def)
  qed (use x y w(3) in \<open>simp_all add: exact_units_def count_flags_kinds\<close>)
  with w(1) x y show ?thesis by (simp add: window_exact_def)
qed

lemma window_sum_fresh_witness:
  "Option.bind (run_window [Join 0x3ff0000000000000, Join 0x7ff0000000000000, Leave 0x7ff0000000000000]
     window_default) window_exact = exact_of [0x3ff0000000000000]"
  by (rule window_sum_fresh) simp_all

end
