(* ===== verification/Values.thy ===== *)
theory Values
  imports Doubles Text_Bytes
begin

text \<open>
  \<open>crates/core_model/src/ids.rs\<close> and \<open>value.rs\<close>: the ids of the model's objects, value types
  and values, and the error values that flow through a computation. A string is its UTF-8 bytes.
  A \<open>chrono\<close> instant is the nanoseconds from the epoch; the modelled code only compares instants
  for equality.
\<close>

section \<open>Ids\<close>

datatype category_id = CategoryId (raw_category: u32)
datatype item_id = ItemId (raw_item: u32)
datatype measure_id = MeasureId (raw_measure: u32)
datatype view_id = ViewId (raw_view: u32)
datatype scenario_id = ScenarioId (raw_scenario: u32)

text \<open>\<open>derive(PartialOrd, Ord)\<close>: ids are ordered as their numbers.\<close>

instantiation category_id :: linorder
begin

definition less_eq_category_id :: "category_id \<Rightarrow> category_id \<Rightarrow> bool" where
  "less_eq_category_id a b \<longleftrightarrow> raw_category a \<le> raw_category b"

definition less_category_id :: "category_id \<Rightarrow> category_id \<Rightarrow> bool" where
  "less_category_id a b \<longleftrightarrow> raw_category a < raw_category b"

instance
  by standard (auto simp: less_eq_category_id_def less_category_id_def category_id.expand)

end

instantiation item_id :: linorder
begin

definition less_eq_item_id :: "item_id \<Rightarrow> item_id \<Rightarrow> bool" where
  "less_eq_item_id a b \<longleftrightarrow> raw_item a \<le> raw_item b"

definition less_item_id :: "item_id \<Rightarrow> item_id \<Rightarrow> bool" where
  "less_item_id a b \<longleftrightarrow> raw_item a < raw_item b"

instance
  by standard (auto simp: less_eq_item_id_def less_item_id_def item_id.expand)

end

instantiation measure_id :: linorder
begin

definition less_eq_measure_id :: "measure_id \<Rightarrow> measure_id \<Rightarrow> bool" where
  "less_eq_measure_id a b \<longleftrightarrow> raw_measure a \<le> raw_measure b"

definition less_measure_id :: "measure_id \<Rightarrow> measure_id \<Rightarrow> bool" where
  "less_measure_id a b \<longleftrightarrow> raw_measure a < raw_measure b"

instance
  by standard (auto simp: less_eq_measure_id_def less_measure_id_def measure_id.expand)

end

section \<open>Values\<close>

datatype value_type = TNumber | TBoolean | TText | TDateTime | TEnum

datatype error_kind =
    TypeMismatchErr
  | DimensionMismatchErr
  | DivisionByZeroErr
  | MissingInputErr
  | CustomErr string
  | NullErr
  | RefErr
  | NameErr
  | NumErr
  | NaErr

record value_error =
  err_kind :: error_kind
  source_measure :: "measure_id option"

datatype val =
    Number f64
  | Boolean bool
  | Text string
  | DateTime int
  | Enum u32
  | Error value_error

fun type_of :: "val \<Rightarrow> value_type option" where
  "type_of (Number _) = Some TNumber"
| "type_of (Boolean _) = Some TBoolean"
| "type_of (Text _) = Some TText"
| "type_of (DateTime _) = Some TDateTime"
| "type_of (Enum _) = Some TEnum"
| "type_of (Error _) = None"

fun is_error :: "val \<Rightarrow> bool" where
  "is_error (Error _) = True"
| "is_error _ = False"

fun as_number :: "val \<Rightarrow> f64 option" where
  "as_number (Number n) = Some n"
| "as_number _ = None"

fun code :: "error_kind \<Rightarrow> string" where
  "code NullErr = ''#NULL!''"
| "code DivisionByZeroErr = ''#DIV/0!''"
| "code TypeMismatchErr = ''#VALUE!''"
| "code RefErr = ''#REF!''"
| "code NameErr = ''#NAME?''"
| "code NumErr = ''#NUM!''"
| "code NaErr = ''#N/A''"
| "code _ = ''#ERR''"

fun error_type :: "error_kind \<Rightarrow> u8 option" where
  "error_type NullErr = Some 1"
| "error_type DivisionByZeroErr = Some 2"
| "error_type TypeMismatchErr = Some 3"
| "error_type RefErr = Some 4"
| "error_type NameErr = Some 5"
| "error_type NumErr = Some 6"
| "error_type NaErr = Some 7"
| "error_type _ = None"

definition from_error_type :: "u8 \<Rightarrow> error_kind option" where
  "from_error_type n =
     (if n = 1 then Some NullErr
      else if n = 2 then Some DivisionByZeroErr
      else if n = 3 then Some TypeMismatchErr
      else if n = 4 then Some RefErr
      else if n = 5 then Some NameErr
      else if n = 6 then Some NumErr
      else if n = 7 then Some NaErr
      else None)"

definition from_code :: "string \<Rightarrow> error_kind option" where
  "from_code c =
     find (\<lambda>k. eq_ignore_ascii_case (code k) (trim c))
       (List.map_filter from_error_type [1, 2, 3, 4, 5, 6, 7])"

definition new_error :: "error_kind \<Rightarrow> value_error" where
  "new_error k = \<lparr>err_kind = k, source_measure = None\<rparr>"

definition error_from_measure :: "error_kind \<Rightarrow> measure_id \<Rightarrow> value_error" where
  "error_from_measure k m = \<lparr>err_kind = k, source_measure = Some m\<rparr>"

end
