(* ===== verification/Formula_Ast.thy ===== *)
theory Formula_Ast
  imports Values
begin

text \<open>
  \<open>crates/core_model/src/formula.rs\<close>: the formula tree, the limits on its depth and size as the
  work-list loop computes them, and the measures it references. Depths and counts are naturals:
  the loop stops at 100001 nodes, and a depth is at most the nodes plus the arguments above it,
  so neither leaves \<open>usize\<close>. \<open>grow_stack\<close> only moves the native stack: it is the identity.
\<close>

section \<open>The tree\<close>

datatype func_id = FuncId (raw_func: u32)

record dim_spec =
  sby :: "category_id list"
  sover :: "category_id list"
  sexcept :: "category_id list"

definition default_spec :: dim_spec where
  "default_spec = \<lparr>sby = [], sover = [], sexcept = []\<rparr>"

datatype unary_op = Neg | Not

datatype binary_op = Add | Sub | Mul | Div | And | Or | Eq | Ne | Lt | Le | Gt | Ge | Pow | Concat

datatype expr =
    Literal val
  | Ref measure_id dim_spec
  | UnaryOp unary_op expr
  | BinaryOp binary_op expr expr
  | Call func_id "expr list"
  | Category category_id

section \<open>Limits\<close>

definition MAX_FORMULA_DEPTH :: nat where "MAX_FORMULA_DEPTH = 256"
definition MAX_STORED_FORMULA_DEPTH :: nat where "MAX_STORED_FORMULA_DEPTH = MAX_FORMULA_DEPTH"
definition MAX_FORMULA_NODES :: nat where "MAX_FORMULA_NODES = 100000"

text \<open>The nested \<open>IF\<close>s a lazy call is rewritten into; subtraction is saturating.\<close>

definition lazy_levels :: "func_id \<Rightarrow> nat \<Rightarrow> nat" where
  "lazy_levels f args =
     (let i = raw_func f in
      if i = 31 then args div 2 - 1
      else if i = 32 then (args - 1) div 2
      else if i = 33 then args
      else if (i = 36 \<or> i = 37) \<and> args < 2 then 2
      else if i = 34 \<or> i = 35 \<or> i = 36 \<or> i = 37 then 1
      else 0)"

text \<open>
  The loop of \<open>depth_and_nodes\<close>: the stack \<open>todo\<close> with its top first, so what is pushed last
  is popped first.
\<close>

definition push_all :: "'a list \<Rightarrow> 'a list \<Rightarrow> 'a list" where
  "push_all xs todo = rev xs @ todo"

function walk :: "nat \<Rightarrow> nat \<Rightarrow> (expr \<times> nat) list \<Rightarrow> nat \<times> nat" where
  "walk depth nodes [] = (depth, nodes)"
| "walk depth nodes ((e, d) # todo) =
     (let nodes' = nodes + 1; depth' = max depth d
      in if MAX_FORMULA_NODES < nodes' then (depth', nodes')
         else case e of
             Literal _ \<Rightarrow> walk depth' nodes' todo
           | Ref _ _ \<Rightarrow> walk depth' nodes' todo
           | Category _ \<Rightarrow> walk depth' nodes' todo
           | UnaryOp _ a \<Rightarrow> walk depth' nodes' ((a, d + 1) # todo)
           | BinaryOp _ a b \<Rightarrow> walk depth' nodes' (push_all [(a, d + 1), (b, d + 1)] todo)
           | Call f args \<Rightarrow>
               let below = d + 1 + lazy_levels f (length args)
               in walk depth' nodes' (push_all (map (\<lambda>a. (a, below)) args) todo))"
  by pat_completeness auto

fun node_count :: "expr \<Rightarrow> nat" where
  "node_count (UnaryOp _ a) = 1 + node_count a"
| "node_count (BinaryOp _ a b) = 1 + node_count a + node_count b"
| "node_count (Call _ args) = 1 + sum_list (map node_count args)"
| "node_count _ = 1"

lemma node_count_pos: "0 < node_count e"
  by (cases e) simp_all

definition todo_nodes :: "(expr \<times> nat) list \<Rightarrow> nat" where
  "todo_nodes todo = sum_list (map (\<lambda>(e, d). node_count e) todo)"

lemma todo_nodes_simps [simp]:
  "todo_nodes [] = 0"
  "todo_nodes ((e, d) # todo) = node_count e + todo_nodes todo"
  "todo_nodes (push_all xs todo) = todo_nodes xs + todo_nodes todo"
  "todo_nodes (map (\<lambda>a. (a, k)) es) = sum_list (map node_count es)"
  by (simp_all add: todo_nodes_def push_all_def rev_map [symmetric] sum_list_rev comp_def)

termination walk
  by (relation "measure (\<lambda>(depth, nodes, todo). todo_nodes todo)")
    (auto simp: node_count_pos)

declare walk.simps(2) [simp del]

definition depth_and_nodes :: "expr \<Rightarrow> nat \<times> nat" where
  "depth_and_nodes e = walk 0 0 [(e, 1)]"

definition TOO_DEEP :: string where "TOO_DEEP = ''formula nests too deeply''"
definition TOO_LARGE :: string where "TOO_LARGE = ''formula is too large''"

definition too_deep :: "nat \<Rightarrow> nat \<Rightarrow> string" where
  "too_deep depth lim = TOO_DEEP @ '' ('' @ dec depth @ '' levels; the limit is '' @ dec lim @ '')''"

definition too_large :: string where
  "too_large = TOO_LARGE @ '' (more than '' @ dec MAX_FORMULA_NODES @
     '' terms once LET and LAMBDA are expanded)''"

definition check_depth :: "nat \<Rightarrow> expr \<Rightarrow> (string, unit) res" where
  "check_depth lim e =
     (let (depth, nodes) = depth_and_nodes e
      in if MAX_FORMULA_NODES < nodes then Inl too_large
         else if lim < depth then Inl (too_deep depth lim)
         else Inr ())"

definition check_limits :: "expr \<Rightarrow> (string, unit) res" where
  "check_limits e = check_depth MAX_FORMULA_DEPTH e"

section \<open>References\<close>

fun collect_refs :: "expr \<Rightarrow> measure_id list \<Rightarrow> measure_id list"
and collect_refs_list :: "expr list \<Rightarrow> measure_id list \<Rightarrow> measure_id list" where
  "collect_refs (Literal _) acc = acc"
| "collect_refs (Category _) acc = acc"
| "collect_refs (Ref m _) acc = acc @ [m]"
| "collect_refs (UnaryOp _ e) acc = collect_refs e acc"
| "collect_refs (BinaryOp _ l r) acc = collect_refs r (collect_refs l acc)"
| "collect_refs (Call _ args) acc = collect_refs_list args acc"
| "collect_refs_list [] acc = acc"
| "collect_refs_list (a # as) acc = collect_refs_list as (collect_refs a acc)"

definition referenced_measures :: "expr \<Rightarrow> measure_id list" where
  "referenced_measures e = collect_refs e []"

text \<open>\<open>struct Formula\<close>.\<close>

record formula =
  fexpr :: expr

definition new_formula :: "expr \<Rightarrow> formula" where
  "new_formula e = \<lparr>fexpr = e\<rparr>"

definition formula_refs :: "formula \<Rightarrow> measure_id list" where
  "formula_refs f = referenced_measures (fexpr f)"

section \<open>The limits mean what they say\<close>

text \<open>The depth a tree compiles to: a leaf is one level, a lazy call adds its nested \<open>IF\<close>s.\<close>

definition max_list :: "nat list \<Rightarrow> nat" where
  "max_list ns = foldr max ns 0"

lemma max_list_simps [simp]:
  "max_list [] = 0" "max_list (n # ns) = max n (max_list ns)"
  by (simp_all add: max_list_def)

lemma max_list_append [simp]: "max_list (ms @ ns) = max (max_list ms) (max_list ns)"
  by (induction ms) (simp_all add: max.assoc)

lemma max_list_rev [simp]: "max_list (rev ns) = max_list ns"
  by (induction ns) (simp_all add: max.commute)

lemma max_list_add: "ns \<noteq> [] \<Longrightarrow> max_list (map (\<lambda>n. n + k) ns) = max_list ns + k"
  by (induction ns rule: list_nonempty_induct) (simp_all add: max_add_distrib_left)

fun levels :: "expr \<Rightarrow> nat" where
  "levels (UnaryOp _ a) = 1 + levels a"
| "levels (BinaryOp _ a b) = 1 + max (levels a) (levels b)"
| "levels (Call f args) =
     (if args = [] then 1 else 1 + lazy_levels f (length args) + max_list (map levels args))"
| "levels _ = 1"

lemma levels_pos: "0 < levels e"
  by (cases e) simp_all

text \<open>The depth of what is still on the stack.\<close>

definition todo_depth :: "(expr \<times> nat) list \<Rightarrow> nat" where
  "todo_depth todo = max_list (map (\<lambda>(e, d). levels e + d - 1) todo)"

lemma todo_depth_simps [simp]:
  "todo_depth [] = 0"
  "todo_depth ((e, d) # todo) = max (levels e + d - 1) (todo_depth todo)"
  "todo_depth (push_all xs todo) = max (todo_depth xs) (todo_depth todo)"
  by (simp_all add: todo_depth_def push_all_def rev_map [symmetric])

lemma todo_depth_args:
  "args \<noteq> [] \<Longrightarrow> todo_depth (map (\<lambda>a. (a, Suc k)) args) = max_list (map levels args) + k"
proof -
  assume "args \<noteq> []"
  have "todo_depth (map (\<lambda>a. (a, Suc k)) args) = max_list (map (\<lambda>n. n + k) (map levels args))"
    by (simp add: todo_depth_def comp_def)
  then show ?thesis using max_list_add [of "map levels args" k] \<open>args \<noteq> []\<close> by simp
qed

lemma set_push_all: "set (push_all xs todo) = set xs \<union> set todo"
  by (simp add: push_all_def)

lemma walk_exact:
  "nodes + todo_nodes todo \<le> MAX_FORMULA_NODES \<Longrightarrow> \<forall>(e, d) \<in> set todo. 0 < d \<Longrightarrow>
   walk depth nodes todo = (max depth (todo_depth todo), nodes + todo_nodes todo)"
proof (induction depth nodes todo rule: walk.induct)
  case (2 depth nodes e d todo)
  have n: "\<not> MAX_FORMULA_NODES < nodes + 1"
    using "2.prems"(1) node_count_pos [of e] by simp
  show ?case
  proof (cases e)
    case (Call f args)
    have "walk (max depth d) (nodes + 1) (push_all (map (\<lambda>a. (a, d + 1 + lazy_levels f (length args))) args) todo)
      = (max (max depth d) (todo_depth (push_all (map (\<lambda>a. (a, d + 1 + lazy_levels f (length args))) args) todo)),
         nodes + 1 + todo_nodes (push_all (map (\<lambda>a. (a, d + 1 + lazy_levels f (length args))) args) todo))"
      by (rule "2.IH"(5) [OF refl refl n Call refl]) (use "2.prems" Call in \<open>auto simp: set_push_all\<close>)
    then show ?thesis using n Call "2.prems"(2)
      by (cases "args = []") (auto simp: walk.simps(2) todo_depth_args max.assoc)
  next
    case (UnaryOp op a)
    show ?thesis
      using "2.IH"(3) [OF refl refl n UnaryOp] "2.prems" n UnaryOp levels_pos [of a]
      by (simp add: walk.simps(2) max.assoc)
  next
    case (BinaryOp op a b)
    have "walk (max depth d) (nodes + 1) (push_all [(a, d + 1), (b, d + 1)] todo)
      = (max (max depth d) (todo_depth (push_all [(a, d + 1), (b, d + 1)] todo)),
         nodes + 1 + todo_nodes (push_all [(a, d + 1), (b, d + 1)] todo))"
      by (rule "2.IH"(4) [OF refl refl n BinaryOp]) (use "2.prems" BinaryOp in \<open>auto simp: set_push_all\<close>)
    then show ?thesis using n BinaryOp "2.prems"(2) levels_pos [of a] levels_pos [of b]
      by (simp add: walk.simps(2) max.assoc nat_add_max_left)
  qed (use "2.IH"(1,2,6) [OF refl refl n] "2.prems" n in \<open>auto simp: walk.simps(2) max.assoc\<close>)
qed simp

lemma walk_stops:
  "nodes \<le> MAX_FORMULA_NODES \<Longrightarrow> MAX_FORMULA_NODES < nodes + todo_nodes todo \<Longrightarrow>
   snd (walk depth nodes todo) = MAX_FORMULA_NODES + 1"
proof (induction depth nodes todo rule: walk.induct)
  case (2 depth nodes e d todo)
  show ?case
  proof (cases "MAX_FORMULA_NODES < nodes + 1")
    case True
    with "2.prems"(1) show ?thesis by (simp add: walk.simps(2))
  next
    case n: False
    show ?thesis
    proof (cases e)
      case (Call f args)
      with "2.IH"(5) [OF refl refl n Call refl] "2.prems" n show ?thesis by (simp add: walk.simps(2))
    next
      case (UnaryOp op a)
      with "2.IH"(3) [OF refl refl n UnaryOp] "2.prems" n show ?thesis by (simp add: walk.simps(2))
    next
      case (BinaryOp op a b)
      with "2.IH"(4) [OF refl refl n BinaryOp] "2.prems" n show ?thesis by (simp add: walk.simps(2))
    qed (use "2.IH"(1,2,6) [OF refl refl n] "2.prems" n in \<open>simp_all add: walk.simps(2)\<close>)
  qed
qed simp

lemma check_depth_exact:
  "check_depth lim e =
     (if MAX_FORMULA_NODES < node_count e then Inl too_large
      else if lim < levels e then Inl (too_deep (levels e) lim)
      else Inr ())"
proof (cases "MAX_FORMULA_NODES < node_count e")
  case True
  then have "snd (depth_and_nodes e) = MAX_FORMULA_NODES + 1"
    unfolding depth_and_nodes_def by (intro walk_stops) simp_all
  with True show ?thesis by (simp add: check_depth_def case_prod_beta)
next
  case False
  then have "depth_and_nodes e = (levels e, node_count e)"
    unfolding depth_and_nodes_def by (subst walk_exact) simp_all
  with False show ?thesis by (simp add: check_depth_def)
qed

text \<open>
  C33. The limit check decides by the tree itself, though its loop stops early: a tree of more
  than 100000 nodes is too large whatever its depth, one deeper than the bound (a lazy call
  counted as the \<open>IF\<close>s it compiles to) is too deep with its exact depth in the message, and every
  other tree passes.
\<close>

theorem check_depth_decides:
  "check_depth lim e =
     (if MAX_FORMULA_NODES < node_count e then Inl too_large
      else if lim < levels e then Inl (too_deep (levels e) lim)
      else Inr ())"
  by (rule check_depth_exact)

section \<open>The references, in order\<close>

fun refs_of :: "expr \<Rightarrow> measure_id list" where
  "refs_of (Ref m _) = [m]"
| "refs_of (UnaryOp _ e) = refs_of e"
| "refs_of (BinaryOp _ l r) = refs_of l @ refs_of r"
| "refs_of (Call _ args) = concat (map refs_of args)"
| "refs_of _ = []"

lemma collect_refs_eq:
  "collect_refs e acc = acc @ refs_of e"
  "collect_refs_list es acc = acc @ concat (map refs_of es)"
  by (induction e acc and es acc rule: collect_refs_collect_refs_list.induct) simp_all

lemma referenced_measures_eq: "referenced_measures e = refs_of e"
  by (simp add: referenced_measures_def collect_refs_eq)

lemma referenced_measures_simps [simp]:
  "referenced_measures (Literal v) = []"
  "referenced_measures (Category c) = []"
  "referenced_measures (Ref m s) = [m]"
  "referenced_measures (UnaryOp u e) = referenced_measures e"
  "referenced_measures (BinaryOp b l r) = referenced_measures l @ referenced_measures r"
  "referenced_measures (Call f args) = concat (map referenced_measures args)"
  by (simp_all add: referenced_measures_eq cong: map_cong)

end
