(* ===== verification/Fn_Registry.thy ===== *)
theory Fn_Registry
  imports Formula_Ast
begin

text \<open>
  \<open>crates/core_model/src/functions.rs\<close>: what a registered function is, the checks a call makes
  against its definition, the reserved ids, and the placeholder ids of lambdas. The one-line
  \<open>doc\<close> of a definition (text of the reference page, its search and the parameter names) is
  left out of the record.
\<close>

section \<open>Definitions\<close>

datatype fn_kind = Scalar | Aggregate | PerItem | Array | Lazy

datatype arg = ANumber | AText | ABoolean | ADate | ADateLike | AAny | ACategory

datatype ret = RFixed value_type | RUnify | RArg nat

datatype fn_category =
    CAggregation | CLogical | CInformation | CMath | CRounding | CText | CDateTime
  | CStatistical | CFinancial | CDimensional | CEngineering

datatype over =
    OverAt "nat list"
  | OverEvery nat nat
  | OverAtEvery "nat list" nat nat
  | OverLeading nat

text \<open>\<open>is_multiple_of\<close>: only 0 is a multiple of 0.\<close>

definition is_multiple_of :: "nat \<Rightarrow> nat \<Rightarrow> bool" where
  "is_multiple_of n k \<longleftrightarrow> (if k = 0 then n = 0 else n mod k = 0)"

fun over_contains :: "over \<Rightarrow> nat \<Rightarrow> bool" where
  "over_contains (OverAt v) i \<longleftrightarrow> i \<in> set v"
| "over_contains (OverEvery start step) i \<longleftrightarrow> start \<le> i \<and> is_multiple_of (i - start) step"
| "over_contains (OverAtEvery v start step) i \<longleftrightarrow>
     i \<in> set v \<or> start \<le> i \<and> is_multiple_of (i - start) step"
| "over_contains (OverLeading n) i \<longleftrightarrow> i < n"

record fn_def =
  fid :: func_id
  fname :: string
  faliases :: "string list"
  fkind :: fn_kind
  fcategory :: fn_category
  fparams :: "arg list"
  frequired :: nat
  fvariadic :: bool
  fret :: ret
  fover :: over

fun reduces :: "fn_kind \<Rightarrow> bool" where
  "reduces Aggregate = True"
| "reduces PerItem = True"
| "reduces Array = True"
| "reduces Scalar = False"
| "reduces Lazy = False"

definition accepts :: "fn_def \<Rightarrow> nat \<Rightarrow> bool" where
  "accepts d n \<longleftrightarrow> frequired d \<le> n \<and> (fvariadic d \<or> n \<le> length (fparams d))"

definition param :: "fn_def \<Rightarrow> nat \<Rightarrow> arg" where
  "param d i =
     (if i < length (fparams d) then fparams d ! i
      else if fparams d = [] then AAny else last (fparams d))"

fun reduced :: "fn_def \<Rightarrow> nat \<Rightarrow> expr \<Rightarrow> bool" where
  "reduced d i a =
     (case fover d of
        OverLeading _ \<Rightarrow> (case a of Ref _ s \<Rightarrow> sover s \<noteq> [] | _ \<Rightarrow> False)
      | ov \<Rightarrow> over_contains ov i)"

fun arg_text :: "arg \<Rightarrow> string" where
  "arg_text ANumber = ''number''"
| "arg_text AText = ''text''"
| "arg_text ABoolean = ''boolean''"
| "arg_text ADate = ''date''"
| "arg_text ADateLike = ''date''"
| "arg_text AAny = ''value''"
| "arg_text ACategory = ''category''"

definition signature_param :: "fn_def \<Rightarrow> nat \<Rightarrow> arg \<Rightarrow> string" where
  "signature_param d i a =
     (let t = arg_text a;
          t = (if reduces (fkind d) \<and> over_contains (fover d) i then t @ '' OVER category'' else t)
      in if frequired d \<le> i then ''['' @ t @ '']'' else t)"

text \<open>\<open>ABS(number)\<close>; a variadic tail ends in the character \<open>U+2026\<close>.\<close>

definition signature :: "fn_def \<Rightarrow> string" where
  "signature d =
     (let names = map (\<lambda>(i, a). signature_param d i a) (enumerate 0 (fparams d));
          s = join_with '', '' names;
          s = (if fvariadic d then s @ '', '' @ [CHR 0xE2, CHR 0x80, CHR 0xA6] else s)
      in fname d @ ''('' @ s @ '')'')"

section \<open>Table rows\<close>

definition fn_row ::
  "u32 \<Rightarrow> string \<Rightarrow> fn_kind \<Rightarrow> fn_category \<Rightarrow> arg list \<Rightarrow> nat \<Rightarrow> bool \<Rightarrow> ret \<Rightarrow> fn_def" where
  "fn_row i n k c ps req var r =
     \<lparr>fid = FuncId i, fname = n, faliases = [], fkind = k, fcategory = c, fparams = ps,
      frequired = req, fvariadic = var, fret = r, fover = OverAt [0]\<rparr>"

definition fn_over :: "fn_def \<Rightarrow> over \<Rightarrow> fn_def" where
  "fn_over d ov = d\<lparr>fover := ov\<rparr>"

definition fn_alias :: "fn_def \<Rightarrow> string list \<Rightarrow> fn_def" where
  "fn_alias d al = d\<lparr>faliases := al\<rparr>"

definition fn_s :: "u32 \<Rightarrow> string \<Rightarrow> fn_category \<Rightarrow> arg list \<Rightarrow> value_type \<Rightarrow> fn_def" where
  "fn_s i n c ps r = fn_row i n Scalar c ps (length ps) False (RFixed r)"

definition fn_so :: "u32 \<Rightarrow> string \<Rightarrow> fn_category \<Rightarrow> arg list \<Rightarrow> nat \<Rightarrow> value_type \<Rightarrow> fn_def" where
  "fn_so i n c ps req r = fn_row i n Scalar c ps req False (RFixed r)"

definition fn_sv :: "u32 \<Rightarrow> string \<Rightarrow> fn_category \<Rightarrow> arg list \<Rightarrow> value_type \<Rightarrow> fn_def" where
  "fn_sv i n c ps r = fn_row i n Scalar c ps 1 True (RFixed r)"

definition fn_agg :: "u32 \<Rightarrow> string \<Rightarrow> arg list \<Rightarrow> value_type \<Rightarrow> fn_def" where
  "fn_agg i n ps r = fn_row i n Aggregate CAggregation ps 1 False (RFixed r)"

text \<open>The row makers of \<open>functions/lookup.rs\<close> and \<open>functions/statistical_reduce.rs\<close>.\<close>

definition lookup_row ::
  "u32 \<Rightarrow> string \<Rightarrow> fn_category \<Rightarrow> arg list \<Rightarrow> nat \<Rightarrow> ret \<Rightarrow> nat list \<Rightarrow> fn_def" where
  "lookup_row i n c ps req r red = fn_over (fn_row i n Aggregate c ps req False r) (OverAt red)"

definition stat_row :: "u32 \<Rightarrow> string \<Rightarrow> fn_category \<Rightarrow> arg list \<Rightarrow> nat \<Rightarrow> fn_def" where
  "stat_row i n c ps req = fn_row i n Aggregate c ps req False (RFixed TNumber)"

text \<open>\<open>const IFS: [usize; 128]\<close>.\<close>

definition IFS :: "nat list" where
  "IFS = 0 # map (\<lambda>i. 2 * i - 1) [1..<128]"

lemmas row_defs =
  fn_row_def fn_over_def fn_alias_def fn_s_def fn_so_def fn_sv_def fn_agg_def lookup_row_def stat_row_def

section \<open>Reserved ids\<close>

definition WHERE :: func_id where "WHERE = FuncId 990"
definition WINDOW :: func_id where "WINDOW = FuncId 991"
definition INTO :: func_id where "INTO = FuncId 992"
definition POSITION :: func_id where "POSITION = FuncId 900"

definition NAMED_LAMBDA_BASE :: u32 where "NAMED_LAMBDA_BASE = 1000000"

text \<open>\<open>u32::MAX - 4096\<close>, and 2048 below it.\<close>

definition LAMBDA_SLOTS :: u32 where "LAMBDA_SLOTS = 4294967295 - 4096"
definition LAMBDA_PARAMS :: u32 where "LAMBDA_PARAMS = LAMBDA_SLOTS - 2048"

definition checked_sub :: "u32 \<Rightarrow> u32 \<Rightarrow> u32 option" where
  "checked_sub a b = (if b \<le> a then Some (a - b) else None)"

definition saturating_add :: "u32 \<Rightarrow> u32 \<Rightarrow> u32" where
  "saturating_add a b = (if 2 ^ 32 \<le> unat a + unat b then 4294967295 else a + b)"

definition named_lambda :: "u32 \<Rightarrow> func_id" where
  "named_lambda i = FuncId (saturating_add NAMED_LAMBDA_BASE i)"

definition named_lambda_of :: "func_id \<Rightarrow> u32 option" where
  "named_lambda_of f = checked_sub (raw_func f) NAMED_LAMBDA_BASE"

text \<open>\<open>i as u32\<close> truncates; the subtraction wraps (a release build's).\<close>

definition lambda_param :: "nat \<Rightarrow> measure_id" where
  "lambda_param i = MeasureId (LAMBDA_PARAMS - of_nat i)"

definition lambda_param_of :: "measure_id \<Rightarrow> nat option" where
  "lambda_param_of m =
     (case checked_sub LAMBDA_PARAMS (raw_measure m) of
        None \<Rightarrow> None
      | Some d \<Rightarrow> if d < 256 then Some (unat d) else None)"

definition lambda_category :: "nat \<Rightarrow> category_id" where
  "lambda_category i = CategoryId (LAMBDA_PARAMS - of_nat i)"

definition lambda_category_of :: "category_id \<Rightarrow> nat option" where
  "lambda_category_of c = lambda_param_of (MeasureId (raw_category c))"

definition lambda_slot :: "u32 \<Rightarrow> u32 \<Rightarrow> measure_id" where
  "lambda_slot k i = MeasureId (LAMBDA_SLOTS - 2 * k - i)"

definition lambda_slot_of :: "measure_id \<Rightarrow> (u32 \<times> u32) option" where
  "lambda_slot_of m =
     (case checked_sub LAMBDA_SLOTS (raw_measure m) of
        None \<Rightarrow> None
      | Some d \<Rightarrow> if d < 2048 then Some (d div 2, d mod 2) else None)"

end
