(* ===== verification/Fn_Tables.thy ===== *)
theory Fn_Tables
  imports Fn_Registry
begin

text \<open>
  The function tables: \<open>CORE\<close> of \<open>crates/core_model/src/functions.rs\<close> and the families of
  \<open>functions/*.rs\<close>, row for row in their order, without the rows' \<open>doc\<close> texts; and the lookups
  by id and by name.
\<close>

definition CORE :: "fn_def list" where
  "CORE =
    [fn_alias (fn_agg 1 ''SUM'' [ANumber] TNumber) [''DSUM''],
     fn_alias (fn_agg 2 ''AVERAGE'' [ANumber] TNumber) [''AVG'', ''DAVERAGE''],
     fn_alias (fn_agg 3 ''MIN'' [ANumber] TNumber) [''DMIN''],
     fn_alias (fn_agg 4 ''MAX'' [ANumber] TNumber) [''DMAX''],
     fn_alias (fn_agg 5 ''PRODUCT'' [ANumber] TNumber) [''DPRODUCT''],
     fn_agg 6 ''SUMSQ'' [ANumber] TNumber,
     fn_agg 7 ''AND'' [ABoolean] TBoolean,
     fn_agg 8 ''OR'' [ABoolean] TBoolean,
     fn_agg 9 ''XOR'' [ABoolean] TBoolean,
     fn_sv 22 ''SUM'' CMath [ANumber] TNumber,
     fn_sv 23 ''AVERAGE'' CMath [ANumber] TNumber,
     fn_alias (fn_sv 20 ''MIN'' CMath [ANumber] TNumber) [''MIN2''],
     fn_alias (fn_sv 21 ''MAX'' CMath [ANumber] TNumber) [''MAX2''],
     fn_sv 24 ''PRODUCT'' CMath [ANumber] TNumber,
     fn_sv 25 ''SUMSQ'' CMath [ANumber] TNumber,
     fn_sv 26 ''AND'' CLogical [ABoolean] TBoolean,
     fn_sv 27 ''OR'' CLogical [ABoolean] TBoolean,
     fn_sv 28 ''XOR'' CLogical [ABoolean] TBoolean,
     fn_row 30 ''IF'' Lazy CLogical [ABoolean, AAny, AAny] 2 False RUnify,
     fn_row 31 ''IFS'' Lazy CLogical [ABoolean, AAny] 2 True RUnify,
     fn_row 32 ''SWITCH'' Lazy CLogical [AAny, AAny, AAny] 3 True RUnify,
     fn_row 33 ''CHOOSE'' Lazy CLogical [ANumber, AAny] 2 True RUnify,
     fn_row 34 ''IFERROR'' Lazy CLogical [AAny, AAny] 2 False RUnify,
     fn_row 35 ''IFNA'' Lazy CLogical [AAny, AAny] 2 False RUnify,
     fn_row 36 ''CLEARERROR'' Lazy CLogical [AAny, AAny] 1 False RUnify,
     fn_row 37 ''CLEARZERO'' Lazy CLogical [ANumber, ANumber] 1 False (RFixed TNumber),
     fn_row 41 ''COALESCE'' Lazy CLogical [AAny, AAny] 2 True RUnify,
     fn_so 38 ''BETWEEN'' CLogical [ANumber, ANumber, ANumber, ABoolean] 3 TBoolean,
     fn_s 39 ''TRUE'' CLogical [] TBoolean,
     fn_s 40 ''FALSE'' CLogical [] TBoolean,
     fn_s 50 ''ISERROR'' CInformation [AAny] TBoolean,
     fn_s 51 ''ISERR'' CInformation [AAny] TBoolean,
     fn_s 52 ''ISNA'' CInformation [AAny] TBoolean,
     fn_s 53 ''NA'' CInformation [] TNumber,
     fn_s 54 ''ERROR'' CInformation [AText] TNumber,
     fn_s 55 ''ERROR.TYPE'' CInformation [AAny] TNumber,
     fn_s 10 ''ABS'' CMath [ANumber] TNumber,
     fn_s 15 ''NEG'' CMath [ANumber] TNumber,
     fn_s 100 ''SIGN'' CMath [ANumber] TNumber,
     fn_s 14 ''SQRT'' CMath [ANumber] TNumber,
     fn_s 101 ''SQRTPI'' CMath [ANumber] TNumber,
     fn_s 102 ''EXP'' CMath [ANumber] TNumber,
     fn_s 103 ''EXPM1'' CMath [ANumber] TNumber,
     fn_s 104 ''LN'' CMath [ANumber] TNumber,
     fn_s 105 ''LN1P'' CMath [ANumber] TNumber,
     fn_so 106 ''LOG'' CMath [ANumber, ANumber] 1 TNumber,
     fn_s 107 ''LOG10'' CMath [ANumber] TNumber,
     fn_s 108 ''LOG2'' CMath [ANumber] TNumber,
     fn_s 109 ''POWER'' CMath [ANumber, ANumber] TNumber,
     fn_s 110 ''MOD'' CMath [ANumber, ANumber] TNumber,
     fn_s 111 ''QUOTIENT'' CMath [ANumber, ANumber] TNumber,
     fn_s 112 ''PI'' CMath [] TNumber,
     fn_s 113 ''DEGREES'' CMath [ANumber] TNumber,
     fn_s 114 ''RADIANS'' CMath [ANumber] TNumber,
     fn_s 115 ''SIN'' CMath [ANumber] TNumber,
     fn_s 116 ''COS'' CMath [ANumber] TNumber,
     fn_s 117 ''TAN'' CMath [ANumber] TNumber,
     fn_s 118 ''ASIN'' CMath [ANumber] TNumber,
     fn_s 119 ''ACOS'' CMath [ANumber] TNumber,
     fn_s 120 ''ATAN'' CMath [ANumber] TNumber,
     fn_s 121 ''ATAN2'' CMath [ANumber, ANumber] TNumber,
     fn_s 122 ''SINH'' CMath [ANumber] TNumber,
     fn_s 123 ''COSH'' CMath [ANumber] TNumber,
     fn_s 124 ''TANH'' CMath [ANumber] TNumber,
     fn_s 125 ''ASINH'' CMath [ANumber] TNumber,
     fn_s 126 ''ACOSH'' CMath [ANumber] TNumber,
     fn_s 127 ''ATANH'' CMath [ANumber] TNumber,
     fn_s 128 ''SEC'' CMath [ANumber] TNumber,
     fn_s 129 ''CSC'' CMath [ANumber] TNumber,
     fn_s 130 ''COT'' CMath [ANumber] TNumber,
     fn_s 131 ''SECH'' CMath [ANumber] TNumber,
     fn_s 132 ''CSCH'' CMath [ANumber] TNumber,
     fn_s 133 ''COTH'' CMath [ANumber] TNumber,
     fn_s 134 ''ACOT'' CMath [ANumber] TNumber,
     fn_s 135 ''ACOTH'' CMath [ANumber] TNumber,
     fn_s 136 ''SINPI'' CMath [ANumber] TNumber,
     fn_s 137 ''COSPI'' CMath [ANumber] TNumber,
     fn_s 138 ''TANPI'' CMath [ANumber] TNumber,
     fn_s 139 ''COTPI'' CMath [ANumber] TNumber,
     fn_sv 140 ''HYPOT'' CMath [ANumber] TNumber,
     fn_s 141 ''FACT'' CMath [ANumber] TNumber,
     fn_s 142 ''FACTDOUBLE'' CMath [ANumber] TNumber,
     fn_s 143 ''COMBIN'' CMath [ANumber, ANumber] TNumber,
     fn_s 144 ''COMBINA'' CMath [ANumber, ANumber] TNumber,
     fn_s 145 ''PERMUT'' CMath [ANumber, ANumber] TNumber,
     fn_s 146 ''PERMUTATIONA'' CMath [ANumber, ANumber] TNumber,
     fn_sv 147 ''GCD'' CMath [ANumber] TNumber,
     fn_sv 148 ''LCM'' CMath [ANumber] TNumber,
     fn_sv 149 ''MULTINOMIAL'' CMath [ANumber] TNumber,
     fn_sv 150 ''RAWSUBTRACT'' CMath [ANumber] TNumber,
     fn_sv 151 ''INVSUMINV'' CMath [ANumber] TNumber,
     fn_so 11 ''ROUND'' CRounding [ANumber, ANumber] 1 TNumber,
     fn_so 200 ''ROUNDUP'' CRounding [ANumber, ANumber] 1 TNumber,
     fn_so 201 ''ROUNDDOWN'' CRounding [ANumber, ANumber] 1 TNumber,
     fn_s 202 ''ROUNDSIG'' CRounding [ANumber, ANumber] TNumber,
     fn_so 203 ''TRUNC'' CRounding [ANumber, ANumber] 1 TNumber,
     fn_s 204 ''INT'' CRounding [ANumber] TNumber,
     fn_so 12 ''FLOOR'' CRounding [ANumber, ANumber] 1 TNumber,
     fn_s 13 ''CEIL'' CRounding [ANumber] TNumber,
     fn_so 205 ''CEILING'' CRounding [ANumber, ANumber] 1 TNumber,
     fn_so 206 ''FLOOR.MATH'' CRounding [ANumber, ANumber, ANumber] 1 TNumber,
     fn_so 207 ''CEILING.MATH'' CRounding [ANumber, ANumber, ANumber] 1 TNumber,
     fn_so 208 ''FLOOR.PRECISE'' CRounding [ANumber, ANumber] 1 TNumber,
     fn_so 209 ''CEILING.PRECISE'' CRounding [ANumber, ANumber] 1 TNumber,
     fn_so 210 ''ISO.CEILING'' CRounding [ANumber, ANumber] 1 TNumber,
     fn_s 211 ''MROUND'' CRounding [ANumber, ANumber] TNumber,
     fn_s 212 ''EVEN'' CRounding [ANumber] TNumber,
     fn_s 213 ''ODD'' CRounding [ANumber] TNumber,
     fn_s 300 ''CHAR'' CText [ANumber] TText,
     fn_s 301 ''UNICHAR'' CText [ANumber] TText,
     fn_s 302 ''CODE'' CText [AText] TNumber,
     fn_s 303 ''UNICODE'' CText [AText] TNumber,
     fn_s 304 ''CLEAN'' CText [AText] TText,
     fn_sv 305 ''CONCAT'' CText [AAny] TText,
     fn_sv 306 ''CONCATENATE'' CText [AAny] TText,
     fn_s 307 ''EXACT'' CText [AText, AText] TBoolean,
     fn_so 308 ''FIND'' CText [AText, AText, ANumber] 2 TNumber,
     fn_so 309 ''SEARCH'' CText [AText, AText, ANumber] 2 TNumber,
     fn_so 310 ''LEFT'' CText [AText, ANumber] 1 TText,
     fn_so 311 ''RIGHT'' CText [AText, ANumber] 1 TText,
     fn_s 312 ''MID'' CText [AText, ANumber, ANumber] TText,
     fn_s 313 ''LEN'' CText [AText] TNumber,
     fn_s 314 ''LOWER'' CText [AText] TText,
     fn_s 315 ''UPPER'' CText [AText] TText,
     fn_s 316 ''PROPER'' CText [AText] TText,
     fn_s 317 ''REPLACE'' CText [AText, ANumber, ANumber, AText] TText,
     fn_s 318 ''REPT'' CText [AText, ANumber] TText,
     fn_so 319 ''SUBSTITUTE'' CText [AText, AText, AText, ANumber] 3 TText,
     fn_s 320 ''TRIM'' CText [AText] TText,
     fn_s 321 ''VALUE'' CText [AText] TNumber,
     fn_so 322 ''TEXTBEFORE'' CText [AText, AText, ANumber, ANumber, ANumber, AAny] 2 TText,
     fn_so 323 ''TEXTAFTER'' CText [AText, AText, ANumber, ANumber, ANumber, AAny] 2 TText,
     fn_s 324 ''TEXTBETWEEN'' CText [AText, AText, AText] TText,
     fn_s 325 ''COUNTMATCHES'' CText [AText, AText] TNumber]"

definition DATE :: "fn_def list" where
  "DATE =
    [fn_alias (fn_s 56 ''ISBLANK'' CInformation [AAny] TBoolean) [''ISEMPTY''],
     fn_s 57 ''ISNUMBER'' CInformation [AAny] TBoolean,
     fn_s 58 ''ISTEXT'' CInformation [AAny] TBoolean,
     fn_s 59 ''ISNONTEXT'' CInformation [AAny] TBoolean,
     fn_s 60 ''ISLOGICAL'' CInformation [AAny] TBoolean,
     fn_s 61 ''ISDATE'' CInformation [AAny] TBoolean,
     fn_s 62 ''ISNUMBERORDATE'' CInformation [AAny] TBoolean,
     fn_alias (fn_s 63 ''ISEVEN'' CInformation [ANumber] TBoolean) [''ISEVEN_ADD''],
     fn_alias (fn_s 64 ''ISODD'' CInformation [ANumber] TBoolean) [''ISODD_ADD''],
     fn_s 65 ''N'' CInformation [AAny] TNumber,
     fn_s 66 ''T'' CInformation [AAny] TText,
     fn_s 67 ''TYPE'' CInformation [AAny] TNumber,
     fn_s 330 ''TEXT'' CText [AAny, AText] TText,
     fn_so 331 ''FIXED'' CText [ANumber, ANumber, ABoolean] 1 TText,
     fn_so 332 ''DOLLAR'' CText [ANumber, ANumber] 1 TText,
     fn_so 333 ''NUMBERVALUE'' CText [AText, AText, AText] 1 TNumber,
     fn_so 334 ''VALUETOTEXT'' CText [AAny, ANumber] 1 TText,
     fn_so 335 ''REGEX'' CText [AText, AText, AText, AAny] 2 TText,
     fn_so 336 ''REGEXTEST'' CText [AText, AText, ANumber] 2 TBoolean,
     fn_alias (fn_so 337 ''REGEXEXTRACT'' CText [AText, AText, ANumber, ANumber] 2 TText) [''REGEX.EXTRACT''],
     fn_so 338 ''REGEXREPLACE'' CText [AText, AText, AText, ANumber, ANumber] 3 TText,
     fn_s 400 ''DATE'' CDateTime [ANumber, ANumber, ANumber] TDateTime,
     fn_s 401 ''DATEVALUE'' CDateTime [AText] TDateTime,
     fn_s 402 ''TIME'' CDateTime [ANumber, ANumber, ANumber] TDateTime,
     fn_s 403 ''TIMEVALUE'' CDateTime [AText] TNumber,
     fn_s 404 ''YEAR'' CDateTime [ADateLike] TNumber,
     fn_s 405 ''MONTH'' CDateTime [ADateLike] TNumber,
     fn_s 406 ''DAY'' CDateTime [ADateLike] TNumber,
     fn_s 407 ''HOUR'' CDateTime [ADateLike] TNumber,
     fn_s 408 ''MINUTE'' CDateTime [ADateLike] TNumber,
     fn_s 409 ''SECOND'' CDateTime [ADateLike] TNumber,
     fn_so 410 ''WEEKDAY'' CDateTime [ADateLike, ANumber] 1 TNumber,
     fn_alias (fn_so 411 ''WEEKNUM'' CDateTime [ADateLike, ANumber] 1 TNumber) [''WEEKNUM_EXCEL2003''],
     fn_s 412 ''ISOWEEKNUM'' CDateTime [ADateLike] TNumber,
     fn_s 413 ''ISOYEAR'' CDateTime [ADateLike] TNumber,
     fn_s 414 ''DAYOFYEAR'' CDateTime [ADateLike] TNumber,
     fn_s 415 ''DAYNAME'' CDateTime [ADateLike] TText,
     fn_s 416 ''MONTHNAME'' CDateTime [ANumber] TText,
     fn_s 417 ''DAYS'' CDateTime [ADateLike, ADateLike] TNumber,
     fn_so 418 ''DAYS360'' CDateTime [ADateLike, ADateLike, ABoolean] 2 TNumber,
     fn_s 419 ''DATEDIF'' CDateTime [ADateLike, ADateLike, AText] TNumber,
     fn_s 420 ''EDATE'' CDateTime [ADateLike, ANumber] TDateTime,
     fn_s 421 ''EOMONTH'' CDateTime [ADateLike, ANumber] TDateTime,
     fn_so 422 ''YEARFRAC'' CDateTime [ADateLike, ADateLike, ANumber] 2 TNumber,
     fn_alias (fn_s 423 ''NETWORKDAYS'' CDateTime [ADateLike, ADateLike] TNumber) [''NETWORKDAYS_EXCEL2003''],
     fn_so 424 ''NETWORKDAYS.INTL'' CDateTime [ADateLike, ADateLike, AAny] 2 TNumber,
     fn_s 425 ''WORKDAY'' CDateTime [ADateLike, ANumber] TDateTime,
     fn_so 426 ''WORKDAY.INTL'' CDateTime [ADateLike, ANumber, AAny] 2 TDateTime,
     fn_s 427 ''NOW'' CDateTime [] TDateTime,
     fn_s 428 ''TODAY'' CDateTime [] TDateTime,
     fn_s 429 ''DAYSINMONTH'' CDateTime [ADateLike] TNumber,
     fn_s 430 ''DAYSINYEAR'' CDateTime [ADateLike] TNumber,
     fn_s 431 ''WEEKSINYEAR'' CDateTime [ADateLike] TNumber,
     fn_s 432 ''ISLEAPYEAR'' CDateTime [ADateLike] TBoolean,
     fn_s 433 ''MONTHS'' CDateTime [ADateLike, ADateLike, ANumber] TNumber,
     fn_s 434 ''WEEKS'' CDateTime [ADateLike, ADateLike, ANumber] TNumber,
     fn_s 435 ''YEARS'' CDateTime [ADateLike, ADateLike, ANumber] TNumber,
     fn_s 436 ''UNIX2DATE'' CDateTime [ANumber] TDateTime,
     fn_s 437 ''DATE2UNIX'' CDateTime [ADateLike] TNumber,
     fn_s 438 ''DUR2DAYS'' CDateTime [ANumber] TNumber,
     fn_s 439 ''DUR2HOURS'' CDateTime [ANumber] TNumber,
     fn_s 440 ''DUR2MINUTES'' CDateTime [ANumber] TNumber,
     fn_s 441 ''DUR2SECONDS'' CDateTime [ANumber] TNumber,
     fn_s 442 ''DUR2MILLISECONDS'' CDateTime [ANumber] TNumber,
     fn_s 443 ''DUR2WEEKS'' CDateTime [ANumber] TNumber,
     fn_s 444 ''STRIPDURATION'' CDateTime [ANumber] TNumber]"

definition DIMENSIONAL :: "fn_def list" where
  "DIMENSIONAL =
    [fn_s 900 ''POSITION'' CDimensional [ACategory] TNumber,
     fn_s 901 ''@ITEM'' CDimensional [ACategory] TText,
     fn_s 902 ''@ID'' CDimensional [ACategory] TText,
     fn_s 903 ''@ITEMCOUNT'' CDimensional [ACategory] TNumber,
     fn_row 904 ''PREV'' Lazy CDimensional [AAny, ACategory, ANumber, AAny] 2 False RUnify,
     fn_row 905 ''NEXT'' Lazy CDimensional [AAny, ACategory, ANumber, AAny] 2 False RUnify,
     fn_over (fn_row 906 ''FIRST'' Aggregate CAggregation [AAny] 1 False RUnify) (OverAt [0]),
     fn_over (fn_row 907 ''LAST'' Aggregate CAggregation [AAny] 1 False RUnify) (OverAt [0]),
     fn_over (fn_row 908 ''S'' Aggregate CAggregation [AAny] 1 False (RFixed TText)) (OverAt [0]),
     fn_row 911 ''SCAN'' Lazy CLogical [AAny, AAny, AAny] 3 False RUnify,
     fn_row 912 ''REDUCE'' Lazy CLogical [AAny, AAny, AAny] 3 False RUnify,
     fn_row 913 ''LET'' Lazy CLogical [AAny, AAny, AAny] 3 True RUnify,
     fn_row 914 ''LAMBDA'' Lazy CLogical [AAny, AAny] 2 True RUnify,
     fn_row 916 ''SEQUENCE'' Lazy CDimensional [AAny, AAny, AAny] 1 False RUnify,
     fn_row 917 ''MAKEARRAY'' Lazy CLogical [AAny, AAny, AAny] 3 False RUnify,
     fn_row 920 ''RELABEL'' Lazy CDimensional [AAny, ACategory, ACategory] 3 False RUnify,
     fn_row 921 ''SWAP'' Lazy CDimensional [AAny, ACategory, ACategory] 3 False RUnify,
     fn_row 922 ''FIXPOINT'' Lazy CDimensional [AAny, AAny, ANumber, ANumber] 2 False RUnify,
     fn_row 919 ''FILL'' Lazy CDimensional [AAny, AAny] 2 False RUnify,
     fn_alias (fn_row 918 ''BYROW'' Lazy CLogical [AAny, AAny] 2 False RUnify) [''BYCOL''],
     fn_row 915 ''MAP'' Lazy CLogical [AAny, AAny] 2 True RUnify,
     fn_over (fn_row 909 ''TEXTJOIN'' Aggregate CAggregation [AText, ABoolean, AAny] 3 False (RFixed TText)) (OverAt [2])]"

definition ARRAY :: "fn_def list" where
  "ARRAY =
    [fn_over (fn_row 1250 ''SORT'' Array CDimensional [AAny, ANumber] 1 False RUnify) (OverAt [0]),
     fn_over (fn_row 1251 ''UNIQUE'' Array CDimensional [AAny, ABoolean] 1 False RUnify) (OverAt [0]),
     fn_over (fn_row 1252 ''FILTER'' Array CDimensional [AAny, ABoolean, AAny] 2 False RUnify) (OverAt [0, 1]),
     fn_over (fn_row 1253 ''SORTBY'' Array CDimensional [AAny, AAny, AAny] 2 True RUnify) (OverAtEvery [0, 1] 3 2),
     fn_over (fn_row 1254 ''TAKE'' Array CDimensional [AAny, ANumber] 2 False RUnify) (OverAt [0]),
     fn_over (fn_row 1255 ''DROP'' Array CDimensional [AAny, ANumber] 2 False RUnify) (OverAt [0]),
     fn_over (fn_row 1256 ''MODE.MULT'' Array CStatistical [ANumber] 1 False (RFixed TNumber)) (OverAt [0]),
     fn_over (fn_row 1257 ''LINEST'' Array CStatistical [ANumber, ANumber, ABoolean, ABoolean] 2 True (RFixed TNumber)) (OverLeading 2),
     fn_over (fn_row 1258 ''LOGEST'' Array CStatistical [ANumber, ANumber, ABoolean, ABoolean] 2 True (RFixed TNumber)) (OverLeading 2),
     fn_over (fn_row 1259 ''TEXTSPLIT'' Array CText [AText, AText, AText, ABoolean, ANumber, AAny] 2 False (RFixed TText)) (OverAt [0]),
     fn_over (fn_row 1261 ''SELECTS'' Array CDimensional [AAny, AAny, AAny] 3 False RUnify) (OverAt [0, 1]),
     fn_over (fn_row 1260 ''FREQUENCY'' Array CStatistical [ANumber, ANumber] 2 True (RFixed TNumber)) (OverAt [0])]"

definition STATISTICAL :: "fn_def list" where
  "STATISTICAL =
    [fn_s 160 ''GAMMA'' CMath [ANumber] TNumber,
     fn_alias (fn_s 161 ''GAMMALN'' CMath [ANumber] TNumber) [''GAMMALN.PRECISE''],
     fn_s 162 ''BETA'' CMath [ANumber, ANumber] TNumber,
     fn_s 163 ''BETALN'' CMath [ANumber, ANumber] TNumber,
     fn_s 164 ''DIGAMMA'' CMath [ANumber] TNumber,
     fn_so 165 ''IGAMMA'' CMath [ANumber, ANumber, ABoolean, ABoolean, ABoolean] 2 TNumber,
     fn_s 166 ''POCHHAMMER'' CMath [ANumber, ANumber] TNumber,
     fn_so 167 ''ERF'' CMath [ANumber, ANumber] 1 TNumber,
     fn_s 169 ''ERF.PRECISE'' CMath [ANumber] TNumber,
     fn_alias (fn_s 168 ''ERFC'' CMath [ANumber] TNumber) [''ERFC.PRECISE''],
     fn_so 500 ''BETA.DIST'' CStatistical [ANumber, ANumber, ANumber, ABoolean, ANumber, ANumber] 4 TNumber,
     fn_so 501 ''BETADIST'' CStatistical [ANumber, ANumber, ANumber, ANumber, ANumber] 3 TNumber,
     fn_alias (fn_so 502 ''BETA.INV'' CStatistical [ANumber, ANumber, ANumber, ANumber, ANumber] 3 TNumber) [''BETAINV''],
     fn_alias (fn_s 503 ''BINOM.DIST'' CStatistical [ANumber, ANumber, ANumber, ABoolean] TNumber) [''BINOMDIST''],
     fn_alias (fn_s 504 ''BINOM.INV'' CStatistical [ANumber, ANumber, ANumber] TNumber) [''CRITBINOM''],
     fn_alias (fn_so 505 ''BINOM.DIST.RANGE'' CStatistical [ANumber, ANumber, ANumber, ANumber] 3 TNumber) [''B''],
     fn_alias (fn_s 506 ''CHISQ.DIST'' CStatistical [ANumber, ANumber, ABoolean] TNumber) [''CHISQDIST''],
     fn_alias (fn_s 507 ''CHISQ.DIST.RT'' CStatistical [ANumber, ANumber] TNumber) [''CHIDIST''],
     fn_alias (fn_s 508 ''CHISQ.INV'' CStatistical [ANumber, ANumber] TNumber) [''CHISQINV''],
     fn_alias (fn_s 509 ''CHISQ.INV.RT'' CStatistical [ANumber, ANumber] TNumber) [''CHIINV''],
     fn_alias (fn_s 510 ''EXPON.DIST'' CStatistical [ANumber, ANumber, ABoolean] TNumber) [''EXPONDIST''],
     fn_s 511 ''F.DIST'' CStatistical [ANumber, ANumber, ANumber, ABoolean] TNumber,
     fn_alias (fn_s 512 ''F.DIST.RT'' CStatistical [ANumber, ANumber, ANumber] TNumber) [''FDIST''],
     fn_s 513 ''F.INV'' CStatistical [ANumber, ANumber, ANumber] TNumber,
     fn_alias (fn_s 514 ''F.INV.RT'' CStatistical [ANumber, ANumber, ANumber] TNumber) [''FINV''],
     fn_alias (fn_s 515 ''GAMMA.DIST'' CStatistical [ANumber, ANumber, ANumber, ABoolean] TNumber) [''GAMMADIST''],
     fn_alias (fn_s 516 ''GAMMA.INV'' CStatistical [ANumber, ANumber, ANumber] TNumber) [''GAMMAINV''],
     fn_s 517 ''GAUSS'' CStatistical [ANumber] TNumber,
     fn_s 518 ''HYPGEOM.DIST'' CStatistical [ANumber, ANumber, ANumber, ANumber, ABoolean] TNumber,
     fn_s 519 ''HYPGEOMDIST'' CStatistical [ANumber, ANumber, ANumber, ANumber] TNumber,
     fn_s 520 ''LOGNORM.DIST'' CStatistical [ANumber, ANumber, ANumber, ABoolean] TNumber,
     fn_s 521 ''LOGNORMDIST'' CStatistical [ANumber, ANumber, ANumber] TNumber,
     fn_alias (fn_s 522 ''LOGNORM.INV'' CStatistical [ANumber, ANumber, ANumber] TNumber) [''LOGINV''],
     fn_s 523 ''NEGBINOM.DIST'' CStatistical [ANumber, ANumber, ANumber, ABoolean] TNumber,
     fn_s 524 ''NEGBINOMDIST'' CStatistical [ANumber, ANumber, ANumber] TNumber,
     fn_alias (fn_s 525 ''NORM.DIST'' CStatistical [ANumber, ANumber, ANumber, ABoolean] TNumber) [''NORMDIST''],
     fn_alias (fn_s 526 ''NORM.INV'' CStatistical [ANumber, ANumber, ANumber] TNumber) [''NORMINV''],
     fn_s 527 ''NORM.S.DIST'' CStatistical [ANumber, ABoolean] TNumber,
     fn_s 528 ''NORMSDIST'' CStatistical [ANumber] TNumber,
     fn_alias (fn_s 529 ''NORM.S.INV'' CStatistical [ANumber] TNumber) [''NORMSINV''],
     fn_s 530 ''PHI'' CStatistical [ANumber] TNumber,
     fn_alias (fn_s 531 ''POISSON.DIST'' CStatistical [ANumber, ANumber, ABoolean] TNumber) [''POISSON''],
     fn_s 532 ''T.DIST'' CStatistical [ANumber, ANumber, ABoolean] TNumber,
     fn_s 533 ''T.DIST.RT'' CStatistical [ANumber, ANumber] TNumber,
     fn_s 534 ''T.DIST.2T'' CStatistical [ANumber, ANumber] TNumber,
     fn_s 535 ''TDIST'' CStatistical [ANumber, ANumber, ANumber] TNumber,
     fn_s 536 ''T.INV'' CStatistical [ANumber, ANumber] TNumber,
     fn_alias (fn_s 537 ''T.INV.2T'' CStatistical [ANumber, ANumber] TNumber) [''TINV''],
     fn_alias (fn_s 538 ''WEIBULL.DIST'' CStatistical [ANumber, ANumber, ANumber, ABoolean] TNumber) [''WEIBULL''],
     fn_s 539 ''FISHER'' CStatistical [ANumber] TNumber,
     fn_s 540 ''FISHERINV'' CStatistical [ANumber] TNumber,
     fn_alias (fn_s 541 ''CONFIDENCE.NORM'' CStatistical [ANumber, ANumber, ANumber] TNumber) [''CONFIDENCE''],
     fn_s 542 ''CONFIDENCE.T'' CStatistical [ANumber, ANumber, ANumber] TNumber,
     fn_s 543 ''STANDARDIZE'' CStatistical [ANumber, ANumber, ANumber] TNumber]"

definition STATISTICAL_REDUCE :: "fn_def list" where
  "STATISTICAL_REDUCE =
    [stat_row 1000 ''SUMA'' CMath [AAny] 1,
     fn_over (fn_row 1043 ''SUMPRODUCT'' Aggregate CMath [ANumber] 1 True (RFixed TNumber)) (OverEvery 0 1),
     fn_over (stat_row 1044 ''SUMX2MY2'' CMath [ANumber, ANumber] 2) (OverAt [0, 1]),
     fn_over (stat_row 1045 ''SUMX2PY2'' CMath [ANumber, ANumber] 2) (OverAt [0, 1]),
     fn_over (stat_row 1046 ''SUMXMY2'' CMath [ANumber, ANumber] 2) (OverAt [0, 1]),
     fn_over (stat_row 1047 ''SERIESSUM'' CMath [ANumber, ANumber, ANumber, ANumber] 4) (OverAt [3]),
     fn_over (stat_row 1048 ''POLYNOMIAL'' CMath [ANumber, ANumber] 2) (OverAt [1]),
     fn_over (stat_row 1049 ''PERCENTOF'' CMath [ANumber, ANumber] 2) (OverAt [0, 1]),
     stat_row 1001 ''AVERAGEA'' CStatistical [AAny] 1,
     fn_over (stat_row 1002 ''AVERAGEIF'' CStatistical [AAny, AAny, ANumber] 2) (OverAt [0, 2]),
     fn_over (fn_row 1003 ''AVERAGEIFS'' Aggregate CStatistical [ANumber, AAny, AAny] 3 True (RFixed TNumber)) (OverAt IFS),
     stat_row 1004 ''AVEDEV'' CStatistical [ANumber] 1,
     fn_alias (stat_row 1005 ''COUNT'' CStatistical [AAny] 1) [''DCOUNT''],
     fn_alias (stat_row 1006 ''COUNTA'' CStatistical [AAny] 1) [''DCOUNTA''],
     stat_row 1100 ''COUNTUNIQUE'' CStatistical [AAny] 1,
     stat_row 1007 ''COUNTBLANK'' CStatistical [AAny] 1,
     stat_row 1008 ''COUNTIF'' CStatistical [AAny, AAny] 2,
     fn_over (fn_row 1009 ''COUNTIFS'' Aggregate CStatistical [AAny, AAny] 2 True (RFixed TNumber)) (OverEvery 0 2),
     fn_over (stat_row 1010 ''SUMIF'' CStatistical [AAny, AAny, ANumber] 2) (OverAt [0, 2]),
     fn_over (fn_row 1011 ''SUMIFS'' Aggregate CStatistical [ANumber, AAny, AAny] 3 True (RFixed TNumber)) (OverAt IFS),
     stat_row 1012 ''MAXA'' CStatistical [AAny] 1,
     fn_over (fn_row 1013 ''MAXIFS'' Aggregate CStatistical [ANumber, AAny, AAny] 3 True (RFixed TNumber)) (OverAt IFS),
     stat_row 1014 ''MINA'' CStatistical [AAny] 1,
     fn_over (fn_row 1015 ''MINIFS'' Aggregate CStatistical [ANumber, AAny, AAny] 3 True (RFixed TNumber)) (OverAt IFS),
     stat_row 1016 ''MEDIAN'' CStatistical [ANumber] 1,
     fn_alias (stat_row 1017 ''MODE'' CStatistical [ANumber] 1) [''MODE.SNGL''],
     stat_row 1018 ''GEOMEAN'' CStatistical [ANumber] 1,
     stat_row 1019 ''HARMEAN'' CStatistical [ANumber] 1,
     stat_row 1020 ''TRIMMEAN'' CStatistical [ANumber, ANumber] 2,
     stat_row 1021 ''DEVSQ'' CStatistical [ANumber] 1,
     fn_alias (stat_row 1022 ''STDEV'' CStatistical [ANumber] 1) [''STDEV.S'', ''DSTDEV''],
     fn_alias (stat_row 1023 ''STDEVP'' CStatistical [ANumber] 1) [''STDEV.P'', ''DSTDEVP''],
     stat_row 1024 ''STDEVA'' CStatistical [AAny] 1,
     stat_row 1025 ''STDEVPA'' CStatistical [AAny] 1,
     fn_alias (stat_row 1026 ''VAR'' CStatistical [ANumber] 1) [''VAR.S'', ''DVAR''],
     fn_alias (stat_row 1027 ''VARP'' CStatistical [ANumber] 1) [''VAR.P'', ''DVARP''],
     stat_row 1028 ''VARA'' CStatistical [AAny] 1,
     stat_row 1029 ''VARPA'' CStatistical [AAny] 1,
     stat_row 1030 ''KURT'' CStatistical [ANumber] 1,
     stat_row 1031 ''KURTP'' CStatistical [ANumber] 1,
     stat_row 1032 ''SKEW'' CStatistical [ANumber] 1,
     fn_alias (stat_row 1033 ''SKEWP'' CStatistical [ANumber] 1) [''SKEW.P''],
     stat_row 1034 ''LARGE'' CStatistical [ANumber, ANumber] 2,
     stat_row 1035 ''SMALL'' CStatistical [ANumber, ANumber] 2,
     fn_alias (stat_row 1036 ''PERCENTILE'' CStatistical [ANumber, ANumber] 2) [''PERCENTILE.INC''],
     stat_row 1037 ''PERCENTILE.EXC'' CStatistical [ANumber, ANumber] 2,
     fn_alias (stat_row 1038 ''QUARTILE'' CStatistical [ANumber, ANumber] 2) [''QUARTILE.INC''],
     stat_row 1039 ''QUARTILE.EXC'' CStatistical [ANumber, ANumber] 2,
     fn_over (stat_row 1040 ''PROB'' CStatistical [ANumber, ANumber, ANumber, ANumber] 3) (OverAt [0, 1]),
     fn_over (stat_row 1041 ''SUBTOTAL'' CStatistical [ANumber, ANumber] 2) (OverAt [1]),
     fn_over (stat_row 1042 ''AGGREGATE'' CStatistical [ANumber, ANumber, ANumber, ANumber] 3) (OverAt [2]),
     fn_alias (fn_row 1050 ''RANK'' PerItem CStatistical [ANumber, ANumber] 1 False (RFixed TNumber)) [''RANK.EQ''],
     fn_row 1051 ''RANK.AVG'' PerItem CStatistical [ANumber, ANumber] 1 False (RFixed TNumber),
     fn_alias (fn_row 1052 ''PERCENTRANK'' PerItem CStatistical [ANumber, ANumber, ANumber] 1 False (RFixed TNumber)) [''PERCENTRANK.INC''],
     fn_row 1056 ''RANK.DENSE'' PerItem CStatistical [ANumber, ANumber] 1 False (RFixed TNumber),
     fn_row 1053 ''PERCENTRANK.EXC'' PerItem CStatistical [ANumber, ANumber, ANumber] 1 False (RFixed TNumber),
     fn_over (fn_row 1054 ''TREND'' PerItem CStatistical [ANumber, ANumber, ABoolean] 2 False (RFixed TNumber)) (OverAt [0, 1]),
     fn_over (fn_row 1055 ''GROWTH'' PerItem CStatistical [ANumber, ANumber, ABoolean] 2 False (RFixed TNumber)) (OverAt [0, 1]),
     fn_alias (fn_over (stat_row 1060 ''CORREL'' CStatistical [ANumber, ANumber] 2) (OverAt [0, 1])) [''PEARSON''],
     fn_over (stat_row 1061 ''RSQ'' CStatistical [ANumber, ANumber] 2) (OverAt [0, 1]),
     fn_alias (fn_over (stat_row 1062 ''COVAR'' CStatistical [ANumber, ANumber] 2) (OverAt [0, 1])) [''COVARIANCE.P''],
     fn_over (stat_row 1063 ''COVARIANCE.S'' CStatistical [ANumber, ANumber] 2) (OverAt [0, 1]),
     fn_over (stat_row 1064 ''SLOPE'' CStatistical [ANumber, ANumber] 2) (OverAt [0, 1]),
     fn_over (stat_row 1065 ''INTERCEPT'' CStatistical [ANumber, ANumber] 2) (OverAt [0, 1]),
     fn_over (stat_row 1066 ''STEYX'' CStatistical [ANumber, ANumber] 2) (OverAt [0, 1]),
     fn_alias (fn_over (stat_row 1067 ''FORECAST'' CStatistical [ANumber, ANumber, ANumber] 3) (OverAt [1, 2])) [''FORECAST.LINEAR''],
     fn_over (stat_row 1068 ''EXPA'' CStatistical [ANumber, ANumber, ABoolean] 2) (OverAt [0, 1]),
     fn_over (stat_row 1069 ''EXPB'' CStatistical [ANumber, ANumber, ABoolean] 2) (OverAt [0, 1]),
     fn_over (stat_row 1070 ''EXPFORECAST'' CStatistical [ANumber, ANumber, ANumber, ABoolean] 3) (OverAt [1, 2]),
     fn_alias (fn_over (stat_row 1080 ''CHITEST'' CStatistical [ANumber, ANumber] 2) (OverAt [0, 1])) [''CHISQ.TEST''],
     fn_alias (fn_over (stat_row 1081 ''FTEST'' CStatistical [ANumber, ANumber] 2) (OverAt [0, 1])) [''F.TEST''],
     fn_alias (fn_over (stat_row 1082 ''TTEST'' CStatistical [ANumber, ANumber, ANumber, ANumber] 4) (OverAt [0, 1])) [''T.TEST''],
     fn_alias (stat_row 1083 ''ZTEST'' CStatistical [ANumber, ANumber, ANumber] 2) [''Z.TEST''],
     fn_alias (stat_row 1084 ''AUTOCORREL'' CStatistical [ANumber] 1) [''GSL_STATS_LAG1_AUTOCORRELATION'']]"

definition FINANCIAL :: "fn_def list" where
  "FINANCIAL =
    [fn_so 700 ''FV'' CFinancial [ANumber, ANumber, ANumber, ANumber, ANumber] 3 TNumber,
     fn_so 701 ''PV'' CFinancial [ANumber, ANumber, ANumber, ANumber, ANumber] 3 TNumber,
     fn_so 702 ''PMT'' CFinancial [ANumber, ANumber, ANumber, ANumber, ANumber] 3 TNumber,
     fn_so 703 ''IPMT'' CFinancial [ANumber, ANumber, ANumber, ANumber, ANumber, ANumber] 4 TNumber,
     fn_so 704 ''PPMT'' CFinancial [ANumber, ANumber, ANumber, ANumber, ANumber, ANumber] 4 TNumber,
     fn_so 705 ''NPER'' CFinancial [ANumber, ANumber, ANumber, ANumber, ANumber] 3 TNumber,
     fn_so 706 ''RATE'' CFinancial [ANumber, ANumber, ANumber, ANumber, ANumber, ANumber] 3 TNumber,
     fn_alias (fn_s 707 ''CUMIPMT'' CFinancial [ANumber, ANumber, ANumber, ANumber, ANumber, ANumber] TNumber) [''CUMIPMT_ADD''],
     fn_alias (fn_s 708 ''CUMPRINC'' CFinancial [ANumber, ANumber, ANumber, ANumber, ANumber, ANumber] TNumber) [''CUMPRINC_ADD''],
     fn_s 709 ''ISPMT'' CFinancial [ANumber, ANumber, ANumber, ANumber] TNumber,
     fn_alias (fn_s 710 ''EFFECT'' CFinancial [ANumber, ANumber] TNumber) [''EFFECT_ADD''],
     fn_alias (fn_s 711 ''NOMINAL'' CFinancial [ANumber, ANumber] TNumber) [''NOMINAL_ADD''],
     fn_alias (fn_s 712 ''PDURATION'' CFinancial [ANumber, ANumber, ANumber] TNumber) [''G_DURATION''],
     fn_s 713 ''RRI'' CFinancial [ANumber, ANumber, ANumber] TNumber,
     fn_s 714 ''DOLLARDE'' CFinancial [ANumber, ANumber] TNumber,
     fn_s 715 ''DOLLARFR'' CFinancial [ANumber, ANumber] TNumber,
     fn_s 720 ''SLN'' CFinancial [ANumber, ANumber, ANumber] TNumber,
     fn_s 721 ''SYD'' CFinancial [ANumber, ANumber, ANumber, ANumber] TNumber,
     fn_so 722 ''DB'' CFinancial [ANumber, ANumber, ANumber, ANumber, ANumber] 4 TNumber,
     fn_so 723 ''DDB'' CFinancial [ANumber, ANumber, ANumber, ANumber, ANumber] 4 TNumber,
     fn_so 724 ''VDB'' CFinancial [ANumber, ANumber, ANumber, ANumber, ANumber, ANumber, ABoolean] 5 TNumber,
     fn_so 725 ''AMORDEGRC'' CFinancial [ANumber, ADateLike, ADateLike, ANumber, ANumber, ANumber, ANumber] 6 TNumber,
     fn_so 726 ''AMORLINC'' CFinancial [ANumber, ADateLike, ADateLike, ANumber, ANumber, ANumber, ANumber] 6 TNumber,
     fn_so 740 ''ACCRINT'' CFinancial [ADateLike, ADateLike, ADateLike, ANumber, ANumber, ANumber, ANumber, ABoolean] 6 TNumber,
     fn_so 741 ''ACCRINTM'' CFinancial [ADateLike, ADateLike, ANumber, ANumber, ANumber] 3 TNumber,
     fn_so 742 ''COUPDAYBS'' CFinancial [ADateLike, ADateLike, ANumber, ANumber] 3 TNumber,
     fn_so 743 ''COUPDAYS'' CFinancial [ADateLike, ADateLike, ANumber, ANumber] 3 TNumber,
     fn_so 744 ''COUPDAYSNC'' CFinancial [ADateLike, ADateLike, ANumber, ANumber] 3 TNumber,
     fn_so 745 ''COUPNCD'' CFinancial [ADateLike, ADateLike, ANumber, ANumber] 3 TDateTime,
     fn_so 746 ''COUPNUM'' CFinancial [ADateLike, ADateLike, ANumber, ANumber] 3 TNumber,
     fn_so 747 ''COUPPCD'' CFinancial [ADateLike, ADateLike, ANumber, ANumber] 3 TDateTime,
     fn_so 748 ''DISC'' CFinancial [ADateLike, ADateLike, ANumber, ANumber, ANumber] 4 TNumber,
     fn_alias (fn_so 749 ''DURATION'' CFinancial [ADateLike, ADateLike, ANumber, ANumber, ANumber, ANumber] 5 TNumber) [''BONDDURATION''],
     fn_alias (fn_so 750 ''MDURATION'' CFinancial [ADateLike, ADateLike, ANumber, ANumber, ANumber, ANumber] 5 TNumber) [''BONDMDURATION''],
     fn_so 751 ''INTRATE'' CFinancial [ADateLike, ADateLike, ANumber, ANumber, ANumber] 4 TNumber,
     fn_so 752 ''ODDFPRICE'' CFinancial [ADateLike, ADateLike, ADateLike, ADateLike, ANumber, ANumber, ANumber, ANumber, ANumber] 8 TNumber,
     fn_so 753 ''ODDFYIELD'' CFinancial [ADateLike, ADateLike, ADateLike, ADateLike, ANumber, ANumber, ANumber, ANumber, ANumber] 8 TNumber,
     fn_so 754 ''ODDLPRICE'' CFinancial [ADateLike, ADateLike, ADateLike, ANumber, ANumber, ANumber, ANumber, ANumber] 7 TNumber,
     fn_so 755 ''ODDLYIELD'' CFinancial [ADateLike, ADateLike, ADateLike, ANumber, ANumber, ANumber, ANumber, ANumber] 7 TNumber,
     fn_so 756 ''PRICE'' CFinancial [ADateLike, ADateLike, ANumber, ANumber, ANumber, ANumber, ANumber] 6 TNumber,
     fn_so 757 ''PRICEDISC'' CFinancial [ADateLike, ADateLike, ANumber, ANumber, ANumber] 4 TNumber,
     fn_so 758 ''PRICEMAT'' CFinancial [ADateLike, ADateLike, ADateLike, ANumber, ANumber, ANumber] 5 TNumber,
     fn_so 759 ''RECEIVED'' CFinancial [ADateLike, ADateLike, ANumber, ANumber, ANumber] 4 TNumber,
     fn_s 760 ''TBILLEQ'' CFinancial [ADateLike, ADateLike, ANumber] TNumber,
     fn_s 761 ''TBILLPRICE'' CFinancial [ADateLike, ADateLike, ANumber] TNumber,
     fn_s 762 ''TBILLYIELD'' CFinancial [ADateLike, ADateLike, ANumber] TNumber,
     fn_so 763 ''YIELD'' CFinancial [ADateLike, ADateLike, ANumber, ANumber, ANumber, ANumber, ANumber] 6 TNumber,
     fn_so 764 ''YIELDDISC'' CFinancial [ADateLike, ADateLike, ANumber, ANumber, ANumber] 4 TNumber,
     fn_so 765 ''YIELDMAT'' CFinancial [ADateLike, ADateLike, ADateLike, ANumber, ANumber, ANumber] 5 TNumber]"

definition FINANCIAL_REDUCE :: "fn_def list" where
  "FINANCIAL_REDUCE =
    [fn_over (fn_row 1150 ''NPV'' Aggregate CFinancial [ANumber, ANumber] 2 False (RFixed TNumber)) (OverAt [1]),
     fn_over (fn_row 1151 ''XNPV'' Aggregate CFinancial [ANumber, ANumber, ADateLike] 3 False (RFixed TNumber)) (OverAt [1, 2]),
     fn_over (fn_row 1152 ''IRR'' Aggregate CFinancial [ANumber, ANumber] 1 False (RFixed TNumber)) (OverAt [0]),
     fn_over (fn_row 1153 ''XIRR'' Aggregate CFinancial [ANumber, ADateLike, ANumber] 2 False (RFixed TNumber)) (OverAt [0, 1]),
     fn_over (fn_row 1154 ''MIRR'' Aggregate CFinancial [ANumber, ANumber, ANumber] 3 False (RFixed TNumber)) (OverAt [0]),
     fn_over (fn_row 1155 ''FMRR'' Aggregate CFinancial [ANumber, ANumber, ANumber, ANumber] 4 False (RFixed TNumber)) (OverAt [0]),
     fn_over (fn_row 1156 ''FVSCHEDULE'' Aggregate CFinancial [ANumber, ANumber] 2 False (RFixed TNumber)) (OverAt [1])]"

definition LOOKUP :: "fn_def list" where
  "LOOKUP =
    [lookup_row 1200 ''XLOOKUP'' CDimensional [AAny, AAny, AAny, AAny, ANumber, ANumber] 3 (RArg 2) [1, 2],
     lookup_row 1201 ''XMATCH'' CDimensional [AAny, AAny, ANumber, ANumber] 2 (RFixed TNumber) [1],
     lookup_row 1202 ''MATCH'' CDimensional [AAny, AAny, ANumber] 2 (RFixed TNumber) [1],
     lookup_row 1203 ''LOOKUP'' CDimensional [AAny, AAny, AAny] 3 (RArg 2) [1, 2],
     fn_alias (lookup_row 1204 ''INDEX'' CDimensional [AAny, ANumber] 2 RUnify [0]) [''VALUEAT''],
     fn_alias (lookup_row 1210 ''SELECT'' CDimensional [AAny, AAny, AAny] 3 RUnify [0, 1]) [''SELECTLIST''],
     lookup_row 1211 ''SELECTBETWEEN'' CDimensional [AAny, AAny, AAny, AAny, ABoolean] 4 RUnify [0, 1],
     lookup_row 1212 ''SELECTGREATERTHAN'' CDimensional [AAny, AAny, AAny, ABoolean] 3 RUnify [0, 1],
     lookup_row 1213 ''SELECTLESSTHAN'' CDimensional [AAny, AAny, AAny, ABoolean] 3 RUnify [0, 1],
     lookup_row 1220 ''DGET'' CStatistical [AAny] 1 RUnify [0],
     lookup_row 1230 ''ARRAYTOTEXT'' CText [AAny, ANumber] 1 (RFixed TText) [0]]"

definition ENGINEERING :: "fn_def list" where
  "ENGINEERING =
    [fn_s 1300 ''BIN2DEC'' CEngineering [AAny] TNumber,
     fn_so 1301 ''BIN2HEX'' CEngineering [AAny, ANumber] 1 TText,
     fn_so 1302 ''BIN2OCT'' CEngineering [AAny, ANumber] 1 TText,
     fn_so 1303 ''DEC2BIN'' CEngineering [ANumber, ANumber] 1 TText,
     fn_so 1304 ''DEC2HEX'' CEngineering [ANumber, ANumber] 1 TText,
     fn_so 1305 ''DEC2OCT'' CEngineering [ANumber, ANumber] 1 TText,
     fn_so 1306 ''HEX2BIN'' CEngineering [AAny, ANumber] 1 TText,
     fn_s 1307 ''HEX2DEC'' CEngineering [AAny] TNumber,
     fn_so 1308 ''HEX2OCT'' CEngineering [AAny, ANumber] 1 TText,
     fn_so 1309 ''OCT2BIN'' CEngineering [AAny, ANumber] 1 TText,
     fn_s 1310 ''OCT2DEC'' CEngineering [AAny] TNumber,
     fn_so 1311 ''OCT2HEX'' CEngineering [AAny, ANumber] 1 TText,
     fn_alias (fn_so 1312 ''BASE'' CEngineering [ANumber, ANumber, ANumber] 2 TText) [''NUMTOBASE''],
     fn_alias (fn_s 1313 ''DECIMAL'' CEngineering [AAny, ANumber] TNumber) [''BASETONUM''],
     fn_s 1314 ''HEXREP'' CEngineering [ANumber] TText,
     fn_s 1315 ''BITAND'' CEngineering [ANumber, ANumber] TNumber,
     fn_s 1316 ''BITOR'' CEngineering [ANumber, ANumber] TNumber,
     fn_s 1317 ''BITXOR'' CEngineering [ANumber, ANumber] TNumber,
     fn_s 1318 ''BITLSHIFT'' CEngineering [ANumber, ANumber] TNumber,
     fn_s 1319 ''BITRSHIFT'' CEngineering [ANumber, ANumber] TNumber,
     fn_s 1390 ''CONVERT'' CEngineering [ANumber, AText, AText] TNumber,
     fn_so 1320 ''DELTA'' CEngineering [ANumber, ANumber] 1 TNumber,
     fn_so 1321 ''GESTEP'' CEngineering [ANumber, ANumber] 1 TNumber,
     fn_so 1330 ''COMPLEX'' CEngineering [ANumber, ANumber, AText] 2 TText,
     fn_s 1331 ''IMREAL'' CEngineering [AAny] TNumber,
     fn_s 1332 ''IMAGINARY'' CEngineering [AAny] TNumber,
     fn_s 1333 ''IMABS'' CEngineering [AAny] TNumber,
     fn_s 1334 ''IMARGUMENT'' CEngineering [AAny] TNumber,
     fn_s 1335 ''IMCONJUGATE'' CEngineering [AAny] TText,
     fn_s 1336 ''IMNEG'' CEngineering [AAny] TText,
     fn_s 1337 ''IMINV'' CEngineering [AAny] TText,
     fn_sv 1338 ''IMSUM'' CEngineering [AAny] TText,
     fn_sv 1339 ''IMPRODUCT'' CEngineering [AAny] TText,
     fn_s 1340 ''IMSUB'' CEngineering [AAny, AAny] TText,
     fn_s 1341 ''IMDIV'' CEngineering [AAny, AAny] TText,
     fn_s 1342 ''IMPOWER'' CEngineering [AAny, ANumber] TText,
     fn_s 1343 ''IMSQRT'' CEngineering [AAny] TText,
     fn_s 1344 ''IMEXP'' CEngineering [AAny] TText,
     fn_s 1345 ''IMLN'' CEngineering [AAny] TText,
     fn_s 1346 ''IMLOG10'' CEngineering [AAny] TText,
     fn_s 1347 ''IMLOG2'' CEngineering [AAny] TText,
     fn_s 1348 ''IMSIN'' CEngineering [AAny] TText,
     fn_s 1349 ''IMCOS'' CEngineering [AAny] TText,
     fn_s 1350 ''IMTAN'' CEngineering [AAny] TText,
     fn_s 1351 ''IMSEC'' CEngineering [AAny] TText,
     fn_s 1352 ''IMCSC'' CEngineering [AAny] TText,
     fn_s 1353 ''IMCOT'' CEngineering [AAny] TText,
     fn_s 1354 ''IMSINH'' CEngineering [AAny] TText,
     fn_s 1355 ''IMCOSH'' CEngineering [AAny] TText,
     fn_s 1356 ''IMTANH'' CEngineering [AAny] TText,
     fn_s 1357 ''IMSECH'' CEngineering [AAny] TText,
     fn_s 1358 ''IMCSCH'' CEngineering [AAny] TText,
     fn_s 1359 ''IMCOTH'' CEngineering [AAny] TText,
     fn_s 1360 ''IMARCSIN'' CEngineering [AAny] TText,
     fn_s 1361 ''IMARCCOS'' CEngineering [AAny] TText,
     fn_s 1362 ''IMARCTAN'' CEngineering [AAny] TText,
     fn_s 1363 ''IMARCSEC'' CEngineering [AAny] TText,
     fn_s 1364 ''IMARCCSC'' CEngineering [AAny] TText,
     fn_s 1365 ''IMARCCOT'' CEngineering [AAny] TText,
     fn_s 1366 ''IMARCSINH'' CEngineering [AAny] TText,
     fn_s 1367 ''IMARCCOSH'' CEngineering [AAny] TText,
     fn_s 1368 ''IMARCTANH'' CEngineering [AAny] TText,
     fn_s 1369 ''IMARCSECH'' CEngineering [AAny] TText,
     fn_s 1370 ''IMARCCSCH'' CEngineering [AAny] TText,
     fn_s 1371 ''IMARCCOTH'' CEngineering [AAny] TText,
     fn_s 1372 ''IMFACT'' CEngineering [AAny] TText,
     fn_s 1373 ''IMGAMMA'' CEngineering [AAny] TText,
     fn_s 1380 ''BESSELI'' CEngineering [ANumber, ANumber] TNumber,
     fn_s 1381 ''BESSELJ'' CEngineering [ANumber, ANumber] TNumber,
     fn_s 1382 ''BESSELK'' CEngineering [ANumber, ANumber] TNumber,
     fn_s 1383 ''BESSELY'' CEngineering [ANumber, ANumber] TNumber,
     fn_so 1374 ''IMIGAMMA'' CEngineering [AAny, AAny, ABoolean, ABoolean] 2 TText]"

definition MATH_EXTRA :: "fn_def list" where
  "MATH_EXTRA =
    [fn_so 1450 ''LAMBERTW'' CMath [ANumber, ANumber] 1 TNumber,
     fn_s 1451 ''AGM'' CMath [ANumber, ANumber] TNumber,
     fn_s 1452 ''GD'' CMath [ANumber] TNumber,
     fn_so 1453 ''ILOG'' CMath [ANumber, ANumber] 1 TNumber,
     fn_so 1454 ''REDUCEPI'' CMath [ANumber, ANumber, ABoolean] 2 TNumber,
     fn_s 1455 ''FIB'' CMath [ANumber] TNumber,
     fn_s 1460 ''ISPRIME'' CMath [ANumber] TBoolean,
     fn_s 1461 ''ITHPRIME'' CMath [ANumber] TNumber,
     fn_s 1462 ''PFACTOR'' CMath [ANumber] TNumber,
     fn_s 1463 ''NT_D'' CMath [ANumber] TNumber,
     fn_s 1464 ''NT_SIGMA'' CMath [ANumber] TNumber,
     fn_s 1465 ''NT_PHI'' CMath [ANumber] TNumber,
     fn_s 1466 ''NT_MU'' CMath [ANumber] TNumber,
     fn_s 1467 ''NT_OMEGA'' CMath [ANumber] TNumber,
     fn_s 1468 ''NT_PI'' CMath [ANumber] TNumber,
     fn_s 1469 ''NT_RADICAL'' CMath [ANumber] TNumber,
     fn_s 1470 ''PARTITIONS'' CMath [ANumber] TNumber,
     fn_s 1475 ''FLT.MAX'' CMath [] TNumber,
     fn_s 1476 ''FLT.MIN'' CMath [] TNumber,
     fn_s 1477 ''FLT.RADIX'' CMath [] TNumber,
     fn_s 1478 ''FLT.NEXTAFTER'' CMath [ANumber, AAny] TNumber,
     fn_s 1490 ''EASTERSUNDAY'' CDateTime [ANumber] TDateTime,
     fn_s 1491 ''ASCENSIONTHURSDAY'' CDateTime [ANumber] TDateTime,
     fn_s 1492 ''ASHWEDNESDAY'' CDateTime [ANumber] TDateTime,
     fn_s 1493 ''GOODFRIDAY'' CDateTime [ANumber] TDateTime,
     fn_s 1494 ''PENTECOSTSUNDAY'' CDateTime [ANumber] TDateTime,
     fn_s 1495 ''DATE2JULIAN'' CDateTime [ADateLike] TNumber,
     fn_s 1496 ''HDATE_JULIAN'' CDateTime [ANumber, ANumber, ANumber] TNumber,
     fn_s 1497 ''HDATE'' CDateTime [ANumber, ANumber, ANumber] TText,
     fn_s 1498 ''HDATE_HEB'' CDateTime [ANumber, ANumber, ANumber] TText,
     fn_s 1499 ''HDATE_DAY'' CDateTime [ANumber, ANumber, ANumber] TNumber,
     fn_s 1500 ''HDATE_MONTH'' CDateTime [ANumber, ANumber, ANumber] TNumber,
     fn_s 1501 ''HDATE_YEAR'' CDateTime [ANumber, ANumber, ANumber] TNumber,
     fn_s 1502 ''DATE2HDATE'' CDateTime [ADateLike] TText,
     fn_s 1503 ''DATE2HDATE_HEB'' CDateTime [ADateLike] TText,
     fn_s 1520 ''PROBBLOCK'' CStatistical [ANumber, ANumber] TNumber,
     fn_s 1521 ''OFFTRAF'' CStatistical [ANumber, ANumber] TNumber,
     fn_s 1522 ''DIMCIRC'' CStatistical [ANumber, ANumber] TNumber,
     fn_s 1523 ''OFFCAP'' CStatistical [ANumber, ANumber] TNumber,
     fn_s 1480 ''ASC'' CText [AText] TText,
     fn_alias (fn_s 1481 ''JIS'' CText [AText] TText) [''DBCS''],
     fn_s 1482 ''BAHTTEXT'' CText [ANumber] TText,
     fn_s 1483 ''ROT13'' CText [AText] TText,
     fn_s 1484 ''ENCODEURL'' CText [AText] TText,
     fn_so 1485 ''ROMAN'' CText [ANumber, AAny] 1 TText,
     fn_s 1486 ''ARABIC'' CText [AText] TNumber]"

definition DIST_EXTRA :: "fn_def list" where
  "DIST_EXTRA =
    [fn_s 1550 ''BERNOULLI'' CStatistical [ANumber, ANumber] TNumber,
     fn_s 1551 ''CAUCHY'' CStatistical [ANumber, ANumber, ABoolean] TNumber,
     fn_s 1552 ''EXPPOWDIST'' CStatistical [ANumber, ANumber, ANumber] TNumber,
     fn_s 1553 ''GEOMDIST'' CStatistical [ANumber, ANumber, ABoolean] TNumber,
     fn_s 1554 ''LANDAU'' CStatistical [ANumber] TNumber,
     fn_s 1555 ''LAPLACE'' CStatistical [ANumber, ANumber] TNumber,
     fn_s 1556 ''LOGISTIC'' CStatistical [ANumber, ANumber] TNumber,
     fn_s 1557 ''PARETO'' CStatistical [ANumber, ANumber, ANumber] TNumber,
     fn_s 1558 ''RAYLEIGH'' CStatistical [ANumber, ANumber] TNumber,
     fn_s 1559 ''RAYLEIGHTAIL'' CStatistical [ANumber, ANumber, ANumber] TNumber,
     fn_s 1560 ''SNORM.DIST.RANGE'' CStatistical [ANumber, ANumber] TNumber,
     fn_s 1561 ''OWENT'' CStatistical [ANumber, ANumber] TNumber,
     fn_s 1562 ''CUM_BIV_NORM_DIST'' CStatistical [ANumber, ANumber, ANumber] TNumber,
     fn_so 1600 ''R.DBETA'' CStatistical [ANumber, ANumber, ANumber, ABoolean] 3 TNumber,
     fn_so 1601 ''R.PBETA'' CStatistical [ANumber, ANumber, ANumber, ABoolean, ABoolean] 3 TNumber,
     fn_so 1602 ''R.QBETA'' CStatistical [ANumber, ANumber, ANumber, ABoolean, ABoolean] 3 TNumber,
     fn_so 1603 ''R.DBINOM'' CStatistical [ANumber, ANumber, ANumber, ABoolean] 3 TNumber,
     fn_so 1604 ''R.PBINOM'' CStatistical [ANumber, ANumber, ANumber, ABoolean, ABoolean] 3 TNumber,
     fn_so 1605 ''R.QBINOM'' CStatistical [ANumber, ANumber, ANumber, ABoolean, ABoolean] 3 TNumber,
     fn_so 1606 ''R.DCAUCHY'' CStatistical [ANumber, ANumber, ANumber, ABoolean] 3 TNumber,
     fn_so 1607 ''R.PCAUCHY'' CStatistical [ANumber, ANumber, ANumber, ABoolean, ABoolean] 3 TNumber,
     fn_so 1608 ''R.QCAUCHY'' CStatistical [ANumber, ANumber, ANumber, ABoolean, ABoolean] 3 TNumber,
     fn_so 1609 ''R.DCHISQ'' CStatistical [ANumber, ANumber, ABoolean] 2 TNumber,
     fn_so 1610 ''R.PCHISQ'' CStatistical [ANumber, ANumber, ABoolean, ABoolean] 2 TNumber,
     fn_so 1611 ''R.QCHISQ'' CStatistical [ANumber, ANumber, ABoolean, ABoolean] 2 TNumber,
     fn_so 1612 ''R.DEXP'' CStatistical [ANumber, ANumber, ABoolean] 2 TNumber,
     fn_so 1613 ''R.PEXP'' CStatistical [ANumber, ANumber, ABoolean, ABoolean] 2 TNumber,
     fn_so 1614 ''R.QEXP'' CStatistical [ANumber, ANumber, ABoolean, ABoolean] 2 TNumber,
     fn_so 1615 ''R.DF'' CStatistical [ANumber, ANumber, ANumber, ABoolean] 3 TNumber,
     fn_so 1616 ''R.PF'' CStatistical [ANumber, ANumber, ANumber, ABoolean, ABoolean] 3 TNumber,
     fn_so 1617 ''R.QF'' CStatistical [ANumber, ANumber, ANumber, ABoolean, ABoolean] 3 TNumber,
     fn_so 1618 ''R.DGAMMA'' CStatistical [ANumber, ANumber, ANumber, ABoolean] 3 TNumber,
     fn_so 1619 ''R.PGAMMA'' CStatistical [ANumber, ANumber, ANumber, ABoolean, ABoolean] 3 TNumber,
     fn_so 1620 ''R.QGAMMA'' CStatistical [ANumber, ANumber, ANumber, ABoolean, ABoolean] 3 TNumber,
     fn_so 1621 ''R.DGEOM'' CStatistical [ANumber, ANumber, ABoolean] 2 TNumber,
     fn_so 1622 ''R.PGEOM'' CStatistical [ANumber, ANumber, ABoolean, ABoolean] 2 TNumber,
     fn_so 1623 ''R.QGEOM'' CStatistical [ANumber, ANumber, ABoolean, ABoolean] 2 TNumber,
     fn_so 1624 ''R.DGUMBEL'' CStatistical [ANumber, ANumber, ANumber, ABoolean] 3 TNumber,
     fn_so 1625 ''R.PGUMBEL'' CStatistical [ANumber, ANumber, ANumber, ABoolean, ABoolean] 3 TNumber,
     fn_so 1626 ''R.QGUMBEL'' CStatistical [ANumber, ANumber, ANumber, ABoolean, ABoolean] 3 TNumber,
     fn_so 1627 ''R.DHYPER'' CStatistical [ANumber, ANumber, ANumber, ANumber, ABoolean] 4 TNumber,
     fn_so 1628 ''R.PHYPER'' CStatistical [ANumber, ANumber, ANumber, ANumber, ABoolean, ABoolean] 4 TNumber,
     fn_so 1629 ''R.QHYPER'' CStatistical [ANumber, ANumber, ANumber, ANumber, ABoolean, ABoolean] 4 TNumber,
     fn_so 1630 ''R.DLNORM'' CStatistical [ANumber, ANumber, ANumber, ABoolean] 3 TNumber,
     fn_so 1631 ''R.PLNORM'' CStatistical [ANumber, ANumber, ANumber, ABoolean, ABoolean] 3 TNumber,
     fn_so 1632 ''R.QLNORM'' CStatistical [ANumber, ANumber, ANumber, ABoolean, ABoolean] 3 TNumber,
     fn_so 1633 ''R.DNBINOM'' CStatistical [ANumber, ANumber, ANumber, ABoolean] 3 TNumber,
     fn_so 1634 ''R.PNBINOM'' CStatistical [ANumber, ANumber, ANumber, ABoolean, ABoolean] 3 TNumber,
     fn_so 1635 ''R.QNBINOM'' CStatistical [ANumber, ANumber, ANumber, ABoolean, ABoolean] 3 TNumber,
     fn_so 1636 ''R.DNORM'' CStatistical [ANumber, ANumber, ANumber, ABoolean] 3 TNumber,
     fn_so 1637 ''R.PNORM'' CStatistical [ANumber, ANumber, ANumber, ABoolean, ABoolean] 3 TNumber,
     fn_so 1638 ''R.QNORM'' CStatistical [ANumber, ANumber, ANumber, ABoolean, ABoolean] 3 TNumber,
     fn_so 1639 ''R.DPOIS'' CStatistical [ANumber, ANumber, ABoolean] 2 TNumber,
     fn_so 1640 ''R.PPOIS'' CStatistical [ANumber, ANumber, ABoolean, ABoolean] 2 TNumber,
     fn_so 1641 ''R.QPOIS'' CStatistical [ANumber, ANumber, ABoolean, ABoolean] 2 TNumber,
     fn_so 1642 ''R.DRAYLEIGH'' CStatistical [ANumber, ANumber, ABoolean] 2 TNumber,
     fn_so 1643 ''R.PRAYLEIGH'' CStatistical [ANumber, ANumber, ABoolean, ABoolean] 2 TNumber,
     fn_so 1644 ''R.QRAYLEIGH'' CStatistical [ANumber, ANumber, ABoolean, ABoolean] 2 TNumber,
     fn_so 1645 ''R.DSNORM'' CStatistical [ANumber, ANumber, ANumber, ANumber, ABoolean] 4 TNumber,
     fn_so 1646 ''R.PSNORM'' CStatistical [ANumber, ANumber, ANumber, ANumber, ABoolean, ABoolean] 4 TNumber,
     fn_so 1647 ''R.QSNORM'' CStatistical [ANumber, ANumber, ANumber, ANumber, ABoolean, ABoolean] 4 TNumber,
     fn_so 1648 ''R.DST'' CStatistical [ANumber, ANumber, ANumber, ABoolean] 3 TNumber,
     fn_so 1649 ''R.PST'' CStatistical [ANumber, ANumber, ANumber, ABoolean, ABoolean] 3 TNumber,
     fn_so 1650 ''R.QST'' CStatistical [ANumber, ANumber, ANumber, ABoolean, ABoolean] 3 TNumber,
     fn_so 1651 ''R.DT'' CStatistical [ANumber, ANumber, ABoolean] 2 TNumber,
     fn_so 1652 ''R.PT'' CStatistical [ANumber, ANumber, ABoolean, ABoolean] 2 TNumber,
     fn_so 1653 ''R.QT'' CStatistical [ANumber, ANumber, ABoolean, ABoolean] 2 TNumber,
     fn_so 1654 ''R.DWEIBULL'' CStatistical [ANumber, ANumber, ANumber, ABoolean] 3 TNumber,
     fn_so 1655 ''R.PWEIBULL'' CStatistical [ANumber, ANumber, ANumber, ABoolean, ABoolean] 3 TNumber,
     fn_so 1656 ''R.QWEIBULL'' CStatistical [ANumber, ANumber, ANumber, ABoolean, ABoolean] 3 TNumber,
     fn_so 1657 ''R.PTUKEY'' CStatistical [ANumber, ANumber, ANumber, ANumber, ABoolean, ABoolean] 3 TNumber,
     fn_so 1658 ''R.QTUKEY'' CStatistical [ANumber, ANumber, ANumber, ANumber, ABoolean, ABoolean] 3 TNumber]"

definition OPTIONS :: "fn_def list" where
  "OPTIONS =
    [fn_so 1750 ''OPT_BS'' CFinancial [AText, ANumber, ANumber, ANumber, ANumber, ANumber, ANumber] 6 TNumber,
     fn_so 1751 ''OPT_BS_DELTA'' CFinancial [AText, ANumber, ANumber, ANumber, ANumber, ANumber, ANumber] 6 TNumber,
     fn_so 1752 ''OPT_BS_GAMMA'' CFinancial [ANumber, ANumber, ANumber, ANumber, ANumber, ANumber] 5 TNumber,
     fn_so 1753 ''OPT_BS_RHO'' CFinancial [AText, ANumber, ANumber, ANumber, ANumber, ANumber, ANumber] 6 TNumber,
     fn_so 1754 ''OPT_BS_THETA'' CFinancial [AText, ANumber, ANumber, ANumber, ANumber, ANumber, ANumber] 6 TNumber,
     fn_so 1755 ''OPT_BS_VEGA'' CFinancial [ANumber, ANumber, ANumber, ANumber, ANumber, ANumber] 5 TNumber,
     fn_so 1756 ''OPT_BS_CARRYCOST'' CFinancial [AText, ANumber, ANumber, ANumber, ANumber, ANumber, ANumber] 6 TNumber,
     fn_s 1760 ''OPT_GARMAN_KOHLHAGEN'' CFinancial [AText, ANumber, ANumber, ANumber, ANumber, ANumber, ANumber] TNumber,
     fn_s 1761 ''OPT_FRENCH'' CFinancial [AText, ANumber, ANumber, ANumber, ANumber, ANumber, ANumber, ANumber] TNumber,
     fn_s 1762 ''OPT_JUMP_DIFF'' CFinancial [AText, ANumber, ANumber, ANumber, ANumber, ANumber, ANumber, ANumber] TNumber,
     fn_s 1763 ''OPT_MILTERSEN_SCHWARTZ'' CFinancial [AText, ANumber, ANumber, ANumber, ANumber, ANumber, ANumber, ANumber, ANumber, ANumber, ANumber, ANumber, ANumber, ANumber] TNumber,
     fn_s 1780 ''OPT_EXEC'' CFinancial [AText, ANumber, ANumber, ANumber, ANumber, ANumber, ANumber, ANumber] TNumber,
     fn_s 1781 ''OPT_FORWARD_START'' CFinancial [AText, ANumber, ANumber, ANumber, ANumber, ANumber, ANumber, ANumber] TNumber,
     fn_s 1782 ''OPT_TIME_SWITCH'' CFinancial [AText, ANumber, ANumber, ANumber, ANumber, ANumber, ANumber, ANumber, ANumber, ANumber] TNumber,
     fn_s 1783 ''OPT_SIMPLE_CHOOSER'' CFinancial [ANumber, ANumber, ANumber, ANumber, ANumber, ANumber, ANumber] TNumber,
     fn_s 1770 ''OPT_BAW_AMER'' CFinancial [AText, ANumber, ANumber, ANumber, ANumber, ANumber, ANumber] TNumber,
     fn_s 1771 ''OPT_BJER_STENS'' CFinancial [AText, ANumber, ANumber, ANumber, ANumber, ANumber, ANumber] TNumber,
     fn_s 1772 ''OPT_RGW'' CFinancial [ANumber, ANumber, ANumber, ANumber, ANumber, ANumber, ANumber] TNumber,
     fn_so 1773 ''OPT_BINOMIAL'' CFinancial [AText, AText, ANumber, ANumber, ANumber, ANumber, ANumber, ANumber, ANumber] 8 TNumber,
     fn_s 1784 ''OPT_COMPLEX_CHOOSER'' CFinancial [ANumber, ANumber, ANumber, ANumber, ANumber, ANumber, ANumber, ANumber, ANumber] TNumber,
     fn_s 1785 ''OPT_ON_OPTIONS'' CFinancial [AText, ANumber, ANumber, ANumber, ANumber, ANumber, ANumber, ANumber, ANumber] TNumber,
     fn_s 1786 ''OPT_EXTENDIBLE_WRITER'' CFinancial [AText, ANumber, ANumber, ANumber, ANumber, ANumber, ANumber, ANumber, ANumber] TNumber,
     fn_s 1790 ''OPT_2_ASSET_CORRELATION'' CFinancial [AText, ANumber, ANumber, ANumber, ANumber, ANumber, ANumber, ANumber, ANumber, ANumber, ANumber, ANumber] TNumber,
     fn_s 1791 ''OPT_EURO_EXCHANGE'' CFinancial [ANumber, ANumber, ANumber, ANumber, ANumber, ANumber, ANumber, ANumber, ANumber, ANumber, ANumber] TNumber,
     fn_s 1792 ''OPT_AMER_EXCHANGE'' CFinancial [ANumber, ANumber, ANumber, ANumber, ANumber, ANumber, ANumber, ANumber, ANumber, ANumber, ANumber] TNumber,
     fn_s 1793 ''OPT_SPREAD_APPROX'' CFinancial [AText, ANumber, ANumber, ANumber, ANumber, ANumber, ANumber, ANumber, ANumber] TNumber,
     fn_s 1795 ''OPT_FIXED_STRK_LKBK'' CFinancial [AText, ANumber, ANumber, ANumber, ANumber, ANumber, ANumber, ANumber, ANumber] TNumber,
     fn_s 1796 ''OPT_FLOAT_STRK_LKBK'' CFinancial [AText, ANumber, ANumber, ANumber, ANumber, ANumber, ANumber, ANumber] TNumber,
     fn_so 1800 ''OPT_BARRIER'' CFinancial [ANumber, ANumber, ANumber, ANumber, ANumber, ANumber, ANumber, ANumber, ANumber, AText, AText, AText, AText] 12 TNumber,
     fn_so 1801 ''OPT_TOUCH'' CFinancial [ANumber, ANumber, ANumber, ANumber, ANumber, ANumber, ANumber, AText, AText, AText, AText] 10 TNumber,
     fn_s 1802 ''OPT_PROB_HIT'' CFinancial [ANumber, ANumber, ANumber, ANumber, ANumber, ANumber] TNumber,
     fn_so 1803 ''OPT_PROB_INMONEY'' CFinancial [ANumber, ANumber, ANumber, ANumber, ANumber, ANumber, ANumber, AText] 6 TNumber]"

definition ANALYSIS :: "fn_def list" where
  "ANALYSIS =
    [fn_over (fn_row 1850 ''MDETERM'' Aggregate CMath [ANumber] 1 False (RFixed TNumber)) (OverAt [0]),
     fn_over (fn_row 1851 ''LOGMDETERM'' Aggregate CMath [ANumber] 1 False (RFixed TNumber)) (OverAt [0]),
     fn_over (fn_row 1852 ''MINVERSE'' Array CMath [ANumber] 1 False (RFixed TNumber)) (OverAt [0]),
     fn_over (fn_row 1853 ''MPSEUDOINVERSE'' Array CMath [ANumber, ANumber] 1 False (RFixed TNumber)) (OverAt [0]),
     fn_over (fn_row 1854 ''CHOLESKY'' Array CMath [ANumber] 1 False (RFixed TNumber)) (OverAt [0]),
     fn_over (fn_row 1855 ''EIGEN'' Array CMath [ANumber] 1 False (RFixed TNumber)) (OverAt [0]),
     fn_over (fn_row 1856 ''SSMEDIAN'' Aggregate CStatistical [ANumber, ANumber] 1 False (RFixed TNumber)) (OverAt [0]),
     fn_over (fn_row 1857 ''INTERPOLATION'' Aggregate CStatistical [ANumber, ANumber, ANumber, ANumber, ANumber] 3 False (RFixed TNumber)) (OverAt [0, 1]),
     fn_over (fn_row 1858 ''HPFILTER'' PerItem CStatistical [ANumber, ANumber] 1 False (RFixed TNumber)) (OverAt [0]),
     fn_over (fn_row 1859 ''ADTEST'' Aggregate CStatistical [ANumber] 1 False (RFixed TNumber)) (OverAt [0]),
     fn_over (fn_row 1860 ''CVMTEST'' Aggregate CStatistical [ANumber] 1 False (RFixed TNumber)) (OverAt [0]),
     fn_over (fn_row 1861 ''LKSTEST'' Aggregate CStatistical [ANumber] 1 False (RFixed TNumber)) (OverAt [0]),
     fn_over (fn_row 1862 ''SFTEST'' Aggregate CStatistical [ANumber] 1 False (RFixed TNumber)) (OverAt [0]),
     fn_over (fn_row 1863 ''ADTEST.STAT'' Aggregate CStatistical [ANumber] 1 False (RFixed TNumber)) (OverAt [0]),
     fn_over (fn_row 1864 ''CVMTEST.STAT'' Aggregate CStatistical [ANumber] 1 False (RFixed TNumber)) (OverAt [0]),
     fn_over (fn_row 1865 ''LKSTEST.STAT'' Aggregate CStatistical [ANumber] 1 False (RFixed TNumber)) (OverAt [0]),
     fn_over (fn_row 1866 ''SFTEST.STAT'' Aggregate CStatistical [ANumber] 1 False (RFixed TNumber)) (OverAt [0]),
     fn_over (fn_row 1867 ''LOGREG'' Array CStatistical [ANumber, ANumber, ABoolean, ABoolean] 2 False (RFixed TNumber)) (OverAt [0, 1]),
     fn_over (fn_row 1868 ''LOGFIT'' Array CStatistical [ANumber, ANumber] 2 False (RFixed TNumber)) (OverAt [0, 1]),
     fn_over (fn_row 1869 ''FOURIER'' Array CMath [ANumber, ABoolean] 1 False (RFixed TText)) (OverAt [0]),
     fn_over (fn_row 1870 ''PERIODOGRAM'' Array CStatistical [ANumber, ANumber] 1 False (RFixed TNumber)) (OverAt [0]),
     fn_over (fn_row 1871 ''CRONBACH'' Aggregate CStatistical [ANumber, ANumber] 2 True (RFixed TNumber)) (OverEvery 0 1),
     fn_alias (fn_over (fn_row 1872 ''FORECAST.ETS'' Aggregate CStatistical [ADateLike, ANumber, ADateLike, ANumber, ANumber, ANumber] 3 False (RFixed TNumber)) (OverAt [1, 2])) [''FORECAST.ETS.ADD''],
     fn_over (fn_row 1873 ''FORECAST.ETS.MULT'' Aggregate CStatistical [ADateLike, ANumber, ADateLike, ANumber, ANumber, ANumber] 3 False (RFixed TNumber)) (OverAt [1, 2]),
     fn_alias (fn_over (fn_row 1874 ''FORECAST.ETS.CONFINT'' Aggregate CStatistical [ADateLike, ANumber, ADateLike, ANumber, ANumber, ANumber, ANumber] 3 False (RFixed TNumber)) (OverAt [1, 2])) [''FORECAST.ETS.PI.ADD''],
     fn_over (fn_row 1875 ''FORECAST.ETS.PI.MULT'' Aggregate CStatistical [ADateLike, ANumber, ADateLike, ANumber, ANumber, ANumber, ANumber] 3 False (RFixed TNumber)) (OverAt [1, 2]),
     fn_alias (fn_over (fn_row 1876 ''FORECAST.ETS.STAT'' Aggregate CStatistical [ANumber, ADateLike, ANumber, ANumber, ANumber, ANumber] 3 False (RFixed TNumber)) (OverAt [0, 1])) [''FORECAST.ETS.STAT.ADD''],
     fn_over (fn_row 1877 ''FORECAST.ETS.STAT.MULT'' Aggregate CStatistical [ANumber, ADateLike, ANumber, ANumber, ANumber, ANumber] 3 False (RFixed TNumber)) (OverAt [0, 1]),
     fn_over (fn_row 1878 ''FORECAST.ETS.SEASONALITY'' Aggregate CStatistical [ANumber, ADateLike, ANumber, ANumber] 2 False (RFixed TNumber)) (OverAt [0, 1]),
     fn_over (fn_row 1879 ''LEVERAGE'' Array CStatistical [ANumber] 1 False (RFixed TNumber)) (OverAt [0])]"

section \<open>Lookups\<close>

definition FAMILIES :: "fn_def list list" where
  "FAMILIES =
    [CORE, DATE, DIMENSIONAL, ARRAY, STATISTICAL, STATISTICAL_REDUCE, FINANCIAL,
     FINANCIAL_REDUCE, LOOKUP, ENGINEERING, MATH_EXTRA, DIST_EXTRA, OPTIONS, ANALYSIS]"

definition all_fns :: "fn_def list" where
  "all_fns = concat FAMILIES"

definition by_id :: "func_id \<Rightarrow> fn_def option" where
  "by_id i = find (\<lambda>d. fid d = i) all_fns"

definition by_name :: "string \<Rightarrow> fn_def list" where
  "by_name n =
     filter (\<lambda>d. eq_ignore_ascii_case (fname d) n \<or> list_ex (\<lambda>a. eq_ignore_ascii_case a n) (faliases d))
       all_fns"

definition aggregation :: "string \<Rightarrow> fn_def option" where
  "aggregation n = find (\<lambda>d. reduces (fkind d)) (by_name n)"

definition callable :: "string \<Rightarrow> fn_def option" where
  "callable n = find (\<lambda>d. \<not> reduces (fkind d)) (by_name n)"

definition is_aggregation :: "func_id \<Rightarrow> bool" where
  "is_aggregation i = (case by_id i of None \<Rightarrow> False | Some d \<Rightarrow> reduces (fkind d))"

end
