(* ===== verification/Fn_Facts.thy ===== *)
theory Fn_Facts
  imports Fn_Tables "HOL-Library.Multiset"
begin

text \<open>
  The registry's invariants, for all its rows: ids are unique, a spelling names at most one
  aggregation and one other function, arities are well formed and only lazy and reducing
  functions leave their result type to the compiler.
\<close>

section \<open>A duplicate check that evaluates fast\<close>

fun merge_asc :: "int list \<Rightarrow> int list \<Rightarrow> int list" where
  "merge_asc [] ys = ys"
| "merge_asc xs [] = xs"
| "merge_asc (x # xs) (y # ys) =
     (if x \<le> y then x # merge_asc xs (y # ys) else y # merge_asc (x # xs) ys)"

fun merge_pairs :: "int list list \<Rightarrow> int list list" where
  "merge_pairs (a # b # r) = merge_asc a b # merge_pairs r"
| "merge_pairs xs = xs"

lemma merge_pairs_length: "length (merge_pairs xs) \<le> length xs"
  by (induction xs rule: merge_pairs.induct) auto

function merge_all :: "int list list \<Rightarrow> int list" where
  "merge_all [] = []"
| "merge_all [a] = a"
| "merge_all (a # b # r) = merge_all (merge_asc a b # merge_pairs r)"
  by pat_completeness auto
termination
  by (relation "measure length") (auto simp: merge_pairs_length le_imp_less_Suc)

fun ascending :: "int list \<Rightarrow> bool" where
  "ascending (x # y # r) \<longleftrightarrow> x < y \<and> ascending (y # r)"
| "ascending _ \<longleftrightarrow> True"

lemma mset_merge_asc: "mset (merge_asc xs ys) = mset xs + mset ys"
  by (induction xs ys rule: merge_asc.induct) auto

lemma mset_merge_pairs: "mset (concat (merge_pairs xs)) = mset (concat xs)"
  by (induction xs rule: merge_pairs.induct) (auto simp: mset_merge_asc)

lemma mset_merge_all: "mset (merge_all xs) = mset (concat xs)"
  by (induction xs rule: merge_all.induct) (auto simp: mset_merge_asc mset_merge_pairs)

lemma ascending_distinct: "ascending xs \<Longrightarrow> distinct xs"
proof -
  assume "ascending xs"
  then have "sorted_wrt (<) xs"
    by (induction xs rule: ascending.induct) fastforce+
  then show ?thesis by (simp add: strict_sorted_iff)
qed

lemma distinct_by_merge: "ascending (merge_all (map (\<lambda>x. [x]) xs)) \<Longrightarrow> distinct xs"
proof -
  have "concat (map (\<lambda>x. [x]) xs) = xs" by (induction xs) auto
  then have "mset (merge_all (map (\<lambda>x. [x]) xs)) = mset xs" by (simp add: mset_merge_all)
  moreover assume "ascending (merge_all (map (\<lambda>x. [x]) xs))"
  ultimately show ?thesis using ascending_distinct mset_eq_imp_distinct_iff by blast
qed

section \<open>The fields of a row\<close>

lemmas table_defs =
  CORE_def DATE_def DIMENSIONAL_def ARRAY_def STATISTICAL_def STATISTICAL_REDUCE_def FINANCIAL_def
  FINANCIAL_REDUCE_def LOOKUP_def ENGINEERING_def MATH_EXTRA_def DIST_EXTRA_def OPTIONS_def ANALYSIS_def

lemma fid_rows:
  "fid (fn_row i n k c ps req var r) = FuncId i"
  "fid (fn_over d ov) = fid d"
  "fid (fn_alias d al) = fid d"
  "fid (fn_s i n c ps t) = FuncId i"
  "fid (fn_so i n c ps req t) = FuncId i"
  "fid (fn_sv i n c ps t) = FuncId i"
  "fid (fn_agg i n ps t) = FuncId i"
  "fid (lookup_row i n c ps req r red) = FuncId i"
  "fid (stat_row i n c ps req) = FuncId i"
  by (simp_all add: row_defs)

lemma fname_rows:
  "fname (fn_row i n k c ps req var r) = n"
  "fname (fn_over d ov) = fname d"
  "fname (fn_alias d al) = fname d"
  "fname (fn_s i n c ps t) = n"
  "fname (fn_so i n c ps req t) = n"
  "fname (fn_sv i n c ps t) = n"
  "fname (fn_agg i n ps t) = n"
  "fname (lookup_row i n c ps req r red) = n"
  "fname (stat_row i n c ps req) = n"
  by (simp_all add: row_defs)

lemma faliases_rows:
  "faliases (fn_row i n k c ps req var r) = []"
  "faliases (fn_over d ov) = faliases d"
  "faliases (fn_alias d al) = al"
  "faliases (fn_s i n c ps t) = []"
  "faliases (fn_so i n c ps req t) = []"
  "faliases (fn_sv i n c ps t) = []"
  "faliases (fn_agg i n ps t) = []"
  "faliases (lookup_row i n c ps req r red) = []"
  "faliases (stat_row i n c ps req) = []"
  by (simp_all add: row_defs)

lemma fkind_rows:
  "fkind (fn_row i n k c ps req var r) = k"
  "fkind (fn_over d ov) = fkind d"
  "fkind (fn_alias d al) = fkind d"
  "fkind (fn_s i n c ps t) = Scalar"
  "fkind (fn_so i n c ps req t) = Scalar"
  "fkind (fn_sv i n c ps t) = Scalar"
  "fkind (fn_agg i n ps t) = Aggregate"
  "fkind (lookup_row i n c ps req r red) = Aggregate"
  "fkind (stat_row i n c ps req) = Aggregate"
  by (simp_all add: row_defs)

lemma fparams_rows:
  "fparams (fn_row i n k c ps req var r) = ps"
  "fparams (fn_over d ov) = fparams d"
  "fparams (fn_alias d al) = fparams d"
  "fparams (fn_s i n c ps t) = ps"
  "fparams (fn_so i n c ps req t) = ps"
  "fparams (fn_sv i n c ps t) = ps"
  "fparams (fn_agg i n ps t) = ps"
  "fparams (lookup_row i n c ps req r red) = ps"
  "fparams (stat_row i n c ps req) = ps"
  by (simp_all add: row_defs)

lemma frequired_rows:
  "frequired (fn_row i n k c ps req var r) = req"
  "frequired (fn_over d ov) = frequired d"
  "frequired (fn_alias d al) = frequired d"
  "frequired (fn_s i n c ps t) = length ps"
  "frequired (fn_so i n c ps req t) = req"
  "frequired (fn_sv i n c ps t) = 1"
  "frequired (fn_agg i n ps t) = 1"
  "frequired (lookup_row i n c ps req r red) = req"
  "frequired (stat_row i n c ps req) = req"
  by (simp_all add: row_defs)

lemma fvariadic_rows:
  "fvariadic (fn_row i n k c ps req var r) = var"
  "fvariadic (fn_over d ov) = fvariadic d"
  "fvariadic (fn_alias d al) = fvariadic d"
  "fvariadic (fn_s i n c ps t) = False"
  "fvariadic (fn_so i n c ps req t) = False"
  "fvariadic (fn_sv i n c ps t) = True"
  "fvariadic (fn_agg i n ps t) = False"
  "fvariadic (lookup_row i n c ps req r red) = False"
  "fvariadic (stat_row i n c ps req) = False"
  by (simp_all add: row_defs)

lemma fret_rows:
  "fret (fn_row i n k c ps req var r) = r"
  "fret (fn_over d ov) = fret d"
  "fret (fn_alias d al) = fret d"
  "fret (fn_s i n c ps t) = RFixed t"
  "fret (fn_so i n c ps req t) = RFixed t"
  "fret (fn_sv i n c ps t) = RFixed t"
  "fret (fn_agg i n ps t) = RFixed t"
  "fret (lookup_row i n c ps req r red) = r"
  "fret (stat_row i n c ps req) = RFixed TNumber"
  by (simp_all add: row_defs)

lemmas row_fields =
  fid_rows fname_rows faliases_rows fkind_rows fparams_rows frequired_rows fvariadic_rows fret_rows

lemmas row_eval =
  list.map concat.simps append.simps reduces.simps func_id.sel table_defs FAMILIES_def all_fns_def
  fid_rows fname_rows faliases_rows fkind_rows

section \<open>Ids\<close>

definition id_num :: "fn_def \<Rightarrow> int" where
  "id_num d = uint (raw_func (fid d))"

lemma id_nums_distinct: "distinct (map id_num all_fns)"
  by (rule distinct_by_merge) (simp only: row_eval id_num_def, code_simp)

lemma ids_distinct: "distinct (map fid all_fns)"
proof -
  have "map id_num all_fns = map (\<lambda>i. uint (raw_func i)) (map fid all_fns)"
    by (simp add: id_num_def)
  then have "distinct (map (\<lambda>i. uint (raw_func i)) (map fid all_fns))"
    using id_nums_distinct by (simp only:)
  then show ?thesis unfolding distinct_map by blast
qed

lemma find_distinct:
  "distinct (map f xs) \<Longrightarrow> d \<in> set xs \<Longrightarrow> find (\<lambda>x. f x = f d) xs = Some d"
  by (induction xs) auto

lemma by_id_member: "by_id i = Some d \<Longrightarrow> d \<in> set all_fns \<and> fid d = i"
  by (auto simp: by_id_def find_Some_iff)

lemma by_id_of: "d \<in> set all_fns \<Longrightarrow> by_id (fid d) = Some d"
  unfolding by_id_def by (rule find_distinct [OF ids_distinct])

section \<open>Spellings\<close>

definition spellings :: "fn_def \<Rightarrow> string list" where
  "spellings d = fname d # faliases d"

text \<open>A spelling, case folded, with whether the function reduces, as one number.\<close>

fun str_num :: "string \<Rightarrow> int" where
  "str_num [] = 0"
| "str_num (c # cs) = 1 + of_char c + 257 * str_num cs"

definition name_key :: "bool \<Rightarrow> string \<Rightarrow> int" where
  "name_key r n = 2 * str_num (to_ascii_lowercase n) + of_bool r"

text \<open>The spellings in six buckets by their first letter, so that each check is small.\<close>

fun bucket :: "string \<Rightarrow> nat" where
  "bucket [] = 0"
| "bucket (c # cs) =
     (let x = of_char (ascii_lower c) :: int in
      if x < 100 then 0 else if x < 105 then 1 else if x < 109 then 2
      else if x < 114 then 3 else if x < 115 then 4 else 5)"

lemma bucket_less: "bucket n < 6"
  by (cases n) (simp_all add: Let_def)

lemma bucket_case: "eq_ignore_ascii_case m n \<Longrightarrow> bucket m = bucket n"
  by (cases m; cases n) (simp_all add: eq_ignore_ascii_case_def to_ascii_lowercase_def)

definition name_keys :: "nat \<Rightarrow> fn_def \<Rightarrow> int list" where
  "name_keys k d = map (name_key (reduces (fkind d))) (filter (\<lambda>n. bucket n = k) (spellings d))"

lemmas name_eval = row_eval name_keys_def spellings_def

lemma name_keys_0: "distinct (concat (map (name_keys 0) all_fns))"
  by (rule distinct_by_merge) (simp only: name_eval, code_simp)

lemma name_keys_1: "distinct (concat (map (name_keys 1) all_fns))"
  by (rule distinct_by_merge) (simp only: name_eval, code_simp)

lemma name_keys_2: "distinct (concat (map (name_keys 2) all_fns))"
  by (rule distinct_by_merge) (simp only: name_eval, code_simp)

lemma name_keys_3: "distinct (concat (map (name_keys 3) all_fns))"
  by (rule distinct_by_merge) (simp only: name_eval, code_simp)

lemma name_keys_4: "distinct (concat (map (name_keys 4) all_fns))"
  by (rule distinct_by_merge) (simp only: name_eval, code_simp)

lemma name_keys_5: "distinct (concat (map (name_keys 5) all_fns))"
  by (rule distinct_by_merge) (simp only: name_eval, code_simp)

lemma name_keys_distinct: "k < 6 \<Longrightarrow> distinct (concat (map (name_keys k) all_fns))"
proof -
  assume "k < 6"
  then have "k = 0 \<or> k = 1 \<or> k = 2 \<or> k = 3 \<or> k = 4 \<or> k = 5" by linarith
  then show ?thesis
    using name_keys_0 name_keys_1 name_keys_2 name_keys_3 name_keys_4 name_keys_5 by blast
qed

lemma distinct_concat_owner:
  "distinct (concat (map f xs)) \<Longrightarrow> d \<in> set xs \<Longrightarrow> e \<in> set xs \<Longrightarrow> k \<in> set (f d) \<Longrightarrow> k \<in> set (f e) \<Longrightarrow> d = e"
  by (induction xs) auto

lemma spelling_owner:
  assumes "d \<in> set all_fns" "e \<in> set all_fns" "reduces (fkind d) = reduces (fkind e)"
    and "m \<in> set (spellings d)" "n \<in> set (spellings e)" "eq_ignore_ascii_case m n"
  shows "d = e"
proof (rule distinct_concat_owner [OF name_keys_distinct [OF bucket_less [of m]] assms(1,2)])
  show "name_key (reduces (fkind d)) m \<in> set (name_keys (bucket m) d)"
    using assms(4) by (simp add: name_keys_def)
  have "name_key (reduces (fkind d)) m = name_key (reduces (fkind e)) n"
    using assms(3,6) by (simp add: name_key_def eq_ignore_ascii_case_def)
  then show "name_key (reduces (fkind d)) m \<in> set (name_keys (bucket m) e)"
    using assms(5) bucket_case [OF assms(6)] by (simp add: name_keys_def)
qed

lemma by_name_spelling:
  "d \<in> set (by_name n) \<longleftrightarrow> d \<in> set all_fns \<and> (\<exists>m \<in> set (spellings d). eq_ignore_ascii_case m n)"
  by (auto simp: by_name_def spellings_def list_ex_iff)

lemma all_fns_distinct: "distinct all_fns"
  using ids_distinct by (simp add: distinct_map)

section \<open>Arities and result types\<close>

definition well_formed_def :: "fn_def \<Rightarrow> bool" where
  "well_formed_def d \<longleftrightarrow>
     frequired d \<le> length (fparams d) \<and>
     (fvariadic d \<longrightarrow> fparams d \<noteq> []) \<and>
     (case fret d of RFixed _ \<Rightarrow> True | RUnify \<Rightarrow> fkind d \<noteq> Scalar | RArg i \<Rightarrow> reduces (fkind d) \<and> i < length (fparams d)) \<and>
     raw_func (fid d) < NAMED_LAMBDA_BASE \<and> fid d \<notin> {WHERE, WINDOW, INTO}"

lemma all_well_formed: "list_all well_formed_def all_fns"
  by (simp add: all_fns_def FAMILIES_def table_defs well_formed_def_def row_fields
      NAMED_LAMBDA_BASE_def WHERE_def WINDOW_def INTO_def del: One_nat_def)

lemma well_formed_member: "d \<in> set all_fns \<Longrightarrow> well_formed_def d"
  using all_well_formed by (simp add: list_all_iff)

section \<open>What the registry promises\<close>

text \<open>
  C35. Ids identify functions: looking up any registered function's id gives that function, and
  no id is a reserved clause's or a named LAMBDA's.
\<close>

theorem registry_ids:
  "d \<in> set all_fns \<Longrightarrow>
   by_id (fid d) = Some d \<and> fid d \<notin> {WHERE, WINDOW, INTO} \<and> named_lambda_of (fid d) = None"
  using by_id_of well_formed_member [of d]
  by (auto simp: well_formed_def_def named_lambda_of_def checked_sub_def not_le)

lemma registry_ids_witness:
  "by_id (FuncId 30) = Some (fn_row 30 ''IF'' Lazy CLogical [ABoolean, AAny, AAny] 2 False RUnify)"
proof -
  have "fn_row 30 ''IF'' Lazy CLogical [ABoolean, AAny, AAny] 2 False RUnify \<in> set all_fns"
    by (simp add: all_fns_def FAMILIES_def CORE_def)
  from registry_ids [OF this] show ?thesis by (simp add: fn_row_def)
qed

text \<open>
  C34. A spelling, in any case, means at most one aggregation and at most one other function.
\<close>

theorem registry_names_unambiguous:
  "length (filter (\<lambda>d. reduces (fkind d) = r) (by_name n)) \<le> 1"
proof -
  let ?xs = "filter (\<lambda>d. reduces (fkind d) = r) (by_name n)"
  have same: "d = e" if "d \<in> set ?xs" "e \<in> set ?xs" for d e
  proof -
    from that obtain k l where "k \<in> set (spellings d)" "l \<in> set (spellings e)"
      "eq_ignore_ascii_case k n" "eq_ignore_ascii_case l n" by (auto simp: by_name_spelling)
    moreover from this have "eq_ignore_ascii_case k l" by (simp add: eq_ignore_ascii_case_def)
    ultimately show ?thesis using that by (intro spelling_owner [of d e k l]) (auto simp: by_name_spelling)
  qed
  have "distinct ?xs" using all_fns_distinct by (simp add: by_name_def)
  then have "length ?xs = card (set ?xs)" by (simp only: distinct_card)
  also have "\<dots> \<le> 1" using same by (intro card_le_Suc0_iff_eq [THEN iffD2, unfolded One_nat_def [symmetric]]) auto
  finally show ?thesis .
qed

text \<open>
  Every definition is well formed: at least its required parameters are listed, a variadic
  one has a parameter to repeat, and only a lazy or a reducing function leaves its result type
  to the compiler, so the compiler's arm for element-wise functions always finds a fixed type.
\<close>

theorem registry_well_formed:
  "by_id i = Some d \<Longrightarrow>
   frequired d \<le> length (fparams d) \<and> (fvariadic d \<longrightarrow> fparams d \<noteq> []) \<and>
   (fkind d = Scalar \<longrightarrow> (\<exists>t. fret d = RFixed t))"
  using well_formed_member [of d] by_id_member [of i d]
  by (auto simp: well_formed_def_def split: ret.splits)

lemma registry_well_formed_witness:
  "\<exists>t. fret (fn_s 10 ''ABS'' CMath [ANumber] TNumber) = RFixed t"
proof -
  have "fn_s 10 ''ABS'' CMath [ANumber] TNumber \<in> set all_fns"
    by (simp add: all_fns_def FAMILIES_def CORE_def)
  from registry_well_formed [OF by_id_of [OF this]] show ?thesis by (simp add: fn_s_def fn_row_def)
qed

end
