(* ===== verification/Maps.thy ===== *)
theory Maps
  imports Improv_Prelude "HOL-Library.AList"
begin

text \<open>
  The standard library's maps and sets as lists. A \<open>HashMap\<close> is an association list whose order
  stands for the map's unspecified iteration order: no theorem depends on it. A \<open>BTreeMap\<close> is
  the association list in ascending key order, so equal maps are equal lists; a \<open>BTreeSet\<close> is the
  ascending list of its elements.
\<close>

section \<open>Hash maps\<close>

type_synonym ('k, 'v) hmap = "('k \<times> 'v) list"

definition hget :: "('k, 'v) hmap \<Rightarrow> 'k \<Rightarrow> 'v option" where
  "hget m k = map_of m k"

definition hinsert :: "'k \<Rightarrow> 'v \<Rightarrow> ('k, 'v) hmap \<Rightarrow> ('k, 'v) hmap" where
  "hinsert k v m = AList.update k v m"

definition hvalues :: "('k, 'v) hmap \<Rightarrow> 'v list" where
  "hvalues m = map snd m"

text \<open>\<open>collect\<close> into a map: a later pair replaces an earlier one.\<close>

definition hcollect :: "('k \<times> 'v) list \<Rightarrow> ('k, 'v) hmap" where
  "hcollect kvs = fold (\<lambda>(k, v). hinsert k v) kvs []"

definition hkeys_distinct :: "('k, 'v) hmap \<Rightarrow> bool" where
  "hkeys_distinct m \<longleftrightarrow> distinct (map fst m)"

lemma hget_simps [simp]:
  "hget [] k = None"
  "hget (hinsert k v m) k' = (if k' = k then Some v else hget m k')"
  by (simp_all add: hget_def hinsert_def update_conv)

lemma hget_Cons [simp]: "hget ((k, v) # m) k' = (if k' = k then Some v else hget m k')"
  by (simp add: hget_def)

lemma hget_None_iff: "hget m k = None \<longleftrightarrow> k \<notin> fst ` set m"
  by (simp add: hget_def map_of_eq_None_iff)

lemma hinsert_distinct [simp]: "hkeys_distinct m \<Longrightarrow> hkeys_distinct (hinsert k v m)"
  by (simp add: hkeys_distinct_def hinsert_def distinct_update)

lemma hkeys_distinct_Nil [simp]: "hkeys_distinct []"
  by (simp add: hkeys_distinct_def)

lemma hget_value: "hget m k = Some v \<Longrightarrow> v \<in> set (hvalues m)"
  by (auto simp: hget_def hvalues_def dest: map_of_SomeD intro: rev_image_eqI)

lemma hget_fold_hinsert:
  "hget (fold (\<lambda>(k, v). hinsert k v) kvs m) k =
     (case map_of (rev kvs) k of Some v \<Rightarrow> Some v | None \<Rightarrow> hget m k)"
  by (induction kvs arbitrary: m) (auto simp: map_add_def split: option.splits)

section \<open>Ordered maps and sets\<close>

type_synonym ('k, 'v) bmap = "('k \<times> 'v) list"

fun binsert :: "'k::linorder \<Rightarrow> 'v \<Rightarrow> ('k, 'v) bmap \<Rightarrow> ('k, 'v) bmap" where
  "binsert k v [] = [(k, v)]"
| "binsert k v ((k', v') # m) =
     (if k < k' then (k, v) # (k', v') # m
      else if k = k' then (k, v) # m
      else (k', v') # binsert k v m)"

definition bget :: "('k, 'v) bmap \<Rightarrow> 'k \<Rightarrow> 'v option" where
  "bget m k = map_of m k"

definition bcollect :: "('k::linorder \<times> 'v) list \<Rightarrow> ('k, 'v) bmap" where
  "bcollect kvs = fold (\<lambda>(k, v). binsert k v) kvs []"

definition bmap_ok :: "('k::linorder, 'v) bmap \<Rightarrow> bool" where
  "bmap_ok m \<longleftrightarrow> sorted_wrt (<) (map fst m)"

lemma bget_binsert [simp]:
  "bmap_ok m \<Longrightarrow> bget (binsert k v m) k' = (if k' = k then Some v else bget m k')"
  by (induction m) (auto simp: bget_def bmap_ok_def)

lemma keys_binsert: "set (map fst (binsert k v m)) = insert k (set (map fst m))"
  by (induction k v m rule: binsert.induct) auto

lemma bmap_ok_binsert [simp]: "bmap_ok m \<Longrightarrow> bmap_ok (binsert k v m)"
proof (induction k v m rule: binsert.induct)
  case (2 k v k' v' m)
  then show ?case using keys_binsert [of k v m] by (auto simp: bmap_ok_def)
qed (simp add: bmap_ok_def)

lemma bmap_ok_Nil [simp]: "bmap_ok []"
  by (simp add: bmap_ok_def)

lemma bmap_eqI:
  assumes "bmap_ok m" "bmap_ok n" "\<And>k. bget m k = bget n k"
  shows "m = n"
proof -
  have d: "distinct (map fst m)" "distinct (map fst n)"
    using assms(1,2) by (simp_all add: bmap_ok_def strict_sorted_iff)
  have "map_of m = map_of n" using assms(3) by (auto simp: bget_def)
  then have "set m = set n" using d by (metis map_of_inject_set)
  moreover have "sorted (map fst m)" "sorted (map fst n)"
    using assms(1,2) by (simp_all add: bmap_ok_def strict_sorted_iff)
  ultimately show ?thesis using d map_sorted_distinct_set_unique [of fst m n]
    by (metis distinct_map inj_on_Un sup.idem)
qed

definition set_insert :: "'a::linorder \<Rightarrow> 'a list \<Rightarrow> 'a list" where
  "set_insert x xs = (if x \<in> set xs then xs else insort x xs)"

lemma set_set_insert [simp]: "set (set_insert x xs) = insert x (set xs)"
  by (auto simp: set_insert_def set_insort_key)

lemma sorted_set_insert [simp]: "sorted_wrt (<) xs \<Longrightarrow> sorted_wrt (<) (set_insert x xs)"
  by (auto simp: set_insert_def strict_sorted_iff sorted_insort distinct_insort)

end
