(* ===== verification/Cube_Model.thy ===== *)
theory Cube_Model
  imports Fn_Registry Maps
begin

text \<open>
  \<open>crates/core_model/src/lib.rs\<close> and \<open>extfn_def.rs\<close>: the cube (categories, items, coordinates,
  measures), saved views, scenarios, and the model's builders and lookups. Hash maps and ordered
  maps are those of \<open>Maps\<close>. A view's geometry is four \<open>f32\<close> bit patterns. What serde does
  (defaults, skipped fields) is not modelled.
\<close>

section \<open>Categories, items, coordinates\<close>

record category =
  cat_id :: category_id
  cat_name :: string
  cat_items :: "item_id list"

record item =
  item_id :: item_id
  item_category :: category_id
  item_name :: string

type_synonym coordinate = "(category_id, item_id) bmap"

definition new_coordinate :: coordinate where
  "new_coordinate = []"

definition coordinate_from_pairs :: "(category_id \<times> item_id) list \<Rightarrow> coordinate" where
  "coordinate_from_pairs ps = bcollect ps"

definition coordinate_get :: "coordinate \<Rightarrow> category_id \<Rightarrow> item_id option" where
  "coordinate_get c k = bget c k"

definition coordinate_with :: "coordinate \<Rightarrow> category_id \<Rightarrow> item_id \<Rightarrow> coordinate" where
  "coordinate_with c k i = binsert k i c"

definition coordinate_categories :: "coordinate \<Rightarrow> category_id list" where
  "coordinate_categories c = map fst c"

section \<open>Measures\<close>

datatype measure_kind = Input | Derived formula

record number_format =
  decimals :: "u8 option"
  grouping :: bool

record measure =
  m_id :: measure_id
  m_name :: string
  m_type :: value_type
  m_cats :: "category_id list"
  m_kind :: measure_kind
  m_desc :: "string option"
  m_format :: "number_format option"

definition MAX_DECIMALS :: u8 where "MAX_DECIMALS = 15"

definition default_format :: number_format where
  "default_format = \<lparr>decimals = None, grouping = False\<rparr>"

text \<open>
  \<open>NumberFormat::parse\<close>. Every failure is the same usage message quoting the text (in \<open>Debug\<close>
  form): the error is the text it quotes.
\<close>

definition parse_decimals :: "string \<Rightarrow> string \<Rightarrow> (string, u8 option) res" where
  "parse_decimals t w =
     (if w = ''general'' then Inr None
      else case parse_unsigned 256 w of
          Some n \<Rightarrow> if (of_nat n :: u8) \<le> MAX_DECIMALS then Inr (Some (of_nat n)) else Inl t
        | None \<Rightarrow> Inl t)"

fun parse_words :: "string \<Rightarrow> string list \<Rightarrow> number_format \<Rightarrow> (string, number_format) res" where
  "parse_words t [] f = Inr f"
| "parse_words t (w # ws) f =
     (if (w = ''decimal'' \<or> w = ''decimals'') \<and> decimals f \<noteq> None then parse_words t ws f
      else if w = ''grouped'' then parse_words t ws (f\<lparr>grouping := True\<rparr>)
      else Inl t)"

definition parse_format :: "string \<Rightarrow> (string, number_format option) res" where
  "parse_format t =
     (case map to_ascii_lowercase (filter (\<lambda>w. w \<noteq> []) (split_str (white_space @ ['','']) t)) of
        [] \<Rightarrow> Inl t
      | first # words \<Rightarrow>
          rbind (parse_decimals t first) (\<lambda>d.
          rbind (parse_words t words \<lparr>decimals = d, grouping = False\<rparr>) (\<lambda>f.
            Inr (if f \<noteq> default_format then Some f else None))))"

definition format_text :: "number_format \<Rightarrow> string" where
  "format_text f =
     (case decimals f of
        None \<Rightarrow> ''general''
      | Some d \<Rightarrow> if d = 1 then ''1 decimal'' else dec (unat d) @ '' decimals'') @
     (if grouping f then '' grouped'' else '''')"

definition is_input :: "measure \<Rightarrow> bool" where
  "is_input m = (case m_kind m of Input \<Rightarrow> True | Derived _ \<Rightarrow> False)"

definition is_derived :: "measure \<Rightarrow> bool" where
  "is_derived m = (case m_kind m of Input \<Rightarrow> False | Derived _ \<Rightarrow> True)"

definition ref_error :: expr where
  "ref_error = Call (FuncId 54) [Literal (Text ''#REF!'')]"

definition mark_unreadable :: "string \<Rightarrow> measure \<Rightarrow> measure" where
  "mark_unreadable why m =
     (let e = foldl (\<lambda>e c. BinaryOp Add e (Call POSITION [Category c])) ref_error (m_cats m);
          note = ''[unreadable formula] '' @ why @ '' (measure '' @ dec (unat (raw_measure (m_id m))) @
            '' '' @ m_name m @ ''); it is #REF! until redefined: split it into intermediate measures, at most '' @
            dec MAX_FORMULA_DEPTH @ '' levels deep.''
      in m\<lparr>m_kind := Derived (new_formula e),
           m_desc := Some (case m_desc m of Some d \<Rightarrow> note @ '' '' @ d | None \<Rightarrow> note)\<rparr>)"

section \<open>External functions and sources\<close>

datatype language = Python | R | Julia | Wasm | Pure

record external_fn =
  xf_name :: string
  xf_language :: language
  xf_body :: string
  xf_arg_types :: "value_type list"
  xf_return_type :: value_type
  xf_pure :: bool

definition arity :: "external_fn \<Rightarrow> nat" where
  "arity f = length (xf_arg_types f)"

datatype refresh_policy = Manual | OnLoad | Interval u64

record sql_source =
  sql_query :: string
  sql_dimension_columns :: "string list"
  sql_value_column :: string
  sql_policy :: refresh_policy

record external_call =
  xc_func :: string
  xc_args :: "measure_id list"
  xc_policy :: refresh_policy

section \<open>Views\<close>

type_synonym f32 = "32 word"

record canvas_rect =
  rect_x :: f32
  rect_y :: f32
  rect_w :: f32
  rect_h :: f32

text \<open>0, 0, 560 and 420 as single-precision patterns.\<close>

definition default_rect :: canvas_rect where
  "default_rect = \<lparr>rect_x = 0, rect_y = 0, rect_w = 0x440c0000, rect_h = 0x43d20000\<rparr>"

record item_filter =
  f_category :: category_id
  f_items :: "item_id list"

record matrix_placement =
  p_measure :: measure_id
  p_axis_order :: "category_id list"
  p_n_rows :: usize
  p_n_cols :: usize
  p_page_items :: "(category_id \<times> item_id) list"
  p_filters :: "item_filter list"
  p_rect :: canvas_rect

definition new_placement :: "measure_id \<Rightarrow> matrix_placement" where
  "new_placement m =
     \<lparr>p_measure = m, p_axis_order = [], p_n_rows = 1, p_n_cols = 1, p_page_items = [], p_filters = [],
      p_rect = default_rect\<rparr>"

definition placement_allows :: "matrix_placement \<Rightarrow> category_id \<Rightarrow> item_id \<Rightarrow> bool" where
  "placement_allows p c i =
     (case find (\<lambda>f. f_category f = c) (p_filters p) of
        Some f \<Rightarrow> i \<in> set (f_items f)
      | None \<Rightarrow> True)"

record view =
  v_id :: view_id
  v_name :: string
  v_measure :: measure_id
  v_axis_order :: "category_id list"
  v_n_rows :: usize
  v_n_cols :: usize
  v_page_items :: "(category_id \<times> item_id) list"
  v_filters :: "item_filter list"
  v_rect :: canvas_rect
  v_placements :: "matrix_placement list"

definition view_from_matrices :: "view_id \<Rightarrow> string \<Rightarrow> matrix_placement \<Rightarrow> matrix_placement list \<Rightarrow> view" where
  "view_from_matrices i n p extras =
     \<lparr>v_id = i, v_name = n, v_measure = p_measure p, v_axis_order = p_axis_order p, v_n_rows = p_n_rows p,
      v_n_cols = p_n_cols p, v_page_items = p_page_items p, v_filters = p_filters p, v_rect = p_rect p,
      v_placements = extras\<rparr>"

definition view_primary :: "view \<Rightarrow> matrix_placement" where
  "view_primary v =
     \<lparr>p_measure = v_measure v, p_axis_order = v_axis_order v, p_n_rows = v_n_rows v, p_n_cols = v_n_cols v,
      p_page_items = v_page_items v, p_filters = v_filters v, p_rect = v_rect v\<rparr>"

definition view_matrices :: "view \<Rightarrow> matrix_placement list" where
  "view_matrices v = view_primary v # v_placements v"

definition view_allows :: "view \<Rightarrow> category_id \<Rightarrow> item_id \<Rightarrow> bool" where
  "view_allows v c i = placement_allows (view_primary v) c i"

section \<open>The model\<close>

record named_lambda =
  l_name :: string
  l_params :: "string list"
  l_body :: expr

record scenario =
  s_id :: scenario_id
  s_name :: string
  s_overrides :: "(measure_id \<times> coordinate, val) hmap"

record hints =
  h_measures :: "(string, measure_id) hmap"
  h_categories :: "(string, category_id) hmap"

text \<open>\<open>names\<close> is the \<open>OnceLock\<close> of the hints: \<open>None\<close> until the first lookup by name.\<close>

record model =
  categories :: "(category_id, category) hmap"
  items :: "(item_id, item) hmap"
  measure_map :: "(measure_id, measure) hmap"
  inputs :: "(measure_id \<times> coordinate, val) hmap"
  sql_sources :: "(measure_id, sql_source) hmap"
  views :: "(view_id, view) hmap"
  external_fns :: "(string, external_fn) hmap"
  external_calls :: "(measure_id, external_call) hmap"
  scenarios :: "(scenario_id, scenario) hmap"
  lambdas :: "(u32, named_lambda) bmap"
  names :: "hints option"

definition new_model :: model where
  "new_model =
     \<lparr>categories = [], items = [], measure_map = [], inputs = [], sql_sources = [], views = [],
      external_fns = [], external_calls = [], scenarios = [], lambdas = [], names = None\<rparr>"

definition build_hints :: "model \<Rightarrow> hints" where
  "build_hints m =
     \<lparr>h_measures = hcollect (map (\<lambda>x. (m_name x, m_id x)) (hvalues (measure_map m))),
      h_categories = hcollect (map (\<lambda>x. (cat_name x, cat_id x)) (hvalues (categories m)))\<rparr>"

definition get_hints :: "model \<Rightarrow> hints \<times> model" where
  "get_hints m =
     (case names m of
        Some h \<Rightarrow> (h, m)
      | None \<Rightarrow> (build_hints m, m\<lparr>names := Some (build_hints m)\<rparr>))"

definition add_category :: "category_id \<Rightarrow> string \<Rightarrow> model \<Rightarrow> model" where
  "add_category i n m =
     m\<lparr>names := map_option (\<lambda>h. h\<lparr>h_categories := hinsert n i (h_categories h)\<rparr>) (names m),
       categories := hinsert i \<lparr>cat_id = i, cat_name = n, cat_items = []\<rparr> (categories m)\<rparr>"

definition add_item :: "item_id \<Rightarrow> category_id \<Rightarrow> string \<Rightarrow> model \<Rightarrow> model" where
  "add_item i c n m =
     (let old = hget (items m) i;
          m' = m\<lparr>items := hinsert i \<lparr>item_id = i, item_category = c, item_name = n\<rparr> (items m)\<rparr>
      in case hget (categories m') c of
           None \<Rightarrow> m'
         | Some cat \<Rightarrow>
             if old = None \<or> i \<notin> set (cat_items cat)
             then m'\<lparr>categories := hinsert c (cat\<lparr>cat_items := cat_items cat @ [i]\<rparr>) (categories m')\<rparr>
             else m')"

definition add_measure :: "measure \<Rightarrow> model \<Rightarrow> model" where
  "add_measure x m =
     m\<lparr>names := map_option (\<lambda>h. h\<lparr>h_measures := hinsert (m_name x) (m_id x) (h_measures h)\<rparr>) (names m),
       measure_map := hinsert (m_id x) x (measure_map m)\<rparr>"

definition set_input :: "measure_id \<Rightarrow> coordinate \<Rightarrow> val \<Rightarrow> model \<Rightarrow> model" where
  "set_input x c v m = m\<lparr>inputs := hinsert (x, c) v (inputs m)\<rparr>"

definition input :: "measure_id \<Rightarrow> coordinate \<Rightarrow> model \<Rightarrow> val option" where
  "input x c m = hget (inputs m) (x, c)"

text \<open>A lookup by name fills the hints, so it returns the model it leaves.\<close>

definition measure_by_name :: "string \<Rightarrow> model \<Rightarrow> measure option \<times> model" where
  "measure_by_name n m =
     (let (h, m') = get_hints m;
          hint = hget (h_measures h) n;
          found = Option.bind hint (hget (measure_map m'));
          found = (case found of Some x \<Rightarrow> if m_name x = n then Some x else None | None \<Rightarrow> None)
      in (case found of
            Some x \<Rightarrow> Some x
          | None \<Rightarrow> find (\<lambda>x. m_name x = n) (hvalues (measure_map m')), m'))"

definition category_by_name :: "string \<Rightarrow> model \<Rightarrow> category option \<times> model" where
  "category_by_name n m =
     (let (h, m') = get_hints m;
          hint = hget (h_categories h) n;
          found = Option.bind hint (hget (categories m'));
          found = (case found of Some x \<Rightarrow> if cat_name x = n then Some x else None | None \<Rightarrow> None)
      in (case found of
            Some x \<Rightarrow> Some x
          | None \<Rightarrow> find (\<lambda>x. cat_name x = n) (hvalues (categories m')), m'))"

text \<open>The provisional model (\<open>Cow::Owned\<close> or the model itself).\<close>

definition with_provisional :: "measure_id \<Rightarrow> string \<Rightarrow> model \<Rightarrow> model" where
  "with_provisional i n m =
     (let (found, m') = measure_by_name n m
      in case found of
           Some _ \<Rightarrow> m'
         | None \<Rightarrow> add_measure \<lparr>m_id = i, m_name = n, m_type = TNumber, m_cats = [], m_kind = Input,
                                 m_desc = None, m_format = None\<rparr> m')"

definition add_view :: "view \<Rightarrow> model \<Rightarrow> model" where
  "add_view v m = m\<lparr>views := hinsert (v_id v) v (views m)\<rparr>"

definition view_by_name :: "string \<Rightarrow> model \<Rightarrow> view option" where
  "view_by_name n m = find (\<lambda>v. v_name v = n) (hvalues (views m))"

definition add_scenario :: "scenario \<Rightarrow> model \<Rightarrow> model" where
  "add_scenario s m = m\<lparr>scenarios := hinsert (s_id s) s (scenarios m)\<rparr>"

definition scenario_by_name :: "string \<Rightarrow> model \<Rightarrow> scenario option" where
  "scenario_by_name n m = find (\<lambda>s. s_name s = n) (hvalues (scenarios m))"

definition with_scenario :: "scenario_id \<Rightarrow> model \<Rightarrow> model" where
  "with_scenario i m =
     (let m' = m\<lparr>scenarios := []\<rparr>
      in case hget (scenarios m) i of
           None \<Rightarrow> m'
         | Some s \<Rightarrow> m'\<lparr>inputs := fold (\<lambda>(k, v). hinsert k v) (s_overrides s) (inputs m')\<rparr>)"

section \<open>Dependency closure\<close>

definition deps_of :: "model \<Rightarrow> measure_id \<Rightarrow> measure_id list" where
  "deps_of m x =
     (case hget (measure_map m) x of
        Some me \<Rightarrow> (case m_kind me of Derived f \<Rightarrow> formula_refs f | Input \<Rightarrow> [])
      | None \<Rightarrow> []) @
     (case hget (external_calls m) x of Some c \<Rightarrow> xc_args c | None \<Rightarrow> [])"

text \<open>\<open>seen\<close> is the set, \<open>frontier\<close> the stack with its top first.\<close>

fun push_new :: "measure_id list \<Rightarrow> measure_id list \<Rightarrow> measure_id list \<Rightarrow> measure_id list \<times> measure_id list" where
  "push_new [] seen frontier = (seen, frontier)"
| "push_new (d # ds) seen frontier =
     (if d \<in> set seen then push_new ds seen frontier else push_new ds (d # seen) (d # frontier))"

lemma push_new_set: "set (fst (push_new ds seen fr)) = set seen \<union> set ds"
  by (induction ds seen fr rule: push_new.induct) auto

lemma push_new_frontier: "set (snd (push_new ds seen fr)) = set fr \<union> (set ds - set seen)"
  by (induction ds seen fr rule: push_new.induct) auto

lemma push_new_same: "set ds \<subseteq> set seen \<Longrightarrow> push_new ds seen fr = (seen, fr)"
  by (induction ds seen fr rule: push_new.induct) auto

definition all_deps :: "model \<Rightarrow> measure_id set" where
  "all_deps m = (\<Union>x \<in> set (map fst (measure_map m)) \<union> set (map fst (external_calls m)). set (deps_of m x))"

lemma deps_of_all: "set (deps_of m x) \<subseteq> all_deps m"
proof (cases "x \<in> set (map fst (measure_map m)) \<union> set (map fst (external_calls m))")
  case False
  then have "map_of (measure_map m) x = None" "map_of (external_calls m) x = None"
    by (simp_all add: map_of_eq_None_iff)
  then show ?thesis by (simp add: deps_of_def hget_def)
qed (auto simp: all_deps_def)

function closure_loop :: "model \<Rightarrow> measure_id list \<Rightarrow> measure_id list \<Rightarrow> measure_id list" where
  "closure_loop m seen [] = seen"
| "closure_loop m seen (x # frontier) =
     (let (seen', frontier') = push_new (deps_of m x) seen frontier
      in closure_loop m seen' frontier')"
  by pat_completeness auto
termination
proof (relation "measures [\<lambda>(m, seen, fr). card (all_deps m - set seen), \<lambda>(m, seen, fr). length fr]")
  fix m seen x frontier p seen' frontier'
  assume "p = push_new (deps_of m x) seen frontier" "(seen', frontier') = p"
  then have p: "push_new (deps_of m x) seen frontier = (seen', frontier')" by simp
  show "((m, seen', frontier'), m, seen, x # frontier)
      \<in> measures [\<lambda>(m, seen, fr). card (all_deps m - set seen), \<lambda>(m, seen, fr). length fr]"
  proof (cases "set (deps_of m x) \<subseteq> set seen")
    case True
    from push_new_same [OF this, of frontier] p show ?thesis by simp
  next
    case False
    then obtain d where d: "d \<in> set (deps_of m x)" "d \<notin> set seen" by auto
    have s: "set seen' = set seen \<union> set (deps_of m x)" using push_new_set [of "deps_of m x" seen frontier] p by simp
    have "all_deps m - set seen' \<subset> all_deps m - set seen"
      using d s deps_of_all [of m x] by auto
    then have "card (all_deps m - set seen') < card (all_deps m - set seen)"
      by (intro psubset_card_mono) (simp_all add: all_deps_def)
    then show ?thesis by simp
  qed
qed simp

definition measure_dependency_closure :: "measure_id list \<Rightarrow> model \<Rightarrow> measure_id list" where
  "measure_dependency_closure roots m = closure_loop m roots (rev roots)"

end
