(* ===== verification/Cube_Facts.thy ===== *)
theory Cube_Facts
  imports Cube_Model
begin

text \<open>
  What the cube's operations promise: name lookups do not depend on the hints, items stay listed
  in their categories, the dependency closure is reachability, a scenario is an overlay, a view
  keeps its matrices, and a number format reads back as it prints.
\<close>

section \<open>Lookups by name\<close>

lemma find_name: "(find P xs = None \<longleftrightarrow> (\<forall>x \<in> set xs. \<not> P x)) \<and> (find P xs = Some x \<longrightarrow> x \<in> set xs \<and> P x)"
  by (auto simp: find_None_iff find_Some_iff)

lemma get_hints_model: "measure_map (snd (get_hints m)) = measure_map m" "categories (snd (get_hints m)) = categories m"
  by (auto simp: get_hints_def split: option.splits)

text \<open>
  C36. A lookup by name answers from the model alone, whatever the hints hold (absent, current
  or stale): it finds a measure with the name when the model has one and none otherwise, and
  leaves everything but the hints as it was.
\<close>

theorem measure_by_name_correct:
  "(case fst (measure_by_name n m) of
     Some x \<Rightarrow> x \<in> set (hvalues (measure_map m)) \<and> m_name x = n
   | None \<Rightarrow> n \<notin> m_name ` set (hvalues (measure_map m))) \<and>
   (\<exists>h. snd (measure_by_name n m) = m\<lparr>names := h\<rparr>)"
proof (rule conjI)
  obtain h m' where g: "get_hints m = (h, m')" by force
  then have mm: "measure_map m' = measure_map m" using get_hints_model(1) [of m] by simp
  show "case fst (measure_by_name n m) of
     Some x \<Rightarrow> x \<in> set (hvalues (measure_map m)) \<and> m_name x = n
   | None \<Rightarrow> n \<notin> m_name ` set (hvalues (measure_map m))"
    by (auto simp: measure_by_name_def g mm Let_def find_None_iff find_Some_iff
        split: option.splits if_splits dest: hget_value)
       (auto simp: bind_eq_Some_conv dest: hget_value)
  show "\<exists>h. snd (measure_by_name n m) = m\<lparr>names := h\<rparr>"
    using g by (auto simp: measure_by_name_def get_hints_def split: option.splits intro: exI [of _ "names m"])
qed

section \<open>Items\<close>

text \<open>
  The invariant \<open>add_item\<close> relies on: a category lists an item once, and only items the model
  has.
\<close>

definition items_ok :: "model \<Rightarrow> bool" where
  "items_ok m \<longleftrightarrow>
     (\<forall>c cat. hget (categories m) c = Some cat \<longrightarrow>
        distinct (cat_items cat) \<and> (\<forall>i \<in> set (cat_items cat). hget (items m) i \<noteq> None))"

text \<open>
  C32. Adding or re-adding an item keeps every category's list free of duplicates and within
  the model's items, and lists the item in its category; a new item goes last and the other
  items keep their order. So the shortcut for a new id, which skips the scan, is sound.
\<close>

theorem add_item_keeps_lists:
  assumes "items_ok m" "hget (categories m) c = Some cat"
  shows "items_ok (add_item i c n m) \<and>
    (\<exists>cat'. hget (categories (add_item i c n m)) c = Some cat' \<and>
      cat_items cat' = (if i \<in> set (cat_items cat) then cat_items cat else cat_items cat @ [i]))"
proof (rule conjI)
  have old: "i \<notin> set (cat_items cat)" if "hget (items m) i = None"
    using assms that unfolding items_ok_def by fastforce
  show "items_ok (add_item i c n m)"
    using assms old by (auto simp: items_ok_def add_item_def Let_def split: option.splits if_splits)
  show "\<exists>cat'. hget (categories (add_item i c n m)) c = Some cat' \<and>
      cat_items cat' = (if i \<in> set (cat_items cat) then cat_items cat else cat_items cat @ [i])"
    using assms(2) old by (auto simp: add_item_def Let_def)
qed

lemma add_item_keeps_lists_witness:
  "items_ok (add_item (ItemId 7) (CategoryId 1) ''b'' (add_item (ItemId 5) (CategoryId 1) ''a''
     (add_category (CategoryId 1) ''T'' new_model)))"
proof (rule conjunct1 [OF add_item_keeps_lists])
  show "items_ok (add_item (ItemId 5) (CategoryId 1) ''a'' (add_category (CategoryId 1) ''T'' new_model))"
    by (rule conjunct1 [OF add_item_keeps_lists]) (auto simp: items_ok_def add_category_def new_model_def)
qed (simp add: add_item_def add_category_def new_model_def Let_def)

section \<open>Dependencies\<close>

definition dep_rel :: "model \<Rightarrow> (measure_id \<times> measure_id) set" where
  "dep_rel m = {(x, y). y \<in> set (deps_of m x)}"

lemma closure_loop_spec:
  assumes "set fr \<subseteq> set seen" "\<forall>x \<in> set seen - set fr. set (deps_of m x) \<subseteq> set seen"
  shows "set (closure_loop m seen fr) = (dep_rel m)\<^sup>* `` set seen"
  using assms
proof (induction m seen fr rule: closure_loop.induct)
  case (1 m seen)
  have "(dep_rel m) `` set seen \<subseteq> set seen" using "1.prems" by (auto simp: dep_rel_def)
  then show ?case by (simp add: Image_closed_trancl)
next
  case (2 m seen x fr)
  obtain seen' fr' where p: "push_new (deps_of m x) seen fr = (seen', fr')" by force
  have s: "set seen' = set seen \<union> set (deps_of m x)"
    using push_new_set [of "deps_of m x" seen fr] p by simp
  have f: "set fr' = set fr \<union> (set (deps_of m x) - set seen)"
    using push_new_frontier [of "deps_of m x" seen fr] p by simp
  have "set (closure_loop m seen' fr') = (dep_rel m)\<^sup>* `` set seen'"
  proof (rule "2.IH" [OF p [symmetric] refl])
    show "set fr' \<subseteq> set seen'" using s f "2.prems"(1) by auto
    show "\<forall>y \<in> set seen' - set fr'. set (deps_of m y) \<subseteq> set seen'"
      using s f "2.prems" by auto
  qed
  also have "\<dots> = (dep_rel m)\<^sup>* `` set seen"
  proof -
    have "x \<in> set seen" using "2.prems"(1) by simp
    then have "set (deps_of m x) \<subseteq> (dep_rel m)\<^sup>* `` set seen" by (auto simp: dep_rel_def)
    then have "(dep_rel m)\<^sup>* `` set (deps_of m x) \<subseteq> (dep_rel m)\<^sup>* `` set seen"
      by (auto dest!: subsetD intro: rtrancl_trans)
    then show ?thesis unfolding s by blast
  qed
  finally show ?case by (simp add: p)
qed

text \<open>
  C30. The dependency closure of some measures is exactly what they reach, themselves included,
  through formulas' references and external calls' arguments, on any model: a reference cycle
  included, the loop ends.
\<close>

theorem dependency_closure_reachable:
  "set (measure_dependency_closure roots m) = (dep_rel m)\<^sup>* `` set roots"
  unfolding measure_dependency_closure_def by (rule closure_loop_spec) auto

section \<open>Scenarios and views\<close>

text \<open>
  C31. A model under a scenario reads every overridden cell from the scenario and every other
  cell from the base; nothing else differs, and the overlay has no scenarios.
\<close>

theorem with_scenario_overlay:
  assumes "hget (scenarios m) i = Some s" "hkeys_distinct (s_overrides s)"
  shows "input x c (with_scenario i m) =
      (case hget (s_overrides s) (x, c) of Some v \<Rightarrow> Some v | None \<Rightarrow> input x c m) \<and>
    (\<exists>cells. with_scenario i m = m\<lparr>scenarios := [], inputs := cells\<rparr>)"
proof (rule conjI)
  have "map_of (rev (s_overrides s)) = map_of (s_overrides s)"
    using assms(2) by (intro map_of_inject_set [THEN iffD2]) (simp_all add: hkeys_distinct_def rev_map [symmetric])
  then have r: "map_of (rev (s_overrides s)) (x, c) = hget (s_overrides s) (x, c)" by (simp add: hget_def)
  show "input x c (with_scenario i m) =
      (case hget (s_overrides s) (x, c) of Some v \<Rightarrow> Some v | None \<Rightarrow> input x c m)"
    using assms(1) by (simp add: input_def with_scenario_def Let_def hget_fold_hinsert r split: option.split)
  show "\<exists>cells. with_scenario i m = m\<lparr>scenarios := [], inputs := cells\<rparr>"
    using assms(1) by (auto simp: with_scenario_def Let_def intro!: exI)
qed

lemma with_scenario_overlay_witness:
  "input (MeasureId 1) [] (with_scenario (ScenarioId 9) (add_scenario
     \<lparr>s_id = ScenarioId 9, s_name = ''up'', s_overrides = [((MeasureId 1, []), Boolean True)]\<rparr>
     (set_input (MeasureId 1) [] (Boolean False) new_model))) = Some (Boolean True)"
  by (subst conjunct1 [OF with_scenario_overlay [of _ _ "\<lparr>s_id = ScenarioId 9, s_name = ''up'',
        s_overrides = [((MeasureId 1, []), Boolean True)]\<rparr>"]])
    (simp_all add: add_scenario_def hkeys_distinct_def)


section \<open>Number formats\<close>

lemma small_u8: "(d :: u8) \<le> 15 \<Longrightarrow> d \<in> {0, 1, 2, 3, 4, 5, 6, 7, 8, 9, 10, 11, 12, 13, 14, 15}"
proof -
  assume "d \<le> 15"
  then have "unat d \<le> 15" by (simp add: word_le_nat_alt)
  then have "unat d \<in> {0, 1, 2, 3, 4, 5, 6, 7, 8, 9, 10, 11, 12, 13, 14, 15}"
    by (auto simp: numeral_eq_Suc le_Suc_eq)
  then have "of_nat (unat d) \<in> (of_nat ` {0, 1, 2, 3, 4, 5, 6, 7, 8, 9, 10, 11, 12, 13, 14, 15} :: u8 set)" by blast
  then show ?thesis by simp
qed

definition reads_back :: "number_format \<Rightarrow> bool" where
  "reads_back f \<longleftrightarrow> parse_format (format_text f) = Inr (if f = default_format then None else Some f)"

lemma reads_back_all:
  "list_all (\<lambda>d. reads_back \<lparr>decimals = d, grouping = False\<rparr> \<and> reads_back \<lparr>decimals = d, grouping = True\<rparr>)
     (None # map Some [0, 1, 2, 3, 4, 5, 6, 7, 8, 9, 10, 11, 12, 13, 14, 15])"
  by code_simp

text \<open>
  C38. Every format of at most 15 decimals reads back from the text it prints as, and the text
  of the General form reads as no format.
\<close>

theorem number_format_roundtrip:
  "(case decimals f of None \<Rightarrow> True | Some d \<Rightarrow> d \<le> MAX_DECIMALS) \<Longrightarrow>
   parse_format (format_text f) = Inr (if f = default_format then None else Some f)"
proof -
  assume "case decimals f of None \<Rightarrow> True | Some d \<Rightarrow> d \<le> MAX_DECIMALS"
  then have "decimals f \<in> set (None # map Some [0, 1, 2, 3, 4, 5, 6, 7, 8, 9, 10, 11, 12, 13, 14, 15])"
    using small_u8 by (cases "decimals f") (auto simp: MAX_DECIMALS_def)
  with reads_back_all have "reads_back \<lparr>decimals = decimals f, grouping = grouping f\<rparr>"
    by (cases "grouping f") (auto simp only: list_all_iff)
  moreover have "\<lparr>decimals = decimals f, grouping = grouping f\<rparr> = f" by (cases f) simp
  ultimately show ?thesis by (simp only: reads_back_def)
qed

lemma number_format_roundtrip_witness:
  "parse_format (format_text \<lparr>decimals = Some 2, grouping = True\<rparr>) = Inr (Some \<lparr>decimals = Some 2, grouping = True\<rparr>)"
  by (subst number_format_roundtrip) (simp_all add: MAX_DECIMALS_def default_format_def)

end
