(* ===== verification/Named_Lambda.thy ===== *)
theory Named_Lambda
  imports Cube_Model
begin

text \<open>
  Named LAMBDAs (\<open>crates/core_model/src/lib.rs\<close>): what a body does with its parameters, the
  substitution of a call's arguments, the expansion of nested calls with its guard against
  cycles and its limits, and the users of a lambda. \<open>load_lambdas\<close>, which runs the parser, is not
  modelled.
\<close>

section \<open>Parameters\<close>

datatype lambda_param_kind = LValue | LReduced | LCategory

record param_use =
  pu_value :: bool
  pu_reduced :: bool
  pu_category :: bool

definition default_use :: param_use where
  "default_use = \<lparr>pu_value = False, pu_reduced = False, pu_category = False\<rparr>"

definition use_category :: "category_id \<Rightarrow> param_use list \<Rightarrow> param_use list" where
  "use_category c uses =
     (case lambda_category_of c of
        Some i \<Rightarrow> if i < length uses then uses[i := (uses ! i)\<lparr>pu_category := True\<rparr>] else uses
      | None \<Rightarrow> uses)"

definition use_value :: "measure_id \<Rightarrow> dim_spec \<Rightarrow> param_use list \<Rightarrow> param_use list" where
  "use_value m s uses =
     (case lambda_param_of m of
        Some i \<Rightarrow>
          if i < length uses
          then uses[i := (uses ! i)\<lparr>pu_value := True, pu_reduced := pu_reduced (uses ! i) \<or> s \<noteq> default_spec\<rparr>]
          else uses
      | None \<Rightarrow> uses)"

fun param_uses :: "expr \<Rightarrow> param_use list \<Rightarrow> param_use list"
and param_uses_list :: "expr list \<Rightarrow> param_use list \<Rightarrow> param_use list" where
  "param_uses (Ref m s) uses = use_value m s (fold use_category (sby s @ sover s @ sexcept s) uses)"
| "param_uses (Category c) uses = use_category c uses"
| "param_uses (UnaryOp _ a) uses = param_uses a uses"
| "param_uses (BinaryOp _ a b) uses = param_uses b (param_uses a uses)"
| "param_uses (Call _ args) uses = param_uses_list args uses"
| "param_uses (Literal _) uses = uses"
| "param_uses_list [] uses = uses"
| "param_uses_list (a # as) uses = param_uses_list as (param_uses a uses)"

definition param_kind :: "string \<Rightarrow> param_use \<Rightarrow> (string, lambda_param_kind) res" where
  "param_kind p u =
     (if pu_value u \<and> pu_category u
      then Inl (''LAMBDA parameter '' @ p @ '' is used both as a value and as a category'')
      else if pu_category u then Inr LCategory
      else if pu_reduced u then Inr LReduced
      else Inr LValue)"

definition param_kinds :: "named_lambda \<Rightarrow> (string, lambda_param_kind list) res" where
  "param_kinds l =
     (let uses = param_uses (l_body l) (replicate (length (l_params l)) default_use)
      in rtraverse (\<lambda>(p, u). param_kind p u) (zip (l_params l) uses))"

section \<open>Substitution\<close>

text \<open>\<open>args.get(i)\<close>.\<close>

definition nth_arg :: "'a list \<Rightarrow> nat \<Rightarrow> 'a option" where
  "nth_arg xs i = (if i < length xs then Some (xs ! i) else None)"

definition sub_category :: "expr list \<Rightarrow> category_id \<Rightarrow> (string, category_id) res" where
  "sub_category args c =
     (case lambda_category_of c of
        None \<Rightarrow> Inr c
      | Some i \<Rightarrow>
          (case nth_arg args i of
             Some (Category a) \<Rightarrow> Inr a
           | _ \<Rightarrow> Inl (''argument '' @ dec (i + 1) @ '' must be a category'')))"

definition or_spec :: "category_id list \<Rightarrow> category_id list \<Rightarrow> category_id list" where
  "or_spec b a = (if b = [] then a else b)"

definition sub_ref :: "expr list \<Rightarrow> measure_id \<Rightarrow> dim_spec \<Rightarrow> (string, expr) res" where
  "sub_ref args m s =
     rbind (rtraverse (sub_category args) (sby s)) (\<lambda>b.
     rbind (rtraverse (sub_category args) (sover s)) (\<lambda>ov.
     rbind (rtraverse (sub_category args) (sexcept s)) (\<lambda>x.
       let spec = \<lparr>sby = b, sover = ov, sexcept = x\<rparr>
       in case Option.bind (lambda_param_of m) (\<lambda>i. map_option (Pair i) (nth_arg args i)) of
            None \<Rightarrow> Inr (Ref m spec)
          | Some (i, a) \<Rightarrow>
              if spec = default_spec then Inr a
              else (case a of
                      Ref m' s' \<Rightarrow>
                        Inr (Ref m' \<lparr>sby = or_spec b (sby s'), sover = or_spec ov (sover s'),
                                     sexcept = or_spec x (sexcept s')\<rparr>)
                    | _ \<Rightarrow> Inl (''argument '' @ dec (i + 1) @
                          '' is reduced over a category, so it must be a measure'')))))"

fun substitute_params :: "expr list \<Rightarrow> expr \<Rightarrow> (string, expr) res" where
  "substitute_params args (Ref m s) = sub_ref args m s"
| "substitute_params args (Category c) = rmap Category (sub_category args c)"
| "substitute_params args (Call f as) = rmap (Call f) (rtraverse (substitute_params args) as)"
| "substitute_params args (UnaryOp u a) = rmap (UnaryOp u) (substitute_params args a)"
| "substitute_params args (BinaryOp b x y) =
     rbind (substitute_params args x) (\<lambda>x'. rmap (BinaryOp b x') (substitute_params args y))"
| "substitute_params args (Literal v) = Inr (Literal v)"

fun calls_lambda :: "u32 list \<Rightarrow> expr \<Rightarrow> bool" where
  "calls_lambda ids (Call f as) \<longleftrightarrow>
     (case named_lambda_of f of Some i \<Rightarrow> i \<in> set ids | None \<Rightarrow> False) \<or> list_ex (calls_lambda ids) as"
| "calls_lambda ids (UnaryOp _ a) \<longleftrightarrow> calls_lambda ids a"
| "calls_lambda ids (BinaryOp _ a b) \<longleftrightarrow> calls_lambda ids a \<or> calls_lambda ids b"
| "calls_lambda ids (Literal _) \<longleftrightarrow> False"
| "calls_lambda ids (Ref _ _) \<longleftrightarrow> False"
| "calls_lambda ids (Category _) \<longleftrightarrow> False"

section \<open>Lookups and users\<close>

definition lambda_by_name :: "string \<Rightarrow> model \<Rightarrow> (u32 \<times> named_lambda) option" where
  "lambda_by_name n m = find (\<lambda>(_, l). eq_ignore_ascii_case (l_name l) n) (lambdas m)"

fun users_pass :: "(u32 \<times> named_lambda) list \<Rightarrow> u32 list \<Rightarrow> u32 list" where
  "users_pass [] hit = hit"
| "users_pass ((lid, l) # ls) hit =
     users_pass ls (if lid \<notin> set hit \<and> calls_lambda hit (l_body l) then set_insert lid hit else hit)"

lemma users_pass_mono: "set hit \<subseteq> set (users_pass ls hit)"
proof (induction ls hit rule: users_pass.induct)
  case (2 lid l ls hit)
  then show ?case by (auto split: if_splits)
qed simp

lemma users_pass_bound: "set (users_pass ls hit) \<subseteq> set hit \<union> set (map fst ls)"
  by (induction ls hit rule: users_pass.induct) (fastforce split: if_splits)+

lemma length_set_insert: "length xs \<le> length (set_insert x xs)"
  by (simp add: set_insert_def)

lemma users_pass_length: "length hit \<le> length (users_pass ls hit)"
  by (induction ls hit rule: users_pass.induct) (auto intro: le_trans [OF length_set_insert])

lemma users_pass_same:
  "length (users_pass ls hit) = length hit \<Longrightarrow>
   users_pass ls hit = hit \<and> (\<forall>(lid, l) \<in> set ls. calls_lambda hit (l_body l) \<longrightarrow> lid \<in> set hit)"
proof (induction ls hit rule: users_pass.induct)
  case (2 lid l ls hit)
  show ?case
  proof (cases "lid \<notin> set hit \<and> calls_lambda hit (l_body l)")
    case True
    then have "length (set_insert lid hit) = length hit + 1" by (simp add: set_insert_def)
    moreover have "length (set_insert lid hit) \<le> length (users_pass ls (set_insert lid hit))"
      by (rule users_pass_length)
    ultimately show ?thesis using "2.prems" True by simp
  next
    case False
    then have "users_pass ((lid, l) # ls) hit = users_pass ls hit" by auto
    with 2 False show ?thesis by auto
  qed
qed simp

lemma users_pass_new:
  "length (users_pass ls hit) \<noteq> length hit \<Longrightarrow> \<exists>x \<in> set (users_pass ls hit). x \<notin> set hit"
proof (induction ls hit rule: users_pass.induct)
  case (2 lid l ls hit)
  show ?case
  proof (cases "lid \<notin> set hit \<and> calls_lambda hit (l_body l)")
    case True
    then have "lid \<in> set (users_pass ls (set_insert lid hit))"
      using users_pass_mono [of "set_insert lid hit" ls] by auto
    with True show ?thesis by auto
  next
    case False
    then have "users_pass ((lid, l) # ls) hit = users_pass ls hit" by auto
    with 2 False show ?thesis by auto
  qed
qed simp

function users_loop :: "(u32 \<times> named_lambda) list \<Rightarrow> u32 list \<Rightarrow> u32 list" where
  "users_loop ls hit =
     (let hit' = users_pass ls hit
      in if length hit' = length hit then hit' else users_loop ls hit')"
  by pat_completeness auto
termination
proof (relation "measure (\<lambda>(ls, hit). card (set (map fst ls) - set hit))")
  fix ls hit hit'
  assume h: "hit' = users_pass ls hit" "length hit' \<noteq> length hit"
  then obtain x where x: "x \<in> set hit'" "x \<notin> set hit" using users_pass_new by blast
  then have "x \<in> set (map fst ls)" using h users_pass_bound by blast
  moreover have "set hit \<subseteq> set hit'" using h users_pass_mono by blast
  ultimately have "set (map fst ls) - set hit' \<subset> set (map fst ls) - set hit" using x by blast
  then have "card (set (map fst ls) - set hit') < card (set (map fst ls) - set hit)"
    by (intro psubset_card_mono) auto
  then show "((ls, hit'), ls, hit) \<in> measure (\<lambda>(ls, hit). card (set (map fst ls) - set hit))" by simp
qed simp

declare users_loop.simps [simp del]

definition lambda_users :: "u32 \<Rightarrow> model \<Rightarrow> u32 list \<times> measure_id list" where
  "lambda_users i m =
     (let hit = users_loop (lambdas m) [i];
          ms = sort_dedup (map m_id (filter (\<lambda>x. case m_kind x of Derived f \<Rightarrow> calls_lambda hit (fexpr f) | Input \<Rightarrow> False)
                 (hvalues (measure_map m))))
      in (filter (\<lambda>l. l \<noteq> i) hit, ms))"

section \<open>Expansion\<close>

definition cycle_error :: string where
  "cycle_error = ''named LAMBDAs call each other in a cycle''"

definition in_lambda :: "named_lambda \<Rightarrow> string \<Rightarrow> string" where
  "in_lambda l e = l_name l @ '': '' @ e"

lemma size_arg: "a \<in> set as \<Longrightarrow> size a < Suc (size_list size as)"
  by (induction as) auto

function expand_at :: "model \<Rightarrow> nat \<Rightarrow> expr \<Rightarrow> (string, expr) res" where
  "expand_at m depth e =
     (if length (lambdas m) + 1 < depth then Inl cycle_error
      else case e of
          Call f args \<Rightarrow>
            rbind (rtraverse (expand_at m depth) args) (\<lambda>args'.
              case named_lambda_of f of
                None \<Rightarrow> Inr (Call f args')
              | Some i \<Rightarrow>
                  (case bget (lambdas m) i of
                     None \<Rightarrow> Inl (''named LAMBDA '' @ dec (unat i) @ '' does not exist'')
                   | Some l \<Rightarrow>
                       if length (l_params l) \<noteq> length args'
                       then Inl (l_name l @ '' takes '' @ dec (length (l_params l)) @ '' argument(s), got '' @
                              dec (length args'))
                       else rbind (map_err (in_lambda l) (substitute_params args' (l_body l))) (\<lambda>body.
                            rbind (map_err (in_lambda l) (check_depth MAX_STORED_FORMULA_DEPTH body)) (\<lambda>_.
                              expand_at m (depth + 1) body))))
        | UnaryOp u a \<Rightarrow> rmap (UnaryOp u) (expand_at m depth a)
        | BinaryOp b x y \<Rightarrow> rbind (expand_at m depth x) (\<lambda>x'. rmap (BinaryOp b x') (expand_at m depth y))
        | other \<Rightarrow> Inr other)"
  by pat_completeness auto
termination
  by (relation "measures [\<lambda>(m, depth, e). length (lambdas m) + 2 - depth, \<lambda>(m, depth, e). size e]")
    (auto simp: size_arg)

declare expand_at.simps [simp del]

definition expand_lambdas :: "expr \<Rightarrow> model \<Rightarrow> (string, expr) res" where
  "expand_lambdas e m =
     rbind (expand_at m 0 e) (\<lambda>e'. rbind (check_depth MAX_STORED_FORMULA_DEPTH e') (\<lambda>_. Inr e'))"

end
