(* ===== verification/Lambda_Facts.thy ===== *)
theory Lambda_Facts
  imports Named_Lambda
begin

text \<open>
  What named LAMBDAs promise: their ids and placeholders decode to what they encode and never
  meet, a substitution leaves no placeholder, an expansion leaves no call of a LAMBDA and stays
  within the limits, and the users of a LAMBDA are exactly its transitive callers.
\<close>

section \<open>Ids and placeholders\<close>

lemma u32_consts:
  "unat LAMBDA_SLOTS = 4294963199" "unat LAMBDA_PARAMS = 4294961151" "unat NAMED_LAMBDA_BASE = 1000000"
  by (simp_all add: LAMBDA_SLOTS_def LAMBDA_PARAMS_def NAMED_LAMBDA_BASE_def)

lemma unat_of_nat_u32: "n < 2 ^ 32 \<Longrightarrow> unat (of_nat n :: u32) = n"
  by (simp add: unat_of_nat)

lemma unat_diff_u32: "(b :: u32) \<le> a \<Longrightarrow> unat (a - b) = unat a - unat b"
  by (rule unat_sub)

lemma lambda_param_roundtrip:
  assumes "i < 256"
  shows "lambda_param_of (lambda_param i) = Some i"
proof -
  have i: "unat (of_nat i :: u32) = i" using assms by (intro unat_of_nat_u32) simp
  have le: "(of_nat i :: u32) \<le> LAMBDA_PARAMS"
    using assms by (simp only: word_le_nat_alt i u32_consts)
  have d: "LAMBDA_PARAMS - of_nat i \<le> LAMBDA_PARAMS"
    by (simp only: word_le_nat_alt unat_diff_u32 [OF le] i)
  have "(of_nat i :: u32) < 256" using assms i by (simp add: word_less_nat_alt)
  with d i show ?thesis
    by (simp add: lambda_param_of_def lambda_param_def checked_sub_def)
qed

lemma lambda_category_roundtrip: "i < 256 \<Longrightarrow> lambda_category_of (lambda_category i) = Some i"
  using lambda_param_roundtrip [of i]
  by (simp add: lambda_category_of_def lambda_category_def lambda_param_def)

lemma slot_unat:
  assumes "k < 1024" "i < 2"
  shows "unat (LAMBDA_SLOTS - 2 * of_nat k - of_nat i :: u32) = 4294963199 - (2 * k + i)"
proof -
  have "LAMBDA_SLOTS - 2 * of_nat k - of_nat i = LAMBDA_SLOTS - (of_nat (2 * k + i) :: u32)" by simp
  moreover have n: "unat (of_nat (2 * k + i) :: u32) = 2 * k + i"
    using assms by (intro unat_of_nat_u32) simp
  moreover have "(of_nat (2 * k + i) :: u32) \<le> LAMBDA_SLOTS"
    using assms by (simp only: word_le_nat_alt n u32_consts)
  ultimately show ?thesis by (simp only: unat_diff_u32 u32_consts)
qed

lemma unat_param: "i < 256 \<Longrightarrow> unat (LAMBDA_PARAMS - of_nat i) = 4294961151 - i"
proof -
  assume i: "i < 256"
  then have n: "unat (of_nat i :: u32) = i" by (intro unat_of_nat_u32) simp
  have "(of_nat i :: u32) \<le> LAMBDA_PARAMS" using i by (simp only: word_le_nat_alt n u32_consts)
  then show ?thesis by (simp only: unat_diff_u32 u32_consts n)
qed

lemma slot_roundtrip:
  assumes "k < 1024" "i < 2"
  shows "lambda_slot_of (lambda_slot (of_nat k) (of_nat i)) = Some (of_nat k, of_nat i)"
proof -
  let ?d = "of_nat (2 * k + i) :: u32"
  have n: "unat ?d = 2 * k + i" using assms by (intro unat_of_nat_u32) simp
  have e: "LAMBDA_SLOTS - 2 * of_nat k - of_nat i = LAMBDA_SLOTS - ?d" by simp
  have le: "LAMBDA_SLOTS - ?d \<le> LAMBDA_SLOTS"
    using slot_unat [OF assms] unfolding e by (simp only: word_le_nat_alt u32_consts)
  have lt: "?d < 2048" using assms n by (simp add: word_less_nat_alt)
  have "unat (?d div 2) = k" using n assms by (simp add: unat_div)
  then have k: "?d div 2 = of_nat k" by (metis of_nat_unat ucast_id)
  have "unat (?d mod 2) = i" using n assms by (simp add: unat_mod)
  then have i: "?d mod 2 = of_nat i" by (metis of_nat_unat ucast_id)
  have "checked_sub LAMBDA_SLOTS (LAMBDA_SLOTS - ?d) = Some ?d"
    using le by (simp add: checked_sub_def)
  then have "lambda_slot_of (MeasureId (LAMBDA_SLOTS - ?d)) = Some (?d div 2, ?d mod 2)"
    using lt by (simp only: lambda_slot_of_def measure_id.sel option.case if_True)
  then show ?thesis unfolding lambda_slot_def e k i .
qed

lemma slot_not_param:
  assumes "k < 1024" "i < 2"
  shows "lambda_param_of (lambda_slot (of_nat k) (of_nat i)) = None"
proof -
  have "\<not> LAMBDA_SLOTS - 2 * of_nat k - of_nat i \<le> LAMBDA_PARAMS"
    using assms by (simp only: word_le_nat_alt slot_unat [OF assms] u32_consts)
  then show ?thesis by (simp add: lambda_param_of_def lambda_slot_def checked_sub_def)
qed

lemma param_not_slot:
  assumes "i < 256"
  shows "lambda_slot_of (lambda_param i) = None"
proof -
  have le: "LAMBDA_PARAMS - of_nat i \<le> LAMBDA_SLOTS"
    using assms by (simp only: word_le_nat_alt unat_param u32_consts)
  have "unat (LAMBDA_SLOTS - (LAMBDA_PARAMS - of_nat i)) = 4294963199 - (4294961151 - i)"
    by (simp only: unat_diff_u32 [OF le] unat_param [OF assms] u32_consts)
  then have "\<not> LAMBDA_SLOTS - (LAMBDA_PARAMS - of_nat i) < 2048" by (simp add: word_less_nat_alt)
  with le show ?thesis
    by (simp add: lambda_slot_of_def lambda_param_def checked_sub_def del: of_nat_diff)
qed

text \<open>
  The placeholder of a parameter, as a measure or as a category, and of a fold's slot
  decode to what they stand for, and no parameter placeholder is a slot's or the converse.
\<close>

theorem placeholders_decode:
  "i < 256 \<Longrightarrow> k < 1024 \<Longrightarrow> j < 2 \<Longrightarrow>
   lambda_param_of (lambda_param i) = Some i \<and> lambda_category_of (lambda_category i) = Some i \<and>
   lambda_slot_of (lambda_slot (of_nat k) (of_nat j)) = Some (of_nat k, of_nat j) \<and>
   lambda_slot_of (lambda_param i) = None \<and> lambda_param_of (lambda_slot (of_nat k) (of_nat j)) = None"
  by (simp add: lambda_param_roundtrip lambda_category_roundtrip slot_roundtrip param_not_slot slot_not_param)

lemma placeholders_decode_witness:
  "lambda_param_of (lambda_param 255) = Some 255 \<and> lambda_slot_of (lambda_param 255) = None \<and>
   lambda_slot_of (lambda_slot 1023 1) = Some (1023, 1)"
  using placeholders_decode [of 255 1023 1] by simp

section \<open>Substitution\<close>

text \<open>\<open>closed n e\<close>: every placeholder in \<open>e\<close> stands for one of the first \<open>n\<close> parameters.\<close>

definition below :: "nat \<Rightarrow> nat option \<Rightarrow> bool" where
  "below n x = (case x of None \<Rightarrow> True | Some i \<Rightarrow> i < n)"

definition spec_cats :: "dim_spec \<Rightarrow> category_id list" where
  "spec_cats s = sby s @ sover s @ sexcept s"

fun closed :: "nat \<Rightarrow> expr \<Rightarrow> bool" where
  "closed n (Ref m s) \<longleftrightarrow> below n (lambda_param_of m) \<and> (\<forall>c \<in> set (spec_cats s). below n (lambda_category_of c))"
| "closed n (Category c) \<longleftrightarrow> below n (lambda_category_of c)"
| "closed n (UnaryOp _ a) \<longleftrightarrow> closed n a"
| "closed n (BinaryOp _ a b) \<longleftrightarrow> closed n a \<and> closed n b"
| "closed n (Call _ args) \<longleftrightarrow> (\<forall>a \<in> set args. closed n a)"
| "closed n (Literal _) \<longleftrightarrow> True"

lemma nth_arg_Some: "nth_arg xs i = Some x \<Longrightarrow> x \<in> set xs"
  by (auto simp: nth_arg_def split: if_splits)

lemma sub_category_closed:
  assumes "sub_category args c = Inr d" "below (length args) (lambda_category_of c)" "\<forall>a \<in> set args. closed 0 a"
  shows "below 0 (lambda_category_of d)"
proof (cases "lambda_category_of c")
  case None
  then show ?thesis using assms(1) by (simp add: sub_category_def below_def)
next
  case (Some i)
  then have "nth_arg args i = Some (Category d)"
    using assms(1) by (auto simp: sub_category_def split: option.splits expr.splits)
  then have "Category d \<in> set args" by (rule nth_arg_Some)
  then show ?thesis using assms(3) by force
qed

lemma sub_categories_closed:
  assumes "rtraverse (sub_category args) cs = Inr ds" "\<forall>c \<in> set cs. below (length args) (lambda_category_of c)"
    and "\<forall>a \<in> set args. closed 0 a" "d \<in> set ds"
  shows "below 0 (lambda_category_of d)"
  using rtraverse_set [OF assms(1,4)] sub_category_closed assms(2,3) by blast

lemma below_0: "below 0 x \<longleftrightarrow> x = None"
  by (cases x) (simp_all add: below_def)

text \<open>The references of a substituted body come from the arguments or are the body's own.\<close>

definition own_refs :: "expr \<Rightarrow> measure_id set" where
  "own_refs e = {m \<in> set (referenced_measures e). lambda_param_of m = None}"

definition arg_refs :: "expr list \<Rightarrow> measure_id set" where
  "arg_refs args = (\<Union>a \<in> set args. set (referenced_measures a))"

lemma own_refs_simps [simp]:
  "own_refs (Literal v) = {}"
  "own_refs (Category c) = {}"
  "own_refs (UnaryOp u e) = own_refs e"
  "own_refs (BinaryOp b x y) = own_refs x \<union> own_refs y"
  "own_refs (Call f args) = (\<Union>a \<in> set args. own_refs a)"
  by (auto simp: own_refs_def)

definition sub_ok :: "expr list \<Rightarrow> expr \<Rightarrow> expr \<Rightarrow> bool" where
  "sub_ok args body e \<longleftrightarrow> closed 0 e \<and> set (referenced_measures e) \<subseteq> own_refs body \<union> arg_refs args"

lemma sub_ref_ok:
  assumes args: "\<forall>a \<in> set args. closed 0 a" and c: "closed (length args) (Ref m s)"
    and r: "sub_ref args m s = Inr e"
  shows "sub_ok args (Ref m s) e"
proof -
  from r obtain b ov x where
    b: "rtraverse (sub_category args) (sby s) = Inr b" and
    ov: "rtraverse (sub_category args) (sover s) = Inr ov" and
    x: "rtraverse (sub_category args) (sexcept s) = Inr x"
    by (auto simp: sub_ref_def rbind_Inr_iff)
  let ?spec = "\<lparr>sby = b, sover = ov, sexcept = x\<rparr>"
  have new: "\<forall>d \<in> set (spec_cats ?spec). below 0 (lambda_category_of d)"
    using sub_categories_closed [OF b _ args] sub_categories_closed [OF ov _ args]
      sub_categories_closed [OF x _ args] c by (auto simp: spec_cats_def)
  show ?thesis
  proof (cases "Option.bind (lambda_param_of m) (\<lambda>i. map_option (Pair i) (nth_arg args i))")
    case None
    then have "lambda_param_of m = None"
      using c by (auto simp: nth_arg_def below_def split: option.splits if_splits)
    moreover have "e = Ref m ?spec" using r None by (simp add: sub_ref_def b ov x)
    ultimately show ?thesis using new by (simp add: sub_ok_def own_refs_def below_0)
  next
    case (Some p)
    then obtain i a where p: "p = (i, a)" and a: "nth_arg args i = Some a"
      by (cases p) (auto simp: bind_eq_Some_conv)
    have mem: "a \<in> set args" using a by (rule nth_arg_Some)
    then have ca: "closed 0 a" and ra: "set (referenced_measures a) \<subseteq> arg_refs args"
      using args by (auto simp: arg_refs_def)
    show ?thesis
    proof (cases "?spec = default_spec")
      case True
      then have "e = a" using r Some p by (simp add: sub_ref_def b ov x)
      then show ?thesis using ca ra by (auto simp: sub_ok_def)
    next
      case False
      then obtain m' s' where a': "a = Ref m' s'"
        and e: "e = Ref m' \<lparr>sby = or_spec b (sby s'), sover = or_spec ov (sover s'), sexcept = or_spec x (sexcept s')\<rparr>"
        using r Some p by (cases a) (auto simp: sub_ref_def b ov x)
      then show ?thesis using ca ra new
        by (auto simp: sub_ok_def spec_cats_def or_spec_def split: if_splits)
    qed
  qed
qed

lemma substitute_ok:
  assumes args: "\<forall>a \<in> set args. closed 0 a"
  shows "closed (length args) body \<Longrightarrow> substitute_params args body = Inr e \<Longrightarrow> sub_ok args body e"
proof (induction body arbitrary: e)
  case (Ref m s)
  then show ?case using sub_ref_ok [OF args] by simp
next
  case (Category c)
  then show ?case
    using sub_category_closed [OF _ _ args] by (auto simp: rmap_Inr_iff sub_ok_def)
next
  case (UnaryOp u a)
  then show ?case by (force simp: rmap_Inr_iff sub_ok_def)
next
  case (BinaryOp b x y)
  from BinaryOp.prems obtain x' y' where e: "substitute_params args x = Inr x'"
    "substitute_params args y = Inr y'" "e = BinaryOp b x' y'"
    by (auto simp: rbind_Inr_iff rmap_Inr_iff)
  have "sub_ok args x x'" "sub_ok args y y'" using BinaryOp e by simp_all
  then show ?case using e by (auto simp: sub_ok_def)
next
  case (Call f as)
  then obtain as' where e: "rtraverse (substitute_params args) as = Inr as'" "e = Call f as'"
    by (auto simp: rmap_Inr_iff)
  have *: "\<exists>a \<in> set as. sub_ok args a a'" if "a' \<in> set as'" for a'
    using rtraverse_set [OF e(1) that] Call by force
  then have "closed 0 e" using e by (auto simp: sub_ok_def)
  moreover have "set (referenced_measures e) \<subseteq> own_refs (Call f as) \<union> arg_refs args"
    using * e by (fastforce simp: sub_ok_def)
  ultimately show ?case by (simp add: sub_ok_def)
qed (simp add: sub_ok_def)

text \<open>
  C22. A substitution that succeeds leaves no placeholder, measure or category, when the body
  uses only its own parameters and the arguments have none; and the result reads only measures
  that the arguments read or the body itself names, so a call of a LAMBDA whose body reads only
  its parameters depends on just its arguments.
\<close>

theorem substitution_closes:
  assumes "substitute_params args body = Inr e" "closed (length args) body" "\<forall>a \<in> set args. closed 0 a"
  shows "closed 0 e \<and> set (referenced_measures e) \<subseteq>
    {m \<in> set (referenced_measures body). lambda_param_of m = None} \<union>
    (\<Union>a \<in> set args. set (referenced_measures a))"
  using substitute_ok [OF assms(3,2,1)] by (simp add: sub_ok_def own_refs_def arg_refs_def)

lemma substitution_closes_witness:
  "closed 0 (BinaryOp Sub (Ref (MeasureId 5) default_spec) (Literal (Boolean True)))"
proof -
  have p: "lambda_param_of (lambda_param 0) = Some 0" by (rule lambda_param_roundtrip) simp
  have n: "lambda_param_of (MeasureId 5) = None"
    by (simp add: lambda_param_of_def checked_sub_def LAMBDA_PARAMS_def LAMBDA_SLOTS_def)
  have "closed 0 (BinaryOp Sub (Ref (MeasureId 5) default_spec) (Literal (Boolean True))) \<and>
    set (referenced_measures (BinaryOp Sub (Ref (MeasureId 5) default_spec) (Literal (Boolean True)))) \<subseteq>
    {m \<in> set (referenced_measures (BinaryOp Sub (Ref (lambda_param 0) default_spec) (Literal (Boolean True)))).
       lambda_param_of m = None} \<union>
    (\<Union>a \<in> set [Ref (MeasureId 5) default_spec]. set (referenced_measures a))"
    by (rule substitution_closes)
      (simp_all add: sub_ref_def p n default_spec_def nth_arg_def spec_cats_def below_def)
  then show ?thesis by blast
qed

section \<open>Expansion\<close>

text \<open>The named LAMBDAs an expression calls.\<close>

fun called :: "expr \<Rightarrow> u32 set" where
  "called (Call f as) = (case named_lambda_of f of Some i \<Rightarrow> {i} | None \<Rightarrow> {}) \<union> (\<Union>a \<in> set as. called a)"
| "called (UnaryOp _ a) = called a"
| "called (BinaryOp _ a b) = called a \<union> called b"
| "called (Literal _) = {}"
| "called (Ref _ _) = {}"
| "called (Category _) = {}"

lemma calls_lambda_called: "calls_lambda ids e \<longleftrightarrow> called e \<inter> set ids \<noteq> {}"
  by (induction e) (auto simp: list_ex_iff split: option.splits)

lemma expand_at_called: "expand_at m depth e = Inr e' \<Longrightarrow> called e' = {}"
proof (induction m depth e arbitrary: e' rule: expand_at.induct)
  case (1 m depth e)
  have d: "\<not> length (lambdas m) + 1 < depth" using "1.prems" by (subst (asm) expand_at.simps) (auto split: if_splits)
  show ?case
  proof (cases e)
    case (Call f args)
    from "1.prems" d Call obtain args' where a: "rtraverse (expand_at m depth) args = Inr args'"
      and r: "(case named_lambda_of f of
                None \<Rightarrow> Inr (Call f args')
              | Some i \<Rightarrow>
                  (case bget (lambdas m) i of
                     None \<Rightarrow> Inl (''named LAMBDA '' @ dec (unat i) @ '' does not exist'')
                   | Some l \<Rightarrow>
                       if length (l_params l) \<noteq> length args'
                       then Inl (l_name l @ '' takes '' @ dec (length (l_params l)) @ '' argument(s), got '' @
                              dec (length args'))
                       else rbind (map_err (in_lambda l) (substitute_params args' (l_body l))) (\<lambda>body.
                            rbind (map_err (in_lambda l) (check_depth MAX_STORED_FORMULA_DEPTH body)) (\<lambda>_.
                              expand_at m (depth + 1) body)))) = Inr e'"
      by (subst (asm) expand_at.simps) (auto simp: rbind_Inr_iff)
    have args': "\<forall>a' \<in> set args'. called a' = {}"
    proof
      fix a' assume "a' \<in> set args'"
      from rtraverse_set [OF a this] obtain x where "x \<in> set args" "expand_at m depth x = Inr a'" by blast
      then show "called a' = {}" using "1.IH"(4) [OF d Call] by blast
    qed
    show ?thesis
    proof (cases "named_lambda_of f")
      case None
      then show ?thesis using r args' by auto
    next
      case (Some i)
      from r Some obtain l body where "bget (lambdas m) i = Some l"
        "\<not> length (l_params l) \<noteq> length args'"
        "substitute_params args' (l_body l) = Inr body"
        "check_depth MAX_STORED_FORMULA_DEPTH body = Inr ()" "expand_at m (depth + 1) body = Inr e'"
        by (auto simp: rbind_Inr_iff split: option.splits if_splits)
      with "1.IH"(5) [OF d Call a Some] show ?thesis by auto
    qed
  next
    case (UnaryOp u a)
    with "1.prems" d show ?thesis using "1.IH"(1) [OF d UnaryOp]
      by (subst (asm) expand_at.simps) (auto simp: rmap_Inr_iff)
  next
    case (BinaryOp b x y)
    with "1.prems" d show ?thesis using "1.IH"(2,3) [OF d BinaryOp]
      by (subst (asm) expand_at.simps) (fastforce simp: rbind_Inr_iff rmap_Inr_iff)
  qed (use "1.prems" d in \<open>(subst (asm) expand_at.simps, auto)+\<close>)
qed

lemma expand_at_id: "called e = {} \<Longrightarrow> depth \<le> length (lambdas m) + 1 \<Longrightarrow> expand_at m depth e = Inr e"
proof (induction e)
  case (Call f args)
  then have "named_lambda_of f = None" by (auto split: option.splits)
  moreover have "rtraverse (expand_at m depth) args = Inr args"
    using Call by (intro rtraverse_id) auto
  ultimately show ?case using Call.prems by (subst expand_at.simps) simp
qed (subst expand_at.simps; simp)+

text \<open>
  C21. An expansion that succeeds calls no named LAMBDA and is within the limits of a stored
  formula, whatever the model's LAMBDAs are: cycles end in an error, never in a loop. An
  expression that calls none expands to itself, or to the limits' error.
\<close>

theorem expansion_complete:
  "(expand_lambdas e m = Inr e' \<longrightarrow>
      called e' = {} \<and> levels e' \<le> MAX_STORED_FORMULA_DEPTH \<and> node_count e' \<le> MAX_FORMULA_NODES) \<and>
   (called e = {} \<longrightarrow> expand_lambdas e m = rmap (\<lambda>_. e) (check_depth MAX_STORED_FORMULA_DEPTH e))"
proof (rule conjI)
  show "expand_lambdas e m = Inr e' \<longrightarrow>
      called e' = {} \<and> levels e' \<le> MAX_STORED_FORMULA_DEPTH \<and> node_count e' \<le> MAX_FORMULA_NODES"
    by (auto simp: expand_lambdas_def rbind_Inr_iff expand_at_called check_depth_exact split: if_splits)
  show "called e = {} \<longrightarrow> expand_lambdas e m = rmap (\<lambda>_. e) (check_depth MAX_STORED_FORMULA_DEPTH e)"
    by (simp add: expand_lambdas_def expand_at_id rmap_def)
qed

definition double_lambda :: named_lambda where
  "double_lambda = \<lparr>l_name = ''Double'', l_params = [''x''],
     l_body = BinaryOp Add (Ref (lambda_param 0) default_spec) (Ref (lambda_param 0) default_spec)\<rparr>"

lemma expansion_complete_witness:
  "called (BinaryOp Add (Ref (MeasureId 5) default_spec) (Ref (MeasureId 5) default_spec)) = {} \<and>
   expand_lambdas (Call (named_lambda 7) [Ref (MeasureId 5) default_spec]) (new_model\<lparr>lambdas := [(7, double_lambda)]\<rparr>) =
     Inr (BinaryOp Add (Ref (MeasureId 5) default_spec) (Ref (MeasureId 5) default_spec))"
proof -
  let ?r = "Ref (MeasureId 5) default_spec"
  define m where "m = new_model\<lparr>lambdas := [(7, double_lambda)]\<rparr>"
  have l: "lambdas m = [(7, double_lambda)]" by (simp add: m_def)
  have ps: "length (l_params double_lambda) = 1" by (simp add: double_lambda_def)
  have n: "named_lambda_of (named_lambda 7) = Some 7"
    by (simp add: named_lambda_of_def named_lambda_def checked_sub_def saturating_add_def NAMED_LAMBDA_BASE_def)
  have r: "expand_at m d ?r = Inr ?r" if "d \<le> 2" for d
    using that by (intro expand_at_id) (simp_all add: l)
  have b: "expand_at m 1 (BinaryOp Add ?r ?r) = Inr (BinaryOp Add ?r ?r)"
    by (intro expand_at_id) (simp_all add: l)
  have p: "lambda_param_of (lambda_param 0) = Some 0" by (rule lambda_param_roundtrip) simp
  have s: "substitute_params [?r] (l_body double_lambda) = Inr (BinaryOp Add ?r ?r)"
    by (simp add: double_lambda_def sub_ref_def p default_spec_def nth_arg_def)
  have c: "check_depth MAX_STORED_FORMULA_DEPTH (BinaryOp Add ?r ?r) = Inr ()"
    by (simp add: check_depth_exact MAX_STORED_FORMULA_DEPTH_def MAX_FORMULA_DEPTH_def MAX_FORMULA_NODES_def)
  have "expand_at m 0 (Call (named_lambda 7) [?r]) = Inr (BinaryOp Add ?r ?r)"
    by (subst expand_at.simps) (simp add: n r b [simplified] s c bget_def l ps)
  then have e: "expand_lambdas (Call (named_lambda 7) [?r]) m = Inr (BinaryOp Add ?r ?r)"
    by (simp add: expand_lambdas_def c)
  with expansion_complete [of "Call (named_lambda 7) [?r]" m "BinaryOp Add ?r ?r"] show ?thesis unfolding m_def by blast
qed

section \<open>Users\<close>

definition calls_rel :: "(u32 \<times> named_lambda) list \<Rightarrow> (u32 \<times> u32) set" where
  "calls_rel ls = {(x, k). \<exists>l. (x, l) \<in> set ls \<and> k \<in> called (l_body l)}"

definition callers :: "(u32 \<times> named_lambda) list \<Rightarrow> u32 set \<Rightarrow> u32 set" where
  "callers ls ks = {x. \<exists>k \<in> ks. (x, k) \<in> (calls_rel ls)\<^sup>*}"

lemma callers_step: "(x, k) \<in> calls_rel ls \<Longrightarrow> k \<in> callers ls ks \<Longrightarrow> x \<in> callers ls ks"
  unfolding callers_def by (auto intro: converse_rtrancl_into_rtrancl)

lemma callers_least:
  assumes "ks \<subseteq> H" "\<And>x k. (x, k) \<in> calls_rel ls \<Longrightarrow> k \<in> H \<Longrightarrow> x \<in> H"
  shows "callers ls ks \<subseteq> H"
proof
  fix x assume "x \<in> callers ls ks"
  then obtain k where "(x, k) \<in> (calls_rel ls)\<^sup>*" "k \<in> H" using assms(1) by (auto simp: callers_def)
  then show "x \<in> H" by (induction rule: converse_rtrancl_induct) (auto intro: assms(2))
qed

lemma users_pass_sound:
  "set ls' \<subseteq> set ls \<Longrightarrow> set hit \<subseteq> callers ls ks \<Longrightarrow> set (users_pass ls' hit) \<subseteq> callers ls ks"
proof (induction ls' hit rule: users_pass.induct)
  case (2 lid l ls' hit)
  have "lid \<in> callers ls ks" if "calls_lambda hit (l_body l)"
  proof -
    from that obtain k where "k \<in> called (l_body l)" "k \<in> set hit" by (auto simp: calls_lambda_called)
    moreover from this have "(lid, k) \<in> calls_rel ls" using "2.prems"(1) by (auto simp: calls_rel_def)
    ultimately show ?thesis using "2.prems"(2) callers_step by blast
  qed
  then show ?case using 2 by auto
qed simp

lemma users_pass_sorted: "sorted_wrt (<) hit \<Longrightarrow> sorted_wrt (<) (users_pass ls hit)"
  by (induction ls hit rule: users_pass.induct) auto

lemma users_loop_spec:
  "set hit \<subseteq> callers ls ks \<Longrightarrow> ks \<subseteq> set hit \<Longrightarrow> sorted_wrt (<) hit \<Longrightarrow>
   set (users_loop ls hit) = callers ls ks \<and> sorted_wrt (<) (users_loop ls hit)"
proof (induction ls hit rule: users_loop.induct)
  case (1 ls hit)
  let ?h = "users_pass ls hit"
  have sound: "set ?h \<subseteq> callers ls ks" by (rule users_pass_sound) (use 1 in auto)
  have sorted: "sorted_wrt (<) ?h" using "1.prems"(3) by (rule users_pass_sorted)
  show ?case
  proof (cases "length ?h = length hit")
    case True
    then have same: "?h = hit" and cl: "\<forall>(lid, l) \<in> set ls. calls_lambda hit (l_body l) \<longrightarrow> lid \<in> set hit"
      using users_pass_same by blast+
    have "callers ls ks \<subseteq> set hit"
      by (rule callers_least [OF "1.prems"(2)]) (use cl in \<open>auto simp: calls_rel_def calls_lambda_called\<close>)
    with sound same sorted True show ?thesis by (subst (1 2) users_loop.simps) (simp add: Let_def)
  next
    case False
    have "ks \<subseteq> set ?h" using "1.prems"(2) users_pass_mono by blast
    from "1.IH" [OF refl False sound this sorted] False show ?thesis
      by (subst (1 2) users_loop.simps) (simp add: Let_def)
  qed
qed

lemma derived_case: "(case k of Input \<Rightarrow> False | Derived f \<Rightarrow> P f) \<longleftrightarrow> (\<exists>f. k = Derived f \<and> P f)"
  by (cases k) auto

text \<open>
  C23. The users of a LAMBDA are exactly the other LAMBDAs that call it, directly or through
  others, and the derived measures whose formulas call it or one of those; each list is
  ascending, whatever the order the model's maps iterate in.
\<close>

theorem lambda_users_transitive:
  "let (ls, ms) = lambda_users i m; C = callers (lambdas m) {i}
   in set ls = C - {i} \<and> sorted_wrt (<) ls \<and> sorted_wrt (<) ms \<and>
      set ms = {m_id x | x f. x \<in> set (hvalues (measure_map m)) \<and> m_kind x = Derived f \<and> called (fexpr f) \<inter> C \<noteq> {}}"
proof -
  have "set (users_loop (lambdas m) [i]) = callers (lambdas m) {i} \<and> sorted_wrt (<) (users_loop (lambdas m) [i])"
    by (rule users_loop_spec) (auto simp: callers_def)
  then show ?thesis
    by (auto simp: lambda_users_def Let_def calls_lambda_called derived_case sorted_wrt_filter)
qed

end
