(* ===== verification/Plan_Types.thy ===== *)
theory Plan_Types
  imports Cube_Model
begin

text \<open>
  \<open>crates/engine/src/plan.rs\<close> and \<open>typed.rs\<close>: dimensions, typed expressions and operator plans,
  the input and output of the compiler's two passes.
\<close>

section \<open>Dimensions\<close>

text \<open>The categories an expression ranges over, sorted and without duplicates.\<close>

datatype dim = Dim (dim_cats: "category_id list")

definition scalar_dim :: dim where
  "scalar_dim = Dim []"

definition dim_of :: "category_id list \<Rightarrow> dim" where
  "dim_of cs = Dim (sort_dedup cs)"

definition is_scalar :: "dim \<Rightarrow> bool" where
  "is_scalar d \<longleftrightarrow> dim_cats d = []"

definition is_subset_of :: "dim \<Rightarrow> dim \<Rightarrow> bool" where
  "is_subset_of a b \<longleftrightarrow> list_all (\<lambda>c. c \<in> set (dim_cats b)) (dim_cats a)"

definition dim_union :: "dim \<Rightarrow> dim \<Rightarrow> dim" where
  "dim_union a b = dim_of (dim_cats a @ dim_cats b)"

record type_info =
  ty_value :: value_type
  ty_dim :: dim

record resolved_spec =
  rby :: "category_id list"
  rover :: "category_id list"
  rexcept :: "category_id list"

datatype bound = BFirst | BLast | BOffset int

type_synonym window = "bound \<times> bound"

text \<open>\<open>(from, to, [(from item, to item)])\<close>.\<close>

type_synonym remaps = "(category_id \<times> category_id \<times> (item_id \<times> item_id) list) list"

type_synonym item_order = "(category_id \<times> item_id list) list"

section \<open>Plans\<close>

datatype plan_kind =
    InputMeasure measure_id
  | PLiteral val
  | MapUnary unary_op plan_node
  | MapBinary binary_op plan_node plan_node
  | Join plan_node plan_node "category_id list"
  | PAggregate
      (agg_inputs: "plan_node list") (agg_params: "plan_node list") (agg_pred: "plan_node option")
      (agg_group_by: "category_id list") (agg_func: func_id) (agg_order: item_order)
      (agg_window: "window option") (agg_per_item: bool) (agg_into: item_order) (agg_flat: bool)
  | PItems category_id "(item_id \<times> val) list"
  | Recurrence
      (rec_body: expr) (rec_refs: "(measure_id \<times> plan_node) list")
      (rec_slots: "(measure_id \<times> int \<times> expr option) list") (rec_cat: category_id) (rec_order: "item_id list")
  | PCoalesce "plan_node list" "item_order option"
  | PRemap plan_node remaps
  | PShift plan_node category_id int "item_id list" "plan_node option"
  | FuncCall func_id "plan_node list"
  | Fixpoint expr expr u32 f64
  | If plan_node plan_node "plan_node option" "u8 option"
and plan_node = PlanNode (plan_kind: plan_kind) (plan_ty: type_info)

section \<open>Typed expressions\<close>

datatype typed_kind =
    TLiteral val
  | TRef measure_id resolved_spec
  | TUnaryOp unary_op typed_expr
  | TBinaryOp binary_op typed_expr typed_expr
  | TCall func_id "typed_expr list"
  | TAggregate func_id "typed_expr list" "typed_expr list" "category_id list" "typed_expr option"
      "window option" "category_id list"
  | TItems category_id "(item_id \<times> val) list"
  | TPlan plan_node
  | TCoalesce "typed_expr list" "item_order option"
  | TRemap typed_expr remaps
  | TShift typed_expr category_id int "typed_expr option"
and typed_expr = TypedExpr (typed_kind: typed_kind) (typed_ty: type_info)

abbreviation vt :: "typed_expr \<Rightarrow> value_type" where
  "vt t \<equiv> ty_value (typed_ty t)"

abbreviation tdim :: "typed_expr \<Rightarrow> dim" where
  "tdim t \<equiv> ty_dim (typed_ty t)"

section \<open>Canonical dimensions\<close>

definition canonical_dim :: "dim \<Rightarrow> bool" where
  "canonical_dim d \<longleftrightarrow> sorted_wrt (<) (dim_cats d)"

lemma canonical_dim_simps [simp, intro]:
  "canonical_dim scalar_dim" "canonical_dim (dim_of cs)" "canonical_dim (dim_union a b)"
  by (simp_all add: canonical_dim_def scalar_dim_def dim_of_def dim_union_def)

lemma dim_cats_simps [simp]:
  "dim_cats scalar_dim = []"
  "set (dim_cats (dim_of cs)) = set cs"
  "set (dim_cats (dim_union a b)) = set (dim_cats a) \<union> set (dim_cats b)"
  by (simp_all add: scalar_dim_def dim_of_def dim_union_def)

lemma is_subset_of_iff: "is_subset_of a b \<longleftrightarrow> set (dim_cats a) \<subseteq> set (dim_cats b)"
  by (auto simp: is_subset_of_def list_all_iff)

lemma canonical_dim_eqI:
  "canonical_dim a \<Longrightarrow> canonical_dim b \<Longrightarrow> set (dim_cats a) = set (dim_cats b) \<Longrightarrow> a = b"
  unfolding canonical_dim_def by (metis dim.expand strict_sorted_unique)

lemma dim_of_dim_cats: "canonical_dim d \<Longrightarrow> dim_of (dim_cats d) = d"
  by (rule canonical_dim_eqI) simp_all

lemma dim_union_absorb: "canonical_dim b \<Longrightarrow> is_subset_of a b \<Longrightarrow> dim_union a b = b"
  by (rule canonical_dim_eqI) (auto simp: is_subset_of_iff)

lemma dim_union_commute: "dim_union a b = dim_union b a"
  by (rule canonical_dim_eqI) auto

lemma dim_union_assoc: "dim_union (dim_union a b) c = dim_union a (dim_union b c)"
  by (rule canonical_dim_eqI) auto

lemma is_scalar_iff: "is_scalar d \<longleftrightarrow> d = scalar_dim"
  by (cases d) (simp add: is_scalar_def scalar_dim_def)

end
