(* ===== verification/Compiler_Plan.thy ===== *)
theory Compiler_Plan
  imports Plan_Types Fn_Tables
begin

text \<open>
  The second pass of \<open>crates/engine/src/compiler.rs\<close>: \<open>build_plan\<close> lowers a typed expression to an
  operator plan; with it the compiler's errors and its context. \<open>Panic\<close> is an \<open>expect\<close> or an index
  of the code that finds nothing.
\<close>

section \<open>Errors and context\<close>

datatype compile_error =
    UnknownMeasure measure_id
  | UnknownFunction func_id
  | TypeMismatch string
  | DimensionMismatch string
  | Unsupported string
  | Panic

record ctx =
  cx_measures :: "(measure_id, measure) hmap"
  cx_categories :: "(category_id, category) hmap option"
  cx_items :: "(item_id, item) hmap option"
  cx_lambdas :: "model option"

definition ctx_new :: "(measure_id, measure) hmap \<Rightarrow> ctx" where
  "ctx_new ms = \<lparr>cx_measures = ms, cx_categories = None, cx_items = None, cx_lambdas = None\<rparr>"

definition ctx_for_model :: "model \<Rightarrow> ctx" where
  "ctx_for_model m =
     \<lparr>cx_measures = measure_map m, cx_categories = Some (categories m), cx_items = Some (items m),
      cx_lambdas = (if lambdas m \<noteq> [] then Some m else None)\<rparr>"

definition ctx_category :: "ctx \<Rightarrow> category_id \<Rightarrow> category option" where
  "ctx_category ctx c = Option.bind (cx_categories ctx) (\<lambda>cs. hget cs c)"

definition items_of :: "ctx \<Rightarrow> category_id \<Rightarrow> item_id list" where
  "items_of ctx c = (case ctx_category ctx c of Some k \<Rightarrow> cat_items k | None \<Rightarrow> [])"

definition category_name :: "ctx \<Rightarrow> category_id \<Rightarrow> string" where
  "category_name ctx c =
     (case ctx_category ctx c of
        Some k \<Rightarrow> cat_name k
      | None \<Rightarrow> ''CategoryId('' @ dec (unat (raw_category c)) @ '')'')"

section \<open>Function ids\<close>

definition lazy_IF :: u32 where "lazy_IF = 30"
definition lazy_IFS :: u32 where "lazy_IFS = 31"
definition lazy_SWITCH :: u32 where "lazy_SWITCH = 32"
definition lazy_CHOOSE :: u32 where "lazy_CHOOSE = 33"
definition lazy_IFERROR :: u32 where "lazy_IFERROR = 34"
definition lazy_IFNA :: u32 where "lazy_IFNA = 35"
definition lazy_CLEARERROR :: u32 where "lazy_CLEARERROR = 36"
definition lazy_CLEARZERO :: u32 where "lazy_CLEARZERO = 37"
definition lazy_COALESCE :: u32 where "lazy_COALESCE = 41"
definition lazy_FILL :: u32 where "lazy_FILL = 919"

definition dim_POSITION :: u32 where "dim_POSITION = 900"
definition dim_ITEM :: u32 where "dim_ITEM = 901"
definition dim_ID :: u32 where "dim_ID = 902"
definition dim_ITEMCOUNT :: u32 where "dim_ITEMCOUNT = 903"
definition dim_PREV :: u32 where "dim_PREV = 904"
definition dim_NEXT :: u32 where "dim_NEXT = 905"
definition dim_SCAN :: u32 where "dim_SCAN = 911"
definition dim_REDUCE :: u32 where "dim_REDUCE = 912"
definition dim_RELABEL :: u32 where "dim_RELABEL = 920"
definition dim_SWAP :: u32 where "dim_SWAP = 921"
definition dim_FIXPOINT :: u32 where "dim_FIXPOINT = 922"

lemmas lazy_ids =
  lazy_IF_def lazy_IFS_def lazy_SWITCH_def lazy_CHOOSE_def lazy_IFERROR_def lazy_IFNA_def
  lazy_CLEARERROR_def lazy_CLEARZERO_def lazy_COALESCE_def lazy_FILL_def

lemmas dim_ids =
  dim_POSITION_def dim_ITEM_def dim_ID_def dim_ITEMCOUNT_def dim_PREV_def dim_NEXT_def dim_SCAN_def
  dim_REDUCE_def dim_RELABEL_def dim_SWAP_def dim_FIXPOINT_def

section \<open>Lowering\<close>

text \<open>The aligned operands of a broadcasting \<open>MapBinary\<close>: the join, and the right side.\<close>

definition split_join :: "plan_node \<Rightarrow> plan_node \<Rightarrow> category_id list \<Rightarrow> type_info \<Rightarrow> plan_node \<times> plan_node" where
  "split_join lp rp keys ty = (PlanNode (Join lp rp keys) ty, rp)"

definition is_scalar_lit :: "typed_expr \<Rightarrow> bool" where
  "is_scalar_lit t \<longleftrightarrow> (case typed_kind t of TLiteral _ \<Rightarrow> is_scalar (tdim t) | _ \<Rightarrow> False)"

definition plan_binary :: "binary_op \<Rightarrow> typed_expr \<Rightarrow> typed_expr \<Rightarrow> plan_node \<Rightarrow> plan_node \<Rightarrow> type_info \<Rightarrow> plan_kind" where
  "plan_binary op l r lp rp ty =
     (if tdim l = tdim r \<or> is_scalar_lit l \<or> is_scalar_lit r then MapBinary op lp rp
      else let keys = filter (\<lambda>c. c \<in> set (dim_cats (tdim r))) (dim_cats (tdim l));
               (a, b) = split_join lp rp keys ty
           in MapBinary op a b)"

definition plan_if :: "plan_node list \<Rightarrow> type_info \<Rightarrow> (compile_error, plan_kind) res" where
  "plan_if plans ty =
     (case plans of
        test # thn # rest \<Rightarrow>
          let otherwise = (case rest of [] \<Rightarrow> None | e # _ \<Rightarrow> Some e);
              td = ty_dim (plan_ty test);
              spanning = (if td = ty_dim ty then None
                          else if dim_union td (ty_dim (plan_ty thn)) = ty_dim ty then Some 0
                          else Some 1)
          in Inr (If test thn otherwise spanning)
      | _ \<Rightarrow> Inl Panic)"

definition is_per_item :: "func_id \<Rightarrow> bool" where
  "is_per_item f = (case by_id f of Some d \<Rightarrow> fkind d = PerItem | None \<Rightarrow> False)"

definition group_by_of ::
  "func_id \<Rightarrow> category_id list \<Rightarrow> window option \<Rightarrow> category_id list \<Rightarrow> type_info \<Rightarrow> category_id list" where
  "group_by_of f ov w into ty =
     (if into \<noteq> [] then filter (\<lambda>c. c \<notin> set into) (dim_cats (ty_dim ty))
      else if w \<noteq> None \<or> is_per_item f then filter (\<lambda>c. c \<notin> set ov) (dim_cats (ty_dim ty))
      else dim_cats (ty_dim ty))"

definition with_items :: "ctx \<Rightarrow> category_id list \<Rightarrow> item_order" where
  "with_items ctx cs = map (\<lambda>c. (c, items_of ctx c)) cs"

fun build_plan :: "ctx \<Rightarrow> typed_expr \<Rightarrow> (compile_error, plan_node) res" where
  "build_plan ctx (TypedExpr (TLiteral v) ty) = Inr (PlanNode (PLiteral v) ty)"
| "build_plan ctx (TypedExpr (TRef m _) ty) = Inr (PlanNode (InputMeasure m) ty)"
| "build_plan ctx (TypedExpr (TUnaryOp op e) ty) =
     rmap (\<lambda>p. PlanNode (MapUnary op p) ty) (build_plan ctx e)"
| "build_plan ctx (TypedExpr (TBinaryOp op l r) ty) =
     rbind (build_plan ctx l) (\<lambda>lp.
     rmap (\<lambda>rp. PlanNode (plan_binary op l r lp rp ty) ty) (build_plan ctx r))"
| "build_plan ctx (TypedExpr (TCall f args) ty) =
     (if raw_func f = lazy_IF then
        rbind (rtraverse (build_plan ctx) args) (\<lambda>plans. rmap (\<lambda>k. PlanNode k ty) (plan_if plans ty))
      else if \<not> is_aggregation f then
        rmap (\<lambda>plans. PlanNode (FuncCall f plans) ty) (rtraverse (build_plan ctx) args)
      else Inl (UnknownFunction f))"
| "build_plan ctx (TypedExpr (TAggregate f rs params ov pred w into) ty) =
     rbind (rtraverse (build_plan ctx) rs) (\<lambda>ins.
     rbind (rtraverse (build_plan ctx) params) (\<lambda>ps.
     rmap (\<lambda>pr. PlanNode (PAggregate ins ps pr (group_by_of f ov w into ty) f (with_items ctx ov) w
                   (is_per_item f) (with_items ctx into) False) ty)
       (case pred of None \<Rightarrow> Inr None | Some p \<Rightarrow> rmap Some (build_plan ctx p))))"
| "build_plan ctx (TypedExpr (TItems c vals) ty) = Inr (PlanNode (PItems c vals) ty)"
| "build_plan ctx (TypedExpr (TCoalesce args grid) ty) =
     rmap (\<lambda>plans. PlanNode (PCoalesce plans grid) ty) (rtraverse (build_plan ctx) args)"
| "build_plan ctx (TypedExpr (TRemap i ms) ty) = rmap (\<lambda>p. PlanNode (PRemap p ms) ty) (build_plan ctx i)"
| "build_plan ctx (TypedExpr (TPlan p) ty) = Inr p"
| "build_plan ctx (TypedExpr (TShift i c off dflt) ty) =
     rbind (build_plan ctx i) (\<lambda>p.
     rmap (\<lambda>d. PlanNode (PShift p c off (items_of ctx c) d) ty)
       (case dflt of None \<Rightarrow> Inr None | Some d \<Rightarrow> rmap Some (build_plan ctx d)))"

section \<open>Every well formed typed expression has a plan of its type\<close>

text \<open>
  What the first pass guarantees of a typed expression: canonical dimensions throughout, calls
  only of functions that are not aggregations (an \<open>IF\<close> with its branches), and a fold's plan of
  the expression's type.
\<close>

fun typed_ok :: "typed_expr \<Rightarrow> bool" where
  "typed_ok (TypedExpr (TLiteral v) ty) \<longleftrightarrow> canonical_dim (ty_dim ty)"
| "typed_ok (TypedExpr (TRef m s) ty) \<longleftrightarrow> canonical_dim (ty_dim ty)"
| "typed_ok (TypedExpr (TUnaryOp op e) ty) \<longleftrightarrow> canonical_dim (ty_dim ty) \<and> typed_ok e"
| "typed_ok (TypedExpr (TBinaryOp op l r) ty) \<longleftrightarrow> canonical_dim (ty_dim ty) \<and> typed_ok l \<and> typed_ok r"
| "typed_ok (TypedExpr (TCall f args) ty) \<longleftrightarrow>
     canonical_dim (ty_dim ty) \<and> \<not> is_aggregation f \<and> (raw_func f = lazy_IF \<longrightarrow> 2 \<le> length args) \<and>
     (\<forall>a \<in> set args. typed_ok a)"
| "typed_ok (TypedExpr (TAggregate f rs params ov pred w into) ty) \<longleftrightarrow>
     canonical_dim (ty_dim ty) \<and> (\<forall>a \<in> set rs. typed_ok a) \<and> (\<forall>a \<in> set params. typed_ok a) \<and>
     (case pred of None \<Rightarrow> True | Some p \<Rightarrow> typed_ok p)"
| "typed_ok (TypedExpr (TItems c vals) ty) \<longleftrightarrow> canonical_dim (ty_dim ty)"
| "typed_ok (TypedExpr (TCoalesce args grid) ty) \<longleftrightarrow> canonical_dim (ty_dim ty) \<and> (\<forall>a \<in> set args. typed_ok a)"
| "typed_ok (TypedExpr (TRemap i ms) ty) \<longleftrightarrow> canonical_dim (ty_dim ty) \<and> typed_ok i"
| "typed_ok (TypedExpr (TPlan p) ty) \<longleftrightarrow> canonical_dim (ty_dim ty) \<and> plan_ty p = ty"
| "typed_ok (TypedExpr (TShift i c off dflt) ty) \<longleftrightarrow>
     canonical_dim (ty_dim ty) \<and> typed_ok i \<and> (case dflt of None \<Rightarrow> True | Some d \<Rightarrow> typed_ok d)"

lemma typed_ok_canonical: "typed_ok t \<Longrightarrow> canonical_dim (tdim t)"
  by (induction t rule: typed_ok.induct) simp_all

lemma rtraverse_total:
  "(\<And>x. x \<in> set xs \<Longrightarrow> \<exists>y. f x = Inr y \<and> P x y) \<Longrightarrow> \<exists>ys. rtraverse f xs = Inr ys \<and> list_all2 P xs ys"
proof (induction xs)
  case (Cons x xs)
  then obtain y where "f x = Inr y" "P x y" by auto
  moreover from Cons obtain ys where "rtraverse f xs = Inr ys" "list_all2 P xs ys" by auto
  ultimately show ?case by auto
qed simp

lemma plan_if_ok: "2 \<le> length plans \<Longrightarrow> \<exists>k. plan_if plans ty = Inr k"
  by (cases plans; cases "tl plans") (auto simp: plan_if_def Let_def)

lemma build_plan_total: "typed_ok t \<Longrightarrow> \<exists>p. build_plan ctx t = Inr p \<and> plan_ty p = typed_ty t"
proof (induction ctx t rule: build_plan.induct)
  case (5 ctx f args ty)
  have "\<exists>ps. rtraverse (build_plan ctx) args = Inr ps \<and> list_all2 (\<lambda>a p. plan_ty p = typed_ty a) args ps"
    by (rule rtraverse_total) (use 5 in auto)
  then obtain ps where ps: "rtraverse (build_plan ctx) args = Inr ps" "length ps = length args"
    by (auto dest: list_all2_lengthD)
  then show ?case
    using "5.prems" plan_if_ok [of ps ty] by auto
next
  case (6 ctx f rs params ov pred w into ty)
  have "\<exists>ps. rtraverse (build_plan ctx) rs = Inr ps \<and> list_all2 (\<lambda>a p. plan_ty p = typed_ty a) rs ps"
    by (rule rtraverse_total) (use "6.IH"(1) "6.prems" in simp)
  then obtain ps where ps: "rtraverse (build_plan ctx) rs = Inr ps" by blast
  have "\<exists>qs. rtraverse (build_plan ctx) params = Inr qs \<and> list_all2 (\<lambda>a p. plan_ty p = typed_ty a) params qs"
    by (rule rtraverse_total) (use "6.IH"(2) [OF ps] "6.prems" in simp)
  then obtain qs where qs: "rtraverse (build_plan ctx) params = Inr qs" by blast
  show ?case using "6.IH"(3) [OF ps qs] "6.prems" ps qs by (cases pred) auto
next
  case (8 ctx args grid ty)
  have "\<exists>ps. rtraverse (build_plan ctx) args = Inr ps \<and> list_all2 (\<lambda>a p. plan_ty p = typed_ty a) args ps"
    by (rule rtraverse_total) (use 8 in simp)
  then show ?case by auto
next
  case (11 ctx i c off dflt ty)
  then show ?case by (cases dflt) fastforce+
qed auto

end
