(* ===== verification/Compiler_Infer.thy ===== *)
theory Compiler_Infer
  imports Compiler_Plan Lambda_Facts
begin

text \<open>
  The first pass of \<open>crates/engine/src/compiler.rs\<close>: \<open>infer\<close> computes the value type and the
  dimension of every node, and \<open>scalar.rs\<close>'s \<open>check\<close>, which folds use. Each function of the code
  that calls \<open>infer\<close> takes it as its first argument \<open>self\<close>; \<open>Infer\<close> ties the knot. Messages are the
  code's, with \<open>{:?}\<close> of an enum its variant's name.
\<close>

section \<open>Text\<close>

fun vt_text :: "value_type \<Rightarrow> string" where
  "vt_text TNumber = ''Number''"
| "vt_text TBoolean = ''Boolean''"
| "vt_text TText = ''Text''"
| "vt_text TDateTime = ''DateTime''"
| "vt_text TEnum = ''Enum''"

fun unary_text :: "unary_op \<Rightarrow> string" where
  "unary_text Neg = ''Neg''"
| "unary_text Not = ''Not''"

fun binary_text :: "binary_op \<Rightarrow> string" where
  "binary_text Add = ''Add''"
| "binary_text Sub = ''Sub''"
| "binary_text Mul = ''Mul''"
| "binary_text Div = ''Div''"
| "binary_text And = ''And''"
| "binary_text Or = ''Or''"
| "binary_text Eq = ''Eq''"
| "binary_text Ne = ''Ne''"
| "binary_text Lt = ''Lt''"
| "binary_text Le = ''Le''"
| "binary_text Gt = ''Gt''"
| "binary_text Ge = ''Ge''"
| "binary_text Pow = ''Pow''"
| "binary_text Concat = ''Concat''"

text \<open>The character \<open>U+2026\<close>.\<close>

definition ellipsis :: string where
  "ellipsis = [CHR 0xE2, CHR 0x80, CHR 0xA6]"

definition dims_text :: "ctx \<Rightarrow> dim \<Rightarrow> string" where
  "dims_text ctx d =
     (if dim_cats d = [] then ''no category''
      else ''['' @ join_with '', '' (map (category_name ctx) (dim_cats d)) @ '']'')"

definition operand_name :: "ctx \<Rightarrow> expr \<Rightarrow> string" where
  "operand_name ctx e =
     (case e of
        Ref i _ \<Rightarrow> (case hget (cx_measures ctx) i of Some m \<Rightarrow> m_name m | None \<Rightarrow> ''this expression'')
      | _ \<Rightarrow> ''this expression'')"

section \<open>References\<close>

definition infer_ref :: "ctx \<Rightarrow> measure_id \<Rightarrow> dim_spec \<Rightarrow> (compile_error, typed_expr) res" where
  "infer_ref ctx i s =
     rbind (ok_or (UnknownMeasure i) (hget (cx_measures ctx) i)) (\<lambda>m.
       let cs = filter (\<lambda>c. c \<notin> set (sover s)) (filter (\<lambda>c. c \<notin> set (sexcept s))
                  (filter (\<lambda>c. sby s = [] \<or> c \<in> set (sby s)) (m_cats m)))
       in Inr (TypedExpr (TRef i \<lparr>rby = sby s, rover = sover s, rexcept = sexcept s\<rparr>)
                \<lparr>ty_value = m_type m, ty_dim = dim_of cs\<rparr>))"

text \<open>The \<open>Ref\<close> arm of \<open>infer\<close>: outside an aggregation no category may be left out.\<close>

definition infer_bare_ref :: "ctx \<Rightarrow> measure_id \<Rightarrow> dim_spec \<Rightarrow> (compile_error, typed_expr) res" where
  "infer_bare_ref ctx i s =
     rbind (infer_ref ctx i s) (\<lambda>typed.
       case hget (cx_measures ctx) i of
         None \<Rightarrow> Inl Panic
       | Some m \<Rightarrow>
           (case find (\<lambda>c. c \<notin> set (dim_cats (tdim typed))) (m_cats m) of
              Some c \<Rightarrow>
                let cn = category_name ctx c in
                Inl (DimensionMismatch (m_name m @ ''['' @ ellipsis @ ''] leaves out category '' @ cn @
                  '', which only an aggregation can collapse: write SUM('' @ m_name m @ '' OVER '' @ cn @
                  '') (or AVERAGE/MIN/MAX)''))
            | None \<Rightarrow> Inr typed))"

definition aggregation_over :: "ctx \<Rightarrow> typed_expr \<Rightarrow> category_id list" where
  "aggregation_over ctx t =
     (case typed_kind t of
        TRef i s \<Rightarrow>
          (case hget (cx_measures ctx) i of
             Some m \<Rightarrow> filter (\<lambda>c. c \<in> set (m_cats m)) (rover s)
           | None \<Rightarrow> [])
      | _ \<Rightarrow> [])"

definition first_full_dim :: "ctx \<Rightarrow> typed_expr \<Rightarrow> dim" where
  "first_full_dim ctx t = dim_union (tdim t) (dim_of (aggregation_over ctx t))"

section \<open>Operators\<close>

definition require :: "bool \<Rightarrow> binary_op \<Rightarrow> string \<Rightarrow> (compile_error, unit) res" where
  "require ok op want =
     (if ok then Inr () else Inl (TypeMismatch (binary_text op @ '' requires '' @ want)))"

definition is_arith :: "binary_op \<Rightarrow> bool" where
  "is_arith op \<longleftrightarrow> op = Add \<or> op = Sub \<or> op = Mul \<or> op = Div \<or> op = Pow"

definition binop_result_type :: "binary_op \<Rightarrow> typed_expr \<Rightarrow> typed_expr \<Rightarrow> (compile_error, value_type) res" where
  "binop_result_type op l r =
     (let lt = vt l; rt = vt r in
      if op = Add \<and> lt = TDateTime \<and> rt = TNumber \<or> op = Add \<and> lt = TNumber \<and> rt = TDateTime \<or>
         op = Sub \<and> lt = TDateTime \<and> rt = TNumber
      then Inr TDateTime
      else if op = Sub \<and> lt = TDateTime \<and> rt = TDateTime then Inr TNumber
      else if is_arith op
      then rmap (\<lambda>_. TNumber) (require (lt = TNumber \<and> rt = TNumber) op ''Number'')
      else if op = Concat then Inr TText
      else if op = And \<or> op = Or
      then rmap (\<lambda>_. TBoolean) (require (lt = TBoolean \<and> rt = TBoolean) op ''Boolean'')
      else rmap (\<lambda>_. TBoolean) (require (lt = rt) op ''matching operand types''))"

definition shares_category :: "dim \<Rightarrow> dim \<Rightarrow> bool" where
  "shares_category a b \<longleftrightarrow> list_ex (\<lambda>c. c \<in> set (dim_cats b)) (dim_cats a)"

definition binop_dim :: "ctx \<Rightarrow> expr \<Rightarrow> expr \<Rightarrow> typed_expr \<Rightarrow> typed_expr \<Rightarrow> (compile_error, dim) res" where
  "binop_dim ctx l r lt rt =
     (if is_subset_of (tdim lt) (tdim rt) then Inr (tdim rt)
      else if is_subset_of (tdim rt) (tdim lt) then Inr (tdim lt)
      else if shares_category (tdim lt) (tdim rt) \<or> referenced_measures l = [] \<or> referenced_measures r = []
      then Inr (dim_union (tdim lt) (tdim rt))
      else Inl (DimensionMismatch (operand_name ctx l @ '' ranges over '' @ dims_text ctx (tdim lt) @ '' and '' @
             operand_name ctx r @ '' over '' @ dims_text ctx (tdim rt) @
             '': they share no category, so no cell has both (neither operand dim is a subset of the other). Reduce one first, e.g. SUM('' @
             operand_name ctx r @ '' OVER '' @
             (case dim_cats (tdim rt) of [] \<Rightarrow> '''' | c # _ \<Rightarrow> category_name ctx c) @
             ''), or give them a category in common'')))"

definition is_error_only :: "typed_expr \<Rightarrow> bool" where
  "is_error_only t \<longleftrightarrow>
     (case typed_kind t of
        TCall f _ \<Rightarrow> raw_func f = 53 \<or> raw_func f = 54
      | TLiteral v \<Rightarrow> is_error v
      | _ \<Rightarrow> False)"

section \<open>Arguments\<close>

fun union_dims :: "ctx \<Rightarrow> string \<Rightarrow> dim \<Rightarrow> dim list \<Rightarrow> (compile_error, dim) res" where
  "union_dims ctx what acc [] = Inr acc"
| "union_dims ctx what acc (d # ds) =
     (if \<not> (is_subset_of acc d \<or> is_subset_of d acc)
      then Inl (DimensionMismatch (what @ '' arguments not broadcastable: one ranges over '' @ dims_text ctx acc @
             '', another over '' @ dims_text ctx d @
             ''; an argument'' @ [CHR 0x27] @ ''s categories must contain or be contained in the others'' @ [CHR 0x27]))
      else union_dims ctx what (dim_union acc d) ds)"

definition union_dim :: "ctx \<Rightarrow> string \<Rightarrow> dim list \<Rightarrow> (compile_error, dim) res" where
  "union_dim ctx what ds = union_dims ctx what scalar_dim ds"

text \<open>Argument \<open>i\<close> against the registry's parameter; \<open>ADateLike\<close> also takes a serial number.\<close>

definition wanted_type :: "fn_def \<Rightarrow> nat \<Rightarrow> typed_expr \<Rightarrow> (compile_error, value_type option) res" where
  "wanted_type d i a =
     (case param d i of
        AAny \<Rightarrow> Inr None
      | ANumber \<Rightarrow> Inr (Some TNumber)
      | AText \<Rightarrow> Inr (Some TText)
      | ABoolean \<Rightarrow> Inr (Some TBoolean)
      | ADate \<Rightarrow> Inr (Some TDateTime)
      | ADateLike \<Rightarrow> Inr (if vt a = TNumber then None else Some TDateTime)
      | ACategory \<Rightarrow>
          Inl (TypeMismatch (fname d @ '' argument '' @ dec (i + 1) @ '' must be a category name ('' @
            signature d @ '')'')))"

definition check_arg :: "fn_def \<Rightarrow> nat \<Rightarrow> typed_expr \<Rightarrow> (compile_error, unit) res" where
  "check_arg d i a =
     rbind (wanted_type d i a) (\<lambda>w.
       case w of
         None \<Rightarrow> Inr ()
       | Some want \<Rightarrow>
           if vt a = want \<or> is_error_only a then Inr ()
           else Inl (TypeMismatch (fname d @ '' argument '' @ dec (i + 1) @ '' must be '' @ vt_text want @
                  '', got '' @ vt_text (vt a) @ '' ('' @ signature d @ '')'')))"

fun check_args :: "fn_def \<Rightarrow> nat \<Rightarrow> typed_expr list \<Rightarrow> (compile_error, unit) res" where
  "check_args d i [] = Inr ()"
| "check_args d i (a # as) = rbind (check_arg d i a) (\<lambda>_. check_args d (i + 1) as)"

definition call_expr :: "u32 \<Rightarrow> expr list \<Rightarrow> expr" where
  "call_expr i args = Call (FuncId i) args"

definition na :: expr where
  "na = call_expr 53 []"

definition value_error_call :: expr where
  "value_error_call = call_expr 54 [Literal (Text ''#VALUE!'')]"

text \<open>An index of the code, and its panic.\<close>

definition arg_at :: "'a list \<Rightarrow> nat \<Rightarrow> (compile_error, 'a) res" where
  "arg_at xs i = ok_or Panic (nth_arg xs i)"

section \<open>Lazy functions\<close>

definition if_call :: "expr \<Rightarrow> expr \<Rightarrow> expr option \<Rightarrow> expr" where
  "if_call c a b = call_expr lazy_IF (c # a # (case b of None \<Rightarrow> [] | Some e \<Rightarrow> [e]))"

text \<open>\<open>chunks(2).rev().fold(end, \<dots>)\<close>; the last chunk of an odd list has no \<open>p[1]\<close>.\<close>

fun if_pairs :: "(expr \<Rightarrow> expr) \<Rightarrow> expr list \<Rightarrow> expr \<Rightarrow> (compile_error, expr) res" where
  "if_pairs test [] acc = Inr acc"
| "if_pairs test [_] acc = Inl Panic"
| "if_pairs test (t # v # rest) acc = rmap (\<lambda>e. if_call (test t) v (Some e)) (if_pairs test rest acc)"

text \<open>\<open>k as f64 + 1.0\<close> is exact: a list is shorter than \<open>2 ^ 53\<close>.\<close>

fun choose_chain :: "expr \<Rightarrow> nat \<Rightarrow> expr list \<Rightarrow> expr" where
  "choose_chain idx k [] = value_error_call"
| "choose_chain idx k (v # vs) =
     if_call (BinaryOp Eq idx (Literal (Number (f64_of_nat (k + 1))))) v (Some (choose_chain idx (k + 1) vs))"

definition clear_form :: "expr \<Rightarrow> expr \<Rightarrow> expr option \<Rightarrow> expr" where
  "clear_form test v alt =
     (case alt of Some a \<Rightarrow> if_call test a (Some v) | None \<Rightarrow> if_call (UnaryOp Not test) v None)"

definition desugar_lazy :: "func_id \<Rightarrow> expr list \<Rightarrow> (compile_error, expr) res" where
  "desugar_lazy f args =
     (let i = raw_func f in
      if i = lazy_IFS then
        if odd (length args) then Inl (Unsupported ''IFS takes test/value pairs'')
        else if_pairs (\<lambda>t. t) args na
      else if i = lazy_SWITCH then
        (case args of
           [] \<Rightarrow> Inl Panic
         | e # rest \<Rightarrow>
             if odd (length rest) then if_pairs (\<lambda>t. BinaryOp Eq e t) (butlast rest) (last rest)
             else if_pairs (\<lambda>t. BinaryOp Eq e t) rest na)
      else if i = lazy_CHOOSE then
        (case args of
           [] \<Rightarrow> Inl Panic
         | e # vals \<Rightarrow> Inr (choose_chain (call_expr 204 [e]) 0 vals))
      else if i = lazy_IFERROR \<or> i = lazy_IFNA then
        rbind (arg_at args 0) (\<lambda>v. rbind (arg_at args 1) (\<lambda>a.
          Inr (if_call (call_expr (if i = lazy_IFERROR then 50 else 52) [v]) a (Some v))))
      else if i = lazy_CLEARERROR then
        rmap (\<lambda>v. clear_form (call_expr 50 [v]) v (nth_arg args 1)) (arg_at args 0)
      else if i = lazy_CLEARZERO then
        rmap (\<lambda>v. clear_form (BinaryOp Eq v (Literal (Number 0))) v (nth_arg args 1)) (arg_at args 0)
      else Inl (UnknownFunction f))"

text \<open>What \<open>infer\<close> is to its helpers.\<close>

type_synonym inferrer = "ctx \<Rightarrow> measure_id \<Rightarrow> expr \<Rightarrow> (compile_error, typed_expr) res"

definition if_type :: "typed_expr list \<Rightarrow> (compile_error, value_type) res" where
  "if_type branches =
     (case branches of
        [a] \<Rightarrow> Inr (vt a)
      | [a, b] \<Rightarrow>
          if is_error_only a then Inr (vt b)
          else if is_error_only b \<or> vt a = vt b then Inr (vt a)
          else Inl (TypeMismatch (''IF branches must have the same type, got '' @ vt_text (vt a) @ '' and '' @
                 vt_text (vt b)))
      | _ \<Rightarrow> Inl Panic)"

definition type_if :: "ctx \<Rightarrow> typed_expr list \<Rightarrow> (compile_error, typed_expr) res" where
  "type_if ctx typed =
     (case typed of
        [] \<Rightarrow> Inl Panic
      | test # branches \<Rightarrow>
          if vt test \<noteq> TBoolean \<and> \<not> is_error_only test
          then Inl (TypeMismatch (''IF test must be Boolean, got '' @ vt_text (vt test)))
          else rbind (if_type branches) (\<lambda>value_type.
               rbind (union_dim ctx ''IF'' (map tdim typed)) (\<lambda>d.
                 if tdim test \<noteq> d \<and> \<not> list_ex (\<lambda>b. dim_union (tdim test) (tdim b) = d) branches
                 then Inl (DimensionMismatch (''IF ranges over '' @ dims_text ctx d @
                        '', but neither the test with the then-branch nor with the else-branch covers it''))
                 else Inr (TypedExpr (TCall (FuncId lazy_IF) typed) \<lparr>ty_value = value_type, ty_dim = d\<rparr>))))"

definition infer_if :: "inferrer \<Rightarrow> ctx \<Rightarrow> measure_id \<Rightarrow> expr list \<Rightarrow> (compile_error, typed_expr) res" where
  "infer_if self ctx target args = rbind (rtraverse (self ctx target) args) (type_if ctx)"

text \<open>The loop over the arguments that are not errors only.\<close>

fun coalesce_type :: "fn_def \<Rightarrow> value_type option \<Rightarrow> typed_expr list \<Rightarrow> (compile_error, value_type option) res" where
  "coalesce_type d acc [] = Inr acc"
| "coalesce_type d acc (t # ts) =
     (if is_error_only t then coalesce_type d acc ts
      else case acc of
        None \<Rightarrow> coalesce_type d (Some (vt t)) ts
      | Some v \<Rightarrow>
          if v \<noteq> vt t
          then Inl (TypeMismatch (fname d @ '' arguments must have the same type, got '' @ vt_text v @ '' and '' @
                 vt_text (vt t)))
          else coalesce_type d acc ts)"

definition coalesce_grid :: "ctx \<Rightarrow> fn_def \<Rightarrow> dim \<Rightarrow> dim \<Rightarrow> (compile_error, item_order option) res" where
  "coalesce_grid ctx d dm first =
     (if raw_func (fid d) = lazy_FILL then
        if dm \<noteq> first
        then Inl (DimensionMismatch (''FILL'' @ [CHR 0x27] @ ''s default ranges over '' @ dims_text ctx dm @
               '', beyond x'' @ [CHR 0x27] @ ''s '' @ dims_text ctx first))
        else if cx_categories ctx = None \<and> \<not> is_scalar dm
        then Inl (Unsupported (''FILL needs the model'' @ [CHR 0x27] @ ''s categories''))
        else Inr (Some (with_items ctx (dim_cats dm)))
      else Inr None)"

definition type_coalesce :: "ctx \<Rightarrow> fn_def \<Rightarrow> typed_expr list \<Rightarrow> (compile_error, typed_expr) res" where
  "type_coalesce ctx d typed =
     rbind (coalesce_type d None typed) (\<lambda>found.
     rbind (arg_at typed 0) (\<lambda>first.
       let value_type = (case found of Some v \<Rightarrow> v | None \<Rightarrow> vt first) in
       rbind (union_dim ctx (fname d) (map tdim typed)) (\<lambda>dm.
       rbind (coalesce_grid ctx d dm (tdim first)) (\<lambda>grid.
         Inr (TypedExpr (TCoalesce typed grid) \<lparr>ty_value = value_type, ty_dim = dm\<rparr>)))))"

definition infer_coalesce ::
  "inferrer \<Rightarrow> ctx \<Rightarrow> measure_id \<Rightarrow> fn_def \<Rightarrow> expr list \<Rightarrow> (compile_error, typed_expr) res" where
  "infer_coalesce self ctx target d args = rbind (rtraverse (self ctx target) args) (type_coalesce ctx d)"

definition infer_lazy ::
  "inferrer \<Rightarrow> ctx \<Rightarrow> measure_id \<Rightarrow> fn_def \<Rightarrow> expr list \<Rightarrow> (compile_error, typed_expr) res" where
  "infer_lazy self ctx target d args =
     (if raw_func (fid d) = lazy_IF then infer_if self ctx target args
      else if raw_func (fid d) = lazy_COALESCE \<or> raw_func (fid d) = lazy_FILL
      then infer_coalesce self ctx target d args
      else rbind (desugar_lazy (fid d) args) (self ctx target))"

section \<open>Dimensional functions\<close>

definition cat_arg :: "fn_def \<Rightarrow> expr \<Rightarrow> (compile_error, category_id) res" where
  "cat_arg d e =
     (case e of
        Category c \<Rightarrow> Inr c
      | _ \<Rightarrow> Inl (TypeMismatch (fname d @ '' takes a category name ('' @ signature d @ '')'')))"

definition dim_items :: "ctx \<Rightarrow> fn_def \<Rightarrow> category_id \<Rightarrow> (compile_error, item_id list) res" where
  "dim_items ctx d c =
     (let its = items_of ctx c
      in if its = [] \<and> cx_categories ctx = None
         then Inl (Unsupported (fname d @ '' needs the model'' @ [CHR 0x27] @ ''s categories''))
         else Inr its)"

definition item_text :: "ctx \<Rightarrow> item_id \<Rightarrow> string" where
  "item_text ctx i =
     (case Option.bind (cx_items ctx) (\<lambda>m. hget m i) of
        Some it \<Rightarrow> item_name it
      | None \<Rightarrow> dec (unat (raw_item i)))"

definition items_node :: "category_id \<Rightarrow> (item_id \<times> val) list \<Rightarrow> value_type \<Rightarrow> typed_expr" where
  "items_node c vals v = TypedExpr (TItems c vals) \<lparr>ty_value = v, ty_dim = dim_of [c]\<rparr>"

text \<open>A whole literal, or minus one; \<open>n as i64\<close> saturates, the negations wrap.\<close>

definition shift_offset :: "fn_def \<Rightarrow> expr option \<Rightarrow> (compile_error, int) res" where
  "shift_offset d arg =
     (let err = Inl (Unsupported (fname d @ '' takes a whole number of items as its third argument''))
      in case arg of
           None \<Rightarrow> Inr 1
         | Some (Literal (Number n)) \<Rightarrow>
             (case f64_whole n of Some z \<Rightarrow> if 0 \<le> z then Inr (sat_i64 z) else err | None \<Rightarrow> err)
         | Some (UnaryOp Neg (Literal (Number n))) \<Rightarrow>
             (case f64_whole n of Some z \<Rightarrow> Inr (wrap64 (- sat_i64 z)) | None \<Rightarrow> err)
         | Some _ \<Rightarrow> err)"

definition shift_default :: "fn_def \<Rightarrow> typed_expr \<Rightarrow> typed_expr \<Rightarrow> (compile_error, unit) res" where
  "shift_default d i dflt =
     (if vt dflt \<noteq> vt i \<and> \<not> is_error_only dflt
      then Inl (TypeMismatch (fname d @ '' default must be '' @ vt_text (vt i) @ '', got '' @ vt_text (vt dflt)))
      else if \<not> is_subset_of (tdim dflt) (tdim i)
      then Inl (DimensionMismatch (fname d @ '' default ranges over more categories than the value''))
      else Inr ())"

definition infer_shift ::
  "inferrer \<Rightarrow> ctx \<Rightarrow> measure_id \<Rightarrow> fn_def \<Rightarrow> expr list \<Rightarrow> (compile_error, typed_expr) res" where
  "infer_shift self ctx target d args =
     rbind (rbind (arg_at args 0) (self ctx target)) (\<lambda>i.
     rbind (rbind (arg_at args 1) (cat_arg d)) (\<lambda>c.
       if c \<notin> set (dim_cats (tdim i))
       then Inl (DimensionMismatch (fname d @ '': the value does not range over '' @ category_name ctx c))
       else
         rbind (shift_offset d (nth_arg args 2)) (\<lambda>n.
         rbind (case nth_arg args 3 of
                  None \<Rightarrow> Inr None
                | Some e \<Rightarrow> rbind (self ctx target e) (\<lambda>t. rmap (\<lambda>_. Some t) (shift_default d i t))) (\<lambda>dflt.
           Inr (TypedExpr (TShift i c (if raw_func (fid d) = dim_PREV then wrap64 (- n) else n) dflt)
                  (typed_ty i))))))"

text \<open>Items correspond by name; a later item of \<open>to\<close> takes a name from an earlier one.\<close>

definition remap_pairs ::
  "ctx \<Rightarrow> fn_def \<Rightarrow> category_id \<Rightarrow> category_id \<Rightarrow> (compile_error, (item_id \<times> item_id) list) res" where
  "remap_pairs ctx d from_c to_c =
     rbind (dim_items ctx d to_c) (\<lambda>ts.
     let names = hcollect (map (\<lambda>i. (item_text ctx i, i)) ts) in
     rbind (dim_items ctx d from_c) (\<lambda>fs.
       Inr (List.map_filter (\<lambda>i. map_option (Pair i) (hget names (item_text ctx i))) fs)))"

definition remap_check ::
  "ctx \<Rightarrow> fn_def \<Rightarrow> bool \<Rightarrow> dim \<Rightarrow> category_id \<Rightarrow> category_id \<Rightarrow> (compile_error, unit) res" where
  "remap_check ctx d swap dm a b =
     (let has = (\<lambda>c. c \<in> set (dim_cats dm)); an = category_name ctx a; bn = category_name ctx b in
      if a = b then Inl (DimensionMismatch (fname d @ '': '' @ an @ '' is both categories''))
      else if \<not> has a \<or> swap \<and> \<not> has b
      then Inl (DimensionMismatch (fname d @ '': the value does not range over '' @ (if has a then bn else an)))
      else if \<not> swap \<and> has b
      then Inl (DimensionMismatch (''RELABEL: the value already ranges over '' @ bn @
             ''; SWAP exchanges two categories it has''))
      else Inr ())"

definition remap_cats :: "bool \<Rightarrow> category_id list \<Rightarrow> category_id \<Rightarrow> category_id \<Rightarrow> category_id list" where
  "remap_cats swap cs a b = (if swap then cs else filter (\<lambda>c. c \<noteq> a) cs @ [b])"

definition infer_remap ::
  "inferrer \<Rightarrow> ctx \<Rightarrow> measure_id \<Rightarrow> fn_def \<Rightarrow> expr list \<Rightarrow> (compile_error, typed_expr) res" where
  "infer_remap self ctx target d args =
     rbind (rbind (arg_at args 0) (self ctx target)) (\<lambda>i.
     rbind (rbind (arg_at args 1) (cat_arg d)) (\<lambda>a.
     rbind (rbind (arg_at args 2) (cat_arg d)) (\<lambda>b.
     let swap = raw_func (fid d) = dim_SWAP in
     rbind (remap_check ctx d swap (tdim i) a b) (\<lambda>_.
     rbind (remap_pairs ctx d a b) (\<lambda>there.
     rbind (if swap then rmap (\<lambda>back. [(b, a, back)]) (remap_pairs ctx d b a) else Inr []) (\<lambda>back.
       Inr (TypedExpr (TRemap i ((a, b, there) # back))
              \<lparr>ty_value = vt i, ty_dim = dim_of (remap_cats swap (dim_cats (tdim i)) a b)\<rparr>)))))))"

text \<open>\<open>None\<close> for a function that is not dimensional.\<close>

definition infer_dimensional ::
  "inferrer \<Rightarrow> ctx \<Rightarrow> measure_id \<Rightarrow> fn_def \<Rightarrow> expr list \<Rightarrow> (compile_error, typed_expr option) res" where
  "infer_dimensional self ctx target d args =
     (let f = raw_func (fid d) in
      if f = dim_POSITION then
        rbind (rbind (arg_at args 0) (cat_arg d)) (\<lambda>c. rbind (dim_items ctx d c) (\<lambda>its.
          Inr (Some (items_node c (map (\<lambda>(k, i). (i, Number (f64_of_nat (k + 1)))) (enumerate 0 its)) TNumber))))
      else if f = dim_ITEM \<or> f = dim_ID then
        rbind (rbind (arg_at args 0) (cat_arg d)) (\<lambda>c. rbind (dim_items ctx d c) (\<lambda>its.
          Inr (Some (items_node c (map (\<lambda>i. (i, Text (item_text ctx i))) its) TText))))
      else if f = dim_ITEMCOUNT then
        rbind (rbind (arg_at args 0) (cat_arg d)) (\<lambda>c. rbind (dim_items ctx d c) (\<lambda>its.
          Inr (Some (TypedExpr (TLiteral (Number (f64_of_nat (length its))))
                       \<lparr>ty_value = TNumber, ty_dim = scalar_dim\<rparr>))))
      else if f = dim_PREV \<or> f = dim_NEXT then rmap Some (infer_shift self ctx target d args)
      else if f = dim_RELABEL \<or> f = dim_SWAP then rmap Some (infer_remap self ctx target d args)
      else Inr None)"

section \<open>Aggregations\<close>

text \<open>The clauses among an aggregation's arguments, and its other arguments in order.\<close>

record clauses =
  cl_pred :: "typed_expr option"
  cl_window :: "window option"
  cl_into :: "category_id list"
  cl_rest :: "expr list"

definition no_clauses :: clauses where
  "no_clauses = \<lparr>cl_pred = None, cl_window = None, cl_into = [], cl_rest = []\<rparr>"

fun into_cats :: "category_id list \<Rightarrow> expr list \<Rightarrow> (compile_error, category_id list) res" where
  "into_cats acc [] = Inr acc"
| "into_cats acc (e # es) =
     (case e of
        Category c \<Rightarrow>
          if c \<notin> set acc then into_cats (acc @ [c]) es else Inl (Unsupported ''malformed INTO'')
      | _ \<Rightarrow> Inl (Unsupported ''malformed INTO''))"

definition bound_of :: "expr \<Rightarrow> (compile_error, bound) res" where
  "bound_of e =
     (let err = Inl (Unsupported ''malformed window bound'')
      in case e of
           Literal (Text t) \<Rightarrow>
             if t = ''FIRST'' then Inr BFirst else if t = ''LAST'' then Inr BLast else err
         | Literal (Number n) \<Rightarrow>
             (case f64_whole n of Some z \<Rightarrow> Inr (BOffset (sat_i64 z)) | None \<Rightarrow> err)
         | _ \<Rightarrow> err)"

definition where_check :: "typed_expr \<Rightarrow> (compile_error, unit) res" where
  "where_check t =
     (if vt t \<noteq> TBoolean
      then Inl (TypeMismatch (''WHERE needs a Boolean condition, got '' @ vt_text (vt t)))
      else Inr ())"

definition agg_clause :: "inferrer \<Rightarrow> ctx \<Rightarrow> measure_id \<Rightarrow> expr \<Rightarrow> clauses \<Rightarrow> (compile_error, clauses) res" where
  "agg_clause self ctx target a cl =
     (case a of
        Call f k \<Rightarrow>
          if f = INTO then
            rbind (into_cats (cl_into cl) k) (\<lambda>cs.
              if cs = [] then Inl (Unsupported ''malformed INTO'') else Inr (cl\<lparr>cl_into := cs\<rparr>))
          else if f = WHERE then
            rbind (rbind (arg_at k 0) (self ctx target)) (\<lambda>t.
            rmap (\<lambda>_. cl\<lparr>cl_pred := Some t\<rparr>) (where_check t))
          else if f = WINDOW then
            rbind (rbind (arg_at k 0) bound_of) (\<lambda>b0.
            rmap (\<lambda>b1. cl\<lparr>cl_window := Some (b0, b1)\<rparr>) (rbind (arg_at k 1) bound_of))
          else Inr (cl\<lparr>cl_rest := cl_rest cl @ [a]\<rparr>)
      | _ \<Rightarrow> Inr (cl\<lparr>cl_rest := cl_rest cl @ [a]\<rparr>))"

fun agg_clauses :: "inferrer \<Rightarrow> ctx \<Rightarrow> measure_id \<Rightarrow> expr list \<Rightarrow> clauses \<Rightarrow> (compile_error, clauses) res" where
  "agg_clauses self ctx target [] cl = Inr cl"
| "agg_clauses self ctx target (a # as) cl =
     rbind (agg_clause self ctx target a cl) (agg_clauses self ctx target as)"

text \<open>
  \<open>Over::Leading\<close>: the registry lists \<open>(y, x, options\<dots>)\<close>; every further reduced argument checks as
  \<open>x\<close>, and the options follow from position \<open>min\<close>.
\<close>

definition leading_of :: "fn_def \<Rightarrow> expr list \<Rightarrow> (nat \<times> nat) option" where
  "leading_of d rest =
     (case fover d of
        OverLeading k \<Rightarrow> Some (k, length (filter (\<lambda>(i, a). reduced d i a) (enumerate 0 rest)))
      | _ \<Rightarrow> None)"

definition slot_of :: "(nat \<times> nat) option \<Rightarrow> nat \<Rightarrow> nat" where
  "slot_of leading i =
     (case leading of
        Some (k, n) \<Rightarrow> if n \<le> i then i - n + k else if k \<le> i then k - 1 else i
      | None \<Rightarrow> i)"

definition agg_arg :: "inferrer \<Rightarrow> ctx \<Rightarrow> measure_id \<Rightarrow> fn_def \<Rightarrow> nat \<Rightarrow> expr \<Rightarrow> (compile_error, typed_expr) res" where
  "agg_arg self ctx target d i a =
     (if reduced d i a then
        (case a of
           Ref m s \<Rightarrow> infer_ref ctx m s
         | _ \<Rightarrow> Inl (Unsupported (fname d @ '' argument '' @ dec (i + 1) @ '' must be a measure reference'')))
      else self ctx target a)"

text \<open>The reduced arguments (\<open>inputs\<close>) and the others (\<open>params\<close>), each in order.\<close>

fun agg_args ::
  "inferrer \<Rightarrow> ctx \<Rightarrow> measure_id \<Rightarrow> fn_def \<Rightarrow> (nat \<times> nat) option \<Rightarrow> nat \<Rightarrow> expr list \<Rightarrow>
   (compile_error, typed_expr list \<times> typed_expr list) res" where
  "agg_args self ctx target d leading i [] = Inr ([], [])"
| "agg_args self ctx target d leading i (a # as) =
     rbind (agg_arg self ctx target d i a) (\<lambda>t.
     rbind (check_arg d (slot_of leading i) t) (\<lambda>_.
     rmap (\<lambda>(ins, ps). if reduced d i a then (t # ins, ps) else (ins, t # ps))
       (agg_args self ctx target d leading (i + 1) as)))"

text \<open>The other inputs, joined to the first: \<open>full\<close> before the reduction, \<open>kept\<close> after it.\<close>

fun agg_join ::
  "ctx \<Rightarrow> fn_def \<Rightarrow> category_id list \<Rightarrow> dim \<Rightarrow> dim \<Rightarrow> typed_expr list \<Rightarrow> (compile_error, dim \<times> dim) res" where
  "agg_join ctx d ov full kept [] = Inr (full, kept)"
| "agg_join ctx d ov full kept (t # ts) =
     (if ov = [] \<and> first_full_dim ctx t \<noteq> full
      then Inl (DimensionMismatch (fname d @
             '': the measures reduced together must range over the same categories, but one ranges over '' @
             dims_text ctx full @ '' and another over '' @ dims_text ctx (first_full_dim ctx t) @
             '', and neither is reduced''))
      else if aggregation_over ctx t \<noteq> ov
      then Inl (DimensionMismatch (fname d @
             '': the measures reduced together must reduce the same categories, but one is reduced over '' @
             dims_text ctx (dim_of ov) @ '' and another over '' @ dims_text ctx (dim_of (aggregation_over ctx t))))
      else agg_join ctx d ov (dim_union full (first_full_dim ctx t)) (dim_union kept (tdim t)) ts)"

definition agg_into_check :: "ctx \<Rightarrow> fn_def \<Rightarrow> category_id list \<Rightarrow> dim \<Rightarrow> (compile_error, unit) res" where
  "agg_into_check ctx d into full =
     (if fkind d = Array \<and> into = []
      then Inl (Unsupported (fname d @ '' returns a list: say where it lands, '' @ fname d @ ''('' @ ellipsis @
             '' INTO Category)''))
      else if fkind d \<noteq> Array \<and> into \<noteq> []
      then Inl (Unsupported (fname d @ '' returns one value; INTO is for list results''))
      else case find (\<lambda>k. k \<in> set (dim_cats full)) into of
        Some k \<Rightarrow>
          Inl (DimensionMismatch (fname d @ '': INTO '' @ category_name ctx k @
            '' must be a category the measure does not range over''))
      | None \<Rightarrow> Inr ())"

text \<open>The categories kept: with a window, or per item, also the one reduced.\<close>

definition agg_kept ::
  "fn_def \<Rightarrow> clauses \<Rightarrow> category_id list \<Rightarrow> dim \<Rightarrow> (compile_error, category_id list) res" where
  "agg_kept d cl ov kept =
     (let cs = dim_cats kept @ cl_into cl in
      if cl_window cl \<noteq> None \<or> fkind d = PerItem then
        (case ov of
           [c] \<Rightarrow> Inr (cs @ [c])
         | _ \<Rightarrow> Inl (Unsupported (fname d @ '' over a window or per item takes exactly one OVER category'')))
      else Inr cs)"

definition agg_pred_check :: "fn_def \<Rightarrow> typed_expr option \<Rightarrow> dim \<Rightarrow> (compile_error, unit) res" where
  "agg_pred_check d pred full =
     (case pred of
        Some p \<Rightarrow>
          if is_subset_of (tdim p) full then Inr ()
          else Inl (DimensionMismatch (fname d @
                 '': the WHERE condition ranges over categories the measure does not''))
      | None \<Rightarrow> Inr ())"

fun agg_params_dim :: "fn_def \<Rightarrow> category_id list \<Rightarrow> dim \<Rightarrow> typed_expr list \<Rightarrow> (compile_error, dim) res" where
  "agg_params_dim d ov dm [] = Inr dm"
| "agg_params_dim d ov dm (p # ps) =
     (if list_ex (\<lambda>c. c \<in> set ov) (dim_cats (tdim p))
      then Inl (DimensionMismatch (fname d @ '': a parameter must not range over the reduced categories''))
      else agg_params_dim d ov (dim_union dm (tdim p)) ps)"

text \<open>The typed argument at each position, as the two iterators give them.\<close>

fun arg_sources :: "fn_def \<Rightarrow> nat \<Rightarrow> expr list \<Rightarrow> typed_expr list \<Rightarrow> typed_expr list \<Rightarrow> typed_expr option list" where
  "arg_sources d j [] ins ps = []"
| "arg_sources d j (a # as) ins ps =
     (if reduced d j a
      then (case ins of [] \<Rightarrow> None # arg_sources d (j + 1) as [] ps
                      | t # ins' \<Rightarrow> Some t # arg_sources d (j + 1) as ins' ps)
      else (case ps of [] \<Rightarrow> None # arg_sources d (j + 1) as ins []
                     | t # ps' \<Rightarrow> Some t # arg_sources d (j + 1) as ins ps'))"

definition agg_type ::
  "fn_def \<Rightarrow> expr list \<Rightarrow> typed_expr list \<Rightarrow> typed_expr list \<Rightarrow> typed_expr \<Rightarrow> value_type" where
  "agg_type d rest ins ps first =
     (case fret d of
        RFixed v \<Rightarrow> v
      | RUnify \<Rightarrow> vt first
      | RArg i \<Rightarrow>
          (case Option.bind (nth_arg (arg_sources d 0 rest ins ps) i) (\<lambda>t. t) of
             Some t \<Rightarrow> vt t
           | None \<Rightarrow> vt first))"

text \<open>What follows the arguments: the joined dimension, the checks in the code's order, the type.\<close>

definition agg_result ::
  "ctx \<Rightarrow> fn_def \<Rightarrow> func_id \<Rightarrow> clauses \<Rightarrow> typed_expr list \<Rightarrow> typed_expr list \<Rightarrow> (compile_error, typed_expr) res" where
  "agg_result ctx d f cl ins ps =
     (case ins of
        [] \<Rightarrow> Inl (Unsupported (fname d @ '' needs a measure OVER a category''))
      | first # others \<Rightarrow>
          let ov = aggregation_over ctx first in
          rbind (agg_join ctx d ov (first_full_dim ctx first) (tdim first) others) (\<lambda>(full, kept).
          rbind (agg_into_check ctx d (cl_into cl) full) (\<lambda>_.
          rbind (agg_kept d cl ov kept) (\<lambda>cs.
          rbind (agg_pred_check d (cl_pred cl) full) (\<lambda>_.
          rbind (agg_params_dim d ov (dim_of cs) ps) (\<lambda>dm.
            Inr (TypedExpr (TAggregate f ins ps ov (cl_pred cl) (cl_window cl) (cl_into cl))
                   \<lparr>ty_value = agg_type d (cl_rest cl) ins ps first, ty_dim = dm\<rparr>)))))))"

definition infer_aggregate ::
  "inferrer \<Rightarrow> ctx \<Rightarrow> measure_id \<Rightarrow> func_id \<Rightarrow> expr list \<Rightarrow> (compile_error, typed_expr) res" where
  "infer_aggregate self ctx target f args =
     rbind (ok_or (UnknownFunction f) (by_id f)) (\<lambda>d.
     rbind (agg_clauses self ctx target args no_clauses) (\<lambda>cl.
       let rest = cl_rest cl in
       if \<not> accepts d (length rest)
       then Inl (Unsupported (fname d @ '' expects '' @ signature d @ '', got '' @ dec (length rest) @
              '' argument(s)''))
       else rbind (agg_args self ctx target d (leading_of d rest) 0 rest) (\<lambda>(ins, ps).
              agg_result ctx d f cl ins ps)))"

section \<open>Scalar formulas\<close>

text \<open>\<open>scalar.rs\<close>: what a scalar evaluation refuses, with the messages of \<open>ScalarError\<close>.\<close>

datatype scalar_error =
    NeedsDimensions string
  | ScalarUnknown func_id
  | Arity func_id string nat

fun scalar_error_text :: "scalar_error \<Rightarrow> string" where
  "scalar_error_text (NeedsDimensions s) =
     s @ '' needs dimensions; aggregate over categories in an Improv model, not a scalar formula''"
| "scalar_error_text (ScalarUnknown f) = ''unknown function FuncId('' @ dec (unat (raw_func f)) @ '')''"
| "scalar_error_text (Arity f want got) =
     want @ '' takes other arguments than the '' @ dec got @ '' given''"

text \<open>\<open>try_for_each\<close>: the first error.\<close>

definition rfor_each :: "('a \<Rightarrow> ('e, unit) res) \<Rightarrow> 'a list \<Rightarrow> ('e, unit) res" where
  "rfor_each f xs = rmap (\<lambda>_. ()) (rtraverse f xs)"

lemma rfor_each_cong [fundef_cong]:
  "xs = ys \<Longrightarrow> (\<And>x. x \<in> set ys \<Longrightarrow> f x = g x) \<Longrightarrow> rfor_each f xs = rfor_each g ys"
  by (simp add: rfor_each_def cong: rtraverse_cong)

lemma rfor_each_ok: "rfor_each f xs = Inr () \<longleftrightarrow> list_all (\<lambda>x. f x = Inr ()) xs"
  by (induction xs) (auto simp: rfor_each_def rmap_Inr_iff rbind_Inr_iff)

fun scalar_check :: "expr \<Rightarrow> (scalar_error, unit) res" where
  "scalar_check (Literal _) = Inr ()"
| "scalar_check (Category _) = Inl (NeedsDimensions ''a category argument'')"
| "scalar_check (Ref _ s) =
     (if sby s = [] \<and> sover s = [] \<and> sexcept s = [] then Inr ()
      else Inl (NeedsDimensions ''a dimension projection (BY/OVER/EXCEPT)''))"
| "scalar_check (UnaryOp _ a) = scalar_check a"
| "scalar_check (BinaryOp _ a b) = rbind (scalar_check a) (\<lambda>_. scalar_check b)"
| "scalar_check (Call f args) =
     (if is_aggregation f
      then Inl (NeedsDimensions (''an aggregation (SUM(x OVER '' @ ellipsis @ ''))''))
      else rbind (ok_or (ScalarUnknown f) (by_id f)) (\<lambda>d.
             if fcategory d = CDimensional
             then Inl (NeedsDimensions (fname d @ '' (it reads a category)''))
             else if \<not> accepts d (length args) then Inl (Arity f (signature d) (length args))
             else rfor_each scalar_check args))"

section \<open>Folds\<close>

fun rename_ref :: "measure_id \<Rightarrow> measure_id \<Rightarrow> expr \<Rightarrow> expr" where
  "rename_ref a b (Ref r s) = Ref (if r = a then b else r) s"
| "rename_ref a b (UnaryOp u x) = UnaryOp u (rename_ref a b x)"
| "rename_ref a b (BinaryOp u x y) = BinaryOp u (rename_ref a b x) (rename_ref a b y)"
| "rename_ref a b (Call f xs) = Call f (map (rename_ref a b) xs)"
| "rename_ref a b (Literal v) = Literal v"
| "rename_ref a b (Category c) = Category c"

definition fold_usage :: string where
  "fold_usage = ''a fold needs (init, x OVER Category, LAMBDA(acc, v, body))''"

text \<open>\<open>[init, Ref(x, spec), body]\<close> with one \<open>OVER\<close> category.\<close>

definition fold_parts :: "expr list \<Rightarrow> (compile_error, expr \<times> measure_id \<times> category_id \<times> expr) res" where
  "fold_parts args =
     (case args of
        [i, Ref x s, b] \<Rightarrow>
          (case sover s of [c] \<Rightarrow> Inr (i, x, c, b) | _ \<Rightarrow> Inl (Unsupported fold_usage))
      | _ \<Rightarrow> Inl (Unsupported fold_usage))"

text \<open>The measures a fold or a recurrence reads, each within its own categories, as plans.\<close>

definition slot_ref ::
  "ctx \<Rightarrow> compile_error \<Rightarrow> dim \<Rightarrow> measure_id \<Rightarrow> (compile_error, dim \<times> measure_id \<times> plan_node) res" where
  "slot_ref ctx err own i =
     rbind (infer_ref ctx i default_spec) (\<lambda>r.
       if \<not> is_subset_of (tdim r) own then Inl err
       else rmap (\<lambda>p. (tdim r, i, p)) (build_plan ctx r))"

definition with_measure :: "ctx \<Rightarrow> measure_id \<Rightarrow> measure \<Rightarrow> ctx" where
  "with_measure ctx i m = ctx\<lparr>cx_measures := hinsert i m (cx_measures ctx)\<rparr>"

text \<open>The plan of a fold: the recurrence, and \<open>LAST\<close> (907) of it for \<open>REDUCE\<close>.\<close>

definition fold_plan ::
  "ctx \<Rightarrow> bool \<Rightarrow> expr \<Rightarrow> expr \<Rightarrow> measure_id \<Rightarrow> category_id \<Rightarrow> dim \<Rightarrow> value_type \<Rightarrow>
   (measure_id \<times> plan_node) list \<Rightarrow> plan_node" where
  "fold_plan ctx last_only init body acc c own v refs =
     (let scan = PlanNode (Recurrence body refs [(acc, 1, Some init)] c (items_of ctx c))
                   \<lparr>ty_value = v, ty_dim = own\<rparr>
      in if \<not> last_only then scan
         else let kept = filter (\<lambda>k. k \<noteq> c) (dim_cats own) in
              PlanNode (PAggregate [scan] [] None kept (FuncId 907) [(c, items_of ctx c)] None False [] False)
                \<lparr>ty_value = v, ty_dim = dim_of kept\<rparr>)"

definition fold_refs ::
  "ctx \<Rightarrow> measure \<Rightarrow> measure_id \<Rightarrow> expr \<Rightarrow> expr \<Rightarrow> (compile_error, (measure_id \<times> plan_node) list) res" where
  "fold_refs ctx m acc body init =
     (let ids = sort_dedup (filter (\<lambda>i. i \<noteq> acc) (referenced_measures body @ referenced_measures init));
          err = DimensionMismatch (''a fold over '' @ m_name m @ '' may only read measures within its categories'')
      in rmap (map snd) (rtraverse (slot_ref ctx err (dim_of (m_cats m))) ids))"

definition compile_fold :: "inferrer \<Rightarrow> ctx \<Rightarrow> bool \<Rightarrow> expr list \<Rightarrow> (compile_error, plan_node) res" where
  "compile_fold self ctx last_only args =
     rbind (fold_parts args) (\<lambda>(init, xid, c, body0).
     rbind (ok_or (UnknownMeasure xid) (hget (cx_measures ctx) xid)) (\<lambda>m.
       if c \<notin> set (m_cats m)
       then Inl (DimensionMismatch (m_name m @ '' does not range over '' @ category_name ctx c))
       else
         let acc = lambda_slot 0 0; body = rename_ref (lambda_slot 0 1) xid body0 in
         rbind (map_err (\<lambda>e. Unsupported (''a fold'' @ [CHR 0x27] @ ''s LAMBDA body must be scalar: '' @
                                scalar_error_text e)) (scalar_check body)) (\<lambda>_.
         rbind (map_err (\<lambda>e. Unsupported (''a fold'' @ [CHR 0x27] @ ''s initial value must be scalar: '' @
                                scalar_error_text e)) (scalar_check init)) (\<lambda>_.
         rbind (self ctx xid init) (\<lambda>init_t.
         rbind (self (with_measure ctx acc (m\<lparr>m_id := acc, m_type := vt init_t\<rparr>)) xid body) (\<lambda>typed.
           if vt typed \<noteq> vt init_t \<and> \<not> is_error_only init_t
           then Inl (TypeMismatch (''a fold'' @ [CHR 0x27] @ ''s accumulator starts as '' @ vt_text (vt init_t) @
                  '' but the LAMBDA yields '' @ vt_text (vt typed)))
           else rmap (fold_plan ctx last_only init body acc c (dim_of (m_cats m)) (vt typed))
                  (fold_refs ctx m acc body init)))))))"

section \<open>Operators and calls\<close>

definition infer_literal :: "val \<Rightarrow> (compile_error, typed_expr) res" where
  "infer_literal v =
     rmap (\<lambda>t. TypedExpr (TLiteral v) \<lparr>ty_value = t, ty_dim = scalar_dim\<rparr>)
       (ok_or (TypeMismatch ''error literal has no value type'') (type_of v))"

definition category_error :: "ctx \<Rightarrow> category_id \<Rightarrow> compile_error" where
  "category_error ctx c =
     TypeMismatch (''category '' @ category_name ctx c @
       '' is not a value; use it as a function argument (POSITION('' @ category_name ctx c @ ''))'')"

definition infer_unary :: "unary_op \<Rightarrow> typed_expr \<Rightarrow> (compile_error, typed_expr) res" where
  "infer_unary op i =
     (let want = (case op of Neg \<Rightarrow> TNumber | Not \<Rightarrow> TBoolean)
      in if vt i \<noteq> want
         then Inl (TypeMismatch (''unary '' @ unary_text op @ '' expects '' @ vt_text want @ '', got '' @
                vt_text (vt i)))
         else Inr (TypedExpr (TUnaryOp op i) (typed_ty i)))"

definition infer_binary ::
  "ctx \<Rightarrow> binary_op \<Rightarrow> expr \<Rightarrow> expr \<Rightarrow> typed_expr \<Rightarrow> typed_expr \<Rightarrow> (compile_error, typed_expr) res" where
  "infer_binary ctx op l r lt rt =
     rbind (binop_result_type op lt rt) (\<lambda>t.
     rbind (binop_dim ctx l r lt rt) (\<lambda>d.
       Inr (TypedExpr (TBinaryOp op lt rt) \<lparr>ty_value = t, ty_dim = d\<rparr>)))"

text \<open>An element-wise call, its arguments typed; \<open>Panic\<close> is the \<open>unreachable!\<close>.\<close>

definition type_call :: "ctx \<Rightarrow> fn_def \<Rightarrow> func_id \<Rightarrow> typed_expr list \<Rightarrow> (compile_error, typed_expr) res" where
  "type_call ctx d f typed =
     rbind (check_args d 0 typed) (\<lambda>_.
     rbind (union_dim ctx (fname d) (map tdim typed)) (\<lambda>dm.
       case fret d of
         RFixed v \<Rightarrow> Inr (TypedExpr (TCall f typed) \<lparr>ty_value = v, ty_dim = dm\<rparr>)
       | _ \<Rightarrow> Inl Panic))"

definition infer_call ::
  "inferrer \<Rightarrow> ctx \<Rightarrow> measure_id \<Rightarrow> func_id \<Rightarrow> expr list \<Rightarrow> (compile_error, typed_expr) res" where
  "infer_call self ctx target f args =
     rbind (ok_or (UnknownFunction f) (by_id f)) (\<lambda>d.
       let i = raw_func (fid d) in
       if \<not> accepts d (length args)
       then Inl (Unsupported (fname d @ '' expects '' @ signature d @ '', got '' @ dec (length args) @
              '' argument(s)''))
       else if i = dim_SCAN \<or> i = dim_REDUCE
       then rmap (\<lambda>p. TypedExpr (TPlan p) (plan_ty p)) (compile_fold self ctx (i = dim_REDUCE) args)
       else if i = dim_FIXPOINT
       then Inl (Unsupported (''FIXPOINT must be a measure'' @ [CHR 0x27] @
              ''s whole formula: define it as its own measure''))
       else rbind (infer_dimensional self ctx target d args) (\<lambda>r.
              case r of
                Some t \<Rightarrow> Inr t
              | None \<Rightarrow>
                  if fkind d = Lazy then infer_lazy self ctx target d args
                  else rbind (rtraverse (self ctx target) args) (type_call ctx d f)))"

end
