(* ===== verification/Infer.thy ===== *)
theory Infer
  imports Compiler_Infer
begin

text \<open>
  \<open>infer\<close> of \<open>crates/engine/src/compiler.rs\<close>, the first pass, as a total function: each helper only
  types expressions that are smaller in a weight that pays for the rewriting of lazy calls, and a
  named LAMBDA's expansion calls no LAMBDA.
\<close>

section \<open>A weight the recursion decreases\<close>

definition rewritten :: "func_id \<Rightarrow> bool" where
  "rewritten f \<longleftrightarrow> raw_func f \<in> {31, 32, 33, 34, 35, 36, 37}"

fun weight :: "expr \<Rightarrow> nat" where
  "weight (Call f args) =
     (if rewritten f then (length args + 2) * (10 + sum_list (map weight args))
      else 1 + sum_list (map weight args))"
| "weight (UnaryOp _ a) = 1 + weight a"
| "weight (BinaryOp _ a b) = 1 + weight a + weight b"
| "weight (Literal _) = 1"
| "weight (Ref _ _) = 1"
| "weight (Category _) = 1"

definition smaller :: "expr \<Rightarrow> expr \<Rightarrow> bool" where
  "smaller x e \<longleftrightarrow> weight x < weight e \<and> called x \<subseteq> called e"

lemma weight_args: "sum_list (map weight args) < weight (Call f args)"
  by (auto simp: algebra_simps)

lemma weight_arg: "x \<in> set args \<Longrightarrow> weight x \<le> sum_list (map weight args)"
  by (rule member_le_sum_list) simp_all

lemma smaller_arg: "x \<in> set args \<Longrightarrow> smaller x (Call f args)"
  using weight_arg [of x args] weight_args [of args f] by (auto simp: smaller_def simp del: weight.simps)

lemma smaller_trans: "smaller x y \<Longrightarrow> smaller y z \<Longrightarrow> smaller x z"
  by (auto simp: smaller_def)

lemma weight_rename [simp]: "weight (rename_ref a b e) = weight e"
proof (induction e)
  case (Call f args)
  then have "sum_list (map weight (map (rename_ref a b) args)) = sum_list (map weight args)"
    by (auto intro!: arg_cong [where f = sum_list])
  then show ?case by (simp only: rename_ref.simps weight.simps length_map)
qed auto

lemma called_rename [simp]: "called (rename_ref a b e) = called e"
  by (induction e) auto

lemma arg_at_set: "arg_at xs i = Inr x \<Longrightarrow> x \<in> set xs"
  by (auto simp: arg_at_def nth_arg_def ok_or_def split: if_splits option.splits)

lemma nth_arg_set: "nth_arg xs i = Some x \<Longrightarrow> x \<in> set xs"
  by (auto simp: nth_arg_def split: if_splits)

subsection \<open>The rewriting of a lazy call\<close>

lemma raw_words [simp]:
  "named_lambda_of (FuncId 30) = None" "named_lambda_of (FuncId 50) = None" "named_lambda_of (FuncId 52) = None"
  "named_lambda_of (FuncId 53) = None" "named_lambda_of (FuncId 54) = None" "named_lambda_of (FuncId 204) = None"
  by (simp_all add: named_lambda_of_def checked_sub_def NAMED_LAMBDA_BASE_def)

lemma not_rewritten [simp]:
  "\<not> rewritten (FuncId 30)" "\<not> rewritten (FuncId 50)" "\<not> rewritten (FuncId 52)" "\<not> rewritten (FuncId 53)"
  "\<not> rewritten (FuncId 54)" "\<not> rewritten (FuncId 204)"
  by (simp_all add: rewritten_def)

lemma called_if_call [simp]:
  "called (if_call c a b) = called c \<union> called a \<union> (case b of None \<Rightarrow> {} | Some e \<Rightarrow> called e)"
  by (auto simp: if_call_def call_expr_def lazy_IF_def split: option.splits)

lemma weight_if_call [simp]:
  "weight (if_call c a b) = 1 + weight c + weight a + (case b of None \<Rightarrow> 0 | Some e \<Rightarrow> weight e)"
  by (auto simp: if_call_def call_expr_def lazy_IF_def split: option.splits)

lemma call_expr_bounds [simp]:
  "\<not> rewritten (FuncId k) \<Longrightarrow> weight (call_expr k as) = 1 + sum_list (map weight as)"
  "named_lambda_of (FuncId k) = None \<Longrightarrow> called (call_expr k as) = (\<Union>a \<in> set as. called a)"
  by (simp_all add: call_expr_def)

lemma if_pairs_bounds:
  assumes "if_pairs test args acc = Inr e" "\<And>x. weight (test x) \<le> k + weight x"
    and "\<And>x. called (test x) \<subseteq> C \<union> called x"
  shows "weight e \<le> length args * (1 + k) + sum_list (map weight args) + weight acc \<and>
    called e \<subseteq> C \<union> called acc \<union> (\<Union>x \<in> set args. called x)"
  using assms
proof (induction test args acc arbitrary: e rule: if_pairs.induct)
  case (3 test t v rest acc)
  then obtain e' where e': "if_pairs test rest acc = Inr e'" "e = if_call (test t) v (Some e')"
    by (auto simp: rmap_Inr_iff)
  from "3.IH" [OF e'(1) "3.prems"(2,3)]
  have "weight e' \<le> length rest * (1 + k) + sum_list (map weight rest) + weight acc"
    "called e' \<subseteq> C \<union> called acc \<union> (\<Union>x \<in> set rest. called x)" by auto
  moreover have "weight (test t) \<le> k + weight t" "called (test t) \<subseteq> C \<union> called t"
    using "3.prems"(2,3) by simp_all
  ultimately show ?case unfolding e'(2) by auto
qed auto

lemma choose_chain_bounds:
  "weight (choose_chain idx k vs) = length vs * (3 + weight idx) + sum_list (map weight vs) + 2 \<and>
   called (choose_chain idx k vs) \<subseteq> called idx \<union> (\<Union>x \<in> set vs. called x)"
  by (induction vs arbitrary: k) (auto simp: value_error_call_def)

lemma clear_form_bounds:
  "weight (clear_form t v alt) \<le> 2 + weight t + weight v + (case alt of None \<Rightarrow> 0 | Some a \<Rightarrow> weight a)"
  "called (clear_form t v alt) \<subseteq> called t \<union> called v \<union> (case alt of None \<Rightarrow> {} | Some a \<Rightarrow> called a)"
  by (auto simp: clear_form_def split: option.splits)

text \<open>An expression no heavier than twice the arguments and the levels it adds is smaller.\<close>

lemma smaller_desugared:
  assumes "rewritten f" "weight e \<le> (length args + 1) * (9 + sum_list (map weight args)) + 9"
    and "called e \<subseteq> (\<Union>x \<in> set args. called x)"
  shows "smaller e (Call f args)"
proof -
  let ?W = "sum_list (map weight args)"
  have "(length args + 1) * (9 + ?W) + 9 < (length args + 2) * (10 + ?W)" by (simp add: algebra_simps)
  with assms show ?thesis by (fastforce simp: smaller_def)
qed

lemmas desugar_simps = desugar_lazy_def lazy_ids Let_def

lemma arg_at_0: "arg_at args 0 = Inr v \<longleftrightarrow> (\<exists>as. args = v # as)"
  by (cases args) (auto simp: arg_at_def nth_arg_def)

lemma arg_at_1: "arg_at args (Suc 0) = Inr v \<longleftrightarrow> (\<exists>u as. args = u # v # as)"
  by (cases args; cases "tl args") (auto simp: arg_at_def nth_arg_def)

lemma nth_arg_1 [simp]: "nth_arg [x] (Suc 0) = None" "nth_arg (x # y # zs) (Suc 0) = Some y"
  by (simp_all add: nth_arg_def)

lemma smaller_IFS:
  assumes "if_pairs (\<lambda>t. t) args na = Inr e" "rewritten f"
  shows "smaller e (Call f args)"
proof -
  have "length args * 1 \<le> length args * (9 + sum_list (map weight args))" by (rule mult_le_mono2) simp
  moreover have "weight e \<le> length args + sum_list (map weight args) + 1"
    and c: "called e \<subseteq> (\<Union>x \<in> set args. called x)"
    using if_pairs_bounds [OF assms(1), of 0 "{}"] by (auto simp: na_def)
  ultimately have "weight e \<le> (length args + 1) * (9 + sum_list (map weight args)) + 9"
    by (simp only: distrib_right distrib_left)
  then show ?thesis using c by (rule smaller_desugared [OF assms(2)])
qed

lemma smaller_SWITCH:
  assumes "if_pairs (\<lambda>t. BinaryOp Eq h t) pairs acc = Inr e" "rewritten f" "length pairs \<le> length rest"
    and "sum_list (map weight pairs) + weight acc \<le> sum_list (map weight rest) + 1"
    and "(\<Union>x \<in> set pairs. called x) \<union> called acc \<subseteq> (\<Union>x \<in> set rest. called x)"
  shows "smaller e (Call f (h # rest))"
proof -
  have e: "weight e \<le> length pairs * (2 + weight h) + sum_list (map weight pairs) + weight acc"
    "called e \<subseteq> (\<Union>x \<in> set (h # rest). called x)"
    using if_pairs_bounds [OF assms(1), of "1 + weight h" "called h"] assms(5) by fastforce+
  have "length pairs * (2 + weight h) \<le> length rest * (2 + weight h)" using assms(3) by (rule mult_le_mono1)
  then have "weight e \<le> length rest * (2 + weight h) + sum_list (map weight rest) + 1"
    using e(1) assms(4) by linarith
  then show ?thesis using e(2) by (intro smaller_desugared [OF assms(2)]) (simp_all add: algebra_simps)
qed

lemma smaller_CHOOSE:
  "rewritten f \<Longrightarrow> smaller (choose_chain (call_expr 204 [h]) 0 vals) (Call f (h # vals))"
  using choose_chain_bounds [of "call_expr 204 [h]" 0 vals]
  by (intro smaller_desugared) (auto simp: algebra_simps)

lemma smaller_CLEAR:
  assumes "rewritten f" "weight t \<le> 3 + weight v" "called t \<subseteq> called v"
  shows "smaller (clear_form t v (nth_arg (v # as) 1)) (Call f (v # as))"
proof (rule smaller_desugared [OF assms(1)])
  show "weight (clear_form t v (nth_arg (v # as) 1)) \<le>
      (length (v # as) + 1) * (9 + sum_list (map weight (v # as))) + 9"
    using clear_form_bounds(1) [of t v "nth_arg (v # as) 1"] assms(2) by (cases as) auto
  show "called (clear_form t v (nth_arg (v # as) 1)) \<subseteq> (\<Union>x \<in> set (v # as). called x)"
    using clear_form_bounds(2) [of t v "nth_arg (v # as) 1"] assms(3) by (cases as) auto
qed

lemma desugar_smaller:
  assumes d: "desugar_lazy f args = Inr e"
  shows "smaller e (Call f args)"
proof -
  have r: "rewritten f"
    using d by (auto simp: desugar_simps rewritten_def split: if_splits)
  then consider "raw_func f = 31" | "raw_func f = 32" | "raw_func f = 33" | "raw_func f = 34"
    | "raw_func f = 35" | "raw_func f = 36" | "raw_func f = 37"
    by (auto simp: rewritten_def)
  then show ?thesis
  proof cases
    case 1
    with d have "if_pairs (\<lambda>t. t) args na = Inr e" by (simp add: desugar_simps split: if_splits)
    then show ?thesis using r by (rule smaller_IFS)
  next
    case 2
    with d obtain h rest where args: "args = h # rest" by (auto simp: desugar_simps split: list.splits)
    show ?thesis
    proof (cases "odd (length rest)")
      case True
      with d 2 have "if_pairs (\<lambda>t. BinaryOp Eq h t) (butlast rest) (last rest) = Inr e"
        by (simp add: desugar_simps args)
      moreover obtain r0 l where "rest = r0 @ [l]" using True by (cases rest rule: rev_cases) auto
      ultimately show ?thesis unfolding args by (elim smaller_SWITCH [OF _ r]) auto
    next
      case False
      with d 2 have "if_pairs (\<lambda>t. BinaryOp Eq h t) rest na = Inr e" by (simp add: desugar_simps args)
      then show ?thesis unfolding args by (elim smaller_SWITCH [OF _ r]) (auto simp: na_def)
    qed
  next
    case 3
    with d obtain h vals where "args = h # vals" "e = choose_chain (call_expr 204 [h]) 0 vals"
      by (auto simp: desugar_simps split: list.splits)
    then show ?thesis using smaller_CHOOSE [OF r] by simp
  next
    case 4
    with d obtain v a as where "args = v # a # as" "e = if_call (call_expr 50 [v]) a (Some v)"
      by (auto simp: desugar_simps rbind_Inr_iff arg_at_0 arg_at_1)
    then show ?thesis by (intro smaller_desugared [OF r]) (auto simp: algebra_simps)
  next
    case 5
    with d obtain v a as where "args = v # a # as" "e = if_call (call_expr 52 [v]) a (Some v)"
      by (auto simp: desugar_simps rbind_Inr_iff arg_at_0 arg_at_1)
    then show ?thesis by (intro smaller_desugared [OF r]) (auto simp: algebra_simps)
  next
    case 6
    with d obtain v as where args: "args = v # as" and e: "e = clear_form (call_expr 50 [v]) v (nth_arg (v # as) 1)"
      by (auto simp: desugar_simps rmap_Inr_iff arg_at_0)
    show ?thesis unfolding args e by (rule smaller_CLEAR [OF r]) simp_all
  next
    case 7
    with d obtain v as where args: "args = v # as"
      and e: "e = clear_form (BinaryOp Eq v (Literal (Number 0))) v (nth_arg (v # as) 1)"
      by (auto simp: desugar_simps rmap_Inr_iff arg_at_0)
    show ?thesis unfolding args e by (rule smaller_CLEAR [OF r]) simp_all
  qed
qed

section \<open>What the helpers ask of the recursion\<close>

text \<open>
  Two inferrers that agree on the smaller expressions give the same result: the congruence rules
  from which the recursive calls of \<open>infer\<close> are read off.
\<close>

definition agree :: "inferrer \<Rightarrow> inferrer \<Rightarrow> expr \<Rightarrow> bool" where
  "agree s s' e \<longleftrightarrow> (\<forall>c t x. smaller x e \<longrightarrow> s c t x = s' c t x)"

lemma agreeD: "agree s s' e \<Longrightarrow> smaller x e \<Longrightarrow> s c t x = s' c t x"
  by (simp add: agree_def)

lemma agree_arg: "agree s s' (Call f args) \<Longrightarrow> x \<in> set args \<Longrightarrow> s c t x = s' c t x"
  by (blast intro: agreeD smaller_arg)

lemma traverse_agree: "agree s s' (Call f args) \<Longrightarrow> rtraverse (s c t) args = rtraverse (s' c t) args"
  by (rule rtraverse_cong) (auto intro: agree_arg)

lemma arg_at_agree: "agree s s' (Call f args) \<Longrightarrow> rbind (arg_at args i) (s c t) = rbind (arg_at args i) (s' c t)"
  by (rule rbind_cong) (auto intro: agree_arg arg_at_set)

lemma by_id_fid: "by_id f = Some d \<Longrightarrow> fid d = f"
  by (auto simp: by_id_def find_Some_iff)

lemma infer_if_agree: "agree s s' (Call f args) \<Longrightarrow> infer_if s c t args = infer_if s' c t args"
  unfolding infer_if_def by (simp add: traverse_agree)

lemma infer_coalesce_agree: "agree s s' (Call f args) \<Longrightarrow> infer_coalesce s c t d args = infer_coalesce s' c t d args"
  unfolding infer_coalesce_def by (simp add: traverse_agree)

lemma infer_lazy_agree:
  "agree s s' (Call (fid d) args) \<Longrightarrow> infer_lazy s c t d args = infer_lazy s' c t d args"
  by (auto simp: infer_lazy_def infer_if_agree infer_coalesce_agree intro!: rbind_cong
      intro: agreeD desugar_smaller)

lemma infer_shift_agree:
  assumes "agree s s' (Call f args)"
  shows "infer_shift s c t d args = infer_shift s' c t d args"
proof -
  have "(case nth_arg args 3 of None \<Rightarrow> Inr None | Some e \<Rightarrow> rbind (s c t e) g) =
        (case nth_arg args 3 of None \<Rightarrow> Inr None | Some e \<Rightarrow> rbind (s' c t e) g)"
    for g :: "typed_expr \<Rightarrow> (compile_error, typed_expr option) res"
    by (auto split: option.split simp: agree_arg [OF assms nth_arg_set])
  then show ?thesis unfolding infer_shift_def by (simp only: arg_at_agree [OF assms])
qed

lemma infer_remap_agree:
  assumes "agree s s' (Call f args)"
  shows "infer_remap s c t d args = infer_remap s' c t d args"
  unfolding infer_remap_def by (simp only: arg_at_agree [OF assms])

lemma infer_dimensional_agree:
  assumes "agree s s' (Call f args)"
  shows "infer_dimensional s c t d args = infer_dimensional s' c t d args"
  unfolding infer_dimensional_def by (simp only: infer_shift_agree [OF assms] infer_remap_agree [OF assms])

lemma agg_clause_agree:
  assumes "agree s s' a"
  shows "agg_clause s c t a cl = agg_clause s' c t a cl"
  using assms by (cases a) (auto simp: agg_clause_def arg_at_agree)

lemma agg_clauses_agree:
  "(\<And>a. a \<in> set args \<Longrightarrow> agree s s' a) \<Longrightarrow> agg_clauses s c t args cl = agg_clauses s' c t args cl"
proof (induction args arbitrary: cl)
  case (Cons a as)
  then have "agg_clauses s c t as = agg_clauses s' c t as" by (intro ext) simp
  with Cons.prems agg_clause_agree [of s s' a c t cl] show ?case by simp
qed simp

lemma agg_clause_rest:
  "agg_clause s c t a cl = Inr cl' \<Longrightarrow> cl_rest cl' = cl_rest cl \<or> cl_rest cl' = cl_rest cl @ [a]"
  by (cases a) (auto simp: agg_clause_def rbind_Inr_iff rmap_Inr_iff split: if_splits)

lemma agg_clauses_rest:
  "agg_clauses s c t args cl = Inr cl' \<Longrightarrow> set (cl_rest cl') \<subseteq> set (cl_rest cl) \<union> set args"
proof (induction args arbitrary: cl)
  case (Cons a as)
  then obtain cl1 where "agg_clause s c t a cl = Inr cl1" "agg_clauses s c t as cl1 = Inr cl'"
    by (auto simp: rbind_Inr_iff)
  with Cons.IH agg_clause_rest show ?case by fastforce
qed simp

lemma agg_args_agree:
  "(\<And>a. a \<in> set args \<Longrightarrow> s c t a = s' c t a) \<Longrightarrow> agg_args s c t d l i args = agg_args s' c t d l i args"
  by (induction args arbitrary: i) (simp_all add: agg_arg_def)

lemma infer_aggregate_cong [fundef_cong]:
  assumes "\<And>c t x. smaller x (Call f args) \<Longrightarrow> s c t x = s' c t x"
  shows "infer_aggregate s ctx target f args = infer_aggregate s' ctx target f args"
proof -
  have a: "agree s s' (Call f args)" using assms by (simp add: agree_def)
  have cl: "agg_clauses s ctx target args no_clauses = agg_clauses s' ctx target args no_clauses"
    by (rule agg_clauses_agree) (use assms smaller_trans smaller_arg in \<open>unfold agree_def, blast\<close>)
  show ?thesis
    unfolding infer_aggregate_def cl
  proof (intro rbind_cong refl)
    fix d cl
    assume "agg_clauses s' ctx target args no_clauses = Inr cl"
    from agg_clauses_rest [OF this] have "set (cl_rest cl) \<subseteq> set args" by (simp add: no_clauses_def)
    then have "agg_args s ctx target d l 0 (cl_rest cl) = agg_args s' ctx target d l 0 (cl_rest cl)" for l
      by (intro agg_args_agree agree_arg [OF a]) auto
    then show "(let rest = cl_rest cl in
        if \<not> accepts d (length rest)
        then Inl (Unsupported (fname d @ '' expects '' @ signature d @ '', got '' @ dec (length rest) @ '' argument(s)''))
        else rbind (agg_args s ctx target d (leading_of d rest) 0 rest) (\<lambda>(ins, ps). agg_result ctx d f cl ins ps)) =
      (let rest = cl_rest cl in
        if \<not> accepts d (length rest)
        then Inl (Unsupported (fname d @ '' expects '' @ signature d @ '', got '' @ dec (length rest) @ '' argument(s)''))
        else rbind (agg_args s' ctx target d (leading_of d rest) 0 rest) (\<lambda>(ins, ps). agg_result ctx d f cl ins ps))"
      by (simp add: Let_def)
  qed
qed

lemma fold_parts_smaller:
  assumes "fold_parts args = Inr (init, xid, k, body)"
  shows "smaller init (Call f args)" "smaller (rename_ref a b body) (Call f args)"
proof -
  have "init \<in> set args" "body \<in> set args"
    using assms by (auto simp: fold_parts_def split: list.splits expr.splits)
  then show "smaller init (Call f args)" "smaller (rename_ref a b body) (Call f args)"
    using smaller_arg [of init args f] smaller_arg [of body args f] by (simp_all add: smaller_def)
qed

lemma compile_fold_agree:
  assumes "agree s s' (Call f args)"
  shows "compile_fold s ctx l args = compile_fold s' ctx l args"
  unfolding compile_fold_def
  by (intro rbind_cong refl)
    (auto simp: Let_def agreeD [OF assms] fold_parts_smaller intro!: rbind_cong)

lemma infer_call_cong [fundef_cong]:
  assumes "\<And>c t x. smaller x (Call f args) \<Longrightarrow> s c t x = s' c t x"
  shows "infer_call s ctx target f args = infer_call s' ctx target f args"
proof -
  have a: "agree s s' (Call f args)" using assms by (simp add: agree_def)
  have l: "infer_lazy s ctx target d args = infer_lazy s' ctx target d args" if "by_id f = Some d" for d
    using infer_lazy_agree a by_id_fid [OF that] by metis
  show ?thesis
    unfolding infer_call_def compile_fold_agree [OF a] infer_dimensional_agree [OF a] traverse_agree [OF a]
    by (intro rbind_cong refl) (auto simp: Let_def l intro!: rbind_cong split: option.splits)
qed

section \<open>Inference\<close>

function infer :: "ctx \<Rightarrow> measure_id \<Rightarrow> expr \<Rightarrow> (compile_error, typed_expr) res" where
  "infer ctx target (Literal v) = infer_literal v"
| "infer ctx target (Ref i s) = infer_bare_ref ctx i s"
| "infer ctx target (Category c) = Inl (category_error ctx c)"
| "infer ctx target (UnaryOp op e) = rbind (infer ctx target e) (infer_unary op)"
| "infer ctx target (BinaryOp op l r) =
     rbind (infer ctx target l) (\<lambda>lt. rbind (infer ctx target r) (infer_binary ctx op l r lt))"
| "infer ctx target (Call f args) =
     (if named_lambda_of f \<noteq> None then
        rbind (ok_or (UnknownFunction f) (cx_lambdas ctx)) (\<lambda>m.
        rbind (map_err Unsupported (expand_lambdas (Call f args) m)) (infer ctx target))
      else if is_aggregation f then infer_aggregate infer ctx target f args
      else infer_call infer ctx target f args)"
  by pat_completeness auto
termination
proof (relation "measures [\<lambda>(c, t, e). if called e = {} then 0 else 1, \<lambda>(c, t, e). weight e]", goal_cases)
  case (5 ctx target f args m e)
  then have "called e = {}" by (auto simp: expand_lambdas_def rbind_Inr_iff expand_at_called)
  moreover have "called (Call f args) \<noteq> {}" using 5 by auto
  ultimately show ?case by (simp del: called.simps weight.simps)
qed (auto simp: smaller_def)

end
