(* ===== verification/Compile.thy ===== *)
theory Compile
  imports Infer
begin

text \<open>
  \<open>crates/engine/src/compiler.rs\<close>: a formula that reads its own measure through \<open>PREV\<close> becomes a
  recurrence (\<open>compile_recurrence\<close>), any other is typed and lowered (\<open>compile_formula\<close>), and the
  shape of a new derived measure follows from its formula (\<open>derived_shape\<close>). A \<open>FIXPOINT\<close> formula
  needs the scalar evaluator, which is not modelled: \<open>fixpoint\<close> stands for \<open>compile_fixpoint\<close>.
\<close>

section \<open>Recurrences\<close>

definition SLOT_BASE :: u32 where "SLOT_BASE = 4294967295 - 1024"

type_synonym slot = "measure_id \<times> int \<times> expr option"

text \<open>The placeholders so far, and the category every \<open>PREV\<close> runs along.\<close>

type_synonym slots = "slot list \<times> category_id option"

definition slot_id :: "nat \<Rightarrow> measure_id" where
  "slot_id k = MeasureId (SLOT_BASE + of_nat k)"

definition self_error :: "string \<Rightarrow> string \<Rightarrow> compile_error" where
  "self_error n why =
     Unsupported (n @ '' refers to itself; '' @ why @ '' (write PREV('' @ n @ '', Category, n, default))'')"

text \<open>The third argument of a self-\<open>PREV\<close>: a whole number, at least 1.\<close>

definition back_offset :: "(string \<Rightarrow> compile_error) \<Rightarrow> expr option \<Rightarrow> (compile_error, int) res" where
  "back_offset bad arg =
     (let err = Inl (bad (''PREV of itself needs a whole number of items '' @ [CHR 0xE2, CHR 0x89, CHR 0xA5] @
                      '' 1''))
      in case arg of
           None \<Rightarrow> Inr 1
         | Some (Literal (Number n)) \<Rightarrow>
             (case f64_whole n of Some z \<Rightarrow> if 1 \<le> z then Inr (sat_i64 z) else err | None \<Rightarrow> err)
         | Some _ \<Rightarrow> err)"

definition self_prev ::
  "measure_id \<Rightarrow> (string \<Rightarrow> compile_error) \<Rightarrow> expr list \<Rightarrow> slots \<Rightarrow> (compile_error, expr \<times> slots) res" where
  "self_prev target bad args st =
     (case nth_arg args 1 of
        Some (Category c) \<Rightarrow>
          if (case snd st of Some x \<Rightarrow> x \<noteq> c | None \<Rightarrow> False)
          then Inl (bad ''every PREV of it must run along the same category'')
          else rbind (back_offset bad (nth_arg args 2)) (\<lambda>n.
            let dflt = nth_arg args 3 in
            if (case dflt of Some d \<Rightarrow> target \<in> set (referenced_measures d) | None \<Rightarrow> False)
            then Inl (bad ''the default must not refer to it'')
            else let i = slot_id (length (fst st)) in
                 Inr (Ref i default_spec, fst st @ [(i, n, dflt)], Some c))
      | _ \<Rightarrow> Inl (bad ''PREV needs a category''))"

definition is_self_prev :: "measure_id \<Rightarrow> func_id \<Rightarrow> expr list \<Rightarrow> bool" where
  "is_self_prev target f args \<longleftrightarrow>
     raw_func f = dim_PREV \<and> (case args of Ref r _ # _ \<Rightarrow> r = target | _ \<Rightarrow> False)"

fun rewrite_self :: "measure_id \<Rightarrow> (string \<Rightarrow> compile_error) \<Rightarrow> expr \<Rightarrow> slots \<Rightarrow> (compile_error, expr \<times> slots) res"
  and rewrite_all ::
    "measure_id \<Rightarrow> (string \<Rightarrow> compile_error) \<Rightarrow> expr list \<Rightarrow> slots \<Rightarrow> (compile_error, expr list \<times> slots) res"
where
  "rewrite_self target bad (Call f args) st =
     (if is_self_prev target f args then self_prev target bad args st
      else rmap (\<lambda>(as, st'). (Call f as, st')) (rewrite_all target bad args st))"
| "rewrite_self target bad (Ref r s) st =
     (if r = target then Inl (bad ''only PREV may read its earlier values'') else Inr (Ref r s, st))"
| "rewrite_self target bad (UnaryOp u a) st =
     rmap (\<lambda>(a', st'). (UnaryOp u a', st')) (rewrite_self target bad a st)"
| "rewrite_self target bad (BinaryOp b x y) st =
     rbind (rewrite_self target bad x st) (\<lambda>(x', st').
     rmap (\<lambda>(y', st''). (BinaryOp b x' y', st'')) (rewrite_self target bad y st'))"
| "rewrite_self target bad (Literal v) st = Inr (Literal v, st)"
| "rewrite_self target bad (Category c) st = Inr (Category c, st)"
| "rewrite_all target bad [] st = Inr ([], st)"
| "rewrite_all target bad (a # as) st =
     rbind (rewrite_self target bad a st) (\<lambda>(a', st').
     rmap (\<lambda>(as', st''). (a' # as', st'')) (rewrite_all target bad as st'))"

definition slot_defaults :: "slot list \<Rightarrow> expr list" where
  "slot_defaults ss = List.map_filter (\<lambda>(_, _, d). d) ss"

definition slots_ctx :: "ctx \<Rightarrow> measure \<Rightarrow> slot list \<Rightarrow> ctx" where
  "slots_ctx ctx m ss = fold (\<lambda>(i, _) c. with_measure c i (m\<lparr>m_id := i\<rparr>)) ss ctx"

text \<open>The body is scalar, the defaults too, and the body has the measure's type.\<close>

definition recurrence_checks ::
  "ctx \<Rightarrow> measure_id \<Rightarrow> measure \<Rightarrow> (string \<Rightarrow> compile_error) \<Rightarrow> expr \<Rightarrow> slot list \<Rightarrow> (compile_error, unit) res" where
  "recurrence_checks ctx target m bad body ss =
     rbind (map_err (\<lambda>e. bad (''the rest must be scalar: '' @ scalar_error_text e)) (scalar_check body)) (\<lambda>_.
     rbind (map_err (\<lambda>e. bad (''the default must be scalar: '' @ scalar_error_text e))
              (rfor_each scalar_check (slot_defaults ss))) (\<lambda>_.
     rbind (infer (slots_ctx ctx m ss) target body) (\<lambda>typed.
       if vt typed \<noteq> m_type m
       then Inl (TypeMismatch (m_name m @ '' is '' @ vt_text (m_type m) @ '' but its formula yields '' @
              vt_text (vt typed)))
       else Inr ())))"

definition recurrence_reads :: "expr \<Rightarrow> slot list \<Rightarrow> measure_id list" where
  "recurrence_reads body ss =
     sort_dedup (filter (\<lambda>i. raw_measure i < SLOT_BASE)
       (referenced_measures body @ concat (map referenced_measures (slot_defaults ss))))"

definition compile_recurrence :: "ctx \<Rightarrow> measure_id \<Rightarrow> expr \<Rightarrow> (compile_error, plan_node) res" where
  "compile_recurrence ctx target e =
     rbind (ok_or (UnknownMeasure target) (hget (cx_measures ctx) target)) (\<lambda>m.
     let bad = self_error (m_name m); own = dim_of (m_cats m) in
     rbind (rewrite_self target bad e ([], None)) (\<lambda>(body, ss, cat).
     rbind (ok_or (bad ''only PREV may read its earlier values'') cat) (\<lambda>c.
     if c \<notin> set (m_cats m) then Inl (bad ''PREV must run along one of its own categories'')
     else
       rbind (recurrence_checks ctx target m bad body ss) (\<lambda>_.
       rbind (rtraverse (slot_ref ctx (bad ''it may only read measures within its own categories'') own)
                (recurrence_reads body ss)) (\<lambda>reads.
         let dm = foldl (\<lambda>d (r, _). dim_union d r) scalar_dim reads in
         if dm \<noteq> own
         then Inl (bad ''the measures it reads must together range over all of its categories'')
         else Inr (PlanNode (Recurrence body (map snd reads) ss c (items_of ctx c))
                     \<lparr>ty_value = m_type m, ty_dim = dm\<rparr>))))))"

section \<open>Formulas\<close>

definition top_fixpoint :: "expr \<Rightarrow> expr list option" where
  "top_fixpoint e = (case e of Call f args \<Rightarrow> if raw_func f = dim_FIXPOINT then Some args else None | _ \<Rightarrow> None)"

type_synonym fixpoint_compiler = "ctx \<Rightarrow> measure_id \<Rightarrow> expr list \<Rightarrow> (compile_error, plan_node) res"

definition compile_formula ::
  "fixpoint_compiler \<Rightarrow> ctx \<Rightarrow> measure_id \<Rightarrow> formula \<Rightarrow> (compile_error, plan_node) res" where
  "compile_formula fixpoint ctx target fm =
     (case top_fixpoint (fexpr fm) of
        Some args \<Rightarrow> fixpoint ctx target args
      | None \<Rightarrow>
          if target \<in> set (formula_refs fm) then compile_recurrence ctx target (fexpr fm)
          else rbind (infer ctx target (fexpr fm)) (build_plan ctx))"

text \<open>The value types a self-reading measure is tried at, its current one first.\<close>

definition shape_types :: "model \<Rightarrow> measure_id \<Rightarrow> value_type list" where
  "shape_types m target =
     (case hget (measure_map m) target of Some x \<Rightarrow> [m_type x] | None \<Rightarrow> []) @
     [TNumber, TText, TBoolean, TDateTime]"

definition provisional_measure ::
  "measure_id \<Rightarrow> string \<Rightarrow> value_type \<Rightarrow> category_id list \<Rightarrow> formula \<Rightarrow> measure" where
  "provisional_measure target n v cats fm =
     \<lparr>m_id = target, m_name = n, m_type = v, m_cats = cats, m_kind = Derived fm, m_desc = None, m_format = None\<rparr>"

fun shape_loop ::
  "model \<Rightarrow> measure_id \<Rightarrow> string \<Rightarrow> formula \<Rightarrow> category_id list \<Rightarrow> value_type list \<Rightarrow>
   (compile_error, value_type \<times> category_id list) res" where
  "shape_loop m target n fm cats [] = Inl (TypeMismatch (n @ [CHR 0x27] @ ''s formula has no consistent type''))"
| "shape_loop m target n fm cats (v # vs) =
     (let m' = m\<lparr>measure_map := hinsert target (provisional_measure target n v cats fm) (measure_map m)\<rparr>
      in case compile_recurrence (ctx_for_model m') target (fexpr fm) of
           Inr _ \<Rightarrow> Inr (v, cats)
         | Inl (TypeMismatch _) \<Rightarrow> shape_loop m' target n fm cats vs
         | Inl e \<Rightarrow> Inl e)"

definition derived_shape ::
  "fixpoint_compiler \<Rightarrow> model \<Rightarrow> measure_id \<Rightarrow> string \<Rightarrow> formula \<Rightarrow>
   (compile_error, value_type \<times> category_id list) res" where
  "derived_shape fixpoint m target n fm =
     (let ctx = ctx_for_model m in
      case top_fixpoint (fexpr fm) of
        Some args \<Rightarrow> rmap (\<lambda>p. (ty_value (plan_ty p), dim_cats (ty_dim (plan_ty p)))) (fixpoint ctx target args)
      | None \<Rightarrow>
          if target \<notin> set (formula_refs fm)
          then rmap (\<lambda>t. (vt t, dim_cats (tdim t))) (infer ctx target (fexpr fm))
          else
            let cats = concat (map (\<lambda>r. case hget (measure_map m) r of
                                          Some x \<Rightarrow> if r \<noteq> target then m_cats x else []
                                        | None \<Rightarrow> []) (formula_refs fm))
            in shape_loop m target n fm (dim_cats (dim_of cats)) (shape_types m target))"

end
