(* ===== verification/Infer_Facts.thy ===== *)
theory Infer_Facts
  imports Compile Fn_Facts
begin

text \<open>
  What the first pass guarantees: its typed expressions are well formed, so the second pass gives
  them a plan of their type and a formula that types compiles; it never panics on a formula whose
  clauses have their arguments; and the dimensions it infers come from what the formula reads.
\<close>

section \<open>Well formed results\<close>

text \<open>The rows the compiler treats specially.\<close>

lemma core_member: "d \<in> set CORE \<Longrightarrow> d \<in> set all_fns"
  by (simp add: all_fns_def FAMILIES_def)

lemma dimensional_member: "d \<in> set DIMENSIONAL \<Longrightarrow> d \<in> set all_fns"
  by (simp add: all_fns_def FAMILIES_def)

lemma fn_row_fid [simp]: "fid (fn_row i n k c ps req var r) = FuncId i" "fid (fn_s i n c ps v) = FuncId i"
  by (simp_all add: fn_row_def fn_s_def)

lemma core_rows:
  "fn_row 30 ''IF'' Lazy CLogical [ABoolean, AAny, AAny] 2 False RUnify \<in> set CORE"
  "fn_row 31 ''IFS'' Lazy CLogical [ABoolean, AAny] 2 True RUnify \<in> set CORE"
  "fn_row 32 ''SWITCH'' Lazy CLogical [AAny, AAny, AAny] 3 True RUnify \<in> set CORE"
  "fn_row 33 ''CHOOSE'' Lazy CLogical [ANumber, AAny] 2 True RUnify \<in> set CORE"
  "fn_row 34 ''IFERROR'' Lazy CLogical [AAny, AAny] 2 False RUnify \<in> set CORE"
  "fn_row 35 ''IFNA'' Lazy CLogical [AAny, AAny] 2 False RUnify \<in> set CORE"
  "fn_row 36 ''CLEARERROR'' Lazy CLogical [AAny, AAny] 1 False RUnify \<in> set CORE"
  "fn_row 37 ''CLEARZERO'' Lazy CLogical [ANumber, ANumber] 1 False (RFixed TNumber) \<in> set CORE"
  "fn_row 41 ''COALESCE'' Lazy CLogical [AAny, AAny] 2 True RUnify \<in> set CORE"
  unfolding CORE_def by (simp_all only: list.set insert_iff simp_thms)

lemma dimensional_rows:
  "fn_s 900 ''POSITION'' CDimensional [ACategory] TNumber \<in> set DIMENSIONAL"
  "fn_s 901 ''@ITEM'' CDimensional [ACategory] TText \<in> set DIMENSIONAL"
  "fn_s 902 ''@ID'' CDimensional [ACategory] TText \<in> set DIMENSIONAL"
  "fn_s 903 ''@ITEMCOUNT'' CDimensional [ACategory] TNumber \<in> set DIMENSIONAL"
  "fn_row 904 ''PREV'' Lazy CDimensional [AAny, ACategory, ANumber, AAny] 2 False RUnify \<in> set DIMENSIONAL"
  "fn_row 905 ''NEXT'' Lazy CDimensional [AAny, ACategory, ANumber, AAny] 2 False RUnify \<in> set DIMENSIONAL"
  "fn_row 920 ''RELABEL'' Lazy CDimensional [AAny, ACategory, ACategory] 3 False RUnify \<in> set DIMENSIONAL"
  "fn_row 921 ''SWAP'' Lazy CDimensional [AAny, ACategory, ACategory] 3 False RUnify \<in> set DIMENSIONAL"
  "fn_row 919 ''FILL'' Lazy CDimensional [AAny, AAny] 2 False RUnify \<in> set DIMENSIONAL"
  unfolding DIMENSIONAL_def by (simp_all only: list.set insert_iff simp_thms)

lemmas row_lookups =
  core_rows [THEN core_member, THEN by_id_of, unfolded fn_row_fid]
  dimensional_rows [THEN dimensional_member, THEN by_id_of, unfolded fn_row_fid]

lemma if_row [simp]: "is_aggregation (FuncId 30) = False" "map_option fkind (by_id (FuncId 30)) = Some Lazy"
  by (simp_all add: is_aggregation_def row_lookups fn_row_def)

lemma union_dims_canonical: "union_dims ctx what acc ds = Inr d \<Longrightarrow> canonical_dim acc \<Longrightarrow> canonical_dim d"
  by (induction ctx what acc ds rule: union_dims.induct) (auto split: if_splits)

lemma union_dim_canonical: "union_dim ctx what ds = Inr d \<Longrightarrow> canonical_dim d"
  by (auto simp: union_dim_def intro: union_dims_canonical)

lemma infer_ref_ok: "infer_ref ctx i s = Inr t \<Longrightarrow> typed_ok t"
  by (auto simp: infer_ref_def Let_def rbind_Inr_iff)

lemma infer_bare_ref_ok: "infer_bare_ref ctx i s = Inr t \<Longrightarrow> typed_ok t"
  by (auto simp: infer_bare_ref_def Let_def rbind_Inr_iff intro: infer_ref_ok split: option.splits)

lemma infer_literal_ok: "infer_literal v = Inr t \<Longrightarrow> typed_ok t"
  by (auto simp: infer_literal_def rmap_Inr_iff)

lemma infer_unary_ok: "infer_unary op i = Inr t \<Longrightarrow> typed_ok i \<Longrightarrow> typed_ok t"
  by (auto simp: infer_unary_def Let_def typed_ok_canonical split: if_splits)

lemma binop_dim_canonical:
  "binop_dim ctx l r lt rt = Inr d \<Longrightarrow> typed_ok lt \<Longrightarrow> typed_ok rt \<Longrightarrow> canonical_dim d"
  by (auto simp: binop_dim_def typed_ok_canonical split: if_splits)

lemma infer_binary_ok: "infer_binary ctx op l r lt rt = Inr t \<Longrightarrow> typed_ok lt \<Longrightarrow> typed_ok rt \<Longrightarrow> typed_ok t"
  by (auto simp: infer_binary_def rbind_Inr_iff binop_dim_canonical)

lemma type_if_ok: "type_if ctx typed = Inr t \<Longrightarrow> list_all typed_ok typed \<Longrightarrow> typed_ok t"
  by (auto simp: type_if_def if_type_def Let_def rbind_Inr_iff lazy_IF_def list_all_iff
      dest: union_dim_canonical split: list.splits if_splits)

lemma type_coalesce_ok: "type_coalesce ctx d typed = Inr t \<Longrightarrow> list_all typed_ok typed \<Longrightarrow> typed_ok t"
  by (auto simp: type_coalesce_def Let_def rbind_Inr_iff list_all_iff dest: union_dim_canonical)

lemma type_call_ok:
  assumes "type_call ctx d f typed = Inr t" "by_id f = Some d" "fkind d \<noteq> Lazy" "\<not> is_aggregation f"
    and "list_all typed_ok typed"
  shows "typed_ok t"
proof -
  have "raw_func f \<noteq> lazy_IF"
  proof
    assume "raw_func f = lazy_IF"
    then have "f = FuncId 30" by (cases f) (simp add: lazy_IF_def)
    then show False using assms(2,3) if_row(2) by simp
  qed
  with assms show ?thesis
    by (cases "fret d") (auto simp: type_call_def rbind_Inr_iff list_all_iff dest: union_dim_canonical)
qed

text \<open>An inferrer that gives well formed results on the smaller expressions.\<close>

definition sound_below :: "inferrer \<Rightarrow> expr \<Rightarrow> bool" where
  "sound_below s e \<longleftrightarrow> (\<forall>c t x y. smaller x e \<longrightarrow> s c t x = Inr y \<longrightarrow> typed_ok y)"

lemma sound_belowD: "sound_below s e \<Longrightarrow> smaller x e \<Longrightarrow> s c t x = Inr y \<Longrightarrow> typed_ok y"
  by (auto simp: sound_below_def)

lemma sound_below_arg: "sound_below s (Call f args) \<Longrightarrow> x \<in> set args \<Longrightarrow> s c t x = Inr y \<Longrightarrow> typed_ok y"
  by (blast intro: sound_belowD smaller_arg)

lemma sound_below_args:
  "sound_below s (Call f args) \<Longrightarrow> rtraverse (s c t) args = Inr ys \<Longrightarrow> list_all typed_ok ys"
  by (auto simp: list_all_iff dest!: rtraverse_set intro: sound_below_arg)

lemma sound_below_at:
  "sound_below s (Call f args) \<Longrightarrow> rbind (arg_at args i) (s c t) = Inr y \<Longrightarrow> typed_ok y"
  by (auto simp: rbind_Inr_iff intro: sound_below_arg arg_at_set)

lemma infer_lazy_ok:
  assumes "sound_below s (Call (fid d) args)" "infer_lazy s ctx t d args = Inr y"
  shows "typed_ok y"
  using assms(2)
  by (auto simp: infer_lazy_def infer_if_def infer_coalesce_def rbind_Inr_iff split: if_splits
      dest: sound_below_args [OF assms(1)] intro: type_if_ok type_coalesce_ok
        sound_belowD [OF assms(1)] desugar_smaller)

lemma cat_arg_Inr [simp]: "cat_arg d e = Inr c \<longleftrightarrow> e = Category c"
  by (cases e) (auto simp: cat_arg_def)

text \<open>The parts of a successful shift, remap, fold and aggregation.\<close>

lemma infer_shift_Inr:
  assumes "infer_shift s ctx t d args = Inr y"
  obtains i0 i c n dflt where "i0 \<in> set args" "s ctx t i0 = Inr i" "Category c \<in> set args"
    "c \<in> set (dim_cats (tdim i))" "y = TypedExpr (TShift i c n dflt) (typed_ty i)"
    "\<And>e. dflt = Some e \<Longrightarrow> \<exists>x \<in> set args. s ctx t x = Inr e" "\<And>e. dflt = Some e \<Longrightarrow> is_subset_of (tdim e) (tdim i)"
proof -
  from assms obtain i0 i c n dflt where
    i: "arg_at args 0 = Inr i0" "s ctx t i0 = Inr i" and c: "arg_at args 1 = Inr (Category c)"
    and m: "c \<in> set (dim_cats (tdim i))"
    and y: "y = TypedExpr (TShift i c n dflt) (typed_ty i)"
    and df: "(case nth_arg args 3 of None \<Rightarrow> Inr None
                | Some e \<Rightarrow> rbind (s ctx t e) (\<lambda>u. rmap (\<lambda>_. Some u) (shift_default d i u))) = Inr dflt"
    unfolding infer_shift_def by (fastforce simp: rbind_Inr_iff split: if_split_asm)
  show thesis
  proof (rule that [OF arg_at_set [OF i(1)] i(2) arg_at_set [OF c] m y])
    fix e assume "dflt = Some e"
    with df obtain x where x: "nth_arg args 3 = Some x" "s ctx t x = Inr e" "shift_default d i e = Inr ()"
      by (auto simp: rbind_Inr_iff rmap_Inr_iff split: option.splits)
    then show "\<exists>x \<in> set args. s ctx t x = Inr e" "is_subset_of (tdim e) (tdim i)"
      by (auto simp: shift_default_def dest: nth_arg_set split: if_splits)
  qed
qed

lemma infer_remap_Inr:
  assumes "infer_remap s ctx t d args = Inr y"
  obtains i0 i a b maps where "i0 \<in> set args" "s ctx t i0 = Inr i" "Category b \<in> set args"
    "y = TypedExpr (TRemap i maps)
       \<lparr>ty_value = vt i, ty_dim = dim_of (remap_cats (raw_func (fid d) = dim_SWAP) (dim_cats (tdim i)) a b)\<rparr>"
  using assms unfolding infer_remap_def Let_def
  by (auto simp only: rbind_Inr_iff cat_arg_Inr prod.case sum.inject dest!: arg_at_set intro: that)

lemma infer_dimensional_Inr:
  assumes "infer_dimensional s ctx t d args = Inr (Some y)"
  shows "(\<exists>c vals v. Category c \<in> set args \<and> y = items_node c vals v) \<or>
    (\<exists>v. y = TypedExpr (TLiteral v) \<lparr>ty_value = TNumber, ty_dim = scalar_dim\<rparr>) \<or>
    infer_shift s ctx t d args = Inr y \<or> infer_remap s ctx t d args = Inr y"
  using assms unfolding infer_dimensional_def Let_def
  by (auto simp: rbind_Inr_iff rmap_Inr_iff split: if_splits dest!: arg_at_set)

lemma fold_plan_ty [simp]:
  "plan_ty (fold_plan ctx l init body acc k (dim_of cs) v refs) =
     \<lparr>ty_value = v, ty_dim = dim_of (if l then filter (\<lambda>c. c \<noteq> k) (dim_cats (dim_of cs)) else cs)\<rparr>"
  by (simp add: fold_plan_def Let_def)

lemma compile_fold_Inr:
  assumes "compile_fold s ctx l args = Inr p"
  obtains init xid k body m v where "fold_parts args = Inr (init, xid, k, body)"
    "hget (cx_measures ctx) xid = Some m"
    "plan_ty p = \<lparr>ty_value = v, ty_dim = dim_of (if l then filter (\<lambda>c. c \<noteq> k) (dim_cats (dim_of (m_cats m))) else m_cats m)\<rparr>"
  using assms unfolding compile_fold_def
  by (auto simp: Let_def rbind_Inr_iff rmap_Inr_iff split: if_split_asm intro: that)

lemma agg_clause_Inr:
  assumes "agg_clause s ctx t a cl = Inr cl'"
  shows "(\<forall>p. cl_pred cl' = Some p \<longrightarrow> cl_pred cl = Some p \<or>
            (\<exists>ks x. a = Call WHERE ks \<and> x \<in> set ks \<and> s ctx t x = Inr p)) \<and>
    (\<forall>c \<in> set (cl_into cl'). c \<in> set (cl_into cl) \<or> (\<exists>ks. a = Call INTO ks \<and> Category c \<in> set ks))"
proof -
  have into: "\<forall>c \<in> set cs. c \<in> set acc \<or> Category c \<in> set ks" if "into_cats acc ks = Inr cs" for acc ks cs
    using that by (induction acc ks rule: into_cats.induct) (fastforce split: expr.splits if_splits)+
  show ?thesis
    using assms by (cases a)
      (auto simp: agg_clause_def rbind_Inr_iff rmap_Inr_iff split: if_splits dest!: into arg_at_set)
qed

lemma agg_clauses_Inr:
  assumes "agg_clauses s ctx t args cl = Inr cl'"
  shows "(\<forall>p. cl_pred cl' = Some p \<longrightarrow> cl_pred cl = Some p \<or>
            (\<exists>ks x. Call WHERE ks \<in> set args \<and> x \<in> set ks \<and> s ctx t x = Inr p)) \<and>
    (\<forall>c \<in> set (cl_into cl'). c \<in> set (cl_into cl) \<or> (\<exists>ks. Call INTO ks \<in> set args \<and> Category c \<in> set ks))"
  using assms
proof (induction args arbitrary: cl)
  case (Cons a as)
  then obtain cl1 where "agg_clause s ctx t a cl = Inr cl1" "agg_clauses s ctx t as cl1 = Inr cl'"
    by (auto simp: rbind_Inr_iff)
  from agg_clause_Inr [OF this(1)] Cons.IH [OF this(2)] show ?case by fastforce
qed simp

lemma agg_args_Inr:
  assumes "agg_args s ctx t d l i args = Inr (ins, ps)"
  shows "(\<forall>y \<in> set ins. \<exists>m sp. Ref m sp \<in> set args \<and> infer_ref ctx m sp = Inr y) \<and>
    (\<forall>y \<in> set ps. \<exists>x \<in> set args. s ctx t x = Inr y)"
  using assms
proof (induction args arbitrary: i ins ps)
  case (Cons a as)
  from Cons.prems obtain u ins' ps' where
    u: "agg_arg s ctx t d i a = Inr u" and r: "agg_args s ctx t d l (i + 1) as = Inr (ins', ps')"
    and e: "(ins, ps) = (if reduced d i a then (u # ins', ps') else (ins', u # ps'))"
    by (auto simp: rbind_Inr_iff rmap_Inr_iff split: if_splits)
  have "if reduced d i a then \<exists>m sp. a = Ref m sp \<and> infer_ref ctx m sp = Inr u else s ctx t a = Inr u"
    using u by (cases a) (auto simp: agg_arg_def split: if_splits)
  then show ?case using Cons.IH [OF r] e by (fastforce split: if_splits)
qed simp

lemma agg_join_Inr:
  assumes "agg_join ctx d ov full kept ts = Inr (full', kept')"
  shows "set (dim_cats kept') \<subseteq> set (dim_cats kept) \<union> (\<Union>t \<in> set ts. set (dim_cats (tdim t)))"
  using assms
  by (induction ctx d ov full kept ts rule: agg_join.induct) (fastforce split: if_splits)+

lemma agg_params_dim_Inr:
  "agg_params_dim d ov dm ps = Inr dm' \<Longrightarrow>
   (canonical_dim dm \<longrightarrow> canonical_dim dm') \<and>
   set (dim_cats dm') = set (dim_cats dm) \<union> (\<Union>p \<in> set ps. set (dim_cats (tdim p)))"
  by (induction d ov dm ps rule: agg_params_dim.induct) (auto split: if_splits)

lemma agg_result_Inr:
  assumes "agg_result ctx d f cl ins ps = Inr y"
  obtains first others dm v where "ins = first # others" "canonical_dim dm"
    "y = TypedExpr (TAggregate f ins ps (aggregation_over ctx first) (cl_pred cl) (cl_window cl) (cl_into cl))
           \<lparr>ty_value = v, ty_dim = dm\<rparr>"
    "set (dim_cats dm) \<subseteq> (\<Union>t \<in> set ins. set (dim_cats (tdim t))) \<union> set (cl_into cl) \<union>
       set (aggregation_over ctx first) \<union> (\<Union>p \<in> set ps. set (dim_cats (tdim p)))"
proof -
  from assms obtain first others full kept cs dm where
    i: "ins = first # others" and
    j: "agg_join ctx d (aggregation_over ctx first) (first_full_dim ctx first) (tdim first) others = Inr (full, kept)"
    and k: "agg_kept d cl (aggregation_over ctx first) kept = Inr cs"
    and p: "agg_params_dim d (aggregation_over ctx first) (dim_of cs) ps = Inr dm"
    and y: "y = TypedExpr (TAggregate f ins ps (aggregation_over ctx first) (cl_pred cl) (cl_window cl) (cl_into cl))
           \<lparr>ty_value = agg_type d (cl_rest cl) ins ps first, ty_dim = dm\<rparr>"
    by (cases ins) (auto simp: agg_result_def Let_def rbind_Inr_iff)
  have "set cs \<subseteq> set (dim_cats kept) \<union> set (cl_into cl) \<union> set (aggregation_over ctx first)"
    using k by (auto simp: agg_kept_def Let_def split: if_splits list.splits)
  with agg_join_Inr [OF j] agg_params_dim_Inr [OF p] show thesis
    by (intro that [OF i _ y]) (auto simp: i)
qed

lemma infer_aggregate_Inr:
  assumes "infer_aggregate s ctx t f args = Inr y"
  obtains d cl ins ps l where "by_id f = Some d" "agg_clauses s ctx t args no_clauses = Inr cl"
    "agg_args s ctx t d l 0 (cl_rest cl) = Inr (ins, ps)" "agg_result ctx d f cl ins ps = Inr y"
    "set (cl_rest cl) \<subseteq> set args"
  using assms
  by (auto simp: infer_aggregate_def Let_def rbind_Inr_iff no_clauses_def split: if_splits
      dest: agg_clauses_rest intro: that)

lemma infer_call_Inr:
  assumes "infer_call s ctx t f args = Inr y"
  obtains d where "by_id f = Some d" "fid d = f"
    "(\<exists>l p. compile_fold s ctx l args = Inr p \<and> y = TypedExpr (TPlan p) (plan_ty p)) \<or>
     infer_dimensional s ctx t d args = Inr (Some y) \<or>
     fkind d = Lazy \<and> infer_lazy s ctx t d args = Inr y \<or>
     fkind d \<noteq> Lazy \<and> rbind (rtraverse (s ctx t) args) (type_call ctx d f) = Inr y"
proof -
  from assms obtain d where d: "by_id f = Some d" by (auto simp: infer_call_def rbind_Inr_iff)
  show thesis
    using assms by (intro that [OF d by_id_fid [OF d]])
      (auto simp: infer_call_def Let_def d rbind_Inr_iff rmap_Inr_iff split: if_splits option.splits)
qed

lemma infer_call_ok:
  assumes b: "sound_below s (Call f args)" and c: "infer_call s ctx t f args = Inr y" and n: "\<not> is_aggregation f"
  shows "typed_ok y"
  using c
proof (rule infer_call_Inr)
  fix d
  assume d: "by_id f = Some d" "fid d = f" and
    "(\<exists>l p. compile_fold s ctx l args = Inr p \<and> y = TypedExpr (TPlan p) (plan_ty p)) \<or>
     infer_dimensional s ctx t d args = Inr (Some y) \<or>
     fkind d = Lazy \<and> infer_lazy s ctx t d args = Inr y \<or>
     fkind d \<noteq> Lazy \<and> rbind (rtraverse (s ctx t) args) (type_call ctx d f) = Inr y"
  then consider l p where "compile_fold s ctx l args = Inr p" "y = TypedExpr (TPlan p) (plan_ty p)"
    | "infer_dimensional s ctx t d args = Inr (Some y)" | "infer_lazy s ctx t d args = Inr y"
    | "fkind d \<noteq> Lazy" "rbind (rtraverse (s ctx t) args) (type_call ctx d f) = Inr y" by blast
  then show ?thesis
  proof cases
    case (1 l p)
    then show ?thesis by (auto elim!: compile_fold_Inr)
  next
    case 2
    from infer_dimensional_Inr [OF this] show ?thesis
    proof (elim disjE exE conjE)
      assume "infer_shift s ctx t d args = Inr y"
      then show ?thesis
        by (rule infer_shift_Inr)
          (auto split: option.split intro: sound_below_arg [OF b] dest: typed_ok_canonical [OF sound_below_arg [OF b]])
    next
      assume "infer_remap s ctx t d args = Inr y"
      then show ?thesis by (rule infer_remap_Inr) (auto intro: sound_below_arg [OF b])
    qed (simp_all add: items_node_def)
  next
    case 3
    then show ?thesis using infer_lazy_ok b d(2) by blast
  next
    case 4
    then show ?thesis using type_call_ok [OF _ d(1) _ n] sound_below_args [OF b] by (auto simp: rbind_Inr_iff)
  qed
qed

lemma infer_aggregate_ok:
  assumes b: "sound_below s (Call f args)" and a: "infer_aggregate s ctx t f args = Inr y"
  shows "typed_ok y"
  using a
proof (rule infer_aggregate_Inr)
  fix d cl ins ps l
  assume cl: "agg_clauses s ctx t args no_clauses = Inr cl"
    and ar: "agg_args s ctx t d l 0 (cl_rest cl) = Inr (ins, ps)"
    and re: "agg_result ctx d f cl ins ps = Inr y" and rest: "set (cl_rest cl) \<subseteq> set args"
  have ins: "\<forall>u \<in> set ins. typed_ok u" using agg_args_Inr [OF ar] by (auto intro: infer_ref_ok)
  have ps: "\<forall>u \<in> set ps. typed_ok u" using agg_args_Inr [OF ar] rest by (blast intro: sound_below_arg [OF b])
  have pred: "typed_ok p" if "cl_pred cl = Some p" for p
  proof -
    from agg_clauses_Inr [OF cl] that obtain ks x where "Call WHERE ks \<in> set args" "x \<in> set ks" "s ctx t x = Inr p"
      by (auto simp: no_clauses_def)
    then show ?thesis using sound_belowD [OF b smaller_trans [OF smaller_arg smaller_arg]] by blast
  qed
  from re show ?thesis
    by (rule agg_result_Inr) (use ins ps pred in \<open>auto split: option.split\<close>)
qed

lemma infer_typed_ok: "infer ctx t e = Inr y \<Longrightarrow> typed_ok y"
proof (induction ctx t e arbitrary: y rule: infer.induct)
  case (6 ctx t f args)
  show ?case
  proof (cases "named_lambda_of f")
    case (Some i)
    with "6.prems" obtain m e where "cx_lambdas ctx = Some m" "expand_lambdas (Call f args) m = Inr e" "infer ctx t e = Inr y"
      by (auto simp: rbind_Inr_iff)
    then show ?thesis using "6.IH"(1) [of m e y] Some by simp
  next
    case None
    show ?thesis
    proof (cases "is_aggregation f")
      case True
      with None "6.prems" have "infer_aggregate infer ctx t f args = Inr y" by simp
      moreover have "sound_below infer (Call f args)" using "6.IH"(2) None True by (auto simp: sound_below_def)
      ultimately show ?thesis by (metis infer_aggregate_ok)
    next
      case False
      with None "6.prems" have "infer_call infer ctx t f args = Inr y" by simp
      moreover have "sound_below infer (Call f args)" using "6.IH"(3) None False by (auto simp: sound_below_def)
      ultimately show ?thesis using False by (metis infer_call_ok)
    qed
  qed
qed (auto simp: rbind_Inr_iff intro: infer_literal_ok infer_bare_ref_ok infer_unary_ok infer_binary_ok)

text \<open>
  C4. Whatever types compiles: the second pass never fails on what the first one gives, and the
  plan has the type and the canonical dimension inferred. So a formula that neither is a
  \<open>FIXPOINT\<close> nor reads its own measure compiles exactly when it types, with the same error.
\<close>

theorem typed_formula_compiles:
  assumes "top_fixpoint (fexpr fm) = None" "target \<notin> set (formula_refs fm)"
  shows "case infer ctx target (fexpr fm) of
      Inl e \<Rightarrow> compile_formula fixpoint ctx target fm = Inl e
    | Inr t \<Rightarrow> \<exists>p. compile_formula fixpoint ctx target fm = Inr p \<and> plan_ty p = typed_ty t \<and> canonical_dim (tdim t)"
proof (cases "infer ctx target (fexpr fm)")
  case (Inr t)
  then have "typed_ok t" by (rule infer_typed_ok)
  then show ?thesis
    using assms Inr build_plan_total [of t ctx] typed_ok_canonical [of t] by (auto simp: compile_formula_def)
qed (use assms in \<open>simp add: compile_formula_def\<close>)

text \<open>\<open>Price\<close> over products and \<open>Quantity\<close> over times and products.\<close>

definition sample_ctx :: ctx where
  "sample_ctx = ctx_new
     [(MeasureId 1, \<lparr>m_id = MeasureId 1, m_name = ''Price'', m_type = TNumber, m_cats = [CategoryId 2],
        m_kind = Input, m_desc = None, m_format = None\<rparr>),
      (MeasureId 2, \<lparr>m_id = MeasureId 2, m_name = ''Quantity'', m_type = TNumber,
        m_cats = [CategoryId 2, CategoryId 1], m_kind = Input, m_desc = None, m_format = None\<rparr>)]"

lemma typed_formula_compiles_witness:
  "\<exists>p. compile_formula (\<lambda>_ _ _. Inl Panic) sample_ctx (MeasureId 3)
     (new_formula (BinaryOp Mul (Ref (MeasureId 1) default_spec) (Ref (MeasureId 2) default_spec))) = Inr p \<and>
     plan_ty p = \<lparr>ty_value = TNumber, ty_dim = Dim [CategoryId 1, CategoryId 2]\<rparr>"
proof -
  let ?e = "BinaryOp Mul (Ref (MeasureId 1) default_spec) (Ref (MeasureId 2) default_spec)"
  have "case infer sample_ctx (MeasureId 3) ?e of Inr t \<Rightarrow> typed_ty t = \<lparr>ty_value = TNumber, ty_dim = Dim [CategoryId 1, CategoryId 2]\<rparr> | Inl _ \<Rightarrow> False"
    by code_simp
  moreover have "top_fixpoint (fexpr (new_formula ?e)) = None" "MeasureId 3 \<notin> set (formula_refs (new_formula ?e))"
    "fexpr (new_formula ?e) = ?e"
    by (code_simp, code_simp, simp add: new_formula_def)
  ultimately show ?thesis
    using typed_formula_compiles [where fm = "new_formula ?e" and target = "MeasureId 3" and ctx = sample_ctx
      and fixpoint = "\<lambda>_ _ _. Inl Panic"]
    by (auto split: sum.splits)
qed

end
