(* ===== verification/Infer_Panics.thy ===== *)
theory Infer_Panics
  imports Infer_Facts
begin

text \<open>
  The first pass never panics on a formula whose \<open>WHERE\<close> and \<open>WINDOW\<close> clauses have their arguments,
  as the text parser writes them: every other index and \<open>expect\<close> is covered by the arity check of
  the registry's rows. Without the arguments it does panic.
\<close>

section \<open>Results that are no panic\<close>

definition np :: "(compile_error, 'a) res \<Rightarrow> bool" where
  "np r \<longleftrightarrow> r \<noteq> Inl Panic"

lemma np_simps [simp]: "np (Inr x)" "np (Inl e) \<longleftrightarrow> e \<noteq> Panic"
  by (simp_all add: np_def)

lemma np_rbind [intro]: "np r \<Longrightarrow> (\<And>x. r = Inr x \<Longrightarrow> np (f x)) \<Longrightarrow> np (rbind r f)"
  by (cases r) auto

lemma np_rmap [simp]: "np (rmap f r) \<longleftrightarrow> np r"
  by (cases r) auto

lemma np_ok_or [simp]: "np (ok_or e x) \<longleftrightarrow> x \<noteq> None \<or> e \<noteq> Panic"
  by (cases x) auto

lemma np_rtraverse [intro]: "(\<And>x. x \<in> set xs \<Longrightarrow> np (f x)) \<Longrightarrow> np (rtraverse f xs)"
  by (induction xs) (auto intro!: np_rbind)

lemma np_arg_at [simp]: "np (arg_at xs i) \<longleftrightarrow> i < length xs"
  by (auto simp: arg_at_def nth_arg_def)

lemma np_map_err [simp]: "(\<And>e. h e \<noteq> Panic) \<Longrightarrow> np (map_err h r)"
  by (cases r) auto

lemma np_cat_arg [simp]: "np (cat_arg d e)"
  by (cases e) (auto simp: cat_arg_def)

lemma np_helpers [simp]:
  "np (dim_items ctx d c)" "np (shift_default d i t)" "np (remap_check ctx d sw dm a b)"
  "np (where_check t)" "np (require ok op w)" "np (binop_dim ctx l r lt rt)" "np (infer_unary uop i)"
  "np (agg_into_check ctx d into full)" "np (agg_pred_check d pr full)" "np (coalesce_grid ctx d dm dm0)"
  by (simp_all add: dim_items_def shift_default_def remap_check_def where_check_def require_def
      binop_dim_def infer_unary_def agg_into_check_def agg_pred_check_def coalesce_grid_def Let_def
      split: option.splits)

lemma np_infer_ref [simp]: "np (infer_ref ctx m s)"
  unfolding infer_ref_def Let_def by (intro np_rbind) simp_all

lemma np_infer_literal [simp]: "np (infer_literal v)"
  by (simp add: infer_literal_def)

lemma np_bound_of [simp]: "np (bound_of e)"
  by (auto simp: bound_of_def Let_def split: expr.split val.split option.split)

lemma np_shift_offset [simp]: "np (shift_offset d a)"
  by (auto simp: shift_offset_def Let_def split: option.split expr.split val.split unary_op.split)

lemma np_into_cats [simp]: "np (into_cats acc ks)"
  by (induction acc ks rule: into_cats.induct) (auto split: expr.split)

lemma np_agg_kept [simp]: "np (agg_kept d cl ov kept)"
  by (auto simp: agg_kept_def Let_def split: list.split)

lemma np_union_dims [simp]: "np (union_dims ctx what acc ds)"
  by (induction ctx what acc ds rule: union_dims.induct) auto

lemma np_union_dim [simp]: "np (union_dim ctx what ds)"
  by (simp add: union_dim_def)

lemma np_check_arg [simp]: "np (check_arg d i t)"
  by (auto simp: check_arg_def wanted_type_def intro!: np_rbind split: arg.splits option.splits)

lemma np_check_args [simp]: "np (check_args d i ts)"
  by (induction d i ts rule: check_args.induct) auto

lemma np_agg_join [simp]: "np (agg_join ctx d ov full kept ts)"
  by (induction ctx d ov full kept ts rule: agg_join.induct) auto

lemma np_agg_params_dim [simp]: "np (agg_params_dim d ov dm ps)"
  by (induction d ov dm ps rule: agg_params_dim.induct) auto

lemma np_coalesce_type [simp]: "np (coalesce_type d acc ts)"
  by (induction d acc ts rule: coalesce_type.induct) (auto split: option.split)

lemma np_binop_result_type [simp]: "np (binop_result_type op l r)"
  by (auto simp: binop_result_type_def Let_def)

lemma np_infer_binary [simp]: "np (infer_binary ctx op l r lt rt)"
  unfolding infer_binary_def by (intro np_rbind) simp_all

lemma np_infer_bare_ref [simp]: "np (infer_bare_ref ctx i s)"
  by (auto simp: infer_bare_ref_def Let_def intro!: np_rbind split: option.split)
    (auto simp: infer_ref_def rbind_Inr_iff)

lemma np_agg_result [simp]: "np (agg_result ctx d f cl ins ps)"
  by (auto simp: agg_result_def Let_def intro!: np_rbind split: list.split prod.split)

lemma np_remap_pairs [simp]: "np (remap_pairs ctx d a b)"
  by (auto simp: remap_pairs_def Let_def intro!: np_rbind)

section \<open>Clauses with their arguments\<close>

fun clauses_ok :: "expr \<Rightarrow> bool" where
  "clauses_ok (Call f args) \<longleftrightarrow>
     (f = WHERE \<longrightarrow> args \<noteq> []) \<and> (f = WINDOW \<longrightarrow> 2 \<le> length args) \<and> (\<forall>a \<in> set args. clauses_ok a)"
| "clauses_ok (UnaryOp _ a) \<longleftrightarrow> clauses_ok a"
| "clauses_ok (BinaryOp _ a b) \<longleftrightarrow> clauses_ok a \<and> clauses_ok b"
| "clauses_ok (Literal _) \<longleftrightarrow> True"
| "clauses_ok (Ref _ _) \<longleftrightarrow> True"
| "clauses_ok (Category _) \<longleftrightarrow> True"

definition lambdas_ok :: "ctx \<Rightarrow> bool" where
  "lambdas_ok ctx \<longleftrightarrow>
     (case cx_lambdas ctx of None \<Rightarrow> True | Some m \<Rightarrow> list_all (\<lambda>(_, l). clauses_ok (l_body l)) (lambdas m))"

lemma clauses_ok_rename [simp]: "clauses_ok (rename_ref a b e) = clauses_ok e"
  by (induction e) auto

lemma lambdas_ok_with [simp]: "lambdas_ok (with_measure ctx i m) = lambdas_ok ctx"
  by (simp add: lambdas_ok_def with_measure_def)

lemma sub_ref_result:
  assumes r: "sub_ref args m s = Inr e"
  shows "(\<exists>m' s'. e = Ref m' s') \<or> e \<in> set args"
proof (cases "Option.bind (lambda_param_of m) (\<lambda>i. map_option (Pair i) (nth_arg args i))")
  case (Some p)
  then obtain i a where p: "p = (i, a)" "a \<in> set args" by (auto simp: bind_eq_Some_conv dest: nth_arg_set)
  then show ?thesis using r Some
    by (cases a) (auto simp: sub_ref_def Let_def rbind_Inr_iff split: if_splits)
qed (use r in \<open>auto simp: sub_ref_def Let_def rbind_Inr_iff\<close>)

lemma sub_ref_clauses: "sub_ref args m s = Inr e \<Longrightarrow> \<forall>a \<in> set args. clauses_ok a \<Longrightarrow> clauses_ok e"
  by (auto dest!: sub_ref_result)

lemma substitute_clauses:
  "substitute_params args e = Inr e' \<Longrightarrow> \<forall>a \<in> set args. clauses_ok a \<Longrightarrow> clauses_ok e \<Longrightarrow> clauses_ok e'"
proof (induction args e arbitrary: e' rule: substitute_params.induct)
  case (3 args f as)
  then obtain as' where as': "rtraverse (substitute_params args) as = Inr as'" "e' = Call f as'"
    by (auto simp: rmap_Inr_iff)
  have "\<forall>a' \<in> set as'. clauses_ok a'" using rtraverse_set [OF as'(1)] 3 by fastforce
  then show ?case using "3.prems"(3) rtraverse_length [OF as'(1)] by (auto simp: as'(2))
qed (auto simp: rbind_Inr_iff rmap_Inr_iff sub_ref_clauses)

lemma expand_clauses:
  "expand_at m depth e = Inr e' \<Longrightarrow> \<forall>(i, l) \<in> set (lambdas m). clauses_ok (l_body l) \<Longrightarrow> clauses_ok e \<Longrightarrow> clauses_ok e'"
proof (induction m depth e arbitrary: e' rule: expand_at.induct)
  case (1 m depth e)
  have d: "\<not> length (lambdas m) + 1 < depth" using "1.prems"(1) by (subst (asm) expand_at.simps) (auto split: if_splits)
  show ?case
  proof (cases e)
    case (Call f args)
    from "1.prems"(1) d Call obtain args' where a: "rtraverse (expand_at m depth) args = Inr args'"
      and r: "(case named_lambda_of f of
                None \<Rightarrow> Inr (Call f args')
              | Some i \<Rightarrow>
                  (case bget (lambdas m) i of
                     None \<Rightarrow> Inl (''named LAMBDA '' @ dec (unat i) @ '' does not exist'')
                   | Some l \<Rightarrow>
                       if length (l_params l) \<noteq> length args'
                       then Inl (l_name l @ '' takes '' @ dec (length (l_params l)) @ '' argument(s), got '' @
                              dec (length args'))
                       else rbind (map_err (in_lambda l) (substitute_params args' (l_body l))) (\<lambda>body.
                            rbind (map_err (in_lambda l) (check_depth MAX_STORED_FORMULA_DEPTH body)) (\<lambda>_.
                              expand_at m (depth + 1) body)))) = Inr e'"
      by (subst (asm) expand_at.simps) (auto simp: rbind_Inr_iff)
    have args': "\<forall>a' \<in> set args'. clauses_ok a'"
      using rtraverse_set [OF a] "1.IH"(4) [OF d Call] "1.prems"(2,3) by (fastforce simp: Call)
    show ?thesis
    proof (cases "named_lambda_of f")
      case None
      with r "1.prems"(3) args' rtraverse_length [OF a] show ?thesis by (auto simp: Call)
    next
      case (Some i)
      with r obtain l body where l: "bget (lambdas m) i = Some l" "length (l_params l) = length args'"
        and b: "substitute_params args' (l_body l) = Inr body" "check_depth MAX_STORED_FORMULA_DEPTH body = Inr ()"
          "expand_at m (depth + 1) body = Inr e'"
        by (auto simp: rbind_Inr_iff split: option.splits if_splits)
      have "clauses_ok (l_body l)" using l(1) "1.prems"(2) by (auto simp: bget_def dest: map_of_SomeD)
      then have "clauses_ok body" using substitute_clauses [OF b(1) args'] by simp
      with b "1.IH"(5) [OF d Call a Some l(1)] "1.prems"(2) l(2) show ?thesis by simp
    qed
  next
    case (UnaryOp u a)
    with "1.prems" d show ?thesis using "1.IH"(1) [OF d UnaryOp]
      by (subst (asm) expand_at.simps) (auto simp: rmap_Inr_iff)
  next
    case (BinaryOp b x y)
    with "1.prems" d show ?thesis using "1.IH"(2,3) [OF d BinaryOp]
      by (subst (asm) expand_at.simps) (fastforce simp: rbind_Inr_iff rmap_Inr_iff)
  qed (use "1.prems" d in \<open>(subst (asm) expand_at.simps, auto)+\<close>)
qed

section \<open>Arity\<close>

text \<open>The arguments the registry makes sure of, for the functions that index theirs.\<close>

lemma raw_func_eq: "raw_func f = k \<longleftrightarrow> f = FuncId k"
  by (cases f) simp

lemma row_arity:
  assumes "by_id f = Some d" "accepts d n"
  shows "raw_func f = 30 \<Longrightarrow> n = 2 \<or> n = 3"
    and "raw_func f \<in> {31, 33, 34, 35, 41, 904, 905, 919} \<Longrightarrow> 2 \<le> n"
    and "raw_func f \<in> {32, 920, 921} \<Longrightarrow> 3 \<le> n"
    and "raw_func f \<in> {36, 37, 900, 901, 902, 903} \<Longrightarrow> 1 \<le> n"
  using assms by (auto simp: raw_func_eq row_lookups accepts_def fn_row_def fn_s_def)

lemma np_if_pairs: "even (length args) \<Longrightarrow> np (if_pairs test args acc)"
  by (induction test args acc rule: if_pairs.induct) auto

lemma desugar_np:
  assumes "by_id f = Some d" "accepts d (length args)"
  shows "np (desugar_lazy f args)"
  using row_arity [OF assms]
  by (auto simp: desugar_simps np_if_pairs intro!: np_rbind split: list.split)

lemma clauses_ok_if_call [simp]:
  "clauses_ok (if_call c a b) \<longleftrightarrow> clauses_ok c \<and> clauses_ok a \<and> (\<forall>e. b = Some e \<longrightarrow> clauses_ok e)"
  by (auto simp: if_call_def call_expr_def WHERE_def WINDOW_def lazy_IF_def split: option.split)

lemma clauses_ok_call_expr:
  "k \<in> {50, 52, 53, 54, 204} \<Longrightarrow> clauses_ok (call_expr k as) \<longleftrightarrow> (\<forall>a \<in> set as. clauses_ok a)"
  by (auto simp: call_expr_def WHERE_def WINDOW_def)

lemma if_pairs_clauses:
  "if_pairs test args acc = Inr e \<Longrightarrow> (\<And>x. clauses_ok x \<Longrightarrow> clauses_ok (test x)) \<Longrightarrow>
   \<forall>a \<in> set args. clauses_ok a \<Longrightarrow> clauses_ok acc \<Longrightarrow> clauses_ok e"
  by (induction test args acc arbitrary: e rule: if_pairs.induct) (auto simp: rmap_Inr_iff)

lemma choose_chain_clauses:
  "clauses_ok idx \<Longrightarrow> \<forall>v \<in> set vs. clauses_ok v \<Longrightarrow> clauses_ok (choose_chain idx k vs)"
  by (induction vs arbitrary: k) (auto simp: value_error_call_def clauses_ok_call_expr)

lemma clear_form_clauses:
  "clauses_ok t \<Longrightarrow> clauses_ok v \<Longrightarrow> (\<forall>e. alt = Some e \<longrightarrow> clauses_ok e) \<Longrightarrow> clauses_ok (clear_form t v alt)"
  by (auto simp: clear_form_def split: option.split)

lemma desugar_clauses:
  assumes "desugar_lazy f args = Inr e" "\<forall>a \<in> set args. clauses_ok a"
  shows "clauses_ok e"
proof -
  have at: "clauses_ok v" if "arg_at args i = Inr v" for i v using assms(2) arg_at_set [OF that] by blast
  have nt: "clauses_ok v" if "nth_arg args i = Some v" for i v using assms(2) nth_arg_set [OF that] by blast
  have na: "clauses_ok na" by (simp add: na_def clauses_ok_call_expr)
  consider "raw_func f = 31" | "raw_func f = 32" | "raw_func f = 33" | "raw_func f = 34"
    | "raw_func f = 35" | "raw_func f = 36" | "raw_func f = 37"
    using assms(1) by (auto simp: desugar_simps split: if_splits)
  then show ?thesis
  proof cases
    case 1
    with assms na show ?thesis by (auto simp: desugar_simps elim!: if_pairs_clauses split: if_splits)
  next
    case 2
    with assms na show ?thesis
      by (auto simp: desugar_simps elim!: if_pairs_clauses split: if_splits list.splits
          dest: in_set_butlastD intro: last_in_set)
        (metis last_in_set length_0_conv even_zero)+
  next
    case 3
    with assms show ?thesis
      by (auto simp: desugar_simps clauses_ok_call_expr intro!: choose_chain_clauses split: list.splits)
  next
    case 4
    with assms(1) at show ?thesis by (auto simp: desugar_simps rbind_Inr_iff clauses_ok_call_expr)
  next
    case 5
    with assms(1) at show ?thesis by (auto simp: desugar_simps rbind_Inr_iff clauses_ok_call_expr)
  next
    case 6
    with assms(1) at nt show ?thesis
      by (auto simp: desugar_simps rmap_Inr_iff clauses_ok_call_expr intro!: clear_form_clauses)
  next
    case 7
    with assms(1) at nt show ?thesis by (auto simp: desugar_simps rmap_Inr_iff intro!: clear_form_clauses)
  qed
qed

section \<open>The first pass\<close>

text \<open>An inferrer that does not panic on the smaller expressions whose clauses have their arguments.\<close>

definition np_below :: "inferrer \<Rightarrow> expr \<Rightarrow> bool" where
  "np_below s e \<longleftrightarrow> (\<forall>c t x. smaller x e \<longrightarrow> clauses_ok x \<longrightarrow> lambdas_ok c \<longrightarrow> np (s c t x))"

lemma np_belowD: "np_below s e \<Longrightarrow> smaller x e \<Longrightarrow> clauses_ok x \<Longrightarrow> lambdas_ok c \<Longrightarrow> np (s c t x)"
  by (simp add: np_below_def)

lemma np_below_arg:
  "np_below s (Call f args) \<Longrightarrow> x \<in> set args \<Longrightarrow> \<forall>a \<in> set args. clauses_ok a \<Longrightarrow> lambdas_ok c \<Longrightarrow> np (s c t x)"
  using np_belowD smaller_arg by blast

lemma np_below_at:
  assumes "np_below s (Call f args)" "\<forall>a \<in> set args. clauses_ok a" "lambdas_ok c" "i < length args"
  shows "np (rbind (arg_at args i) (s c t))"
  using assms by (intro np_rbind) (auto intro: np_below_arg arg_at_set)

lemma np_type_if: "2 \<le> length ts \<Longrightarrow> length ts \<le> 3 \<Longrightarrow> np (type_if ctx ts)"
proof -
  assume l: "2 \<le> length ts" "length ts \<le> 3"
  then obtain a b rest where ts: "ts = a # b # rest" "rest = [] \<or> (\<exists>c. rest = [c])"
    by (cases ts; cases "tl ts"; cases "tl (tl ts)") auto
  then have "np (if_type (b # rest))" by (auto simp: if_type_def)
  then show ?thesis by (auto simp: ts(1) type_if_def intro!: np_rbind)
qed

lemma np_type_coalesce: "ts \<noteq> [] \<Longrightarrow> np (type_coalesce ctx d ts)"
  unfolding type_coalesce_def Let_def by (intro np_rbind) (simp_all add: np_rbind)

lemma np_type_call:
  "by_id f = Some d \<Longrightarrow> fkind d \<noteq> Lazy \<Longrightarrow> \<not> is_aggregation f \<Longrightarrow> np (type_call ctx d f ts)"
  using well_formed_member [of d] by_id_member [of f d]
  by (cases "fret d"; cases "fkind d") (auto simp: type_call_def well_formed_def_def is_aggregation_def intro!: np_rbind
      split: fn_kind.splits)

lemma np_infer_lazy:
  assumes b: "np_below s (Call f args)" "\<forall>a \<in> set args. clauses_ok a" "lambdas_ok ctx"
    and d: "by_id f = Some d" "accepts d (length args)"
  shows "np (infer_lazy s ctx t d args)"
proof -
  have f: "fid d = f" using by_id_fid d(1) .
  have all: "np (rtraverse (s ctx t) args)" by (rule np_rtraverse) (rule np_below_arg [OF b(1) _ b(2,3)])
  consider "raw_func f = 30" | "raw_func f = 41 \<or> raw_func f = 919"
    | "raw_func f \<noteq> 30" "raw_func f \<noteq> 41" "raw_func f \<noteq> 919" by blast
  then show ?thesis
  proof cases
    case 1
    with row_arity(1) [OF d 1] all show ?thesis
      by (auto simp: infer_lazy_def infer_if_def f lazy_IF_def intro!: np_rbind np_type_if dest!: rtraverse_length)
  next
    case 2
    with row_arity(2) [OF d] all show ?thesis
      by (auto simp: infer_lazy_def infer_coalesce_def f lazy_IF_def lazy_COALESCE_def lazy_FILL_def
          intro!: np_rbind np_type_coalesce dest!: rtraverse_length)
  next
    case 3
    then have "infer_lazy s ctx t d args = rbind (desugar_lazy f args) (s ctx t)"
      by (simp add: infer_lazy_def f lazy_IF_def lazy_COALESCE_def lazy_FILL_def)
    then show ?thesis
      using desugar_np [OF d] desugar_clauses [OF _ b(2)] desugar_smaller np_belowD [OF b(1)] b(3)
      by (auto intro!: np_rbind)
  qed
qed

lemma np_infer_shift:
  assumes b: "np_below s (Call f args)" "\<forall>a \<in> set args. clauses_ok a" "lambdas_ok ctx" and l: "2 \<le> length args"
  shows "np (infer_shift s ctx t d args)"
proof -
  have i: "np (rbind (arg_at args 0) (s ctx t))" by (rule np_below_at [OF b]) (use l in auto)
  have c: "np (rbind (arg_at args 1) (cat_arg d))" by (rule np_rbind) (use l in auto)
  have e: "np (case nth_arg args 3 of None \<Rightarrow> Inr None
      | Some e \<Rightarrow> rbind (s ctx t e) (\<lambda>u. rmap (\<lambda>_. Some u) (shift_default d i u)))" for i
    using np_below_arg [OF b(1) nth_arg_set b(2,3)] by (auto intro!: np_rbind split: option.split)
  show ?thesis
    unfolding infer_shift_def
    by (rule np_rbind [OF i], rule np_rbind [OF c]) (auto intro!: np_rbind [OF _ np_rbind [OF e]])
qed

lemma np_infer_remap:
  assumes b: "np_below s (Call f args)" "\<forall>a \<in> set args. clauses_ok a" "lambdas_ok ctx" and l: "3 \<le> length args"
  shows "np (infer_remap s ctx t d args)"
proof -
  have i: "np (rbind (arg_at args 0) (s ctx t))" by (rule np_below_at [OF b]) (use l in auto)
  have c: "np (rbind (arg_at args k) (cat_arg d))" if "k < 3" for k by (rule np_rbind) (use l that in auto)
  show ?thesis
    unfolding infer_remap_def Let_def
    by (rule np_rbind [OF i], rule np_rbind [OF c], simp, rule np_rbind [OF c], simp) (auto intro!: np_rbind)
qed

lemma np_infer_dimensional:
  assumes b: "np_below s (Call f args)" "\<forall>a \<in> set args. clauses_ok a" "lambdas_ok ctx"
    and d: "by_id f = Some d" "accepts d (length args)"
  shows "np (infer_dimensional s ctx t d args)"
proof -
  have f: "fid d = f" using by_id_fid d(1) .
  have c: "np (rbind (arg_at args 0) (cat_arg d))" if "1 \<le> length args"
    by (rule np_rbind) (use that in auto)
  consider "raw_func f \<in> {900, 901, 902, 903}" | "raw_func f \<in> {904, 905}" | "raw_func f \<in> {920, 921}"
    | "raw_func f \<notin> {900, 901, 902, 903, 904, 905, 920, 921}" by blast
  then show ?thesis
  proof cases
    case 1
    then have "1 \<le> length args" using row_arity(4) [OF d] by auto
    with 1 c show ?thesis by (auto simp: infer_dimensional_def f dim_ids Let_def intro!: np_rbind)
  next
    case 2
    then have "2 \<le> length args" using row_arity(2) [OF d] by auto
    with 2 np_infer_shift [OF b] show ?thesis by (auto simp: infer_dimensional_def f dim_ids Let_def)
  next
    case 3
    then have "3 \<le> length args" using row_arity(3) [OF d] by auto
    with 3 np_infer_remap [OF b] show ?thesis by (auto simp: infer_dimensional_def f dim_ids Let_def)
  qed (auto simp: infer_dimensional_def f dim_ids Let_def)
qed

lemma np_slot_ref: "err \<noteq> Panic \<Longrightarrow> np (slot_ref ctx err own i)"
proof -
  assume e: "err \<noteq> Panic"
  have "np (build_plan ctx r)" if "infer_ref ctx i default_spec = Inr r" for r
    using build_plan_total [OF infer_ref_ok [OF that], of ctx] by auto
  with e show ?thesis by (auto simp: slot_ref_def intro!: np_rbind)
qed

lemma np_fold_parts [simp]: "np (fold_parts args)"
  by (auto simp: fold_parts_def split: list.split expr.split)

lemma np_fold_refs [simp]: "np (fold_refs ctx m acc body init)"
  by (auto simp: fold_refs_def Let_def intro!: np_rtraverse np_slot_ref)

lemma fold_parts_clauses:
  "fold_parts args = Inr (init, xid, k, body) \<Longrightarrow> \<forall>a \<in> set args. clauses_ok a \<Longrightarrow> clauses_ok init \<and> clauses_ok body"
  by (auto simp: fold_parts_def split: list.splits expr.splits)

lemma np_compile_fold:
  assumes b: "np_below s (Call f args)" "\<forall>a \<in> set args. clauses_ok a" "lambdas_ok ctx"
  shows "np (compile_fold s ctx l args)"
proof -
  have "np (s c t init)" "np (s c t (rename_ref a a' body))"
    if "fold_parts args = Inr (init, xid, k, body)" "lambdas_ok c" for init xid k body c t a a'
    using np_belowD [OF b(1) fold_parts_smaller(1) [OF that(1)]] np_belowD [OF b(1) fold_parts_smaller(2) [OF that(1)]]
      fold_parts_clauses [OF that(1) b(2)] that(2) by simp_all
  with b(3) show ?thesis unfolding compile_fold_def Let_def by (auto intro!: np_rbind)
qed

lemma np_infer_call:
  assumes b: "np_below s (Call f args)" "\<forall>a \<in> set args. clauses_ok a" "lambdas_ok ctx" and n: "\<not> is_aggregation f"
  shows "np (infer_call s ctx t f args)"
proof (cases "by_id f")
  case (Some d)
  have "np (rtraverse (s ctx t) args)" by (rule np_rtraverse) (rule np_below_arg [OF b(1) _ b(2,3)])
  then show ?thesis
    using Some np_compile_fold [OF b] np_infer_dimensional [OF b Some] np_infer_lazy [OF b Some]
      np_type_call [OF Some _ n]
    by (auto simp: infer_call_def Let_def intro!: np_rbind split: option.split)
qed (simp add: infer_call_def)

lemma np_agg_clause:
  assumes "clauses_ok a" "\<And>k x. a = Call WHERE k \<Longrightarrow> x \<in> set k \<Longrightarrow> np (s ctx t x)"
  shows "np (agg_clause s ctx t a cl)"
proof (cases a)
  case (Call f k)
  with assms(1) have "f = WHERE \<Longrightarrow> 0 < length k" "f = WINDOW \<Longrightarrow> 2 \<le> length k" by auto
  moreover have "f = WHERE \<Longrightarrow> np (rbind (arg_at k 0) (s ctx t))"
    using assms(2) calculation(1) Call by (intro np_rbind) (auto dest: arg_at_set)
  ultimately show ?thesis using Call by (auto simp: agg_clause_def intro!: np_rbind)
qed (simp_all add: agg_clause_def)

lemma np_agg_clauses:
  "(\<And>a. a \<in> set args \<Longrightarrow> clauses_ok a) \<Longrightarrow>
   (\<And>k x. Call WHERE k \<in> set args \<Longrightarrow> x \<in> set k \<Longrightarrow> np (s ctx t x)) \<Longrightarrow> np (agg_clauses s ctx t args cl)"
proof (induction args arbitrary: cl)
  case (Cons a as)
  have "np (agg_clause s ctx t a cl)" by (rule np_agg_clause) (use Cons.prems in auto)
  moreover have "np (agg_clauses s ctx t as cl')" for cl' by (rule Cons.IH) (use Cons.prems in auto)
  ultimately show ?case by (auto intro!: np_rbind)
qed simp

lemma np_agg_args: "(\<And>a. a \<in> set args \<Longrightarrow> np (s ctx t a)) \<Longrightarrow> np (agg_args s ctx t d l i args)"
proof (induction args arbitrary: i)
  case (Cons a as)
  have "np (agg_arg s ctx t d i a)" using Cons.prems by (auto simp: agg_arg_def split: expr.split)
  with Cons show ?case by (auto intro!: np_rbind)
qed simp

lemma np_infer_aggregate:
  assumes b: "np_below s (Call f args)" "\<forall>a \<in> set args. clauses_ok a" "lambdas_ok ctx"
  shows "np (infer_aggregate s ctx t f args)"
proof -
  have w: "np (s ctx t x)" if "Call WHERE k \<in> set args" "x \<in> set k" for k x
    using np_belowD [OF b(1) smaller_trans [OF smaller_arg [OF that(2)] smaller_arg [OF that(1)]]] b(2,3) that by auto
  have "np (agg_args s ctx t d l 0 (cl_rest cl))"
    if "agg_clauses s ctx t args no_clauses = Inr cl" for d l cl
    using agg_clauses_rest [OF that] by (intro np_agg_args np_below_arg [OF b(1) _ b(2,3)]) (auto simp: no_clauses_def)
  then show ?thesis
    using np_agg_clauses [of args s ctx t no_clauses] w b(2)
    by (auto simp: infer_aggregate_def Let_def intro!: np_rbind)
qed

lemma lambdas_ok_set: "lambdas_ok ctx \<Longrightarrow> cx_lambdas ctx = Some m \<Longrightarrow> \<forall>(i, l) \<in> set (lambdas m). clauses_ok (l_body l)"
  by (auto simp: lambdas_ok_def list_all_iff)

lemma infer_np: "clauses_ok e \<Longrightarrow> lambdas_ok ctx \<Longrightarrow> np (infer ctx target e)"
proof (induction ctx target e rule: infer.induct)
  case (6 ctx t f args)
  have all: "\<forall>a \<in> set args. clauses_ok a" using "6.prems"(1) by simp
  show ?case
  proof (cases "named_lambda_of f")
    case (Some i)
    have "np (infer ctx t e)"
      if m: "cx_lambdas ctx = Some m" and e: "expand_lambdas (Call f args) m = Inr e" for m e
    proof -
      have "clauses_ok e"
        using e lambdas_ok_set [OF "6.prems"(2) m] "6.prems"(1)
        by (auto simp: expand_lambdas_def rbind_Inr_iff intro: expand_clauses)
      then show ?thesis using "6.IH"(1) [of m e] Some m e "6.prems"(2) by simp
    qed
    then show ?thesis using Some by (auto simp del: clauses_ok.simps intro!: np_rbind)
  next
    case None
    show ?thesis
    proof (cases "is_aggregation f")
      case True
      then have "np_below infer (Call f args)" using "6.IH"(2) None by (auto simp: np_below_def)
      then show ?thesis using np_infer_aggregate [OF _ all "6.prems"(2)] None True by simp
    next
      case False
      then have "np_below infer (Call f args)" using "6.IH"(3) None by (auto simp: np_below_def)
      then show ?thesis using np_infer_call [OF _ all "6.prems"(2) False] None False by simp
    qed
  qed
qed (auto simp: category_error_def intro!: np_rbind)

text \<open>
  C5. The first pass never panics: on a formula (and LAMBDA bodies) whose \<open>WHERE\<close> and \<open>WINDOW\<close>
  clauses carry their arguments, every index and \<open>expect\<close> it runs into is in range, because the
  registry's arities are checked first.
\<close>

theorem inference_never_panics:
  assumes "clauses_ok e" "lambdas_ok ctx"
  shows "infer ctx target e \<noteq> Inl Panic"
  using infer_np [OF assms] by (simp add: np_def)

lemma inference_never_panics_witness:
  "infer sample_ctx (MeasureId 3)
     (Call (FuncId 1) [Call WHERE [Ref (MeasureId 1) default_spec], Ref (MeasureId 2) default_spec]) \<noteq> Inl Panic"
  by (rule inference_never_panics) (code_simp, code_simp)



lemma clause_ids [simp]: "WHERE \<noteq> INTO" "INTO \<noteq> WHERE"
  by (simp_all add: WHERE_def INTO_def)


end
