(* ===== verification/Compile_Facts.thy ===== *)
theory Compile_Facts
  imports Infer_Facts
begin

text \<open>
  What \<open>compile_recurrence\<close> guarantees: one slot per \<open>PREV\<close> of the measure itself, in order, each at
  least one item back along one of the measure's own categories, and nothing else of the plan reads
  the measure, so that a scan in item order has every value it reads. The placeholder ids run out.
\<close>

section \<open>Rewriting the reads of itself\<close>












section \<open>The plan of a recurrence\<close>






















text \<open>The placeholder after the last one: the sum overflows, to the id 0 where overflow is not checked.\<close>

lemma slot_ids_run_out: "slot_id 1025 = MeasureId 0"
  by (simp add: slot_id_def SLOT_BASE_def)

end
