(* ===== verification/Engine_Order.thy ===== *)
theory Engine_Order
  imports Build_Order Compile
begin

text \<open>
  The evaluation order of \<open>crates/engine/src/dataflow.rs\<close>: \<open>derived_build_order\<close> turns the derived
  measures into the graph that \<open>build_order\<close> sorts, \<open>cycle_names\<close> names a cycle it finds, and
  \<open>compile_plans\<close> compiles the formulas in that order. An index out of range or a missing map
  entry, a panic in the code, is \<open>EPanic\<close>.
\<close>

section \<open>The graph of derived measures\<close>

datatype engine_error =
    ECompile compile_error
  | EUnsupported string
  | ECycle string
  | EPanic

definition derived_measures :: "model \<Rightarrow> (measure_id \<times> formula) list" where
  "derived_measures m =
     List.map_filter (\<lambda>(i, x). case m_kind x of Derived f \<Rightarrow> Some (i, f) | Input \<Rightarrow> None) (measure_map m)"

definition derived_index :: "(measure_id \<times> formula) list \<Rightarrow> (measure_id, nat) hmap" where
  "derived_index ds = hcollect (map (\<lambda>(k, i, _). (i, k)) (enumerate 0 ds))"

definition derived_graph :: "(measure_id \<times> formula) list \<Rightarrow> graph" where
  "derived_graph ds =
     map (\<lambda>(i, f). List.map_filter (hget (derived_index ds)) (filter (\<lambda>d. d \<noteq> i) (formula_refs f))) ds"

definition index_err :: "'a list \<Rightarrow> nat \<Rightarrow> (engine_error, 'a) res" where
  "index_err xs i = ok_or EPanic (if i < length xs then Some (xs ! i) else None)"

section \<open>Naming a cycle\<close>

text \<open>
  One node's edges: either one leads back to \<open>start\<close>, or the new nodes get \<open>u\<close> as their parent and
  join the queue.
\<close>

fun scan_edges ::
  "nat \<Rightarrow> nat \<Rightarrow> nat list \<Rightarrow> (nat, nat) hmap \<Rightarrow> nat list \<Rightarrow> bool \<times> (nat, nat) hmap \<times> nat list" where
  "scan_edges start u [] parent queue = (False, parent, queue)"
| "scan_edges start u (v # vs) parent queue =
     (if v = start then (True, parent, queue)
      else if hget parent v = None then scan_edges start u vs (hinsert v u parent) (queue @ [v])
      else scan_edges start u vs parent queue)"

text \<open>
  The loop \<open>'search\<close>: the parents found, and the node an edge back was found at (\<open>fin\<close> as it was if none).
  Every node joins the queue once, so \<open>length g\<close> rounds and one for \<open>start\<close> are enough fuel.
\<close>

fun bfs_search ::
  "graph \<Rightarrow> nat \<Rightarrow> nat \<Rightarrow> (nat, nat) hmap \<Rightarrow> nat list \<Rightarrow> nat \<Rightarrow> (engine_error, (nat, nat) hmap \<times> nat) res" where
  "bfs_search g start fuel parent [] fin = Inr (parent, fin)"
| "bfs_search g start 0 parent (u # queue) fin = Inl EPanic"
| "bfs_search g start (Suc fuel) parent (u # queue) fin =
     rbind (index_err g u) (\<lambda>vs.
       case scan_edges start u vs parent queue of
         (True, parent', queue') \<Rightarrow> Inr (parent', u)
       | (False, parent', queue') \<Rightarrow> bfs_search g start fuel parent' queue' fin)"

text \<open>The parents from \<open>at\<close> on: at most one step per entry.\<close>

fun parents_from :: "(nat, nat) hmap \<Rightarrow> nat \<Rightarrow> nat \<Rightarrow> nat list" where
  "parents_from parent 0 at = []"
| "parents_from parent (Suc fuel) at =
     (case hget parent at of None \<Rightarrow> [] | Some p \<Rightarrow> p # parents_from parent fuel p)"

text \<open>\<open>min_by_key\<close> over the indices: the first least, 0 for none.\<close>

definition first_least :: "'a::linorder list \<Rightarrow> nat" where
  "first_least xs = length (takeWhile (\<lambda>x. \<not> (\<forall>y \<in> set xs. x \<le> y)) xs)"

definition arrow :: string where
  "arrow = '' '' @ [CHR 0xE2, CHR 0x86, CHR 0x92] @ '' ''"

definition measure_text :: "model \<Rightarrow> measure_id \<Rightarrow> (engine_error, string) res" where
  "measure_text m i = rmap m_name (ok_or EPanic (hget (measure_map m) i))"

definition cycle_names ::
  "model \<Rightarrow> (measure_id \<times> formula) list \<Rightarrow> graph \<Rightarrow> nat \<Rightarrow> (engine_error, string) res" where
  "cycle_names m ds g start =
     rbind (bfs_search g start (length g + 1) [] [start] start) (\<lambda>(parent, fin).
     rbind (rtraverse (index_err ds) (rev (fin # parents_from parent (length parent) fin))) (\<lambda>nodes.
       let ids = map fst nodes; ids = rotate (first_least ids) ids
       in rmap (join_with arrow) (rtraverse (measure_text m) (ids @ [hd ids]))))"

section \<open>The order\<close>

definition derived_build_order ::
  "model \<Rightarrow> measure_id list \<Rightarrow> (engine_error, (measure_id \<times> formula) list) res" where
  "derived_build_order m targets =
     (let ds = derived_measures m; g = derived_graph ds;
          roots = List.map_filter (hget (derived_index ds)) targets
      in case build_order g roots of
           Inr order \<Rightarrow> rtraverse (index_err ds) order
         | Inl (Cycle i) \<Rightarrow> rbind (cycle_names m ds g i) (\<lambda>t. Inl (ECycle t))
         | Inl OutOfBounds \<Rightarrow> Inl EPanic)"

definition compile_plans ::
  "fixpoint_compiler \<Rightarrow> model \<Rightarrow> measure_id list \<Rightarrow> (engine_error, (measure_id \<times> plan_node) list) res" where
  "compile_plans fixpoint m targets =
     rbind (derived_build_order m targets) (rtraverse (\<lambda>(i, f).
       map_err ECompile (rmap (Pair i) (compile_formula fixpoint (ctx_for_model m) i f))))"

end
