(* ===== verification/Engine_Order_Facts.thy ===== *)
theory Engine_Order_Facts
  imports Engine_Order
begin

text \<open>
  What the evaluation order promises: every derived measure the targets need, once, after the ones
  its formula reads; and when there is none, a cycle of formulas that is really there.
\<close>

section \<open>The graph is the model's dependencies\<close>

definition derived_as :: "model \<Rightarrow> measure_id \<Rightarrow> formula \<Rightarrow> bool" where
  "derived_as m i f \<longleftrightarrow> (\<exists>x. hget (measure_map m) i = Some x \<and> m_kind x = Derived f)"

text \<open>The formula of \<open>a\<close> reads the other derived measure \<open>b\<close>.\<close>

definition depends_on :: "model \<Rightarrow> measure_id \<Rightarrow> measure_id \<Rightarrow> bool" where
  "depends_on m a b \<longleftrightarrow>
     (\<exists>f. derived_as m a f \<and> b \<in> set (formula_refs f) \<and> b \<noteq> a \<and> (\<exists>g. derived_as m b g))"

definition depends_rel :: "model \<Rightarrow> (measure_id \<times> measure_id) set" where
  "depends_rel m = {(a, b). depends_on m a b}"

text \<open>The derived measures the targets need, the targets themselves included.\<close>

definition needed :: "model \<Rightarrow> measure_id list \<Rightarrow> measure_id set" where
  "needed m targets = (depends_rel m)\<^sup>* `` {t \<in> set targets. \<exists>f. derived_as m t f}"

lemma map_filter_set: "set (List.map_filter f xs) = {y. \<exists>x \<in> set xs. f x = Some y}"
  by (force simp: map_filter_def)

lemma derived_measures_keys:
  "distinct (map fst ms) \<Longrightarrow>
   distinct (map fst (List.map_filter (\<lambda>(i, x). case m_kind x of Derived f \<Rightarrow> Some (i, f) | Input \<Rightarrow> None) ms))"
  by (induction ms) (force simp: map_filter_simps map_filter_set split: measure_kind.splits)+

lemma derived_measures_distinct: "hkeys_distinct (measure_map m) \<Longrightarrow> distinct (map fst (derived_measures m))"
  using derived_measures_keys by (simp add: derived_measures_def hkeys_distinct_def)

lemma derived_measures_set:
  assumes "hkeys_distinct (measure_map m)"
  shows "(i, f) \<in> set (derived_measures m) \<longleftrightarrow> derived_as m i f"
  using assms
  by (force simp: derived_measures_def derived_as_def map_filter_set hkeys_distinct_def hget_def
      split: measure_kind.splits dest: map_of_SomeD)

lemma derived_index_get:
  assumes "distinct (map fst ds)"
  shows "hget (derived_index ds) i = Some k \<longleftrightarrow> k < length ds \<and> fst (ds ! k) = i"
proof -
  let ?kvs = "map (\<lambda>(k, i, _). (i, k)) (enumerate 0 ds)"
  have "map fst ?kvs = map fst ds" by (rule nth_equalityI) (simp_all add: nth_enumerate_eq split_def)
  then have d: "distinct (map fst (rev ?kvs))" using assms by (simp only: rev_map [symmetric] distinct_rev)
  have "hget (derived_index ds) i = map_of (rev ?kvs) i"
    by (simp add: derived_index_def hcollect_def hget_fold_hinsert split: option.split)
  also have "\<dots> = Some k \<longleftrightarrow> (i, k) \<in> set ?kvs" using d by (simp only: map_of_eq_Some_iff set_rev)
  also have "\<dots> \<longleftrightarrow> (\<exists>f. (k, i, f) \<in> set (enumerate 0 ds))" by (force simp: image_iff split_def)
  also have "\<dots> \<longleftrightarrow> k < length ds \<and> fst (ds ! k) = i" by (cases "ds ! k") (auto simp: in_set_enumerate_eq)
  finally show ?thesis .
qed

lemma length_derived_graph [simp]: "length (derived_graph ds) = length ds"
  by (simp add: derived_graph_def)

lemma edge_derived_graph:
  assumes "hkeys_distinct (measure_map m)" "ds = derived_measures m"
  shows "edge (derived_graph ds) j k \<longleftrightarrow> j < length ds \<and> k < length ds \<and> depends_on m (fst (ds ! j)) (fst (ds ! k))"
proof -
  have d: "distinct (map fst ds)" using derived_measures_distinct assms by simp
  have n: "derived_as m (fst (ds ! k)) f \<longleftrightarrow> snd (ds ! k) = f" if "k < length ds" for k f
  proof -
    have "derived_as m (fst (ds ! k)) (snd (ds ! k))"
      using nth_mem [OF that] derived_measures_set [OF assms(1), of "fst (ds ! k)" "snd (ds ! k)"] assms(2) by simp
    then show ?thesis by (auto simp: derived_as_def)
  qed
  have "edge (derived_graph ds) j k \<longleftrightarrow> j < length ds \<and> k < length ds \<and>
      fst (ds ! k) \<in> set (formula_refs (snd (ds ! j))) \<and> fst (ds ! k) \<noteq> fst (ds ! j)"
    by (auto simp: edge_def derived_graph_def map_filter_set derived_index_get [OF d] split_def)
  then show ?thesis using n by (auto simp: depends_on_def)
qed

lemma derived_graph_wf:
  assumes "hkeys_distinct (measure_map m)" "ds = derived_measures m"
  shows "graph_wf (derived_graph ds)"
proof (unfold graph_wf_def, intro ballI)
  fix deps w assume "deps \<in> set (derived_graph ds)" "w \<in> set deps"
  then obtain j where "edge (derived_graph ds) j w" by (auto simp: edge_def in_set_conv_nth)
  then show "w < length (derived_graph ds)" using edge_derived_graph [OF assms] by simp
qed

lemma derived_at:
  assumes "hkeys_distinct (measure_map m)" "ds = derived_measures m"
  shows "derived_as m i f \<longleftrightarrow> (\<exists>k < length ds. ds ! k = (i, f))"
  using derived_measures_set [OF assms(1), of i f] by (auto simp: assms(2) in_set_conv_nth)

text \<open>Paths of the graph are chains of dependencies.\<close>

lemma rtrancl_derived_graph:
  assumes "hkeys_distinct (measure_map m)" "ds = derived_measures m" and j: "j < length ds"
  shows "(j, k) \<in> (edges (derived_graph ds))\<^sup>* \<longleftrightarrow>
    k < length ds \<and> (fst (ds ! j), fst (ds ! k)) \<in> (depends_rel m)\<^sup>*"
proof
  assume "(j, k) \<in> (edges (derived_graph ds))\<^sup>*"
  then show "k < length ds \<and> (fst (ds ! j), fst (ds ! k)) \<in> (depends_rel m)\<^sup>*"
    by (induction rule: rtrancl_induct)
      (auto simp: j edge_derived_graph [OF assms(1,2)] depends_rel_def intro: rtrancl_into_rtrancl)
next
  have "(a, b) \<in> (depends_rel m)\<^sup>* \<Longrightarrow> a = fst (ds ! j) \<Longrightarrow>
      \<exists>k < length ds. fst (ds ! k) = b \<and> (j, k) \<in> (edges (derived_graph ds))\<^sup>*" for a b
  proof (induction rule: rtrancl_induct)
    case base
    then show ?case using j by blast
  next
    case (step b c)
    then obtain k where k: "k < length ds" "fst (ds ! k) = b" "(j, k) \<in> (edges (derived_graph ds))\<^sup>*" by blast
    from step.hyps(2) obtain g where "depends_on m b c" "derived_as m c g" by (auto simp: depends_rel_def depends_on_def)
    then obtain l where l: "l < length ds" "fst (ds ! l) = c" using derived_at [OF assms(1,2)] by fastforce
    then have "edge (derived_graph ds) k l" using k \<open>depends_on m b c\<close> by (simp add: edge_derived_graph [OF assms(1,2)])
    then have "(j, l) \<in> (edges (derived_graph ds))\<^sup>*" using k(3) by (meson edges_iff rtrancl_into_rtrancl)
    then show ?case using l by blast
  qed
  moreover assume "k < length ds \<and> (fst (ds ! j), fst (ds ! k)) \<in> (depends_rel m)\<^sup>*"
  moreover have "distinct (map fst ds)" using derived_measures_distinct assms(1,2) by simp
  ultimately show "(j, k) \<in> (edges (derived_graph ds))\<^sup>*"
    by (metis length_map nth_eq_iff_index_eq nth_map)
qed

lemma roots_of_targets:
  assumes "hkeys_distinct (measure_map m)" "ds = derived_measures m"
    "roots = List.map_filter (hget (derived_index ds)) targets"
  shows "\<forall>r \<in> set roots. r < length (derived_graph ds)"
    "k < length ds \<Longrightarrow> reachable (derived_graph ds) roots k \<longleftrightarrow> fst (ds ! k) \<in> needed m targets"
proof -
  have d: "distinct (map fst ds)" using derived_measures_distinct assms by simp
  have r: "r \<in> set roots \<longleftrightarrow> r < length ds \<and> fst (ds ! r) \<in> set targets" for r
    by (auto simp: assms(3) map_filter_set derived_index_get [OF d])
  then show "\<forall>r \<in> set roots. r < length (derived_graph ds)" by simp
  assume k: "k < length ds"
  show "reachable (derived_graph ds) roots k \<longleftrightarrow> fst (ds ! k) \<in> needed m targets"
  proof
    assume "reachable (derived_graph ds) roots k"
    then obtain j where "j \<in> set roots" "(j, k) \<in> (edges (derived_graph ds))\<^sup>*" by (auto simp: reachable_iff)
    then have "fst (ds ! j) \<in> set targets" "j < length ds" "(fst (ds ! j), fst (ds ! k)) \<in> (depends_rel m)\<^sup>*"
      using r rtrancl_derived_graph [OF assms(1,2)] by blast+
    then show "fst (ds ! k) \<in> needed m targets"
      using derived_at [OF assms(1,2), of "fst (ds ! j)" "snd (ds ! j)"] by (auto simp: needed_def)
  next
    assume "fst (ds ! k) \<in> needed m targets"
    then obtain t f where t: "t \<in> set targets" "derived_as m t f" "(t, fst (ds ! k)) \<in> (depends_rel m)\<^sup>*"
      by (auto simp: needed_def)
    then obtain j where "j < length ds" "ds ! j = (t, f)" using derived_at [OF assms(1,2)] by blast
    then show "reachable (derived_graph ds) roots k"
      using t r k rtrancl_derived_graph [OF assms(1,2), of j k] by (auto simp: reachable_iff)
  qed
qed

section \<open>Searching the cycle\<close>

text \<open>The parents form a tree rooted at \<open>start\<close>, grown by one edge at a time.\<close>

inductive grown :: "graph \<Rightarrow> nat \<Rightarrow> (nat, nat) hmap \<Rightarrow> bool" for g start where
  "grown g start []"
| "grown g start parent \<Longrightarrow> u = start \<or> u \<in> fst ` set parent \<Longrightarrow> edge g u v \<Longrightarrow> v \<noteq> start \<Longrightarrow>
   v \<notin> fst ` set parent \<Longrightarrow> grown g start (parent @ [(v, u)])"

lemma hinsert_new: "k \<notin> fst ` set m \<Longrightarrow> hinsert k v m = m @ [(k, v)]"
  by (induction m) (auto simp: hinsert_def)

lemma hget_snoc: "k \<notin> fst ` set m \<Longrightarrow> hget (m @ [(k, v)]) i = (if i = k then Some v else hget m i)"
  by (induction m) (auto simp: hget_def)

lemma grown_parents: "grown g start parent \<Longrightarrow> hget parent v = Some p \<Longrightarrow> p = start \<or> p \<in> fst ` set parent"
  by (induction rule: grown.induct) (auto simp: hget_snoc split: if_splits)

lemma parents_from_start: "hget parent start = None \<Longrightarrow> parents_from parent n start = []"
  by (cases n) auto

lemma grown_start: "grown g start parent \<Longrightarrow> hget parent start = None"
  by (induction rule: grown.induct) (auto simp: hget_snoc)

lemma parents_from_snoc:
  assumes "grown g start parent" "v \<notin> fst ` set parent" "u = start \<or> u \<in> fst ` set parent" "v \<noteq> start"
  shows "parents_from (parent @ [(v, w)]) n u = parents_from parent n u"
  using assms(3)
proof (induction n arbitrary: u)
  case (Suc n)
  then have "u \<noteq> v" using assms(2,4) by auto
  then show ?case
    using Suc grown_parents [OF assms(1)] by (auto simp: hget_snoc [OF assms(2)] split: option.split)
qed simp

text \<open>From any node of the tree, the parents lead back along edges to \<open>start\<close>.\<close>

lemma grown_path:
  assumes "grown g start parent" "u = start \<or> u \<in> fst ` set parent" "length parent \<le> n"
  shows "is_path g (rev (u # parents_from parent n u)) \<and> last (u # parents_from parent n u) = start"
  using assms
proof (induction arbitrary: u n rule: grown.induct)
  case 1
  then show ?case by (simp add: parents_from_start is_path_def)
next
  case (2 parent w v)
  show ?case
  proof (cases "u = v")
    case True
    from 2 obtain n' where n: "n = Suc n'" "length parent \<le> n'" by (cases n) auto
    have "parents_from (parent @ [(v, w)]) n u = w # parents_from parent n' w"
      using parents_from_snoc [OF "2.hyps"(1,5,2,4)] by (simp add: n(1) True hget_snoc [OF "2.hyps"(5)])
    moreover have "last (rev (w # parents_from parent n' w)) = w" by simp
    ultimately show ?thesis
      using "2.IH" [OF "2.hyps"(2) n(2)] is_path_snoc [of g "rev (w # parents_from parent n' w)" u] "2.hyps"(3) True
      by simp
  next
    case False
    then have u: "u = start \<or> u \<in> fst ` set parent" using "2.prems"(1) by auto
    show ?thesis
      using parents_from_snoc [OF "2.hyps"(1,5) u "2.hyps"(4)] "2.IH" [OF u, of n] "2.prems"(2) by simp
  qed
qed

text \<open>What the search keeps: the queue holds tree nodes, and every other tree node has been scanned.\<close>

definition bfs_inv :: "graph \<Rightarrow> nat \<Rightarrow> (nat, nat) hmap \<Rightarrow> nat list \<Rightarrow> bool" where
  "bfs_inv g start parent queue \<longleftrightarrow>
     grown g start parent \<and> set queue \<subseteq> insert start (fst ` set parent) \<and>
     (\<forall>u \<in> insert start (fst ` set parent). u \<in> set queue \<or>
        (\<forall>w. edge g u w \<longrightarrow> w \<noteq> start \<and> w \<in> fst ` set parent))"

lemma grown_length:
  assumes "grown g start parent" "graph_wf g"
  shows "length parent \<le> length g"
proof -
  from assms(1) have "distinct (map fst parent)" "fst ` set parent \<subseteq> {..<length g}"
    by (induction rule: grown.induct) (auto dest: graph_wf_edge [OF assms(2)])
  then show ?thesis by (metis card_lessThan card_mono distinct_card finite_lessThan length_map list.set_map)
qed

text \<open>The nodes a scan adds, each once to the tree and to the queue.\<close>

definition scanned :: "nat list \<Rightarrow> (nat, nat) hmap \<Rightarrow> nat list \<Rightarrow> (nat, nat) hmap \<Rightarrow> nat list \<Rightarrow> bool" where
  "scanned new parent queue parent' queue' \<longleftrightarrow>
     queue' = queue @ new \<and> fst ` set parent' = fst ` set parent \<union> set new \<and>
     length parent' = length parent + length new"

lemma scan_edges_grown:
  assumes "grown g start parent" "u = start \<or> u \<in> fst ` set parent" "\<forall>v \<in> set vs. edge g u v"
    "scan_edges start u vs parent queue = (found, parent', queue')"
  shows "grown g start parent' \<and> (\<exists>new. scanned new parent queue parent' queue') \<and>
    (found \<longrightarrow> start \<in> set vs) \<and> (\<not> found \<longrightarrow> start \<notin> set vs \<and> set vs \<subseteq> fst ` set parent')"
  using assms
proof (induction start u vs parent queue rule: scan_edges.induct)
  case (1 start u parent queue)
  then show ?case by (auto simp: scanned_def intro: exI [of _ "[]"])
next
  case (2 start u v vs parent queue)
  consider "v = start" | "v \<noteq> start" "v \<in> fst ` set parent" | "v \<noteq> start" "v \<notin> fst ` set parent" by blast
  then show ?case
  proof cases
    case 1
    then show ?thesis using 2 by (auto simp: scanned_def intro: exI [of _ "[]"])
  next
    case 2
    have k: "hget parent v \<noteq> None" using 2 by (simp add: hget_None_iff)
    then have "scan_edges start u vs parent queue = (found, parent', queue')"
      using "2.prems"(4) 2 by (simp del: not_None_eq)
    from "2.IH"(2) [OF 2(1) k "2.prems"(1,2) _ this] "2.prems"(3) have
      "grown g start parent'" and n: "\<exists>new. scanned new parent queue parent' queue'" and
      "found \<longrightarrow> start \<in> set vs" "\<not> found \<longrightarrow> start \<notin> set vs \<and> set vs \<subseteq> fst ` set parent'" by auto
    moreover have "v \<in> fst ` set parent'" using n 2(2) by (auto simp: scanned_def)
    ultimately show ?thesis using 2(1) by auto
  next
    case 3
    have k: "hget parent v = None" and i: "hinsert v u parent = parent @ [(v, u)]"
      using 3 by (simp_all add: hget_None_iff hinsert_new)
    have g: "grown g start (parent @ [(v, u)])" using "2.prems"(1-3) 3 by (intro grown.intros) auto
    have s: "scan_edges start u vs (parent @ [(v, u)]) (queue @ [v]) = (found, parent', queue')"
      using "2.prems"(4) k i 3 by simp
    have u: "u = start \<or> u \<in> fst ` set (parent @ [(v, u)])" and e: "\<forall>w \<in> set vs. edge g u w"
      using "2.prems"(2,3) by auto
    from "2.IH"(1) [OF 3(1) k, unfolded i, OF g u e s] obtain new where
      "grown g start parent'" and n: "scanned new (parent @ [(v, u)]) (queue @ [v]) parent' queue'" and
      "found \<longrightarrow> start \<in> set vs" "\<not> found \<longrightarrow> start \<notin> set vs \<and> set vs \<subseteq> fst ` set parent'" by auto
    moreover have "scanned (v # new) parent queue parent' queue'" using n by (auto simp: scanned_def)
    moreover have "v \<in> fst ` set parent'" using n by (auto simp: scanned_def)
    ultimately show ?thesis using 3(1) by auto
  qed
qed

text \<open>A set closed under edges that holds \<open>start\<close> but no edge to it has no cycle through it.\<close>

lemma closed_no_cycle:
  assumes "start \<in> X" "\<And>u w. u \<in> X \<Longrightarrow> edge g u w \<Longrightarrow> w \<noteq> start \<and> w \<in> X"
  shows "(start, start) \<notin> (edges g)\<^sup>+"
proof
  assume "(start, start) \<in> (edges g)\<^sup>+"
  moreover have "(a, b) \<in> (edges g)\<^sup>+ \<Longrightarrow> a \<in> X \<Longrightarrow> b \<noteq> start \<and> b \<in> X" for a b
    by (induction rule: trancl_induct) (use assms(2) in auto)
  ultimately show False using assms(1) by blast
qed

lemma bfs_search_correct:
  assumes "graph_wf g" "start < length g" "(start, start) \<in> (edges g)\<^sup>+"
    and "bfs_inv g start parent queue" "length g - length parent + length queue \<le> fuel"
  shows "\<exists>parent' u. bfs_search g start fuel parent queue fin = Inr (parent', u) \<and> grown g start parent' \<and>
    (u = start \<or> u \<in> fst ` set parent') \<and> edge g u start"
  using assms
proof (induction g start fuel parent queue fin rule: bfs_search.induct)
  case (1 g start fuel parent fin)
  then have "(start, start) \<notin> (edges g)\<^sup>+"
    by (intro closed_no_cycle [of _ "insert start (fst ` set parent)"]) (auto simp: bfs_inv_def)
  with 1 show ?case by simp
next
  case (2 g start parent u queue fin)
  then show ?case by simp
next
  case (3 g start fuel parent u queue fin)
  from "3.prems"(4) have gr: "grown g start parent" and u: "u = start \<or> u \<in> fst ` set parent"
    by (auto simp: bfs_inv_def)
  have ul: "u < length g" using u "3.prems"(2) gr
  proof (elim disjE)
    assume "u \<in> fst ` set parent"
    with gr show ?thesis by (induction rule: grown.induct) (auto dest: graph_wf_edge [OF "3.prems"(1)])
  qed auto
  obtain found parent' queue' where s: "scan_edges start u (g ! u) parent queue = (found, parent', queue')"
    by (metis prod_cases3)
  have "\<forall>v \<in> set (g ! u). edge g u v" using ul by (simp add: edge_def)
  note sc = scan_edges_grown [OF gr u this s]
  then obtain new where n: "scanned new parent queue parent' queue'" by meson
  have gr': "grown g start parent'" and
    f: "found \<longrightarrow> start \<in> set (g ! u)" "\<not> found \<longrightarrow> start \<notin> set (g ! u) \<and> set (g ! u) \<subseteq> fst ` set parent'"
    using sc by (simp_all del: split_paired_Ex)
  show ?case
  proof (cases found)
    case True
    with s f(1) ul u gr' n show ?thesis by (auto simp: index_err_def edge_def scanned_def)
  next
    case False
    have "bfs_inv g start parent' queue'"
      unfolding bfs_inv_def
    proof (intro conjI ballI)
      show "set queue' \<subseteq> insert start (fst ` set parent')"
        using "3.prems"(4) n by (auto simp: bfs_inv_def scanned_def)
    next
      fix x assume x: "x \<in> insert start (fst ` set parent')"
      show "x \<in> set queue' \<or> (\<forall>w. edge g x w \<longrightarrow> w \<noteq> start \<and> w \<in> fst ` set parent')"
      proof (cases "x = u")
        case True
        then show ?thesis using f(2) False by (auto simp: edge_def)
      next
        case neq: False
        from x n consider "x \<in> set new" | "x \<in> insert start (fst ` set parent)" by (auto simp: scanned_def)
        then show ?thesis using "3.prems"(4) n neq by cases (auto simp: bfs_inv_def scanned_def)
      qed
    qed (rule gr')
    moreover have "length g - length parent' + length queue' \<le> fuel"
      using "3.prems"(5) n grown_length [OF gr' "3.prems"(1)] by (auto simp: scanned_def)
    moreover have "index_err g u = Inr (g ! u)" "(found, parent', queue') = scan_edges start u (g ! u) parent queue"
      using ul s by (simp_all add: index_err_def)
    ultimately show ?thesis
      using "3.IH" [of "g ! u" found "(parent', queue')" parent' queue'] "3.prems"(1-3) s False by simp
  qed
qed

section \<open>The cycle's names\<close>

lemma first_least_nth: "xs \<noteq> [] \<Longrightarrow> first_least xs < length xs \<and> (\<forall>y \<in> set xs. xs ! first_least xs \<le> y)"
proof -
  assume n: "xs \<noteq> []"
  let ?P = "\<lambda>x. \<not> (\<forall>y \<in> set xs. x \<le> y)"
  have "Min (set xs) \<in> set xs" "\<not> ?P (Min (set xs))" using n by auto
  then have "takeWhile ?P xs \<noteq> xs" using takeWhile_eq_all_conv [of ?P xs] by blast
  moreover have "length (takeWhile ?P xs) = length xs \<Longrightarrow> takeWhile ?P xs = xs"
    using takeWhile_eq_take [of ?P xs] by simp
  ultimately have "length (takeWhile ?P xs) < length xs"
    using length_takeWhile_le [of ?P xs] by (meson le_neq_implies_less)
  then show ?thesis using nth_length_takeWhile [of ?P xs] by (simp add: first_least_def)
qed

text \<open>A closed chain of dependencies: each measure's formula reads the next, the last one's the first.\<close>

definition dependency_cycle :: "model \<Rightarrow> measure_id list \<Rightarrow> bool" where
  "dependency_cycle m ids \<longleftrightarrow>
     ids \<noteq> [] \<and> (\<forall>k < length ids. depends_on m (ids ! k) (ids ! (Suc k mod length ids)))"

lemma dependency_cycle_rotate: "dependency_cycle m ids \<Longrightarrow> dependency_cycle m (rotate n ids)"
proof -
  assume c: "dependency_cycle m ids"
  have "depends_on m (rotate n ids ! k) (rotate n ids ! (Suc k mod length ids))" if k: "k < length ids" for k
  proof -
    let ?l = "length ids"
    have l: "0 < ?l" using k by auto
    have "rotate n ids ! (Suc k mod ?l) = ids ! (Suc (n + k) mod ?l)"
      using l nth_rotate [of "Suc k mod ?l" ids n] by (simp add: mod_simps)
    moreover have "Suc (n + k) mod ?l = Suc ((n + k) mod ?l) mod ?l" by (simp add: mod_simps)
    moreover have "rotate n ids ! k = ids ! ((n + k) mod ?l)" using k by (rule nth_rotate)
    moreover have "(n + k) mod ?l < ?l" using l by simp
    ultimately show ?thesis using c unfolding dependency_cycle_def by simp
  qed
  then show ?thesis using c by (simp add: dependency_cycle_def)
qed

lemma index_all: "\<forall>k \<in> set ks. k < length ds \<Longrightarrow> rtraverse (index_err ds) ks = Inr (map ((!) ds) ks)"
  by (induction ks) (auto simp: index_err_def)

lemma measure_texts:
  "\<forall>i \<in> set ids. hget (measure_map m) i \<noteq> None \<Longrightarrow>
   rtraverse (measure_text m) ids = Inr (map (\<lambda>i. m_name (the (hget (measure_map m) i))) ids)"
  by (induction ids) (auto simp: measure_text_def)

text \<open>The text of a cycle: its names in order, from the first back to it.\<close>

definition cycle_text :: "model \<Rightarrow> measure_id list \<Rightarrow> string" where
  "cycle_text m ids = join_with arrow (map (\<lambda>i. m_name (the (hget (measure_map m) i))) (ids @ [hd ids]))"

lemma depends_on_derived: "depends_on m a b \<Longrightarrow> hget (measure_map m) a \<noteq> None"
  by (auto simp: depends_on_def derived_as_def)

lemma dependency_cycle_measure:
  assumes "dependency_cycle m ids" "i \<in> set ids"
  shows "hget (measure_map m) i \<noteq> None"
proof -
  obtain k where "k < length ids" "ids ! k = i" using assms(2) by (auto simp: in_set_conv_nth)
  with assms(1) show ?thesis unfolding dependency_cycle_def by (metis depends_on_derived)
qed

lemma cycle_names_correct:
  assumes m: "hkeys_distinct (measure_map m)" "ds = derived_measures m" and st: "start < length ds"
    and c: "(start, start) \<in> (edges (derived_graph ds))\<^sup>+"
  shows "\<exists>ids. cycle_names m ds (derived_graph ds) start = Inr (cycle_text m ids) \<and> dependency_cycle m ids \<and>
    (\<forall>i \<in> set ids. hd ids \<le> i \<and> (fst (ds ! start), i) \<in> (depends_rel m)\<^sup>*)"
proof -
  let ?g = "derived_graph ds"
  have "bfs_inv ?g start [] [start]" by (simp add: bfs_inv_def grown.intros)
  from bfs_search_correct [OF derived_graph_wf [OF m] _ c this, of "length ?g + 1" start] st
  obtain parent u where b: "bfs_search ?g start (length ?g + 1) [] [start] start = Inr (parent, u)" and
    gr: "grown ?g start parent" "u = start \<or> u \<in> fst ` set parent" and e: "edge ?g u start"
    by auto
  define p where "p = rev (u # parents_from parent (length parent) u)"
  from grown_path [OF gr order.refl] have p: "is_path ?g p" "hd p = start" "last p = u" "p \<noteq> []"
    by (simp_all add: p_def hd_rev hd_append split: if_splits)
  then have p0: "p ! 0 = start" by (simp add: hd_conv_nth)
  have pe: "edge ?g (p ! k) (p ! (Suc k mod length p))" if k: "k < length p" for k
  proof (cases "Suc k < length p")
    case True
    then show ?thesis using p(1) by (auto simp: is_path_def)
  next
    case False
    then have "k = length p - 1" using k by simp
    then have "p ! k = last p" "Suc k mod length p = 0" using p(4) by (simp_all add: last_conv_nth)
    then show ?thesis using e p(3) p0 by simp
  qed
  have pl: "k < length ds" if kp: "k \<in> set p" for k
  proof -
    obtain j where "j < length p" "p ! j = k" using kp by (auto simp: in_set_conv_nth)
    then have "edge ?g k (p ! (Suc j mod length p))" using pe [of j] by simp
    then show ?thesis by (simp add: edge_derived_graph [OF m])
  qed
  let ?ids = "map (\<lambda>k. fst (ds ! k)) p"
  have cyc: "dependency_cycle m ?ids"
    unfolding dependency_cycle_def
  proof (intro conjI allI impI)
    fix k assume k: "k < length ?ids"
    then have "Suc k mod length p < length p" by (intro mod_less_divisor) auto
    with k pe [of k] show "depends_on m (?ids ! k) (?ids ! (Suc k mod length ?ids))"
      by (simp add: edge_derived_graph [OF m])
  qed (use p(4) in simp)
  let ?low = "first_least ?ids" let ?r = "rotate ?low ?ids"
  have low: "?low < length ?ids" "\<forall>i \<in> set ?ids. ?ids ! ?low \<le> i" using first_least_nth [of ?ids] p(4) by auto
  have hd: "hd ?r = ?ids ! ?low" using low(1) p(4) hd_rotate_conv_nth [of ?ids ?low] by simp
  have r: "dependency_cycle m ?r" using cyc by (rule dependency_cycle_rotate)
  have "hget (measure_map m) i \<noteq> None" if "i \<in> set ?r" for i
    using r that by (rule dependency_cycle_measure)
  moreover have "hd ?r \<in> set ?r" using p(4) by (intro hd_in_set) simp
  ultimately have t: "rtraverse (measure_text m) (?r @ [hd ?r]) = Inr (map (\<lambda>i. m_name (the (hget (measure_map m) i))) (?r @ [hd ?r]))"
    by (intro measure_texts) auto
  have n: "rtraverse (index_err ds) p = Inr (map ((!) ds) p)" using pl by (intro index_all) auto
  have "map fst (map ((!) ds) p) = ?ids" by simp
  then have "cycle_names m ds ?g start = Inr (cycle_text m ?r)"
    unfolding cycle_names_def b rbind_simps prod.case Let_def p_def [symmetric]
    by (simp only: n rbind_simps prod.case Let_def t rmap_simps cycle_text_def)
  moreover have "(fst (ds ! start), i) \<in> (depends_rel m)\<^sup>*" if "i \<in> set ?r" for i
  proof -
    from that obtain k where k: "k \<in> set p" "i = fst (ds ! k)" by auto
    then obtain j where j: "j < length p" "p ! j = k" by (auto simp: in_set_conv_nth)
    have "(start, k) \<in> (edges ?g)\<^sup>*" using path_rtrancl [OF p(1), of 0 j] j p0 by simp
    then show ?thesis using rtrancl_derived_graph [OF m st] k(2) by blast
  qed
  moreover have "\<forall>i \<in> set ?r. hd ?r \<le> i" using low(2) hd by simp
  ultimately show ?thesis using r by blast
qed

section \<open>Properties\<close>

text \<open>
  Two models of formulas over \<open>A\<close> (1), \<open>B\<close> (2) and \<open>C\<close> (3): \<open>A\<close> reads \<open>B\<close>, \<open>B\<close> reads \<open>C\<close>, and
  \<open>C\<close> is an input or reads \<open>B\<close>.
\<close>

definition sample_measure :: "u32 \<Rightarrow> string \<Rightarrow> measure_kind \<Rightarrow> measure_id \<times> measure" where
  "sample_measure i n k =
     (MeasureId i, \<lparr>m_id = MeasureId i, m_name = n, m_type = TNumber, m_cats = [], m_kind = k, m_desc = None,
        m_format = None\<rparr>)"

definition reads_formula :: "u32 \<Rightarrow> measure_kind" where
  "reads_formula i = Derived (new_formula (Ref (MeasureId i) default_spec))"

definition chain_model :: "measure_kind \<Rightarrow> model" where
  "chain_model k =
     new_model\<lparr>measure_map := [sample_measure 1 ''A'' (reads_formula 2), sample_measure 3 ''C'' k,
       sample_measure 2 ''B'' (reads_formula 3)]\<rparr>"

lemma chain_model_distinct: "hkeys_distinct (measure_map (chain_model k))"
  by (simp add: chain_model_def hkeys_distinct_def sample_measure_def)

text \<open>
  C14. The build order: the derived measures the targets need, and only those, each once and
  after every derived measure its formula reads (itself aside), with the formula the model has.
\<close>

theorem derived_build_order_sound:
  assumes "hkeys_distinct (measure_map m)" "derived_build_order m targets = Inr order"
  shows "distinct (map fst order) \<and> set (map fst order) = needed m targets \<and>
    (\<forall>(i, f) \<in> set order. derived_as m i f) \<and>
    (\<forall>k < length order. \<forall>b. depends_on m (fst (order ! k)) b \<longrightarrow> b \<in> set (map fst (take k order)))"
proof -
  define ds where "ds = derived_measures m"
  define roots where "roots = List.map_filter (hget (derived_index ds)) targets"
  let ?g = "derived_graph ds"
  note m = assms(1) ds_def
  note rt = roots_of_targets [OF m roots_def]
  show ?thesis
  proof (rule build_order_cases [OF derived_graph_wf [OF m] rt(1)])
    fix w assume "build_order ?g roots = Inl (Cycle w)"
    then show ?thesis using assms(2)
      by (auto simp: derived_build_order_def Let_def ds_def roots_def rbind_Inr_iff)
  next
    fix ks st
    assume b: "build_order ?g roots = Inr ks" and inv: "dfs_inv ?g roots st ks" and r: "\<forall>r \<in> set roots. r \<in> set ks"
    have ks: "\<forall>k \<in> set ks. k < length ds" using inv by (auto simp: dfs_inv_def)
    with b assms(2) have o: "order = map ((!) ds) ks"
      by (simp add: derived_build_order_def Let_def ds_def [symmetric] roots_def [symmetric] index_all)
    have d: "distinct (map fst ds)" using derived_measures_distinct m by simp
    have top: "distinct ks" "\<And>k w. k < length ks \<Longrightarrow> edge ?g (ks ! k) w \<Longrightarrow> w \<in> set (take k ks)"
      using inv by (auto simp: dfs_inv_def topological_def)
    have inj: "inj_on (\<lambda>k. fst (ds ! k)) {..<length ds}"
      using d by (auto simp: inj_on_def distinct_conv_nth)
    have "distinct (map (\<lambda>k. fst (ds ! k)) ks)"
      using top(1) ks by (auto simp: distinct_map intro: inj_on_subset [OF inj])
    moreover have "set (map fst order) = needed m targets"
    proof (intro set_eqI iffI)
      fix i assume "i \<in> set (map fst order)"
      then obtain k where "k \<in> set ks" "i = fst (ds ! k)" by (auto simp: o)
      then show "i \<in> needed m targets" using dfs_inv_closed [OF inv r] rt(2) ks by auto
    next
      fix i assume i: "i \<in> needed m targets"
      then have "\<exists>f. derived_as m i f"
        unfolding needed_def by (auto elim: rtranclE simp: depends_rel_def depends_on_def)
      then obtain k where k: "k < length ds" "fst (ds ! k) = i" using derived_at [OF m] by (metis fst_conv)
      then have "k \<in> set ks" using dfs_inv_closed [OF inv r] rt(2) i by auto
      then show "i \<in> set (map fst order)" using k by (auto simp: o)
    qed
    moreover have "derived_as m i f" if "(i, f) \<in> set order" for i f
      using that ks derived_at [OF m] by (auto simp: o)
    moreover have "b \<in> set (map fst (take k order))" if k: "k < length order" and e: "depends_on m (fst (order ! k)) b" for k b
    proof -
      from e obtain f where "derived_as m b f" by (auto simp: depends_on_def)
      then obtain l where l: "l < length ds" "fst (ds ! l) = b" using derived_at [OF m] by (metis fst_conv)
      have "edge ?g (ks ! k) l" using e l k ks by (simp add: edge_derived_graph [OF m] o)
      then have "l \<in> set (take k ks)" using top(2) k by (simp add: o)
      then show ?thesis using l by (auto simp: o take_map)
    qed
    moreover have "map fst order = map (\<lambda>k. fst (ds ! k)) ks" by (simp add: o)
    ultimately show ?thesis by (intro conjI) auto
  qed
qed

lemma derived_build_order_sound_witness:
  "\<exists>order. derived_build_order (chain_model Input) [MeasureId 1] = Inr order \<and>
     map fst order = [MeasureId 2, MeasureId 1] \<and> set (map fst order) = needed (chain_model Input) [MeasureId 1]"
proof -
  have o: "derived_build_order (chain_model Input) [MeasureId 1] =
      Inr [(MeasureId 2, new_formula (Ref (MeasureId 3) default_spec)),
        (MeasureId 1, new_formula (Ref (MeasureId 2) default_spec))]" by code_simp
  from derived_build_order_sound [OF chain_model_distinct o] o show ?thesis by simp
qed

text \<open>
  C15. Without an order there is a cycle: the only error is a cycle's, and its text names measures
  that the targets need, each reading the next and the last the first, from the lowest id.
\<close>

theorem derived_build_order_cycle:
  assumes "hkeys_distinct (measure_map m)"
  shows "case derived_build_order m targets of
      Inr order \<Rightarrow> \<not> (\<exists>a \<in> needed m targets. (a, a) \<in> (depends_rel m)\<^sup>+)
    | Inl e \<Rightarrow> \<exists>ids. e = ECycle (cycle_text m ids) \<and> dependency_cycle m ids \<and> set ids \<subseteq> needed m targets \<and>
        (\<forall>i \<in> set ids. hd ids \<le> i)"
proof -
  define ds where "ds = derived_measures m"
  define roots where "roots = List.map_filter (hget (derived_index ds)) targets"
  let ?g = "derived_graph ds"
  note m = assms ds_def
  note rt = roots_of_targets [OF m roots_def]
  have d: "derived_build_order m targets =
      (case build_order ?g roots of Inr order \<Rightarrow> rtraverse (index_err ds) order
       | Inl (Cycle i) \<Rightarrow> rbind (cycle_names m ds ?g i) (\<lambda>t. Inl (ECycle t)) | Inl OutOfBounds \<Rightarrow> Inl EPanic)"
    by (simp only: derived_build_order_def ds_def roots_def Let_def)
  show ?thesis
  proof (rule build_order_cases [OF derived_graph_wf [OF m] rt(1)])
    fix w
    assume w: "build_order ?g roots = Inl (Cycle w)" "reachable ?g roots w" "(w, w) \<in> (edges ?g)\<^sup>+"
    then obtain l where "edge ?g w l" by (auto dest: tranclD)
    then have wl: "w < length ds" by (simp add: edge_derived_graph [OF m])
    from cycle_names_correct [OF m wl w(3)] obtain ids where
      ids: "cycle_names m ds ?g w = Inr (cycle_text m ids)" "dependency_cycle m ids"
        "\<forall>i \<in> set ids. hd ids \<le> i \<and> (fst (ds ! w), i) \<in> (depends_rel m)\<^sup>*" by blast
    have "fst (ds ! w) \<in> needed m targets" using w(2) rt(2) [OF wl] by blast
    then have "set ids \<subseteq> needed m targets"
      using ids(3) unfolding needed_def by (auto intro: rtrancl_trans)
    then show ?thesis using ids w(1) d by auto
  next
    fix ks st
    assume b: "build_order ?g roots = Inr ks" and inv: "dfs_inv ?g roots st ks" and r: "\<forall>r \<in> set roots. r \<in> set ks"
    have "\<not> (\<exists>a \<in> needed m targets. (a, a) \<in> (depends_rel m)\<^sup>+)"
    proof
      assume "\<exists>a \<in> needed m targets. (a, a) \<in> (depends_rel m)\<^sup>+"
      then obtain a a' where a: "a \<in> needed m targets" "depends_on m a a'" "(a', a) \<in> (depends_rel m)\<^sup>*"
        by (auto simp: depends_rel_def dest: tranclD)
      then obtain k k' where k: "k < length ds" "fst (ds ! k) = a" "k' < length ds" "fst (ds ! k') = a'"
        using derived_at [OF m] unfolding depends_on_def by (metis fst_conv)
      have "edge ?g k k'" "(k', k) \<in> (edges ?g)\<^sup>*"
        using a k by (simp_all add: edge_derived_graph [OF m] rtrancl_derived_graph [OF m])
      then have "(k, k) \<in> (edges ?g)\<^sup>+" by (meson edges_iff rtrancl_into_trancl2)
      moreover have "k \<in> set ks" using dfs_inv_closed [OF inv r] rt(2) a(1) k by auto
      moreover have "topological ?g ks" using inv by (simp add: dfs_inv_def)
      ultimately show False using topological_acyclic by blast
    qed
    moreover have "\<forall>k \<in> set ks. k < length ds" using inv by (auto simp: dfs_inv_def)
    ultimately show ?thesis using b d by (simp add: index_all)
  qed
qed

lemma derived_build_order_cycle_witness:
  "\<exists>ids. derived_build_order (chain_model (reads_formula 2)) [MeasureId 1] =
       Inl (ECycle (cycle_text (chain_model (reads_formula 2)) ids)) \<and>
     dependency_cycle (chain_model (reads_formula 2)) ids"
proof -
  let ?r = "derived_build_order (chain_model (reads_formula 2)) [MeasureId 1]"
  have "?r = Inl (ECycle (join_with arrow [''B'', ''C'', ''B'']))" by code_simp
  with derived_build_order_cycle [OF chain_model_distinct, of "reads_formula 2" "[MeasureId 1]"]
  show ?thesis by auto
qed

end
