(* ===== verification/Cell_Values.thy ===== *)
theory Cell_Values
  imports Cube_Model Coord_Keys Doubles "HOL-Library.Char_ord" "HOL-Library.List_Lexorder" "HOL-Library.Product_Lexorder"
begin

text \<open>
  The dataflow's encodings in \<open>crates/engine/src/lib.rs\<close>: a cell value and a coordinate's key, with
  the orders the code derives, and \<open>input_cell\<close> of \<open>session.rs\<close>, the cell an input contributes. An
  instant is its milliseconds since the epoch, as in \<open>Values\<close>.
\<close>

datatype cell_value =
    VNum u64
  | VBool bool
  | VText string
  | VDate int
  | VErr u8

text \<open>\<open>derive(Ord)\<close>: by variant, then by its content (text by bytes).\<close>

fun cell_rank :: "cell_value \<Rightarrow> nat \<times> u64 \<times> bool \<times> string \<times> int \<times> u8" where
  "cell_rank (VNum x) = (0, x, False, [], 0, 0)"
| "cell_rank (VBool b) = (1, 0, b, [], 0, 0)"
| "cell_rank (VText t) = (2, 0, False, t, 0, 0)"
| "cell_rank (VDate d) = (3, 0, False, [], d, 0)"
| "cell_rank (VErr e) = (4, 0, False, [], 0, e)"

lemma cell_rank_inject: "cell_rank a = cell_rank b \<Longrightarrow> a = b"
  by (cases a; cases b) auto

instantiation cell_value :: linorder
begin

definition less_eq_cell_value :: "cell_value \<Rightarrow> cell_value \<Rightarrow> bool" where
  "less_eq_cell_value a b \<longleftrightarrow> cell_rank a \<le> cell_rank b"

definition less_cell_value :: "cell_value \<Rightarrow> cell_value \<Rightarrow> bool" where
  "less_cell_value a b \<longleftrightarrow> cell_rank a < cell_rank b"

instance
  by standard (auto simp: less_eq_cell_value_def less_cell_value_def intro: cell_rank_inject)

end

definition from_model_value :: "val \<Rightarrow> cell_value option" where
  "from_model_value v =
     (case v of
        Number n \<Rightarrow> Some (VNum n)
      | Boolean b \<Rightarrow> Some (VBool b)
      | Text t \<Rightarrow> Some (VText t)
      | Enum e \<Rightarrow> Some (VNum (f64_of_nat (unat e)))
      | DateTime d \<Rightarrow> Some (VDate d)
      | Error e \<Rightarrow> Some (VErr (case error_type (err_kind e) of Some c \<Rightarrow> c | None \<Rightarrow> 0)))"

definition input_cell :: "value_type \<Rightarrow> val \<Rightarrow> cell_value option" where
  "input_cell ty v =
     (if (case (ty, v) of
            (TNumber, Number _) \<Rightarrow> True
          | (TBoolean, Boolean _) \<Rightarrow> True
          | (TText, Text _) \<Rightarrow> True
          | (TDateTime, DateTime _) \<Rightarrow> True
          | _ \<Rightarrow> False)
      then from_model_value v else None)"

definition encode_coord :: "coordinate \<Rightarrow> coord_key" where
  "encode_coord c = map (\<lambda>(k, i). (raw_category k, raw_item i)) c"

definition decode_coord :: "coord_key \<Rightarrow> coordinate" where
  "decode_coord k = coordinate_from_pairs (map (\<lambda>(c, i). (CategoryId c, ItemId i)) k)"

end
