(* ===== verification/Session_Rounds.thy ===== *)
theory Session_Rounds
  imports Cell_Values
begin

text \<open>
  The live engine's edit rounds in \<open>crates/engine/src/session.rs\<close>: the worker keeps the input cells
  it fed and a snapshot of the derived ones, and applies the deltas the dataflow sends. The dataflow
  itself (the crates timely and differential-dataflow) is a parameter \<open>flow\<close>: the deltas it sends
  for the last of the batches of records fed so far. Models with a \<open>FIXPOINT\<close> are left out, and
  counts (\<open>isize\<close>) are integers.
\<close>

section \<open>Snapshots\<close>

type_synonym cells = "(coord_key, cell_value) hmap"
type_synonym snapshot = "(measure_id, cells) hmap"

text \<open>A change of one record: measure, cell, value and how often it was added.\<close>

type_synonym delta = "measure_id \<times> coord_key \<times> cell_value \<times> int"

type_synonym before = "(measure_id \<times> coord_key, cell_value option) hmap"

definition hremove :: "'k \<Rightarrow> ('k, 'v) hmap \<Rightarrow> ('k, 'v) hmap" where
  "hremove k m = AList.delete k m"

text \<open>\<open>entry(k).or_default()\<close>, as it is read.\<close>

definition cells_of :: "snapshot \<Rightarrow> measure_id \<Rightarrow> cells" where
  "cells_of s m = (case hget s m of Some c \<Rightarrow> c | None \<Rightarrow> [])"

definition cell :: "snapshot \<Rightarrow> measure_id \<Rightarrow> coord_key \<Rightarrow> cell_value option" where
  "cell s m k = hget (cells_of s m) k"

text \<open>\<open>entry(k).or_insert_with(v)\<close>: the entry stays if there is one.\<close>

definition or_insert :: "'k \<Rightarrow> 'v \<Rightarrow> ('k, 'v) hmap \<Rightarrow> ('k, 'v) hmap" where
  "or_insert k v m = (if hget m k = None then hinsert k v m else m)"

definition set_add :: "'a \<Rightarrow> 'a list \<Rightarrow> 'a list" where
  "set_add x xs = (if x \<in> set xs then xs else xs @ [x])"

section \<open>Settling a round\<close>

text \<open>What the worker's dataflow callbacks share: the snapshot, the measures changed, and the log.\<close>

record round_state =
  snap :: snapshot
  dirty :: "measure_id list"
  log :: "before option"

fun delta_key :: "delta \<Rightarrow> measure_id \<times> coord_key \<times> cell_value" where
  "delta_key (m, k, v, n) = (m, k, v)"

fun delta_count :: "delta \<Rightarrow> int" where
  "delta_count (m, k, v, n) = n"

text \<open>The loop over the sorted deltas: one that has the key of the last is added to it.\<close>

fun consolidate :: "delta list \<Rightarrow> delta list" where
  "consolidate [] = []"
| "consolidate [x] = [x]"
| "consolidate ((m, k, v, a) # (m', k', v', b) # ds) =
     (if (m, k, v) = (m', k', v') then consolidate ((m, k, v, a + b) # ds)
      else (m, k, v, a) # consolidate ((m', k', v', b) # ds))"

text \<open>One delta in the pass of the retractions (\<open>False\<close>) or the assertions (\<open>True\<close>).\<close>

fun settle_one :: "bool \<Rightarrow> delta \<Rightarrow> round_state \<Rightarrow> round_state" where
  "settle_one pass (m, k, v, n) r =
     (if n = 0 \<or> (0 < n) \<noteq> pass then r
      else
        let c = cells_of (snap r) m;
            c' = (if pass then hinsert k v c else if hget c k = Some v then hremove k c else c)
        in \<lparr>snap = hinsert m c' (snap r), dirty = set_add m (dirty r),
            log = map_option (or_insert (m, k) (hget c k)) (log r)\<rparr>)"

definition settle :: "delta list \<Rightarrow> round_state \<Rightarrow> round_state" where
  "settle ds r =
     (if ds = [] then r
      else let net = consolidate (sort_key delta_key ds)
           in fold (settle_one True) net (fold (settle_one False) net r))"

text \<open>The seed's deltas, at time 0, are applied as they arrive.\<close>

fun seed_one :: "delta \<Rightarrow> round_state \<Rightarrow> round_state" where
  "seed_one (m, k, v, n) r =
     (let c = cells_of (snap r) m;
          c' = (if 0 < n then hinsert k v c else if n < 0 \<and> hget c k = Some v then hremove k c else c)
      in r\<lparr>snap := hinsert m c' (snap r), dirty := set_add m (dirty r)\<rparr>)"

section \<open>What a round changed\<close>

record cell_change =
  ch_coord :: coord_key
  ch_old :: "cell_value option"
  ch_new :: "cell_value option"

type_synonym changes = "(measure_id, cell_change list) bmap"

definition note_changes :: "measure_id \<Rightarrow> cells \<Rightarrow> cells \<Rightarrow> before \<Rightarrow> before" where
  "note_changes m old new b =
     fold (\<lambda>k. or_insert (m, k) None) (filter (\<lambda>k. hget old k = None) (map fst new))
       (fold (\<lambda>(k, v) b. if hget new k \<noteq> Some v then or_insert (m, k) (Some v) b else b) old b)"

definition push_change :: "measure_id \<Rightarrow> cell_change \<Rightarrow> changes \<Rightarrow> changes" where
  "push_change m c out = binsert m ((case bget out m of Some cs \<Rightarrow> cs | None \<Rightarrow> []) @ [c]) out"

definition change_one ::
  "snapshot \<Rightarrow> measure_id list \<Rightarrow> (measure_id \<times> coord_key) \<times> cell_value option \<Rightarrow> changes \<Rightarrow> changes" where
  "change_one s hidden = (\<lambda>((m, k), old) out.
     if m \<in> set hidden then out
     else let new = cell s m k
          in if old \<noteq> new then push_change m \<lparr>ch_coord = k, ch_old = old, ch_new = new\<rparr> out else out)"

definition changes_of :: "snapshot \<Rightarrow> before \<Rightarrow> measure_id list \<Rightarrow> changes" where
  "changes_of s b hidden =
     map (\<lambda>(m, cs). (m, sort_key ch_coord cs)) (fold (change_one s hidden) b [])"

section \<open>The worker\<close>

record edit =
  e_measure :: measure_id
  e_coord :: coord_key
  e_value :: "cell_value option"

text \<open>\<open>sorted\<close>: each coordinate in the engine's key form.\<close>

definition sorted_edits :: "edit list \<Rightarrow> edit list" where
  "sorted_edits es = map (\<lambda>e. e\<lparr>e_coord := sort (e_coord e)\<rparr>) es"

type_synonym dataflow = "delta list list \<Rightarrow> delta list"

text \<open>
  \<open>sessions\<close> are the measures with an input session, \<open>fed\<close> the batches of records they were fed, and
  \<open>cells_in\<close> the input cells the worker keeps; \<open>flow\<close> answers for the derived measures.
\<close>

record worker =
  sessions :: "measure_id list"
  fed :: "delta list list"
  cells_in :: snapshot
  state :: round_state

text \<open>One edit: the old value is retracted and the new one asserted, on a session there is.\<close>

definition feed_edit :: "edit \<Rightarrow> worker \<times> delta list \<Rightarrow> worker \<times> delta list" where
  "feed_edit e = (\<lambda>(w, now).
     let m = e_measure e; k = e_coord e in
     if m \<notin> set (sessions w) then (w, now)
     else
       let c = cells_of (cells_in w) m;
           (c1, now1) = (case hget c k of
                           Some old \<Rightarrow> (hremove k c, now @ [(m, k, old, -1)])
                         | None \<Rightarrow> (c, now));
           (c2, now2) = (case e_value e of
                           Some v \<Rightarrow> (hinsert k v c1, now1 @ [(m, k, v, 1)])
                         | None \<Rightarrow> (c1, now1))
       in (w\<lparr>cells_in := hinsert m c2 (cells_in w),
             state := (state w)\<lparr>dirty := set_add m (dirty (state w))\<rparr>\<rparr>, now2))"

text \<open>\<open>run_to\<close>: the dataflow takes what was fed and its deltas are settled.\<close>

definition run_to :: "dataflow \<Rightarrow> delta list \<Rightarrow> worker \<Rightarrow> worker" where
  "run_to flow now w =
     w\<lparr>fed := fed w @ [now], state := settle (flow (fed w @ [now])) (state w)\<rparr>"

datatype reply = RSnapshot snapshot | RChanges changes

datatype cmd = CmdEdit "edit list" bool | CmdSnapshot

text \<open>One command; the flag of an edit asks for the changes rather than the snapshot.\<close>

fun serve :: "dataflow \<Rightarrow> cmd \<Rightarrow> worker \<Rightarrow> worker \<times> reply" where
  "serve flow (CmdEdit es delta) w =
     (let r = state w;
          w1 = w\<lparr>state := r\<lparr>dirty := [], log := (if delta then Some [] else log r)\<rparr>\<rparr>;
          (w2, now) = fold feed_edit es (w1, []);
          w3 = run_to flow now w2
      in if delta
         then (w3\<lparr>state := (state w3)\<lparr>log := None\<rparr>\<rparr>,
               RChanges (changes_of (snap (state w3)) (case log (state w3) of Some b \<Rightarrow> b | None \<Rightarrow> []) []))
         else (w3, RSnapshot (snap (state w3))))"
| "serve flow CmdSnapshot w = (w, RSnapshot (snap (state w)))"

text \<open>\<open>apply\<close> and \<open>submit\<close> of the handle send sorted edits.\<close>

definition apply_edits :: "dataflow \<Rightarrow> edit list \<Rightarrow> worker \<Rightarrow> worker \<times> reply" where
  "apply_edits flow es w = serve flow (CmdEdit (sorted_edits es) False) w"

definition submit_edits :: "dataflow \<Rightarrow> edit list \<Rightarrow> worker \<Rightarrow> worker \<times> reply" where
  "submit_edits flow es w = serve flow (CmdEdit (sorted_edits es) True) w"

text \<open>The seed: an input cell of its measure's type becomes a record.\<close>

definition seed_of :: "model \<Rightarrow> (measure_id \<times> coord_key \<times> cell_value) list" where
  "seed_of m =
     List.map_filter (\<lambda>((i, c), v).
       case Option.bind (hget (measure_map m) i) (\<lambda>x. if is_input x then Some (m_type x) else None) of
         None \<Rightarrow> None
       | Some ty \<Rightarrow> map_option (\<lambda>cv. (i, encode_coord c, cv)) (input_cell ty v)) (inputs m)"

definition input_ids :: "model \<Rightarrow> measure_id list" where
  "input_ids m = map fst (filter (\<lambda>(_, x). is_input x) (measure_map m))"

definition seed_one_input ::
  "measure_id \<times> coord_key \<times> cell_value \<Rightarrow> worker \<times> delta list \<Rightarrow> worker \<times> delta list" where
  "seed_one_input = (\<lambda>(m, k, v) (w, now).
     if m \<in> set (sessions w)
     then (w\<lparr>cells_in := hinsert m (hinsert k v (cells_of (cells_in w) m)) (cells_in w)\<rparr>, now @ [(m, k, v, 1)])
     else (w, now))"

definition start_worker :: "dataflow \<Rightarrow> model \<Rightarrow> worker" where
  "start_worker flow m =
     (let w0 = \<lparr>sessions = input_ids m, fed = [], cells_in = [], state = \<lparr>snap = [], dirty = [], log = None\<rparr>\<rparr>;
          (w, now) = fold seed_one_input (seed_of m) (w0, [])
      in w\<lparr>fed := [now], state := fold seed_one (flow [now]) (state w)\<rparr>)"

end
