(* ===== verification/Session_Facts.thy ===== *)
theory Session_Facts
  imports Session_Rounds "HOL-Library.Multiset"
begin

text \<open>
  What the edit rounds of \<open>Session_Rounds\<close> promise: a round's deltas are settled by their net counts
  alone, the snapshot a worker keeps is what the dataflow computes from its input cells, and the
  changes a round reports are exactly the cells it changed.
\<close>

section \<open>Collections\<close>

text \<open>The net count of a record, and a collection that holds at most one value of a cell.\<close>

definition net :: "delta list \<Rightarrow> measure_id \<times> coord_key \<times> cell_value \<Rightarrow> int" where
  "net ds x = sum_list (map delta_count (filter (\<lambda>d. delta_key d = x) ds))"

definition holds :: "delta list \<Rightarrow> (measure_id \<Rightarrow> coord_key \<Rightarrow> cell_value option) \<Rightarrow> bool" where
  "holds ds f \<longleftrightarrow> (\<forall>m k v. net ds (m, k, v) = of_bool (f m k = Some v))"

lemma net_simps [simp]:
  "net [] x = 0"
  "net (d # ds) x = (if delta_key d = x then delta_count d + net ds x else net ds x)"
  "net (ds @ es) x = net ds x + net es x"
  by (simp_all add: net_def)

lemma net_mset: "mset ds = mset es \<Longrightarrow> net ds = net es"
proof (rule ext)
  fix x
  assume eq: "mset ds = mset es"
  have "net xs x = sum_mset (image_mset delta_count (filter_mset (\<lambda>d. delta_key d = x) (mset xs)))" for xs
    by (induction xs) simp_all
  then show "net ds x = net es x" by (simp add: eq)
qed

lemma net_not_in: "x \<notin> delta_key ` set ds \<Longrightarrow> net ds x = 0"
  by (induction ds) auto

section \<open>Consolidation\<close>

lemma net_consolidate [simp]: "net (consolidate ds) = net ds"
  by (induction ds rule: consolidate.induct) (auto simp: fun_eq_iff)

lemma consolidate_keys: "delta_key ` set (consolidate ds) = delta_key ` set ds"
  by (induction ds rule: consolidate.induct) auto

lemma consolidate_sorted:
  "sorted (map delta_key ds) \<Longrightarrow> sorted_wrt (<) (map delta_key (consolidate ds))"
proof (induction ds rule: consolidate.induct)
  case (3 m k v a m' k' v' b ds)
  show ?case
  proof (cases "(m, k, v) = (m', k', v')")
    case True
    with 3 show ?thesis by simp
  next
    case False
    let ?rest = "(m', k', v', b) # ds"
    have "\<forall>x \<in> delta_key ` set (consolidate ?rest). (m, k, v) < x"
      unfolding consolidate_keys using 3(3) False by (auto simp: order.strict_iff_order)
    moreover have "sorted_wrt (<) (map delta_key (consolidate ?rest))"
      using 3(2) [OF False] 3(3) by simp
    moreover have "consolidate ((m, k, v, a) # ?rest) = (m, k, v, a) # consolidate ?rest"
      using False by auto
    ultimately show ?thesis by (simp del: consolidate.simps)
  qed
qed simp_all

definition nets :: "delta list \<Rightarrow> delta list" where
  "nets ds = consolidate (sort_key delta_key ds)"

lemma nets_sorted: "sorted_wrt (<) (map delta_key (nets ds))"
  unfolding nets_def by (rule consolidate_sorted) simp

lemma net_nets [simp]: "net (nets ds) = net ds"
  unfolding nets_def net_consolidate by (rule net_mset) simp

lemma nets_keys: "delta_key ` set (nets ds) = delta_key ` set ds"
  unfolding nets_def consolidate_keys by simp

lemma distinct_net:
  assumes "distinct (map delta_key ds)" "d \<in> set ds"
  shows "delta_count d = net ds (delta_key d)"
  using assms
proof (induction ds)
  case (Cons x ds)
  then show ?case by (cases "d = x") (auto simp: net_not_in image_iff)
qed simp

lemma nets_count:
  assumes "d \<in> set (nets ds)"
  shows "delta_count d = net ds (delta_key d)"
  using distinct_net [OF _ assms] nets_sorted [of ds] by (simp add: strict_sorted_iff)

lemma nets_mset:
  assumes "mset ds = mset es"
  shows "nets ds = nets es"
proof -
  have keys: "map delta_key (nets ds) = map delta_key (nets es)"
    using nets_sorted [of ds] nets_sorted [of es] nets_keys [of ds] nets_keys [of es]
      mset_eq_setD [OF assms] by (intro strict_sorted_equal) auto
  have count: "map delta_count (nets xs) = map (net xs) (map delta_key (nets xs))" for xs
    by (simp add: nets_count)
  have "map delta_count (nets ds) = map delta_count (nets es)"
    unfolding count keys net_mset [OF assms] ..
  then have "zip (map delta_key (nets ds)) (map delta_count (nets ds)) =
      zip (map delta_key (nets es)) (map delta_count (nets es))"
    using keys by simp
  then have "map (\<lambda>d. (delta_key d, delta_count d)) (nets ds) = map (\<lambda>d. (delta_key d, delta_count d)) (nets es)"
    by (simp add: zip_map_map map_zip_map zip_same_conv_map split_def comp_def)
  moreover have "inj (\<lambda>d :: delta. (delta_key d, delta_count d))"
    by (rule injI) auto
  ultimately show ?thesis by (simp add: inj_map_eq_map)
qed

section \<open>Settling a round\<close>

lemma hget_hremove [simp]: "hget (hremove k m) k' = (if k' = k then None else hget m k')"
  by (simp add: hget_def hremove_def delete_conv)

lemma set_set_add [simp]: "set (set_add x xs) = insert x (set xs)"
  by (auto simp: set_add_def)

lemma hget_or_insert [simp]:
  "hget (or_insert k v m) k' = (if k' = k \<and> hget m k = None then Some v else hget m k')"
  by (simp add: or_insert_def)

lemma cell_hinsert [simp]:
  "cell (hinsert m c s) m' k = (if m' = m then hget c k else cell s m' k)"
  by (simp add: cell_def cells_of_def)

lemma hget_cells_of [simp]: "hget (cells_of s m) k = cell s m k"
  by (simp add: cell_def)

definition acts :: "bool \<Rightarrow> int \<Rightarrow> bool" where
  "acts pass n \<longleftrightarrow> (if pass then 0 < n else n < 0)"

lemma acts_iff: "acts pass n \<longleftrightarrow> \<not> (n = 0 \<or> (0 < n) \<noteq> pass)"
  by (auto simp: acts_def)

lemma cell_settle_one:
  "cell (snap (settle_one pass (m', k', v, n) r)) m k =
     (if acts pass n \<and> m' = m \<and> k' = k
      then (if pass then Some v else if cell (snap r) m k = Some v then None else cell (snap r) m k)
      else cell (snap r) m k)"
  by (auto simp: acts_iff Let_def)

lemma cell_retract:
  "cell (snap (fold (settle_one False) ds r)) m k =
     (case cell (snap r) m k of
        None \<Rightarrow> None
      | Some old \<Rightarrow> if \<exists>d \<in> set ds. delta_key d = (m, k, old) \<and> delta_count d < 0 then None else Some old)"
proof (induction ds arbitrary: r)
  case Nil
  then show ?case by (simp split: option.split)
next
  case (Cons d ds)
  obtain m' k' v n where d: "d = (m', k', v, n)" by (cases d)
  show ?case unfolding fold_Cons comp_apply Cons.IH unfolding d cell_settle_one
    by (auto simp: acts_def split: option.split)
qed

text \<open>The values a round asserts of a cell.\<close>

definition asserted :: "(measure_id \<times> coord_key \<times> cell_value \<Rightarrow> int) \<Rightarrow> measure_id \<Rightarrow> coord_key \<Rightarrow> cell_value set" where
  "asserted n m k = {v. 0 < n (m, k, v)}"

lemma cell_assert:
  assumes "sorted_wrt (<) (map delta_key ds)"
  shows "cell (snap (fold (settle_one True) ds r)) m k =
     (let V = {v. \<exists>n. (m, k, v, n) \<in> set ds \<and> 0 < n}
      in if V = {} then cell (snap r) m k else Some (Max V))"
  using assms
proof (induction ds rule: rev_induct)
  case Nil
  then show ?case by simp
next
  case (snoc d ds)
  obtain m' k' v n where d: "d = (m', k', v, n)" by (cases d)
  define V where "V ds = {v. \<exists>n. (m, k, v, n) \<in> set ds \<and> 0 < n}" for ds :: "delta list"
  have sorted: "sorted_wrt (<) (map delta_key ds)" and above: "\<forall>x \<in> set ds. delta_key x < (m', k', v)"
    using snoc.prems by (auto simp: sorted_wrt_append d)
  have fin: "finite (V ds)"
  proof (rule finite_subset)
    show "V ds \<subseteq> (\<lambda>(m, k, v, n). v) ` set ds" by (force simp: V_def)
  qed simp
  have IH: "cell (snap (fold (settle_one True) ds r)) m k = (if V ds = {} then cell (snap r) m k else Some (Max (V ds)))"
    unfolding V_def using snoc.IH [OF sorted] unfolding Let_def .
  have "cell (snap (fold (settle_one True) (ds @ [d]) r)) m k =
    (if V (ds @ [d]) = {} then cell (snap r) m k else Some (Max (V (ds @ [d]))))"
  proof (cases "acts True n \<and> m' = m \<and> k' = k")
    case True
    then have V: "V (ds @ [d]) = insert v (V ds)" by (auto simp: V_def d acts_def)
    have "\<forall>w \<in> V ds. w < v"
    proof
      fix w assume "w \<in> V ds"
      then obtain c where "(m, k, w, c) \<in> set ds" by (auto simp: V_def)
      from bspec [OF above this] True show "w < v" by simp
    qed
    with fin have "Max (insert v (V ds)) = v"
      by (intro Max_eqI) auto
    with True show ?thesis
      unfolding V by (simp add: d cell_settle_one del: settle_one.simps)
  next
    case False
    then have "V (ds @ [d]) = V ds" by (auto simp: V_def d acts_def)
    with False IH show ?thesis
      by (auto simp: d cell_settle_one simp del: settle_one.simps)
  qed
  then show ?case unfolding V_def Let_def .
qed

text \<open>
  A settled cell: the greatest asserted value, otherwise the old value unless it is retracted.
\<close>

definition settled ::
  "(measure_id \<times> coord_key \<times> cell_value \<Rightarrow> int) \<Rightarrow> measure_id \<Rightarrow> coord_key \<Rightarrow> cell_value option \<Rightarrow> cell_value option" where
  "settled n m k old =
     (if asserted n m k \<noteq> {} then Some (Max (asserted n m k))
      else case old of None \<Rightarrow> None | Some v \<Rightarrow> if n (m, k, v) < 0 then None else Some v)"

lemma mem_nets: "0 \<noteq> c \<Longrightarrow> (m, k, v, c) \<in> set (nets ds) \<longleftrightarrow> net ds (m, k, v) = c"
proof
  assume "(m, k, v, c) \<in> set (nets ds)"
  from nets_count [OF this] show "net ds (m, k, v) = c" by simp
next
  assume "0 \<noteq> c" and c: "net ds (m, k, v) = c"
  then have "(m, k, v) \<in> delta_key ` set (nets ds)"
    using net_not_in [of "(m, k, v)" "nets ds"] by auto
  then obtain d where d: "d \<in> set (nets ds)" "delta_key d = (m, k, v)" by auto
  then have "delta_count d = c" using nets_count [OF d(1)] c by simp
  with d(2) have "d = (m, k, v, c)" by (cases d) simp
  with d(1) show "(m, k, v, c) \<in> set (nets ds)" by simp
qed

lemma cell_settle: "cell (snap (settle ds r)) m k = settled (net ds) m k (cell (snap r) m k)"
proof (cases "ds = []")
  case True
  then show ?thesis by (simp add: settle_def settled_def asserted_def split: option.split)
next
  case False
  have pos: "{v. \<exists>n. (m, k, v, n) \<in> set (nets ds) \<and> 0 < n} = asserted (net ds) m k"
    unfolding asserted_def using mem_nets by (metis (no_types, lifting) less_irrefl)
  have neg: "(\<exists>d \<in> set (nets ds). delta_key d = (m, k, old) \<and> delta_count d < 0) \<longleftrightarrow> net ds (m, k, old) < 0" for old
  proof
    assume "\<exists>d \<in> set (nets ds). delta_key d = (m, k, old) \<and> delta_count d < 0"
    then show "net ds (m, k, old) < 0" using nets_count by (metis)
  next
    assume n: "net ds (m, k, old) < 0"
    then have "(m, k, old, net ds (m, k, old)) \<in> set (nets ds)" using mem_nets by auto
    with n show "\<exists>d \<in> set (nets ds). delta_key d = (m, k, old) \<and> delta_count d < 0" by force
  qed
  show ?thesis
    using False unfolding settle_def Let_def nets_def [symmetric]
    by (simp add: cell_assert [OF nets_sorted] pos cell_retract neg settled_def split: option.split)
qed

lemma settle_any_order:
  assumes "mset ds = mset es"
  shows "settle ds r = settle es r"
  using nets_mset [OF assms] assms by (auto simp: settle_def nets_def)

text \<open>A round whose net counts lead from the cell's value to another one leaves that one.\<close>

lemma settle_leads:
  assumes "\<And>v. net ds (m, k, v) = of_bool (new = Some v) - of_bool (cell (snap r) m k = Some v)"
  shows "cell (snap (settle ds r)) m k = new"
proof -
  have A: "asserted (net ds) m k = {v. new = Some v \<and> cell (snap r) m k \<noteq> new}"
    unfolding asserted_def assms by (auto simp: of_bool_def split: if_splits)
  show ?thesis
  proof (cases "new = None \<or> cell (snap r) m k = new")
    case True
    then have "asserted (net ds) m k = {}" using A by auto
    with True show ?thesis
      by (auto simp: cell_settle settled_def assms split: option.split)
  next
    case False
    then obtain v where "new = Some v" by auto
    moreover from this False have "asserted (net ds) m k = {v}" using A by auto
    ultimately show ?thesis by (simp add: cell_settle settled_def)
  qed
qed


section \<open>What a worker knows\<close>

text \<open>
  The contract of the dataflow for the derived measures' function \<open>out\<close>: fed collections with at
  most one value of a cell, the deltas of the first batch add up to what \<open>out\<close> gives, each of
  them an assertion, and those of a later batch add up to the difference.
\<close>

definition flow_ok ::
  "dataflow \<Rightarrow> ((measure_id \<Rightarrow> coord_key \<Rightarrow> cell_value option) \<Rightarrow> measure_id \<Rightarrow> coord_key \<Rightarrow> cell_value option) \<Rightarrow> bool" where
  "flow_ok flow out \<longleftrightarrow>
     (\<forall>b f. holds b f \<and> (\<forall>d \<in> set b. 0 < delta_count d) \<longrightarrow>
        holds (flow [b]) (out f) \<and> (\<forall>d \<in> set (flow [b]). 0 < delta_count d)) \<and>
     (\<forall>bs b f g. bs \<noteq> [] \<and> holds (concat bs) f \<and> holds (concat bs @ b) g \<longrightarrow>
        (\<forall>m k v. net (flow (bs @ [b])) (m, k, v) = of_bool (out g m k = Some v) - of_bool (out f m k = Some v)))"

text \<open>The workers an engine of the model can reach, command by command.\<close>

inductive reached :: "dataflow \<Rightarrow> model \<Rightarrow> worker \<Rightarrow> bool" for flow m where
  started: "reached flow m (start_worker flow m)"
| served: "reached flow m w \<Longrightarrow> reached flow m (fst (serve flow c w))"

inductive_cases reached_cases: "reached flow m w"

text \<open>The state every worker keeps: what it was fed is the collection of its input cells.\<close>

definition fed_ok :: "worker \<Rightarrow> bool" where
  "fed_ok w \<longleftrightarrow> fed w \<noteq> [] \<and> holds (concat (fed w)) (cell (cells_in w))"

definition shows_out ::
  "((measure_id \<Rightarrow> coord_key \<Rightarrow> cell_value option) \<Rightarrow> measure_id \<Rightarrow> coord_key \<Rightarrow> cell_value option) \<Rightarrow> worker \<Rightarrow> bool" where
  "shows_out out w \<longleftrightarrow> (\<forall>m k. cell (snap (state w)) m k = out (cell (cells_in w)) m k)"

lemma holds_None: "holds ds f \<Longrightarrow> f m k = None \<Longrightarrow> net ds (m, k, v) = 0"
  by (simp add: holds_def)

lemma feed_edit_fed [simp]: "fed (fst (feed_edit e (w, now))) = fed w"
  by (auto simp: feed_edit_def Let_def split_beta split: option.split)

lemma feed_edit_snap [simp]: "snap (state (fst (feed_edit e (w, now)))) = snap (state w)"
  by (auto simp: feed_edit_def Let_def split_beta split: option.split)

lemma feed_edit_log [simp]: "log (state (fst (feed_edit e (w, now)))) = log (state w)"
  by (auto simp: feed_edit_def Let_def split_beta split: option.split)

lemma feed_edit_sessions [simp]: "sessions (fst (feed_edit e (w, now))) = sessions w"
  by (auto simp: feed_edit_def Let_def split_beta split: option.split)

text \<open>An edit's cell afterwards, and the records it feeds.\<close>

lemma feed_edit_cell:
  "cell (cells_in (fst (feed_edit e (w, now)))) m k =
     (if e_measure e \<in> set (sessions w) \<and> m = e_measure e \<and> k = e_coord e then e_value e
      else cell (cells_in w) m k)"
  by (auto simp: feed_edit_def Let_def split_beta split: option.split)

lemma feed_edit_net:
  "net (snd (feed_edit e (w, now))) (m, k, v) = net now (m, k, v) +
     (if e_measure e \<in> set (sessions w) \<and> m = e_measure e \<and> k = e_coord e
      then of_bool (e_value e = Some v) - of_bool (cell (cells_in w) m k = Some v) else 0)"
proof (cases "e_measure e \<in> set (sessions w)")
  case True
  then show ?thesis
    by (cases "cell (cells_in w) (e_measure e) (e_coord e)"; cases "e_value e")
      (simp_all add: feed_edit_def Let_def)
qed (simp add: feed_edit_def)

lemma feed_edit_holds:
  assumes "holds (ds @ now) (cell (cells_in w))"
  shows "holds (ds @ snd (feed_edit e (w, now))) (cell (cells_in (fst (feed_edit e (w, now)))))"
  unfolding holds_def
proof (intro allI)
  fix m k v
  have sum: "net ds (m, k, v) + net now (m, k, v) = of_bool (cell (cells_in w) m k = Some v)"
    using assms by (simp add: holds_def)
  show "net (ds @ snd (feed_edit e (w, now))) (m, k, v) =
      of_bool (cell (cells_in (fst (feed_edit e (w, now)))) m k = Some v)"
  proof (cases "e_measure e \<in> set (sessions w) \<and> m = e_measure e \<and> k = e_coord e")
    case True
    show ?thesis unfolding feed_edit_cell net_simps feed_edit_net if_P [OF True] using sum by linarith
  next
    case False
    show ?thesis unfolding feed_edit_cell net_simps feed_edit_net if_not_P [OF False] using sum by linarith
  qed
qed

lemma fold_feed_edit:
  assumes "holds (ds @ now) (cell (cells_in w))" "fold feed_edit es (w, now) = (w', now')"
  shows "holds (ds @ now') (cell (cells_in w')) \<and> fed w' = fed w \<and> snap (state w') = snap (state w)
    \<and> log (state w') = log (state w)"
  using assms
proof (induction es arbitrary: w now)
  case (Cons e es)
  obtain w1 now1 where e: "feed_edit e (w, now) = (w1, now1)" by fastforce
  have "fold feed_edit es (w1, now1) = (w', now')" using Cons.prems(2) e by simp
  from Cons.IH [OF _ this] feed_edit_holds [OF Cons.prems(1), of e] show ?case
    using feed_edit_fed [of e w now] feed_edit_snap [of e w now] feed_edit_log [of e w now] by (simp add: e)
qed simp

text \<open>A round after the first keeps both parts of the worker's state.\<close>

lemma run_to_keeps:
  assumes flow: "flow_ok flow out" and ok: "fed_ok w" and now: "holds (concat (fed w) @ now) (cell (cells_in w'))"
    and w': "fed w' = fed w" "snap (state w') = snap (state w)" and shown: "shows_out out w"
  shows "fed_ok (run_to flow now w') \<and> shows_out out (run_to flow now w')"
proof -
  have "net (flow (fed w @ [now])) (m, k, v) =
      of_bool (out (cell (cells_in w')) m k = Some v) - of_bool (out (cell (cells_in w)) m k = Some v)" for m k v
    using flow ok now unfolding flow_ok_def fed_ok_def by blast
  then have "cell (snap (settle (flow (fed w @ [now])) (state w'))) m k = out (cell (cells_in w')) m k" for m k
    using shown by (intro settle_leads) (simp add: shows_out_def w'(2))
  then show ?thesis
    using now by (simp add: run_to_def fed_ok_def shows_out_def w'(1))
qed

lemma serve_keeps:
  assumes flow: "flow_ok flow out" and w: "fed_ok w" "shows_out out w"
  shows "fed_ok (fst (serve flow c w)) \<and> shows_out out (fst (serve flow c w))"
proof (cases c)
  case (CmdEdit es delta)
  define r where "r = state w"
  define w1 where "w1 = w\<lparr>state := r\<lparr>dirty := [], log := (if delta then Some [] else log r)\<rparr>\<rparr>"
  obtain w2 now where fold: "fold feed_edit es (w1, []) = (w2, now)" by fastforce
  have w1: "fed w1 = fed w" "snap (state w1) = snap (state w)" "cells_in w1 = cells_in w"
    by (simp_all add: w1_def r_def)
  have "holds (concat (fed w) @ []) (cell (cells_in w1))" using w(1) w1 by (simp add: fed_ok_def)
  from fold_feed_edit [OF this fold] w1
  have "holds (concat (fed w) @ now) (cell (cells_in w2))" "fed w2 = fed w" "snap (state w2) = snap (state w)"
    by simp_all
  from run_to_keeps [OF flow w(1) this w(2)] show ?thesis
    using fold by (simp add: CmdEdit Let_def fed_ok_def shows_out_def flip: r_def w1_def)
qed (use w in simp)


section \<open>The seed\<close>

lemma cell_seed_one:
  "0 < n \<Longrightarrow> cell (snap (seed_one (m', k', v, n) r)) m k = (if m' = m \<and> k' = k then Some v else cell (snap r) m k)"
  by (auto simp: Let_def)

lemma cell_fold_seed:
  assumes "\<forall>d \<in> set ds. 0 < delta_count d" "\<And>v n. (m, k, v, n) \<in> set ds \<Longrightarrow> new = Some v"
  shows "cell (snap (fold seed_one ds r)) m k =
     (if \<exists>v n. (m, k, v, n) \<in> set ds then new else cell (snap r) m k)"
  using assms
proof (induction ds arbitrary: r)
  case (Cons d ds)
  obtain m' k' v n where d: "d = (m', k', v, n)" by (cases d)
  have "cell (snap (fold seed_one ds (seed_one d r))) m k =
     (if \<exists>v n. (m, k, v, n) \<in> set ds then new else cell (snap (seed_one d r)) m k)"
    using Cons.prems by (intro Cons.IH) auto
  also have "cell (snap (seed_one d r)) m k = (if m' = m \<and> k' = k then Some v else cell (snap r) m k)"
    unfolding d using Cons.prems(1) by (intro cell_seed_one) (simp add: d)
  also have "(if \<exists>v n. (m, k, v, n) \<in> set ds then new else \<dots>) =
      (if \<exists>v n. (m, k, v, n) \<in> set (d # ds) then new else cell (snap r) m k)"
    using Cons.prems(2) [of v n] by (auto simp: d)
  finally show ?case by simp
qed simp

lemma net_positive:
  assumes "\<forall>d \<in> set ds. 0 < delta_count d"
  shows "0 < net ds (m, k, v) \<longleftrightarrow> (\<exists>n. (m, k, v, n) \<in> set ds)" "0 \<le> net ds (m, k, v)"
  using assms by (induction ds) force+

lemma seed_shown:
  assumes "holds ds f" "\<forall>d \<in> set ds. 0 < delta_count d" "cell (snap r) m k = None"
  shows "cell (snap (fold seed_one ds r)) m k = f m k"
proof -
  have mem: "(\<exists>n. (m, k, v, n) \<in> set ds) \<longleftrightarrow> f m k = Some v" for v
    unfolding net_positive(1) [OF assms(2), symmetric]
    using assms(1) by (simp add: holds_def of_bool_def)
  then have "cell (snap (fold seed_one ds r)) m k = (if \<exists>v n. (m, k, v, n) \<in> set ds then f m k else cell (snap r) m k)"
    using assms(2) by (intro cell_fold_seed) blast+
  then show ?thesis using mem assms(3) by (cases "f m k") auto
qed

lemma fold_seed_input:
  assumes "holds now (cell (cells_in w))" "\<forall>d \<in> set now. 0 < delta_count d"
    and "distinct (map (\<lambda>(m, k, v). (m, k)) xs)" "\<forall>(m, k, v) \<in> set xs. cell (cells_in w) m k = None"
    and "fold seed_one_input xs (w, now) = (w', now')"
  shows "holds now' (cell (cells_in w')) \<and> (\<forall>d \<in> set now'. 0 < delta_count d) \<and> state w' = state w"
  using assms
proof (induction xs arbitrary: w now)
  case (Cons x xs)
  obtain m k v where x: "x = (m, k, v)" by (cases x)
  show ?case
  proof (cases "m \<in> set (sessions w)")
    case True
    define w1 where "w1 = w\<lparr>cells_in := hinsert m (hinsert k v (cells_of (cells_in w) m)) (cells_in w)\<rparr>"
    have c: "cell (cells_in w1) m' k' = (if m' = m \<and> k' = k then Some v else cell (cells_in w) m' k')" for m' k'
      by (simp add: w1_def)
    have "fold seed_one_input xs (w1, now @ [(m, k, v, 1)]) = (w', now')"
      using Cons.prems(5) True by (simp add: x w1_def seed_one_input_def)
    moreover have "holds (now @ [(m, k, v, 1)]) (cell (cells_in w1))"
      using Cons.prems(1,4) by (auto simp: holds_def c x of_bool_def)
    moreover have "\<forall>(m, k, v) \<in> set xs. cell (cells_in w1) m k = None"
      using Cons.prems(3,4) by (force simp: c x)
    ultimately have "holds now' (cell (cells_in w')) \<and> (\<forall>d \<in> set now'. 0 < delta_count d) \<and> state w' = state w1"
      using Cons.prems(2,3) by (intro Cons.IH) auto
    then show ?thesis by (simp add: w1_def)
  next
    case False
    then have "fold seed_one_input xs (w, now) = (w', now')"
      using Cons.prems(5) by (simp add: x seed_one_input_def)
    then show ?thesis using Cons.prems by (intro Cons.IH) auto
  qed
qed simp

lemma encode_coord_inject: "encode_coord a = encode_coord b \<Longrightarrow> a = b"
  unfolding encode_coord_def
  by (rule map_inj_on [where f = "\<lambda>(k, i). (raw_category k, raw_item i)"])
    (auto simp: inj_on_def category_id.expand item_id.expand)

lemma seed_distinct:
  assumes "hkeys_distinct (inputs m)"
  shows "distinct (map (\<lambda>(m, k, v). (m, k)) (seed_of m))"
proof -
  have *: "distinct (map (\<lambda>(m, k, v). (m, k)) (List.map_filter g xs))"
    if "distinct (map fst xs)" and g: "\<And>i c v r. g ((i, c), v) = Some r \<Longrightarrow> \<exists>cv. r = (i, encode_coord c, cv)"
    for g :: "_ \<Rightarrow> (measure_id \<times> coord_key \<times> cell_value) option" and xs
    using that(1)
  proof (induction xs)
    case (Cons x xs)
    obtain i c v where x: "x = ((i, c), v)" by (cases x) auto
    show ?case
    proof (cases "g x")
      case (Some r)
      then obtain cv where r: "r = (i, encode_coord c, cv)" using g x by blast
      have "(i, encode_coord c) \<notin> set (map (\<lambda>(m, k, v). (m, k)) (List.map_filter g xs))"
      proof
        assume "(i, encode_coord c) \<in> set (map (\<lambda>(m, k, v). (m, k)) (List.map_filter g xs))"
        then obtain y d where y: "y \<in> set xs" "g y = Some (i, encode_coord c, d)"
          by (auto simp: map_filter_def)
        obtain i' c' v' where y': "y = ((i', c'), v')" by (cases y) auto
        from g [OF y(2) [unfolded y']] have "i' = i" "c' = c" by (auto dest: encode_coord_inject)
        with y(1) y' Cons.prems x show False by force
      qed
      with Some Cons r show ?thesis by (simp add: map_filter_def)
    qed (use Cons in \<open>simp add: map_filter_def\<close>)
  qed (simp add: map_filter_def)
  show ?thesis
    unfolding seed_of_def
  proof (rule *)
    show "distinct (map fst (inputs m))" using assms by (simp add: hkeys_distinct_def)
  qed (auto split: option.splits)
qed

lemma start_keeps:
  assumes flow: "flow_ok flow out" and keys: "hkeys_distinct (inputs m)"
  shows "fed_ok (start_worker flow m) \<and> shows_out out (start_worker flow m)"
proof -
  define w0 where
    "w0 = \<lparr>sessions = input_ids m, fed = [], cells_in = [], state = \<lparr>snap = [], dirty = [], log = None\<rparr>\<rparr>"
  obtain w now where fold: "fold seed_one_input (seed_of m) (w0, []) = (w, now)" by fastforce
  have empty: "cell [] i k = None" for i k by (simp add: cell_def cells_of_def)
  have "holds now (cell (cells_in w)) \<and> (\<forall>d \<in> set now. 0 < delta_count d) \<and> state w = state w0"
    by (rule fold_seed_input [OF _ _ seed_distinct [OF keys] _ fold])
      (simp_all add: w0_def holds_def empty split_beta)
  moreover from this have "holds (flow [now]) (out (cell (cells_in w)))" "\<forall>d \<in> set (flow [now]). 0 < delta_count d"
    using flow unfolding flow_ok_def by blast+
  then have "cell (snap (fold seed_one (flow [now]) (state w0))) i k = out (cell (cells_in w)) i k" for i k
    by (rule seed_shown) (simp add: w0_def empty)
  moreover have "start_worker flow m = w\<lparr>fed := [now], state := fold seed_one (flow [now]) (state w)\<rparr>"
    using fold by (simp add: start_worker_def w0_def)
  ultimately show ?thesis
    by (simp add: fed_ok_def shows_out_def)
qed

lemma reached_keeps:
  assumes "flow_ok flow out" "hkeys_distinct (inputs m)" "reached flow m w"
  shows "fed_ok w \<and> shows_out out w"
  using assms(3)
  by induction (use start_keeps [OF assms(1,2)] serve_keeps [OF assms(1)] in auto)


section \<open>The changes of a round\<close>

text \<open>The log has every changed cell at its value before.\<close>

definition log_ok :: "snapshot \<Rightarrow> before \<Rightarrow> snapshot \<Rightarrow> bool" where
  "log_ok s b s' \<longleftrightarrow>
     hkeys_distinct b \<and>
     (\<forall>m k. case hget b (m, k) of Some old \<Rightarrow> old = cell s m k | None \<Rightarrow> cell s' m k = cell s m k)"

lemma or_insert_distinct [simp]: "hkeys_distinct m \<Longrightarrow> hkeys_distinct (or_insert k v m)"
  by (simp add: or_insert_def)

lemma settle_one_log:
  assumes "log r = Some b" "log_ok s b (snap r)"
  shows "\<exists>b'. log (settle_one pass d r) = Some b' \<and> log_ok s b' (snap (settle_one pass d r))"
proof -
  obtain m' k' v n where d: "d = (m', k', v, n)" by (cases d)
  show ?thesis
  proof (cases "n = 0 \<or> (0 < n) \<noteq> pass")
    case True
    with assms show ?thesis unfolding d by simp
  next
    case False
    define b' where "b' = or_insert (m', k') (cell (snap r) m' k') b"
    define s' where "s' = snap (settle_one pass d r)"
    have "log (settle_one pass d r) = Some b'"
      using False assms(1) by (auto simp: d b'_def Let_def)
    moreover have "log_ok s b' s'"
      unfolding log_ok_def
    proof (intro conjI allI)
      show "hkeys_distinct b'" using assms(2) by (simp add: b'_def log_ok_def)
      fix m k
      have "cell s' m k = cell (snap r) m k" if "\<not> (m' = m \<and> k' = k)"
        using that unfolding s'_def d cell_settle_one by auto
      moreover have "case hget b (m, k) of Some old \<Rightarrow> old = cell s m k | None \<Rightarrow> cell (snap r) m k = cell s m k"
        using assms(2) by (simp add: log_ok_def)
      ultimately show "case hget b' (m, k) of Some old \<Rightarrow> old = cell s m k | None \<Rightarrow> cell s' m k = cell s m k"
        unfolding b'_def by (cases "m' = m \<and> k' = k") (auto split: option.splits)
    qed
    ultimately show ?thesis unfolding s'_def by blast
  qed
qed

lemma fold_settle_log:
  assumes "log r = Some b" "log_ok s b (snap r)"
  shows "\<exists>b'. log (fold (settle_one pass) ds r) = Some b' \<and> log_ok s b' (snap (fold (settle_one pass) ds r))"
  using assms
proof (induction ds arbitrary: r b)
  case (Cons d ds)
  obtain b1 where "log (settle_one pass d r) = Some b1" "log_ok s b1 (snap (settle_one pass d r))"
    using settle_one_log [OF Cons.prems] by blast
  from Cons.IH [OF this] show ?case by simp
qed simp

lemma settle_log:
  assumes "log r = Some b" "log_ok s b (snap r)"
  shows "\<exists>b'. log (settle ds r) = Some b' \<and> log_ok s b' (snap (settle ds r))"
proof (cases "ds = []")
  case False
  obtain b1 where "log (fold (settle_one False) (nets ds) r) = Some b1"
      "log_ok s b1 (snap (fold (settle_one False) (nets ds) r))"
    using fold_settle_log [OF assms] by blast
  from fold_settle_log [OF this, of True "nets ds"] show ?thesis
    using False by (simp add: settle_def nets_def Let_def)
qed (use assms in \<open>simp add: settle_def\<close>)

text \<open>\<open>note_changes\<close> keeps the log right when a measure's cells are replaced.\<close>

lemma hget_note_old:
  "distinct (map fst old) \<Longrightarrow>
   hget (fold (\<lambda>(k, v) b. if hget new k \<noteq> Some v then or_insert (m, k) (Some v) b else b) old b) (m', k') =
     (case hget b (m', k') of
        Some w \<Rightarrow> Some w
      | None \<Rightarrow> if m' = m \<and> hget old k' \<noteq> None \<and> hget new k' \<noteq> hget old k' then Some (hget old k') else None)"
proof (induction old arbitrary: b)
  case (Cons x old)
  obtain k v where x: "x = (k, v)" by (cases x)
  have k: "hget old k = None" using Cons.prems by (simp add: x hget_None_iff)
  show ?case
    using Cons k by (cases "hget b (m', k')"; cases "m' = m \<and> k' = k") (auto simp: x)
qed (simp split: option.split)

lemma hget_note_new:
  "hget (fold (\<lambda>k. or_insert (m, k) None) ks b) (m', k') =
     (case hget b (m', k') of Some w \<Rightarrow> Some w | None \<Rightarrow> if m' = m \<and> k' \<in> set ks then Some None else None)"
  by (induction ks arbitrary: b) (auto split: option.split)

lemma hget_note_changes:
  assumes "distinct (map fst old)"
  shows "hget (note_changes m old new b) (m', k) =
     (case hget b (m', k) of
        Some w \<Rightarrow> Some w
      | None \<Rightarrow> if m' = m \<and> hget new k \<noteq> hget old k then Some (hget old k) else None)"
  unfolding note_changes_def hget_note_new hget_note_old [OF assms]
  using hget_None_iff [of new k] by (auto split: option.split)

lemma note_changes_distinct:
  assumes "hkeys_distinct b"
  shows "hkeys_distinct (note_changes m old new b)"
proof -
  have "hkeys_distinct (fold (\<lambda>k. or_insert (m, k) None) ks b)" if "hkeys_distinct b" for ks and b :: before
    using that by (induction ks arbitrary: b) auto
  moreover have "hkeys_distinct (fold (\<lambda>(k, v) b. if hget new k \<noteq> Some v then or_insert (m, k) (Some v) b else b) kvs b)"
    for kvs using assms by (induction kvs arbitrary: b) auto
  ultimately show ?thesis by (simp add: note_changes_def)
qed

lemma note_changes_log_ok:
  assumes "log_ok s b s'" "distinct (map fst (cells_of s' m))"
  shows "log_ok s (note_changes m (cells_of s' m) new b) (hinsert m new s')"
  unfolding log_ok_def
proof (intro conjI allI)
  show "hkeys_distinct (note_changes m (cells_of s' m) new b)"
    using assms(1) by (intro note_changes_distinct) (simp add: log_ok_def)
  fix m' k
  have "case hget b (m', k) of Some old \<Rightarrow> old = cell s m' k | None \<Rightarrow> cell s' m' k = cell s m' k"
    using assms(1) by (simp add: log_ok_def)
  then show "case hget (note_changes m (cells_of s' m) new b) (m', k) of
      Some old \<Rightarrow> old = cell s m' k | None \<Rightarrow> cell (hinsert m new s') m' k = cell s m' k"
    unfolding hget_note_changes [OF assms(2)]
    by (cases "hget b (m', k)") auto
qed


definition changes_for :: "changes \<Rightarrow> measure_id \<Rightarrow> cell_change list" where
  "changes_for ch m = (case bget ch m of Some cs \<Rightarrow> cs | None \<Rightarrow> [])"

lemma changes_for_push:
  assumes "bmap_ok out"
  shows "changes_for (push_change m c out) m' = changes_for out m' @ (if m' = m then [c] else [])"
  using assms by (simp add: changes_for_def push_change_def split: option.split)

lemma bmap_ok_change: "bmap_ok out \<Longrightarrow> bmap_ok (change_one s h x out)"
  by (auto simp: change_one_def push_change_def Let_def split: prod.split)

text \<open>The changes collected from a log, in the log's order.\<close>

lemma fold_change_one:
  assumes "bmap_ok out"
  shows "bmap_ok (fold (change_one s h) b out)
    \<and> changes_for (fold (change_one s h) b out) m =
      changes_for out m @
        map (\<lambda>((m, k), old). \<lparr>ch_coord = k, ch_old = old, ch_new = cell s m k\<rparr>)
          (filter (\<lambda>((m', k), old). m' = m \<and> m \<notin> set h \<and> old \<noteq> cell s m k) b)"
  using assms
proof (induction b arbitrary: out)
  case (Cons x b)
  obtain m' k old where x: "x = ((m', k), old)" by (cases x) auto
  have "changes_for (change_one s h x out) m = changes_for out m @
      (if m' = m \<and> m \<notin> set h \<and> old \<noteq> cell s m k
       then [\<lparr>ch_coord = k, ch_old = old, ch_new = cell s m k\<rparr>] else [])"
    using changes_for_push [OF Cons.prems] by (auto simp: change_one_def x Let_def)
  with Cons.IH [OF bmap_ok_change [OF Cons.prems]] show ?case by (simp add: x)
qed simp

lemma changes_for_map: "changes_for (map (\<lambda>(m, cs). (m, sort_key f cs)) ch) m = sort_key f (changes_for ch m)"
  by (induction ch) (auto simp: changes_for_def bget_def split: option.splits)

lemma changes_of_for:
  "changes_for (changes_of s b h) m = sort_key ch_coord
     (map (\<lambda>((m, k), old). \<lparr>ch_coord = k, ch_old = old, ch_new = cell s m k\<rparr>)
       (filter (\<lambda>((m', k), old). m' = m \<and> m \<notin> set h \<and> old \<noteq> cell s m k) b))"
  using fold_change_one [of "[]" s h b m]
  by (simp add: changes_of_def changes_for_map changes_for_def [of "[]"] bget_def)

lemma changes_of_log:
  assumes "log_ok s b s'"
  shows "c \<in> set (changes_for (changes_of s' b []) m) \<longleftrightarrow>
      ch_old c = cell s m (ch_coord c) \<and> ch_new c = cell s' m (ch_coord c) \<and> ch_old c \<noteq> ch_new c"
    and "sorted_wrt (<) (map ch_coord (changes_for (changes_of s' b []) m))"
proof -
  define L where "L = map (\<lambda>((m, k), old). \<lparr>ch_coord = k, ch_old = old, ch_new = cell s' m k\<rparr>)
       (filter (\<lambda>((m', k), old). m' = m \<and> m \<notin> set [] \<and> old \<noteq> cell s' m k) b)"
  have dist: "distinct (map fst b)" and ok: "\<And>m k. case hget b (m, k) of
      Some old \<Rightarrow> old = cell s m k | None \<Rightarrow> cell s' m k = cell s m k"
    using assms by (simp_all add: log_ok_def hkeys_distinct_def)
  have mem: "((m, k), old) \<in> set b \<longleftrightarrow> hget b (m, k) = Some old" for k old
    using dist by (simp add: hget_def)
  have "c \<in> set L \<longleftrightarrow>
      hget b (m, ch_coord c) = Some (ch_old c) \<and> ch_old c \<noteq> cell s' m (ch_coord c) \<and> ch_new c = cell s' m (ch_coord c)"
    unfolding L_def mem [symmetric] by (cases c) (force simp: image_iff)
  also have "\<dots> \<longleftrightarrow>
      ch_old c = cell s m (ch_coord c) \<and> ch_new c = cell s' m (ch_coord c) \<and> ch_old c \<noteq> ch_new c"
    using ok [of m "ch_coord c"] by (auto split: option.splits)
  finally show "c \<in> set (changes_for (changes_of s' b []) m) \<longleftrightarrow>
      ch_old c = cell s m (ch_coord c) \<and> ch_new c = cell s' m (ch_coord c) \<and> ch_old c \<noteq> ch_new c"
    unfolding changes_of_for L_def by simp
  have "distinct (map ch_coord L)"
    unfolding L_def using dist
  proof (induction b)
    case (Cons x b)
    then show ?case by (cases x) force
  qed simp
  moreover have "mset (map ch_coord (sort_key ch_coord L)) = mset (map ch_coord L)" by simp
  ultimately have "distinct (map ch_coord (sort_key ch_coord L))"
    using mset_eq_imp_distinct_iff by blast
  then show "sorted_wrt (<) (map ch_coord (changes_for (changes_of s' b []) m))"
    unfolding changes_of_for L_def [symmetric] by (simp add: strict_sorted_iff)
qed

lemma submit_reply:
  "\<exists>ch. snd (submit_edits flow es w) = RChanges ch \<and>
     (\<forall>m. sorted_wrt (<) (map ch_coord (changes_for ch m)) \<and>
        (\<forall>c. c \<in> set (changes_for ch m) \<longleftrightarrow>
           ch_old c = cell (snap (state w)) m (ch_coord c) \<and>
           ch_new c = cell (snap (state (fst (submit_edits flow es w)))) m (ch_coord c) \<and>
           ch_old c \<noteq> ch_new c))"
proof -
  define w1 where "w1 = w\<lparr>state := (state w)\<lparr>dirty := [], log := Some []\<rparr>\<rparr>"
  obtain w2 now where fold: "fold feed_edit (sorted_edits es) (w1, []) = (w2, now)" by fastforce
  have w2: "snap (state w2) = snap (state w) \<and> log (state w2) = Some []"
    using fold
  proof -
    have "fold feed_edit es (w, now) = (w', now') \<Longrightarrow> snap (state w') = snap (state w) \<and> log (state w') = log (state w)"
      for es now w' now' w
    proof (induction es arbitrary: w now)
      case (Cons e es)
      obtain w1 now1 where "feed_edit e (w, now) = (w1, now1)" by fastforce
      with Cons feed_edit_snap [of e w now] feed_edit_log [of e w now] show ?case by simp
    qed simp
    from this [OF fold] show ?thesis by (simp add: w1_def)
  qed
  define r where "r = settle (flow (fed w2 @ [now])) (state w2)"
  have "log_ok (snap (state w)) [] (snap (state w2))" using w2 by (simp add: log_ok_def)
  with settle_log [of "state w2" "[]"] w2 obtain b where b: "log r = Some b" "log_ok (snap (state w)) b (snap r)"
    unfolding r_def by blast
  have "snap (state (fst (submit_edits flow es w))) = snap r"
      "snd (submit_edits flow es w) = RChanges (changes_of (snap r) b [])"
    using fold b(1) by (simp_all add: submit_edits_def run_to_def r_def flip: w1_def)
  then show ?thesis using changes_of_log [OF b(2)] by auto
qed


section \<open>Rounds of edits\<close>

text \<open>What edits do to the input cells: the last one of a cell wins, and only inputs are edited.\<close>

definition edited ::
  "measure_id list \<Rightarrow> edit list \<Rightarrow> (measure_id \<Rightarrow> coord_key \<Rightarrow> cell_value option) \<Rightarrow> measure_id \<Rightarrow> coord_key \<Rightarrow> cell_value option" where
  "edited ids es f = fold (\<lambda>e f. if e_measure e \<in> set ids
     then f (e_measure e := (f (e_measure e)) (e_coord e := e_value e)) else f) es f"

lemma fold_feed_edited:
  "fold feed_edit es (w, now) = (w', now') \<Longrightarrow>
   cell (cells_in w') = edited (sessions w) es (cell (cells_in w)) \<and> sessions w' = sessions w"
proof (induction es arbitrary: w now)
  case (Cons e es)
  obtain w1 now1 where e: "feed_edit e (w, now) = (w1, now1)" by fastforce
  have "cell (cells_in w1) = edited (sessions w) [e] (cell (cells_in w))" "sessions w1 = sessions w"
    using feed_edit_cell [of e w now] feed_edit_sessions [of e w now]
    by (auto simp: e edited_def fun_eq_iff)
  with Cons e show ?case by (simp add: edited_def)
qed (simp add: edited_def)

lemma serve_edited:
  "cell (cells_in (fst (serve flow (CmdEdit es delta) w))) = edited (sessions w) es (cell (cells_in w))
   \<and> sessions (fst (serve flow c w)) = sessions w"
proof -
  have "cell (cells_in (fst (serve flow (CmdEdit es delta) w))) = edited (sessions w) es (cell (cells_in w))
   \<and> sessions (fst (serve flow (CmdEdit es delta) w)) = sessions w" for es delta
  proof -
    define w1 where "w1 = w\<lparr>state := (state w)\<lparr>dirty := [], log := (if delta then Some [] else log (state w))\<rparr>\<rparr>"
    obtain w2 now where fold: "fold feed_edit es (w1, []) = (w2, now)" by fastforce
    from fold_feed_edited [OF this] have "cell (cells_in w2) = edited (sessions w) es (cell (cells_in w))"
      "sessions w2 = sessions w" by (simp_all add: w1_def)
    then show ?thesis using fold by (simp add: run_to_def Let_def flip: w1_def)
  qed
  then show ?thesis by (cases c) auto
qed

lemma start_sessions: "sessions (start_worker flow m) = input_ids m"
proof -
  have "fold seed_one_input xs (w, now) = (w', now') \<Longrightarrow> sessions w' = sessions w" for xs w now w' now'
    by (induction xs arbitrary: w now) (auto simp: seed_one_input_def split_beta split: if_splits)
  then show ?thesis by (auto simp: start_worker_def split: prod.split)
qed

lemma reached_sessions: "reached flow m w \<Longrightarrow> sessions w = input_ids m"
  by (induction rule: reached.induct) (simp_all add: start_sessions serve_edited)

lemma apply_edits_shows:
  assumes "flow_ok flow out" "hkeys_distinct (inputs m)" "reached flow m w"
  shows "\<exists>s. snd (apply_edits flow es w) = RSnapshot s \<and>
     cell s = out (edited (input_ids m) (sorted_edits es) (cell (cells_in w))) \<and>
     cell (cells_in (fst (apply_edits flow es w))) = edited (input_ids m) (sorted_edits es) (cell (cells_in w))"
proof -
  define w' where "w' = fst (apply_edits flow es w)"
  have cells: "cell (cells_in w') = edited (input_ids m) (sorted_edits es) (cell (cells_in w))"
    unfolding w'_def apply_edits_def using serve_edited reached_sessions [OF assms(3)] by metis
  have "reached flow m w'"
    unfolding w'_def apply_edits_def by (rule served [OF assms(3)])
  from reached_keeps [OF assms(1,2) this] have "cell (snap (state w')) = out (cell (cells_in w'))"
    by (simp add: shows_out_def fun_eq_iff)
  moreover have "snd (apply_edits flow es w) = RSnapshot (snap (state w'))"
    unfolding w'_def apply_edits_def by (auto simp: Let_def split: prod.split)
  ultimately show ?thesis using cells unfolding w'_def [symmetric] by auto
qed


section \<open>Properties\<close>

text \<open>
  C2. Settling a round depends on the net counts of its deltas alone: in whatever order the dataflow
  sent them, the cell is left with the value asserted (the greatest, were there several), otherwise
  with its old value unless that one is retracted. A value retracted and asserted again cancels, and
  a stale retraction of another value leaves the cell alone.
\<close>

theorem settle_by_net:
  assumes "mset es = mset ds"
  shows "settle es r = settle ds r \<and>
    cell (snap (settle ds r)) m k = settled (net ds) m k (cell (snap r) m k)"
  using settle_any_order [OF assms] by (simp add: cell_settle)

definition sample_round :: "delta list" where
  "sample_round =
     [(MeasureId 7, [(1, 1)], VNum 2, 1), (MeasureId 7, [(1, 2)], VNum 5, 1), (MeasureId 7, [(1, 1)], VNum 1, -1),
      (MeasureId 7, [(1, 2)], VNum 5, -1), (MeasureId 7, [(1, 2)], VNum 9, -1)]"

definition sample_round_state :: round_state where
  "sample_round_state =
     \<lparr>snap = [(MeasureId 7, [([(1, 1)], VNum 1), ([(1, 2)], VNum 5)])], dirty = [], log = Some []\<rparr>"

lemma settle_by_net_witness:
  "settle (rev sample_round) sample_round_state = settle sample_round sample_round_state \<and>
   cell (snap (settle sample_round sample_round_state)) (MeasureId 7) [(1, 1)] =
     settled (net sample_round) (MeasureId 7) [(1, 1)] (Some (VNum 1)) \<and>
   cell (snap (settle sample_round sample_round_state)) (MeasureId 7) [(1, 1)] = Some (VNum 2) \<and>
   cell (snap (settle sample_round sample_round_state)) (MeasureId 7) [(1, 2)] = Some (VNum 5)"
proof -
  have "mset (rev sample_round) = mset sample_round" by simp
  note settle_by_net [OF this, of sample_round_state "MeasureId 7" "[(1, 1)]"]
  moreover have "cell (snap sample_round_state) (MeasureId 7) [(1, 1)] = Some (VNum 1)" by code_simp
  moreover have "cell (snap (settle sample_round sample_round_state)) (MeasureId 7) [(1, 1)] = Some (VNum 2)"
    by code_simp
  moreover have "cell (snap (settle sample_round sample_round_state)) (MeasureId 7) [(1, 2)] = Some (VNum 5)"
    by code_simp
  ultimately show ?thesis by simp
qed

text \<open>
  C1. A round of edits is a recomputation: whatever commands a worker served before, the snapshot it
  replies with is what the dataflow's function gives for the edited input cells (the last edit of a
  cell wins; edits of measures that are no inputs do nothing), and those are the cells it keeps.
\<close>

theorem apply_edits_recomputes:
  assumes "flow_ok flow out" "hkeys_distinct (inputs m)" "reached flow m w"
  shows "\<exists>s. snd (apply_edits flow es w) = RSnapshot s \<and>
     cell s = out (edited (input_ids m) (sorted_edits es) (cell (cells_in w))) \<and>
     cell (cells_in (fst (apply_edits flow es w))) = edited (input_ids m) (sorted_edits es) (cell (cells_in w))"
  by (rule apply_edits_shows [OF assms])

text \<open>A dataflow of one derived measure, 2, that reads measure 1.\<close>

definition copied :: "delta list \<Rightarrow> delta list" where
  "copied ds = map (\<lambda>(m, k, v, n). (MeasureId 2, k, v, n)) (filter (\<lambda>(m, k, v, n). m = MeasureId 1) ds)"

definition copy_flow :: dataflow where
  "copy_flow bs = copied (List.last bs)"

definition copy_out :: "(measure_id \<Rightarrow> coord_key \<Rightarrow> cell_value option) \<Rightarrow> measure_id \<Rightarrow> coord_key \<Rightarrow> cell_value option" where
  "copy_out f m k = (if m = MeasureId 2 then f (MeasureId 1) k else None)"

lemma net_copied: "net (copied ds) (m, k, v) = (if m = MeasureId 2 then net ds (MeasureId 1, k, v) else 0)"
  by (induction ds) (auto simp: copied_def)

lemma copied_positive: "\<forall>d \<in> set ds. 0 < delta_count d \<Longrightarrow> \<forall>d \<in> set (copied ds). 0 < delta_count d"
  by (auto simp: copied_def)

lemma copy_flow_ok: "flow_ok copy_flow copy_out"
  unfolding flow_ok_def
proof (intro conjI allI impI; elim conjE)
  fix b f
  assume "holds b f" "\<forall>d \<in> set b. 0 < delta_count d"
  then show "holds (copy_flow [b]) (copy_out f)" "\<forall>d \<in> set (copy_flow [b]). 0 < delta_count d"
    using copied_positive [of b] by (simp_all add: holds_def copy_flow_def net_copied copy_out_def)
next
  fix bs b f g m k v
  assume "holds (concat bs) f" "holds (concat bs @ b) g"
  then have "net b (MeasureId 1, k, v) = of_bool (g (MeasureId 1) k = Some v) - of_bool (f (MeasureId 1) k = Some v)"
    by (simp add: holds_def eq_diff_eq add.commute)
  then show "net (copy_flow (bs @ [b])) (m, k, v) =
      of_bool (copy_out g m k = Some v) - of_bool (copy_out f m k = Some v)"
    by (simp add: copy_flow_def net_copied copy_out_def)
qed

definition copy_model :: model where
  "copy_model = new_model\<lparr>measure_map := [(MeasureId 1, \<lparr>m_id = MeasureId 1, m_name = ''A'', m_type = TBoolean,
       m_cats = [], m_kind = Input, m_desc = None, m_format = None\<rparr>)], inputs := [((MeasureId 1, []), Boolean True)]\<rparr>"

lemma apply_edits_recomputes_witness:
  "\<exists>s. snd (apply_edits copy_flow [\<lparr>e_measure = MeasureId 1, e_coord = [(1, 1)], e_value = Some (VNum 3)\<rparr>]
        (start_worker copy_flow copy_model)) = RSnapshot s \<and> cell s (MeasureId 2) [(1, 1)] = Some (VNum 3)"
proof -
  have "hkeys_distinct (inputs copy_model)" by (simp add: copy_model_def hkeys_distinct_def)
  from apply_edits_recomputes [OF copy_flow_ok this started,
      of "[\<lparr>e_measure = MeasureId 1, e_coord = [(1, 1)], e_value = Some (VNum 3)\<rparr>]"]
  obtain s where s: "snd (apply_edits copy_flow [\<lparr>e_measure = MeasureId 1, e_coord = [(1, 1)], e_value = Some (VNum 3)\<rparr>]
        (start_worker copy_flow copy_model)) = RSnapshot s"
    and c: "cell s = copy_out (edited (input_ids copy_model)
       (sorted_edits [\<lparr>e_measure = MeasureId 1, e_coord = [(1, 1)], e_value = Some (VNum 3)\<rparr>])
       (cell (cells_in (start_worker copy_flow copy_model))))" by blast
  have "input_ids copy_model = [MeasureId 1]" by code_simp
  then have "cell s (MeasureId 2) [(1, 1)] = Some (VNum 3)"
    by (simp add: c copy_out_def edited_def sorted_edits_def)
  with s show ?thesis by blast
qed

text \<open>
  C3. What \<open>submit\<close> replies: for every measure, exactly the cells whose value after the round
  differs from the one before, with both values, once each and in the order of their coordinates.
\<close>

theorem submit_changes:
  "\<exists>ch. snd (submit_edits flow es w) = RChanges ch \<and>
     (\<forall>m. sorted_wrt (<) (map ch_coord (changes_for ch m)) \<and>
        (\<forall>c. c \<in> set (changes_for ch m) \<longleftrightarrow>
           ch_old c = cell (snap (state w)) m (ch_coord c) \<and>
           ch_new c = cell (snap (state (fst (submit_edits flow es w)))) m (ch_coord c) \<and>
           ch_old c \<noteq> ch_new c))"
  by (rule submit_reply)

end
