(* ===== verification/Text_Chars.thy ===== *)
theory Text_Chars
  imports Text_Bytes Doubles
begin

text \<open>
  The characters of a text and the number texts the formula parser reads. A character is its UTF-8
  encoding. What the parser takes from Unicode's tables beyond ASCII, from \<open>Debug\<close> and from the crate
  chrono is the record \<open>std_lib\<close>, a parameter of the model.
\<close>

section \<open>Characters\<close>

definition byte_val :: "char \<Rightarrow> nat" where
  "byte_val c = of_char c"

text \<open>The length of an encoding, by its first byte.\<close>

definition char_len :: "char \<Rightarrow> nat" where
  "char_len c =
     (let n = byte_val c in if n < 0x80 then 1 else if n < 0xE0 then 2 else if n < 0xF0 then 3 else 4)"

lemma char_len_pos [simp]: "0 < char_len c" "Suc 0 \<le> char_len c"
  by (simp_all add: char_len_def Let_def)

definition first_char :: "string \<Rightarrow> string" where
  "first_char s = (case s of [] \<Rightarrow> [] | c # _ \<Rightarrow> take (char_len c) s)"

fun chars :: "string \<Rightarrow> string list" where
  "chars [] = []"
| "chars (c # cs) = take (char_len c) (c # cs) # chars (drop (char_len c - 1) cs)"

definition code_point :: "string \<Rightarrow> nat" where
  "code_point ch =
     (case map byte_val ch of
        [a] \<Rightarrow> a
      | [a, b] \<Rightarrow> a mod 32 * 64 + b mod 64
      | [a, b, c] \<Rightarrow> a mod 16 * 4096 + b mod 64 * 64 + c mod 64
      | [a, b, c, d] \<Rightarrow> a mod 8 * 262144 + b mod 64 * 4096 + c mod 64 * 64 + d mod 64
      | _ \<Rightarrow> 0)"

definition ascii_digit :: "char \<Rightarrow> bool" where
  "ascii_digit c \<longleftrightarrow> 48 \<le> byte_val c \<and> byte_val c \<le> 57"

definition ascii_uppercase :: "char \<Rightarrow> bool" where
  "ascii_uppercase c \<longleftrightarrow> 65 \<le> byte_val c \<and> byte_val c \<le> 90"

definition ascii_alphabetic :: "char \<Rightarrow> bool" where
  "ascii_alphabetic c \<longleftrightarrow> ascii_uppercase c \<or> 97 \<le> byte_val c \<and> byte_val c \<le> 122"

text \<open>
  \<open>char::is_alphabetic\<close> and \<open>is_alphanumeric\<close> beyond ASCII, \<open>{:?}\<close> of a text and of a character, and
  chrono's two date parsers, as the UTC instant of an RFC 3339 text or of a date's midnight.
\<close>

record std_lib =
  u_alphabetic :: "nat \<Rightarrow> bool"
  u_alphanumeric :: "nat \<Rightarrow> bool"
  debug_str :: "string \<Rightarrow> string"
  debug_char :: "string \<Rightarrow> string"
  rfc3339 :: "string \<Rightarrow> int option"
  naive_date :: "string \<Rightarrow> int option"

definition is_alphabetic :: "std_lib \<Rightarrow> string \<Rightarrow> bool" where
  "is_alphabetic lib ch =
     (case ch of [c] \<Rightarrow> ascii_alphabetic c | _ \<Rightarrow> ch \<noteq> [] \<and> u_alphabetic lib (code_point ch))"

definition is_alphanumeric :: "std_lib \<Rightarrow> string \<Rightarrow> bool" where
  "is_alphanumeric lib ch =
     (case ch of
        [c] \<Rightarrow> ascii_alphabetic c \<or> ascii_digit c
      | _ \<Rightarrow> ch \<noteq> [] \<and> u_alphanumeric lib (code_point ch))"

definition is_whitespace :: "string \<Rightarrow> bool" where
  "is_whitespace ch \<longleftrightarrow> ch \<in> set white_space"

section \<open>Searching\<close>

text \<open>\<open>s.find(p)\<close>.\<close>

fun find_str :: "string \<Rightarrow> string \<Rightarrow> nat option" where
  "find_str p [] = (if p = [] then Some 0 else None)"
| "find_str p (c # cs) = (if prefix p (c # cs) then Some 0 else map_option Suc (find_str p cs))"

definition contains :: "string \<Rightarrow> string \<Rightarrow> bool" where
  "contains p s \<longleftrightarrow> find_str p s \<noteq> None"

lemma find_str_bound: "find_str p s = Some i \<Longrightarrow> i + length p \<le> length s"
  by (induction p s arbitrary: i rule: find_str.induct) (auto dest: prefix_length_le split: if_splits)

text \<open>\<open>trim_start_matches\<close> and \<open>trim_end_matches\<close> of an ASCII character, \<open>split_once\<close>, \<open>split(p).next()\<close>.\<close>

definition trim_start_matches :: "char \<Rightarrow> string \<Rightarrow> string" where
  "trim_start_matches c s = dropWhile ((=) c) s"

definition trim_end_matches :: "char \<Rightarrow> string \<Rightarrow> string" where
  "trim_end_matches c s = rev (dropWhile ((=) c) (rev s))"

definition split_once :: "char \<Rightarrow> string \<Rightarrow> (string \<times> string) option" where
  "split_once c s = (if c \<in> set s then Some (takeWhile ((\<noteq>) c) s, tl (dropWhile ((\<noteq>) c) s)) else None)"

definition before_str :: "string \<Rightarrow> string \<Rightarrow> string" where
  "before_str p s = (case find_str p s of Some i \<Rightarrow> take i s | None \<Rightarrow> s)"

section \<open>Numbers\<close>

text \<open>Integers, so that large numerals evaluate in binary.\<close>

definition round_ratio :: "int \<Rightarrow> int \<Rightarrow> int" where
  "round_ratio n d =
     (let q = n div d; r = n mod d
      in if 2 * r < d \<or> 2 * r = d \<and> even q then q else q + 1)"

function int_log2 :: "int \<Rightarrow> nat" where
  "int_log2 n = (if n < 2 then 0 else Suc (int_log2 (n div 2)))"
  by pat_completeness auto
termination
  by (relation "measure nat") auto

declare int_log2.simps [simp del]

text \<open>
  The double nearest to \<open>n / d\<close>, ties to even: in units of \<open>2 ^ -1074\<close>, rounded to 53 bits (below them the
  unit itself is the last bit), infinity from the pattern after the largest double on.
\<close>

definition INFINITY :: f64 where
  "INFINITY = 0x7ff0000000000000"

definition f64_of_ratio :: "int \<Rightarrow> int \<Rightarrow> f64" where
  "f64_of_ratio n d =
     (let a = n * 2 ^ 1074;
          e = int_log2 (a div d) - 52;
          p = int e * 2 ^ 52 + round_ratio a (d * 2 ^ e)
      in if p < 0x7ff0000000000000 then word_of_int p else INFINITY)"

text \<open>\<open>str::parse::<f64>\<close> of digits, an optional fraction and an optional exponent.\<close>

definition digits_num :: "string \<Rightarrow> int" where
  "digits_num ds = foldl (\<lambda>n c. 10 * n + (of_char c - 48)) 0 ds"

definition scaled :: "int \<Rightarrow> int \<Rightarrow> f64" where
  "scaled n e = (if 0 \<le> e then f64_of_ratio (n * 10 ^ nat e) 1 else f64_of_ratio n (10 ^ nat (- e)))"

definition parse_exponent :: "string \<Rightarrow> int option" where
  "parse_exponent s =
     (case s of
        [] \<Rightarrow> None
      | c # cs \<Rightarrow>
          let ds = (if c = CHR ''+'' \<or> c = CHR ''-'' then cs else s)
          in if ds \<noteq> [] \<and> list_all ascii_digit ds
             then Some (if c = CHR ''-'' then - digits_num ds else digits_num ds) else None)"

definition is_e :: "char \<Rightarrow> bool" where
  "is_e c \<longleftrightarrow> c = CHR ''e'' \<or> c = CHR ''E''"

definition parse_f64 :: "string \<Rightarrow> f64 option" where
  "parse_f64 s =
     (let m = takeWhile (\<lambda>c. \<not> is_e c) s;
          rest = dropWhile (\<lambda>c. \<not> is_e c) s;
          (ip, fp) = (case split_once (CHR ''.'') m of Some (i, f) \<Rightarrow> (i, f) | None \<Rightarrow> (m, []))
      in if ip @ fp \<noteq> [] \<and> list_all ascii_digit (ip @ fp)
         then map_option (\<lambda>e. scaled (digits_num (ip @ fp)) (e - int (length fp)))
                (if rest = [] then Some 0 else parse_exponent (tl rest))
         else None)"

definition f64_infinite :: "f64 \<Rightarrow> bool" where
  "f64_infinite x \<longleftrightarrow> f64_exp x = 0x7ff \<and> f64_frac x = 0"

text \<open>\<open>n / 100.0\<close>; a quotient that is no number or infinite stays what it is.\<close>

definition f64_percent :: "f64 \<Rightarrow> f64" where
  "f64_percent x =
     (if \<not> f64_finite x then x
      else let q = f64_of_ratio \<bar>units x\<bar> (100 * 2 ^ 1074) in if f64_neg x then f64_minus q else q)"

end
