(* ===== verification/Fn_Params.thy ===== *)
theory Fn_Params
  imports Fn_Tables Text_Chars "HOL-Library.Char_ord" "HOL-Library.List_Lexorder" "HOL-Library.Product_Lexorder"
begin

text \<open>
  The names of the functions' parameters (\<open>crates/core_model/src/functions/params.rs\<close> and the helpers of
  \<open>functions.rs\<close> that read them) and the guesses at a misspelt name. A description (\<open>doc\<close>) is read only for a
  function the table does not list: \<open>DOCS\<close> has those, by the function's id.
\<close>

section \<open>The table\<close>

text \<open>The character \<open>U+2026\<close>.\<close>

definition DOTS :: string where
  "DOTS = [CHR 0xE2, CHR 0x80, CHR 0xA6]"

definition PARAMS_A_C :: "(string \<times> string) list" where
  "PARAMS_A_C =
    [(''@ID'', ''category''),
     (''@ITEM'', ''category''),
     (''@ITEMCOUNT'', ''category''),
     (''ABS'', ''number''),
     (''ACCRINT'', ''issue, first_interest, settlement, rate, par, frequency, [basis=0], [calc_method=TRUE]''),
     (''ACOS'', ''number''),
     (''ACOSH'', ''number''),
     (''ACOT'', ''number''),
     (''ACOTH'', ''number''),
     (''ADTEST'', ''values OVER T''),
     (''ADTEST.STAT'', ''values OVER T''),
     (''AGGREGATE'', ''function_num, options, array OVER T, [k]''),
     (''AGM'', ''a, b''),
     (''AND'', ''logical1, '' @ DOTS),
     (''AND'', ''values OVER T''),
     (''ARABIC'', ''text''),
     (''ARRAYTOTEXT'', ''array OVER T, [format=0]''),
     (''ASC'', ''text''),
     (''ASCENSIONTHURSDAY'', ''year''),
     (''ASHWEDNESDAY'', ''year''),
     (''ASIN'', ''number''),
     (''ASINH'', ''number''),
     (''ATAN'', ''number''),
     (''ATAN2'', ''x_num, y_num''),
     (''ATANH'', ''number''),
     (''AUTOCORREL'', ''values OVER T''),
     (''AVEDEV'', ''values OVER T''),
     (''AVERAGE'', ''number1, '' @ DOTS),
     (''AVERAGE'', ''values OVER T''),
     (''AVERAGEA'', ''values OVER T''),
     (''AVERAGEIF'', ''range OVER T, criteria, [average_range]''),
     (''AVERAGEIFS'', ''average_range, criteria_range1 OVER T, criteria1, '' @ DOTS),
     (''BAHTTEXT'', ''number''),
     (''BASE'', ''number, radix, [min_length]''),
     (''BERNOULLI'', ''k, p''),
     (''BESSELI'', ''x, n''),
     (''BESSELJ'', ''x, n''),
     (''BESSELK'', ''x, n''),
     (''BESSELY'', ''x, n''),
     (''BETA'', ''x, y''),
     (''BETA.DIST'', ''x, alpha, beta, cumulative, [a=0], [b=1]''),
     (''BETA.INV'', ''probability, alpha, beta, [a=0], [b=1]''),
     (''BETADIST'', ''x, alpha, beta, [a=0], [b=1]''),
     (''BETALN'', ''x, y''),
     (''BETWEEN'', ''x, low, high, [inclusive]''),
     (''BIN2DEC'', ''number''),
     (''BIN2HEX'', ''number, [places]''),
     (''BIN2OCT'', ''number, [places]''),
     (''BINOM.DIST'', ''number_s, trials, probability_s, cumulative''),
     (''BINOM.DIST.RANGE'', ''trials, probability_s, number_s, [number_s2]''),
     (''BINOM.INV'', ''trials, probability_s, alpha''),
     (''BITAND'', ''number1, number2''),
     (''BITLSHIFT'', ''number, shift_amount''),
     (''BITOR'', ''number1, number2''),
     (''BITRSHIFT'', ''number, shift_amount''),
     (''BITXOR'', ''number1, number2''),
     (''BYROW'', ''array OVER C, lambda''),
     (''CAUCHY'', ''x, a, cumulative''),
     (''CEIL'', ''x''),
     (''CEILING'', ''number, [significance=1]''),
     (''CEILING.MATH'', ''number, [significance=1], [mode=0]''),
     (''CEILING.PRECISE'', ''number, [significance=1]''),
     (''CHAR'', ''number''),
     (''CHISQ.DIST'', ''x, deg_freedom, cumulative''),
     (''CHISQ.DIST.RT'', ''x, deg_freedom''),
     (''CHISQ.INV'', ''probability, deg_freedom''),
     (''CHISQ.INV.RT'', ''probability, deg_freedom''),
     (''CHITEST'', ''actual_range, expected_range OVER T''),
     (''CHOOSE'', ''index_num, value1, '' @ DOTS),
     (''CLEAN'', ''text''),
     (''CLEARERROR'', ''value, [alternative]''),
     (''CLEARZERO'', ''value, [alternative]''),
     (''COALESCE'', ''value1, '' @ DOTS @ '', default''),
     (''CODE'', ''text''),
     (''COMBIN'', ''number, number_chosen''),
     (''COMBINA'', ''number, number_chosen''),
     (''COMPLEX'', ''real_num, i_num, [suffix='' @ [CHR 0x22] @ ''i'' @ [CHR 0x22] @ '']''),
     (''CONCAT'', ''text1, '' @ DOTS),
     (''CONCATENATE'', ''text1, '' @ DOTS),
     (''CONFIDENCE.NORM'', ''alpha, standard_dev, size''),
     (''CONFIDENCE.T'', ''alpha, standard_dev, size''),
     (''CONVERT'', ''number, from_unit, to_unit''),
     (''CORREL'', ''array1, array2 OVER T''),
     (''COS'', ''number''),
     (''COSH'', ''number''),
     (''COSPI'', ''x''),
     (''COT'', ''number''),
     (''COTH'', ''number''),
     (''COTPI'', ''x''),
     (''COUNT'', ''values OVER T''),
     (''COUNTA'', ''values OVER T''),
     (''COUNTBLANK'', ''range OVER T''),
     (''COUNTIF'', ''range OVER T, criteria''),
     (''COUNTIFS'', ''criteria_range1 OVER T, criteria1, '' @ DOTS),
     (''COUNTMATCHES'', ''text, search''),
     (''COUNTUNIQUE'', ''values OVER T''),
     (''COUPDAYBS'', ''settlement, maturity, frequency, [basis]''),
     (''COUPDAYS'', ''settlement, maturity, frequency, [basis]''),
     (''COUPDAYSNC'', ''settlement, maturity, frequency, [basis]''),
     (''COUPNCD'', ''settlement, maturity, frequency, [basis]''),
     (''COUPNUM'', ''settlement, maturity, frequency, [basis]''),
     (''COUPPCD'', ''settlement, maturity, frequency, [basis]''),
     (''COVAR'', ''array1, array2 OVER T''),
     (''COVARIANCE.S'', ''array1, array2 OVER T''),
     (''CSC'', ''number''),
     (''CSCH'', ''number''),
     (''CUM_BIV_NORM_DIST'', ''a, b, rho''),
     (''CVMTEST'', ''values OVER T''),
     (''CVMTEST.STAT'', ''values OVER T'')]"

definition PARAMS_D_H :: "(string \<times> string) list" where
  "PARAMS_D_H =
    [(''DATE'', ''year, month, day''),
     (''DATE2HDATE'', ''date''),
     (''DATE2HDATE_HEB'', ''date''),
     (''DATE2JULIAN'', ''date''),
     (''DATE2UNIX'', ''d''),
     (''DATEDIF'', ''start_date, end_date, unit''),
     (''DATEVALUE'', ''date_text''),
     (''DAY'', ''serial_number''),
     (''DAYNAME'', ''date''),
     (''DAYOFYEAR'', ''date''),
     (''DAYS'', ''end_date, start_date''),
     (''DAYS360'', ''start_date, end_date, [method=FALSE]''),
     (''DAYSINMONTH'', ''date''),
     (''DAYSINYEAR'', ''date''),
     (''DEC2BIN'', ''number, [places]''),
     (''DEC2HEX'', ''number, [places]''),
     (''DEC2OCT'', ''number, [places]''),
     (''DECIMAL'', ''text, radix''),
     (''DEGREES'', ''angle''),
     (''DELTA'', ''number1, [number2=0]''),
     (''DEVSQ'', ''values OVER T''),
     (''DGET'', ''values OVER T''),
     (''DIGAMMA'', ''x''),
     (''DIMCIRC'', ''traffic, gos''),
     (''DOLLAR'', ''number, [decimals=2]''),
     (''DOLLARDE'', ''fractional_dollar, fraction''),
     (''DOLLARFR'', ''decimal_dollar, fraction''),
     (''DROP'', ''array OVER T, rows INTO K''),
     (''DUR2DAYS'', ''duration''),
     (''DUR2HOURS'', ''duration''),
     (''DUR2MILLISECONDS'', ''duration''),
     (''DUR2MINUTES'', ''duration''),
     (''DUR2SECONDS'', ''duration''),
     (''DUR2WEEKS'', ''duration''),
     (''EASTERSUNDAY'', ''year''),
     (''EDATE'', ''start_date, months''),
     (''EFFECT'', ''nominal_rate, npery''),
     (''ENCODEURL'', ''text''),
     (''EOMONTH'', ''start_date, months''),
     (''ERF'', ''lower_limit, [upper_limit]''),
     (''ERF.PRECISE'', ''x''),
     (''ERFC'', ''x''),
     (''ERROR'', ''name''),
     (''ERROR.TYPE'', ''error_val''),
     (''EVEN'', ''number''),
     (''EXACT'', ''text1, text2''),
     (''EXP'', ''number''),
     (''EXPA'', ''known_ys, known_xs OVER T, [simple]''),
     (''EXPB'', ''known_ys, known_xs OVER T, [simple]''),
     (''EXPFORECAST'', ''x, known_ys, known_xs OVER T, [simple]''),
     (''EXPM1'', ''x''),
     (''EXPON.DIST'', ''x, lambda, cumulative''),
     (''EXPPOWDIST'', ''x, a, b''),
     (''F.DIST'', ''x, deg_freedom1, deg_freedom2, cumulative''),
     (''F.DIST.RT'', ''x, deg_freedom1, deg_freedom2''),
     (''F.INV'', ''probability, deg_freedom1, deg_freedom2''),
     (''F.INV.RT'', ''probability, deg_freedom1, deg_freedom2''),
     (''FACT'', ''number''),
     (''FACTDOUBLE'', ''number''),
     (''FIB'', ''n''),
     (''FILL'', ''x, default''),
     (''FILTER'', ''array, include OVER T, [if_empty] INTO K''),
     (''FIND'', ''find_text, within_text, [start_num=1]''),
     (''FIRST'', ''values OVER T''),
     (''FISHER'', ''x''),
     (''FISHERINV'', ''y''),
     (''FIXED'', ''number, [decimals=2], [no_commas=FALSE]''),
     (''FIXPOINT'', ''init, lambda, [max_iter=100], [tolerance=1e-10]''),
     (''FLOOR'', ''number, [significance=1]''),
     (''FLOOR.MATH'', ''number, [significance=1], [mode=0]''),
     (''FLOOR.PRECISE'', ''number, [significance=1]''),
     (''FLT.NEXTAFTER'', ''x, y''),
     (''FORECAST'', ''x, known_ys, known_xs OVER T''),
     (''FORECAST.ETS'', ''target_date, values, timeline OVER T, [seasonality=1], [data_completion=1], [aggregation=1]''),
     (''FORECAST.ETS.CONFINT'', ''target_date, values, timeline OVER T, [confidence_level=0.95], [seasonality=1], [data_completion=1], [aggregation=1]''),
     (''FORECAST.ETS.MULT'', ''target_date, values, timeline OVER T, [seasonality=1], [data_completion=1], [aggregation=1]''),
     (''FORECAST.ETS.PI.MULT'', ''target_date, values, timeline OVER T, [confidence_level=0.95], [seasonality=1], [data_completion=1], [aggregation=1]''),
     (''FORECAST.ETS.SEASONALITY'', ''values, timeline OVER T, [data_completion=1], [aggregation=1]''),
     (''FORECAST.ETS.STAT'', ''values, timeline OVER T, statistic_type, [seasonality=1], [data_completion=1], [aggregation=1]''),
     (''FORECAST.ETS.STAT.MULT'', ''values, timeline OVER T, statistic_type, [seasonality=1], [data_completion=1], [aggregation=1]''),
     (''FREQUENCY'', ''data_array OVER T, bin1, '' @ DOTS @ '' INTO K''),
     (''FTEST'', ''array1, array2 OVER T''),
     (''FV'', ''rate, nper, pmt, [pv=0], [type=0]''),
     (''GAMMA'', ''number''),
     (''GAMMA.DIST'', ''x, alpha, beta, cumulative''),
     (''GAMMA.INV'', ''probability, alpha, beta''),
     (''GAMMALN'', ''x''),
     (''GAUSS'', ''z''),
     (''GCD'', ''number1, '' @ DOTS),
     (''GD'', ''x''),
     (''GEOMDIST'', ''k, p, cumulative''),
     (''GEOMEAN'', ''values OVER T''),
     (''GESTEP'', ''number, [step=0]''),
     (''GOODFRIDAY'', ''year''),
     (''GROWTH'', ''known_ys, known_xs OVER T, [const=TRUE]''),
     (''HARMEAN'', ''values OVER T''),
     (''HDATE'', ''year, month, day''),
     (''HDATE_DAY'', ''year, month, day''),
     (''HDATE_HEB'', ''year, month, day''),
     (''HDATE_JULIAN'', ''year, month, day''),
     (''HDATE_MONTH'', ''year, month, day''),
     (''HDATE_YEAR'', ''year, month, day''),
     (''HEX2BIN'', ''number, [places]''),
     (''HEX2DEC'', ''number''),
     (''HEX2OCT'', ''number, [places]''),
     (''HEXREP'', ''x''),
     (''HOUR'', ''serial_number''),
     (''HPFILTER'', ''values OVER T, [lambda=1600]''),
     (''HYPGEOM.DIST'', ''sample_s, number_sample, population_s, number_pop, cumulative''),
     (''HYPGEOMDIST'', ''sample_s, number_sample, population_s, number_pop''),
     (''HYPOT'', ''number1, '' @ DOTS)]"

definition PARAMS_I_P :: "(string \<times> string) list" where
  "PARAMS_I_P =
    [(''IF'', ''logical_test, value_if_true, [value_if_false]''),
     (''IFERROR'', ''value, value_if_error''),
     (''IFNA'', ''value, value_if_na''),
     (''IFS'', ''logical_test1, value_if_true1, '' @ DOTS),
     (''IGAMMA'', ''a, x, [lower=TRUE], [regularize=TRUE], [real=TRUE]''),
     (''ILOG'', ''x, [base=10]''),
     (''IMABS'', ''inumber''),
     (''IMAGINARY'', ''inumber''),
     (''IMARCCOS'', ''inumber''),
     (''IMARCCOSH'', ''inumber''),
     (''IMARCCOT'', ''inumber''),
     (''IMARCCOTH'', ''inumber''),
     (''IMARCCSC'', ''inumber''),
     (''IMARCCSCH'', ''inumber''),
     (''IMARCSEC'', ''inumber''),
     (''IMARCSECH'', ''inumber''),
     (''IMARCSIN'', ''inumber''),
     (''IMARCSINH'', ''inumber''),
     (''IMARCTAN'', ''inumber''),
     (''IMARCTANH'', ''inumber''),
     (''IMARGUMENT'', ''inumber''),
     (''IMCONJUGATE'', ''inumber''),
     (''IMCOS'', ''inumber''),
     (''IMCOSH'', ''inumber''),
     (''IMCOT'', ''inumber''),
     (''IMCOTH'', ''inumber''),
     (''IMCSC'', ''inumber''),
     (''IMCSCH'', ''inumber''),
     (''IMDIV'', ''inumber1, inumber2''),
     (''IMEXP'', ''inumber''),
     (''IMFACT'', ''inumber''),
     (''IMGAMMA'', ''inumber''),
     (''IMIGAMMA'', ''a, inumber, [lower=TRUE], [regularize=TRUE]''),
     (''IMINV'', ''inumber''),
     (''IMLN'', ''inumber''),
     (''IMLOG10'', ''inumber''),
     (''IMLOG2'', ''inumber''),
     (''IMNEG'', ''inumber''),
     (''IMPOWER'', ''inumber, number''),
     (''IMPRODUCT'', ''inumber1, '' @ DOTS),
     (''IMREAL'', ''inumber''),
     (''IMSEC'', ''inumber''),
     (''IMSECH'', ''inumber''),
     (''IMSIN'', ''inumber''),
     (''IMSINH'', ''inumber''),
     (''IMSQRT'', ''inumber''),
     (''IMSUB'', ''inumber1, inumber2''),
     (''IMSUM'', ''inumber1, '' @ DOTS),
     (''IMTAN'', ''inumber''),
     (''IMTANH'', ''inumber''),
     (''INDEX'', ''array OVER T, row_num''),
     (''INT'', ''number''),
     (''INTERCEPT'', ''known_ys, known_xs OVER T''),
     (''INTERPOLATION'', ''xs, ys OVER T, target, [method=0], [next]''),
     (''INVSUMINV'', ''number1, '' @ DOTS),
     (''IPMT'', ''rate, per, nper, pv, [fv=0], [type=0]''),
     (''ISBLANK'', ''value''),
     (''ISDATE'', ''value''),
     (''ISERR'', ''value''),
     (''ISERROR'', ''value''),
     (''ISEVEN'', ''number''),
     (''ISLEAPYEAR'', ''date''),
     (''ISLOGICAL'', ''value''),
     (''ISNA'', ''value''),
     (''ISNONTEXT'', ''value''),
     (''ISNUMBER'', ''value''),
     (''ISNUMBERORDATE'', ''value''),
     (''ISO.CEILING'', ''number, [significance=1]''),
     (''ISODD'', ''number''),
     (''ISOWEEKNUM'', ''date''),
     (''ISOYEAR'', ''date''),
     (''ISPRIME'', ''n''),
     (''ISTEXT'', ''value''),
     (''ITHPRIME'', ''i''),
     (''JIS'', ''text''),
     (''KURT'', ''values OVER T''),
     (''KURTP'', ''values OVER T''),
     (''LAMBERTW'', ''x, [k=0]''),
     (''LANDAU'', ''x''),
     (''LAPLACE'', ''x, a''),
     (''LARGE'', ''array OVER T, k''),
     (''LAST'', ''values OVER T''),
     (''LCM'', ''number1, '' @ DOTS),
     (''LEFT'', ''text, [num_chars=1]''),
     (''LEN'', ''text''),
     (''LINEST'', ''known_ys, known_xs1, '' @ DOTS @ '' OVER T, [const=TRUE], [stats=FALSE] INTO K''),
     (''LKSTEST'', ''values OVER T''),
     (''LKSTEST.STAT'', ''values OVER T''),
     (''LN'', ''number''),
     (''LN1P'', ''x''),
     (''LOG'', ''number, [base=10]''),
     (''LOG10'', ''number''),
     (''LOG2'', ''x''),
     (''LOGEST'', ''known_ys, known_xs1, '' @ DOTS @ '' OVER T, [const=TRUE], [stats=FALSE] INTO K''),
     (''LOGISTIC'', ''x, a''),
     (''LOGNORM.DIST'', ''x, mean, standard_dev, cumulative''),
     (''LOGNORM.INV'', ''probability, mean, standard_dev''),
     (''LOGNORMDIST'', ''x, mean, standard_dev''),
     (''LOGREG'', ''known_ys, known_xs OVER T, [affine=TRUE], [stats=FALSE] INTO K''),
     (''LOOKUP'', ''lookup_value, lookup_vector OVER T, result_vector''),
     (''LOWER'', ''text''),
     (''MAKEARRAY'', ''rows, cols, lambda''),
     (''MAP'', ''array1, '' @ DOTS @ '', lambda''),
     (''MATCH'', ''lookup_value, lookup_array OVER T, [match_type=1]''),
     (''MAX'', ''number1, '' @ DOTS),
     (''MAX'', ''values OVER T''),
     (''MAXA'', ''values OVER T''),
     (''MAXIFS'', ''max_range, criteria_range1 OVER T, criteria1, '' @ DOTS),
     (''MEDIAN'', ''values OVER T''),
     (''MID'', ''text, start_num, num_chars''),
     (''MIN'', ''number1, '' @ DOTS),
     (''MIN'', ''values OVER T''),
     (''MINA'', ''values OVER T''),
     (''MINIFS'', ''min_range, criteria_range1 OVER T, criteria1, '' @ DOTS),
     (''MINUTE'', ''serial_number''),
     (''MOD'', ''number, divisor''),
     (''MODE'', ''values OVER T''),
     (''MODE.MULT'', ''values OVER T INTO K''),
     (''MONTH'', ''serial_number''),
     (''MONTHNAME'', ''month''),
     (''MONTHS'', ''start_date, end_date, type''),
     (''MROUND'', ''number, multiple''),
     (''MULTINOMIAL'', ''number1, '' @ DOTS),
     (''N'', ''value''),
     (''NEG'', ''number''),
     (''NEGBINOM.DIST'', ''number_f, number_s, probability_s, cumulative''),
     (''NEGBINOMDIST'', ''number_f, number_s, probability_s''),
     (''NETWORKDAYS'', ''start_date, end_date''),
     (''NETWORKDAYS.INTL'', ''start_date, end_date, [weekend=1]''),
     (''NEXT'', ''x, category, [n=1], [default]''),
     (''NOMINAL'', ''effect_rate, npery''),
     (''NORM.DIST'', ''x, mean, standard_dev, cumulative''),
     (''NORM.INV'', ''probability, mean, standard_dev''),
     (''NORM.S.DIST'', ''z, cumulative''),
     (''NORM.S.INV'', ''probability''),
     (''NORMSDIST'', ''z''),
     (''NPER'', ''rate, pmt, pv, [fv=0], [type=0]''),
     (''NT_D'', ''n''),
     (''NT_MU'', ''n''),
     (''NT_OMEGA'', ''n''),
     (''NT_PHI'', ''n''),
     (''NT_PI'', ''n''),
     (''NT_RADICAL'', ''n''),
     (''NT_SIGMA'', ''n''),
     (''NUMBERVALUE'', ''text, [decimal_separator='' @ [CHR 0x22] @ ''.'' @ [CHR 0x22] @ ''], [group_separator='' @ [CHR 0x22] @ '','' @ [CHR 0x22] @ '']''),
     (''OCT2BIN'', ''number, [places]''),
     (''OCT2DEC'', ''number''),
     (''OCT2HEX'', ''number, [places]''),
     (''ODD'', ''number''),
     (''OFFCAP'', ''circuits, gos''),
     (''OFFTRAF'', ''traffic, circuits''),
     (''OR'', ''logical1, '' @ DOTS),
     (''OR'', ''values OVER T''),
     (''OWENT'', ''h, a''),
     (''PARETO'', ''x, a, b''),
     (''PARTITIONS'', ''n''),
     (''PENTECOSTSUNDAY'', ''year''),
     (''PERCENTILE'', ''array OVER T, k''),
     (''PERCENTILE.EXC'', ''array OVER T, k''),
     (''PERCENTOF'', ''data_subset, data_all OVER T''),
     (''PERCENTRANK'', ''array OVER T, [x], [significance=3]''),
     (''PERCENTRANK.EXC'', ''array OVER T, [x], [significance=3]''),
     (''PERMUT'', ''number, number_chosen''),
     (''PERMUTATIONA'', ''number, number_chosen''),
     (''PFACTOR'', ''n''),
     (''PHI'', ''x''),
     (''PMT'', ''rate, nper, pv, [fv=0], [type=0]''),
     (''POCHHAMMER'', ''x, n''),
     (''POISSON.DIST'', ''x, mean, cumulative''),
     (''POLYNOMIAL'', ''x, coefficients OVER T''),
     (''POSITION'', ''category''),
     (''POWER'', ''number, power''),
     (''PPMT'', ''rate, per, nper, pv, [fv=0], [type=0]''),
     (''PREV'', ''x, category, [n=1], [default]''),
     (''PROB'', ''x_range, prob_range OVER T, lower_limit, [upper_limit]''),
     (''PROBBLOCK'', ''traffic, circuits''),
     (''PRODUCT'', ''number1, '' @ DOTS),
     (''PRODUCT'', ''values OVER T''),
     (''PROPER'', ''text''),
     (''PV'', ''rate, nper, pmt, [fv=0], [type=0]'')]"

definition PARAMS_Q_Z :: "(string \<times> string) list" where
  "PARAMS_Q_Z =
    [(''QUARTILE'', ''array OVER T, quart''),
     (''QUARTILE.EXC'', ''array OVER T, quart''),
     (''QUOTIENT'', ''numerator, denominator''),
     (''R.DBETA'', ''x, shape1, shape2, [give_log=FALSE]''),
     (''R.DBINOM'', ''x, size, prob, [give_log=FALSE]''),
     (''R.DCAUCHY'', ''x, location, scale, [give_log=FALSE]''),
     (''R.DCHISQ'', ''x, df, [give_log=FALSE]''),
     (''R.DEXP'', ''x, scale, [give_log=FALSE]''),
     (''R.DF'', ''x, df1, df2, [give_log=FALSE]''),
     (''R.DGAMMA'', ''x, shape, scale, [give_log=FALSE]''),
     (''R.DGEOM'', ''x, prob, [give_log=FALSE]''),
     (''R.DGUMBEL'', ''x, mu, beta, [give_log=FALSE]''),
     (''R.DHYPER'', ''x, m, n, k, [give_log=FALSE]''),
     (''R.DLNORM'', ''x, meanlog, sdlog, [give_log=FALSE]''),
     (''R.DNBINOM'', ''x, size, prob, [give_log=FALSE]''),
     (''R.DNORM'', ''x, mean, sd, [give_log=FALSE]''),
     (''R.DPOIS'', ''x, lambda, [give_log=FALSE]''),
     (''R.DRAYLEIGH'', ''x, scale, [give_log=FALSE]''),
     (''R.DSNORM'', ''x, shape, location, scale, [give_log=FALSE]''),
     (''R.DST'', ''x, df, shape, [give_log=FALSE]''),
     (''R.DT'', ''x, df, [give_log=FALSE]''),
     (''R.DWEIBULL'', ''x, shape, scale, [give_log=FALSE]''),
     (''R.PBETA'', ''x, shape1, shape2, [lower_tail=TRUE], [log_p=FALSE]''),
     (''R.PBINOM'', ''x, size, prob, [lower_tail=TRUE], [log_p=FALSE]''),
     (''R.PCAUCHY'', ''x, location, scale, [lower_tail=TRUE], [log_p=FALSE]''),
     (''R.PCHISQ'', ''x, df, [lower_tail=TRUE], [log_p=FALSE]''),
     (''R.PEXP'', ''x, scale, [lower_tail=TRUE], [log_p=FALSE]''),
     (''R.PF'', ''x, df1, df2, [lower_tail=TRUE], [log_p=FALSE]''),
     (''R.PGAMMA'', ''x, shape, scale, [lower_tail=TRUE], [log_p=FALSE]''),
     (''R.PGEOM'', ''x, prob, [lower_tail=TRUE], [log_p=FALSE]''),
     (''R.PGUMBEL'', ''x, mu, beta, [lower_tail=TRUE], [log_p=FALSE]''),
     (''R.PHYPER'', ''x, m, n, k, [lower_tail=TRUE], [log_p=FALSE]''),
     (''R.PLNORM'', ''x, meanlog, sdlog, [lower_tail=TRUE], [log_p=FALSE]''),
     (''R.PNBINOM'', ''x, size, prob, [lower_tail=TRUE], [log_p=FALSE]''),
     (''R.PNORM'', ''x, mean, sd, [lower_tail=TRUE], [log_p=FALSE]''),
     (''R.PPOIS'', ''x, lambda, [lower_tail=TRUE], [log_p=FALSE]''),
     (''R.PRAYLEIGH'', ''x, scale, [lower_tail=TRUE], [log_p=FALSE]''),
     (''R.PSNORM'', ''x, shape, location, scale, [lower_tail=TRUE], [log_p=FALSE]''),
     (''R.PST'', ''x, df, shape, [lower_tail=TRUE], [log_p=FALSE]''),
     (''R.PT'', ''x, df, [lower_tail=TRUE], [log_p=FALSE]''),
     (''R.PTUKEY'', ''x, nmeans, df, [nranges=1], [lower_tail=TRUE], [log_p=FALSE]''),
     (''R.PWEIBULL'', ''x, shape, scale, [lower_tail=TRUE], [log_p=FALSE]''),
     (''R.QBETA'', ''p, shape1, shape2, [lower_tail=TRUE], [log_p=FALSE]''),
     (''R.QBINOM'', ''p, size, prob, [lower_tail=TRUE], [log_p=FALSE]''),
     (''R.QCAUCHY'', ''p, location, scale, [lower_tail=TRUE], [log_p=FALSE]''),
     (''R.QCHISQ'', ''p, df, [lower_tail=TRUE], [log_p=FALSE]''),
     (''R.QEXP'', ''p, scale, [lower_tail=TRUE], [log_p=FALSE]''),
     (''R.QF'', ''p, df1, df2, [lower_tail=TRUE], [log_p=FALSE]''),
     (''R.QGAMMA'', ''p, shape, scale, [lower_tail=TRUE], [log_p=FALSE]''),
     (''R.QGEOM'', ''p, prob, [lower_tail=TRUE], [log_p=FALSE]''),
     (''R.QGUMBEL'', ''p, mu, beta, [lower_tail=TRUE], [log_p=FALSE]''),
     (''R.QHYPER'', ''p, m, n, k, [lower_tail=TRUE], [log_p=FALSE]''),
     (''R.QLNORM'', ''p, meanlog, sdlog, [lower_tail=TRUE], [log_p=FALSE]''),
     (''R.QNBINOM'', ''p, size, prob, [lower_tail=TRUE], [log_p=FALSE]''),
     (''R.QNORM'', ''p, mean, sd, [lower_tail=TRUE], [log_p=FALSE]''),
     (''R.QPOIS'', ''p, lambda, [lower_tail=TRUE], [log_p=FALSE]''),
     (''R.QRAYLEIGH'', ''p, scale, [lower_tail=TRUE], [log_p=FALSE]''),
     (''R.QSNORM'', ''p, shape, location, scale, [lower_tail=TRUE], [log_p=FALSE]''),
     (''R.QST'', ''p, df, shape, [lower_tail=TRUE], [log_p=FALSE]''),
     (''R.QT'', ''p, df, [lower_tail=TRUE], [log_p=FALSE]''),
     (''R.QTUKEY'', ''p, nmeans, df, [nranges=1], [lower_tail=TRUE], [log_p=FALSE]''),
     (''R.QWEIBULL'', ''p, shape, scale, [lower_tail=TRUE], [log_p=FALSE]''),
     (''RADIANS'', ''angle''),
     (''RANK'', ''ref OVER T, [order=0]''),
     (''RANK.AVG'', ''ref OVER T, [order=0]''),
     (''RANK.DENSE'', ''ref OVER T, [order=0]''),
     (''RATE'', ''nper, pmt, pv, [fv=0], [type=0], [guess=0.1]''),
     (''RAWSUBTRACT'', ''number1, '' @ DOTS),
     (''RAYLEIGH'', ''x, sigma''),
     (''RAYLEIGHTAIL'', ''x, a, sigma''),
     (''REDUCE'', ''initial_value, array OVER T, lambda''),
     (''REDUCEPI'', ''x, e, [q]''),
     (''REGEX'', ''text, expression, [replacement], [flags]''),
     (''REGEXEXTRACT'', ''text, pattern, [return_mode=0], [case_sensitivity=0]''),
     (''REGEXREPLACE'', ''text, pattern, replacement, [occurrence=0], [case_sensitivity=0]''),
     (''REGEXTEST'', ''text, pattern, [case_sensitivity=0]''),
     (''RELABEL'', ''x, from_category, to_category''),
     (''REPLACE'', ''old_text, start_num, num_chars, new_text''),
     (''REPT'', ''text, number_times''),
     (''RIGHT'', ''text, [num_chars=1]''),
     (''ROMAN'', ''number, [form=0]''),
     (''ROT13'', ''text''),
     (''ROUND'', ''number, [num_digits=0]''),
     (''ROUNDDOWN'', ''number, [num_digits=0]''),
     (''ROUNDSIG'', ''value, digits''),
     (''ROUNDUP'', ''number, [num_digits=0]''),
     (''RSQ'', ''known_ys, known_xs OVER T''),
     (''S'', ''values OVER T''),
     (''SCAN'', ''initial_value, array OVER T, lambda''),
     (''SEARCH'', ''find_text, within_text, [start_num=1]''),
     (''SEC'', ''number''),
     (''SECH'', ''number''),
     (''SECOND'', ''serial_number''),
     (''SELECT'', ''values, keys OVER T, lookup''),
     (''SELECTBETWEEN'', ''values, keys OVER T, low, high, [inclusive]''),
     (''SELECTGREATERTHAN'', ''values, keys OVER T, lookup, [inclusive]''),
     (''SELECTLESSTHAN'', ''values, keys OVER T, lookup, [inclusive]''),
     (''SELECTS'', ''values, tests OVER T, condition INTO K''),
     (''SERIESSUM'', ''x, n, m, coefficients OVER T''),
     (''SFTEST'', ''values OVER T''),
     (''SFTEST.STAT'', ''values OVER T''),
     (''SIGN'', ''number''),
     (''SIN'', ''number''),
     (''SINH'', ''number''),
     (''SINPI'', ''x''),
     (''SKEW'', ''values OVER T''),
     (''SKEWP'', ''values OVER T''),
     (''SLOPE'', ''known_ys, known_xs OVER T''),
     (''SMALL'', ''array OVER T, k''),
     (''SNORM.DIST.RANGE'', ''x1, x2''),
     (''SORT'', ''array OVER T, [sort_order=1] INTO K''),
     (''SORTBY'', ''array, by_array1 OVER T, [sort_order1], '' @ DOTS @ '' INTO K''),
     (''SQRT'', ''number''),
     (''SQRTPI'', ''number''),
     (''SSMEDIAN'', ''array OVER T, [interval=1]''),
     (''STANDARDIZE'', ''x, mean, standard_dev''),
     (''STDEV'', ''values OVER T''),
     (''STDEVA'', ''values OVER T''),
     (''STDEVP'', ''values OVER T''),
     (''STDEVPA'', ''values OVER T''),
     (''STEYX'', ''known_ys, known_xs OVER T''),
     (''STRIPDURATION'', ''duration''),
     (''SUBSTITUTE'', ''text, old_text, new_text, [instance_num]''),
     (''SUBTOTAL'', ''function_num, values OVER T''),
     (''SUM'', ''number1, '' @ DOTS),
     (''SUM'', ''values OVER T''),
     (''SUMA'', ''values OVER T''),
     (''SUMIF'', ''range OVER T, criteria, [sum_range]''),
     (''SUMIFS'', ''sum_range, criteria_range1 OVER T, criteria1, '' @ DOTS),
     (''SUMPRODUCT'', ''array1, '' @ DOTS @ '' OVER T''),
     (''SUMSQ'', ''number1, '' @ DOTS),
     (''SUMSQ'', ''values OVER T''),
     (''SUMX2MY2'', ''array_x, array_y OVER T''),
     (''SUMX2PY2'', ''array_x, array_y OVER T''),
     (''SUMXMY2'', ''array_x, array_y OVER T''),
     (''SWAP'', ''x, category_a, category_b''),
     (''SWITCH'', ''expression, value1, result1, '' @ DOTS @ '', [default]''),
     (''T'', ''value''),
     (''T.DIST'', ''x, deg_freedom, cumulative''),
     (''T.DIST.2T'', ''x, deg_freedom''),
     (''T.DIST.RT'', ''x, deg_freedom''),
     (''T.INV'', ''probability, deg_freedom''),
     (''T.INV.2T'', ''probability, deg_freedom''),
     (''TAKE'', ''array OVER T, rows INTO K''),
     (''TAN'', ''number''),
     (''TANH'', ''number''),
     (''TANPI'', ''x''),
     (''TDIST'', ''x, deg_freedom, tails''),
     (''TEXT'', ''value, format_text''),
     (''TEXTAFTER'', ''text, delimiter, [instance_num=1], [match_mode=0], [match_end=0], [if_not_found]''),
     (''TEXTBEFORE'', ''text, delimiter, [instance_num=1], [match_mode=0], [match_end=0], [if_not_found]''),
     (''TEXTBETWEEN'', ''text, start_delimiter, end_delimiter''),
     (''TEXTJOIN'', ''delimiter, ignore_empty, values OVER T''),
     (''TEXTSPLIT'', ''text OVER T, col_delimiter, [row_delimiter='' @ [CHR 0x22, CHR 0x22] @ ''], [ignore_empty=FALSE], [match_mode=0], [pad_with] INTO K''),
     (''TIME'', ''hour, minute, second''),
     (''TIMEVALUE'', ''time_text''),
     (''TREND'', ''known_ys, known_xs OVER T, [const=TRUE]''),
     (''TRIM'', ''text''),
     (''TRIMMEAN'', ''array OVER T, percent''),
     (''TRUNC'', ''number, [num_digits=0]''),
     (''TTEST'', ''array1, array2 OVER T, tails, type''),
     (''TYPE'', ''value''),
     (''UNICHAR'', ''number''),
     (''UNICODE'', ''text''),
     (''UNIQUE'', ''array OVER T, [exactly_once=FALSE] INTO K''),
     (''UNIX2DATE'', ''t''),
     (''UPPER'', ''text''),
     (''VALUE'', ''text''),
     (''VALUETOTEXT'', ''value, [format=0]''),
     (''VAR'', ''values OVER T''),
     (''VARA'', ''values OVER T''),
     (''VARP'', ''values OVER T''),
     (''VARPA'', ''values OVER T''),
     (''WEEKDAY'', ''serial_number, [return_type=1]''),
     (''WEEKNUM'', ''serial_number, [return_type=1]''),
     (''WEEKS'', ''start_date, end_date, type''),
     (''WEEKSINYEAR'', ''date''),
     (''WEIBULL.DIST'', ''x, alpha, beta, cumulative''),
     (''WORKDAY'', ''start_date, days''),
     (''WORKDAY.INTL'', ''start_date, days, [weekend=1]''),
     (''XLOOKUP'', ''lookup_value, lookup_array OVER T, return_array, [if_not_found=NA()], [match_mode=0], [search_mode=1]''),
     (''XMATCH'', ''lookup_value, lookup_array OVER T, [match_mode=0], [search_mode=1]''),
     (''XOR'', ''logical1, '' @ DOTS),
     (''XOR'', ''values OVER T''),
     (''YEAR'', ''serial_number''),
     (''YEARFRAC'', ''start_date, end_date, [basis=0]''),
     (''YEARS'', ''start_date, end_date, type''),
     (''ZTEST'', ''array OVER T, x, [sigma]'')]"

definition PARAM_NAMES :: "(string \<times> string) list" where
  "PARAM_NAMES = PARAMS_A_C @ PARAMS_D_H @ PARAMS_I_P @ PARAMS_Q_Z"

definition DOCS :: "(u32 \<times> string) list" where
  "DOCS =
    [(39, ''TRUE''),
     (40, ''FALSE''),
     (53, ''the #N/A error''),
     (112, [CHR 0xCF, CHR 0x80]),
     (427, ''the current date and time (UTC); re-evaluated when the model is recalculated''),
     (428, ''the current date (UTC midnight); re-evaluated when the model is recalculated''),
     (913, ''LET(name, value, '' @ DOTS @ '', body): the body with each name bound to its value''),
     (914, ''LAMBDA(p, '' @ DOTS @ '', body): a function of its parameters, called on the spot or passed to MAP, REDUCE or SCAN''),
     (916, ''SEQUENCE(T, [start=1], [step=1]): start, start + step, '' @ DOTS @ '' along T'' @ [CHR 0x27] @ ''s items, (POSITION(T) - 1) * step + start''),
     (707, ''interest paid from period start to end: CUMIPMT(rate, nper, pv, start_period, end_period, type)''),
     (708, ''principal paid from period start to end: CUMPRINC(rate, nper, pv, start_period, end_period, type)''),
     (709, ''interest of period per with straight-line principal: ISPMT(rate, per, nper, pv)''),
     (712, ''periods for pv to grow to fv at rate: PDURATION(rate, pv, fv)''),
     (713, ''equivalent growth rate per period: RRI(nper, pv, fv)''),
     (720, ''straight-line depreciation per period: SLN(cost, salvage, life)''),
     (721, ''sum-of-years'' @ [CHR 0x27] @ ''-digits depreciation: SYD(cost, salvage, life, per)''),
     (722, ''fixed declining balance: DB(cost, salvage, life, period, [month=12])''),
     (723, ''double declining balance: DDB(cost, salvage, life, period, [factor=2])''),
     (724, ''declining balance between two periods: VDB(cost, salvage, life, start_period, end_period, [factor=2], [no_switch])''),
     (725, ''French degressive depreciation: AMORDEGRC(cost, date_purchased, first_period, salvage, period, rate, [basis])''),
     (726, ''French linear depreciation: AMORLINC(cost, date_purchased, first_period, salvage, period, rate, [basis])''),
     (741, ''accrued interest paid at maturity: ACCRINTM(issue, settlement, rate, [par=1000], [basis])''),
     (748, ''discount rate: DISC(settlement, maturity, pr, redemption, [basis])''),
     (749, ''Macaulay duration: DURATION(settlement, maturity, coupon, yld, frequency, [basis])''),
     (750, ''modified duration: MDURATION(settlement, maturity, coupon, yld, frequency, [basis])''),
     (751, ''interest rate of a fully invested security: INTRATE(settlement, maturity, investment, redemption, [basis])''),
     (752, ''price with an odd first period: ODDFPRICE(settlement, maturity, issue, first_coupon, rate, yld, redemption, frequency, [basis])''),
     (753, ''yield with an odd first period: ODDFYIELD(settlement, maturity, issue, first_coupon, rate, pr, redemption, frequency, [basis])''),
     (754, ''price with an odd last period: ODDLPRICE(settlement, maturity, last_interest, rate, yld, redemption, frequency, [basis])''),
     (755, ''yield with an odd last period: ODDLYIELD(settlement, maturity, last_interest, rate, pr, redemption, frequency, [basis])''),
     (756, ''price per 100 face value: PRICE(settlement, maturity, rate, yld, redemption, frequency, [basis])''),
     (757, ''price of a discounted security: PRICEDISC(settlement, maturity, discount, redemption, [basis])''),
     (758, ''price of a security paying interest at maturity: PRICEMAT(settlement, maturity, issue, rate, yld, [basis])''),
     (759, ''amount at maturity of a fully invested security: RECEIVED(settlement, maturity, investment, discount, [basis])''),
     (760, ''bond-equivalent yield of a Treasury bill: TBILLEQ(settlement, maturity, discount)''),
     (761, ''price per 100 face of a Treasury bill: TBILLPRICE(settlement, maturity, discount)''),
     (762, ''yield of a Treasury bill: TBILLYIELD(settlement, maturity, pr)''),
     (763, ''yield of a periodic-coupon security (iterative): YIELD(settlement, maturity, rate, pr, redemption, frequency, [basis])''),
     (764, ''annual yield of a discounted security: YIELDDISC(settlement, maturity, pr, redemption, [basis])''),
     (765, ''annual yield of a security paying interest at maturity: YIELDMAT(settlement, maturity, issue, rate, pr, [basis])''),
     (1150, ''net present value of the flows in item order, the first discounted one period (a missing item is skipped, not zero): NPV(rate, values OVER T)''),
     (1151, ''net present value of flows at dates, discounted from the first date (365-day years): XNPV(rate, values, dates OVER T)''),
     (1152, ''internal rate of return of the flows in item order (iterative): IRR(values OVER T, [guess=0.1])''),
     (1153, ''internal rate of return of flows at dates (iterative): XIRR(values, dates OVER T, [guess=0.1])''),
     (1154, ''modified internal rate of return, outflows financed and inflows reinvested: MIRR(values OVER T, finance_rate, reinvest_rate)''),
     (1155, ''financial management rate of return (GNU Oleo): outflows pulled back at the safe rate, inflows of at least reinvest_min pushed forward at the reinvestment rate: FMRR(values OVER T, safe_rate, reinvest_rate, reinvest_min)''),
     (1156, ''principal compounded over the rates in item order: FVSCHEDULE(principal, schedule OVER T)''),
     (1475, ''the largest finite double, 1.7976931348623157e308''),
     (1476, ''the smallest positive normal double, 2.2250738585072014e-308''),
     (1477, ''the floating-point base, 2''),
     (1750, ''Black-Scholes price of a European option: OPT_BS(call_put, spot, strike, time, rate, volatility, [cost_of_carry])''),
     (1751, ''Black-Scholes delta: OPT_BS_DELTA(call_put, spot, strike, time, rate, volatility, [cost_of_carry])''),
     (1752, ''Black-Scholes gamma (calls and puts alike): OPT_BS_GAMMA(spot, strike, time, rate, volatility, [cost_of_carry])''),
     (1753, ''Black-Scholes rho: OPT_BS_RHO(call_put, spot, strike, time, rate, volatility, [cost_of_carry])''),
     (1754, ''Black-Scholes theta: OPT_BS_THETA(call_put, spot, strike, time, rate, volatility, [cost_of_carry])''),
     (1755, ''Black-Scholes vega (calls and puts alike): OPT_BS_VEGA(spot, strike, time, rate, volatility, [cost_of_carry])''),
     (1756, ''Black-Scholes sensitivity to the cost of carry: OPT_BS_CARRYCOST(call_put, spot, strike, time, rate, volatility, [cost_of_carry])''),
     (1760, ''currency option: OPT_GARMAN_KOHLHAGEN(call_put, spot, strike, time, domestic_rate, foreign_rate, volatility)''),
     (1761, ''Black-Scholes with trading-day volatility: OPT_FRENCH(call_put, spot, strike, trading_time, calendar_time, rate, volatility, cost_of_carry)''),
     (1762, ''Merton jump diffusion: OPT_JUMP_DIFF(call_put, spot, strike, time, rate, volatility, lambda, gamma)''),
     (1763, ''commodity futures option: OPT_MILTERSEN_SCHWARTZ(call_put, p_t, f_t, strike, t1, t2, v_s, v_e, v_f, rho_se, rho_sf, rho_ef, kappa_e, kappa_f)''),
     (1780, ''executive stock option: OPT_EXEC(call_put, spot, strike, time, rate, volatility, cost_of_carry, lambda)''),
     (1781, ''forward start option: OPT_FORWARD_START(call_put, spot, alpha, time_start, time, rate, volatility, cost_of_carry)''),
     (1782, ''discrete time switch option: OPT_TIME_SWITCH(call_put, spot, strike, a, time, m, dt, rate, cost_of_carry, volatility)''),
     (1783, ''simple chooser option: OPT_SIMPLE_CHOOSER(spot, strike, time1, time2, rate, cost_of_carry, volatility)''),
     (1770, ''Barone-Adesi-Whaley American approximation: OPT_BAW_AMER(call_put, spot, strike, time, rate, volatility, cost_of_carry)''),
     (1771, ''Bjerksund-Stensland American approximation: OPT_BJER_STENS(call_put, spot, strike, time, rate, volatility, cost_of_carry)''),
     (1772, ''Roll-Geske-Whaley American call with one known dividend: OPT_RGW(spot, strike, time_payout, time_exp, rate, d, volatility)''),
     (1773, ''Cox-Ross-Rubinstein binomial tree: OPT_BINOMIAL(amer_euro, call_put, steps, spot, strike, time, rate, volatility, [cost_of_carry])''),
     (1784, ''complex chooser option: OPT_COMPLEX_CHOOSER(spot, strike_call, strike_put, time, time_call, time_put, rate, cost_of_carry, volatility)''),
     (1785, ''option on an option ('' @ [CHR 0x22] @ ''cc'' @ [CHR 0x22] @ '', '' @ [CHR 0x22] @ ''cp'' @ [CHR 0x22] @ '', '' @ [CHR 0x22] @ ''pc'' @ [CHR 0x22] @ '', '' @ [CHR 0x22] @ ''pp'' @ [CHR 0x22] @ ''): OPT_ON_OPTIONS(type, spot, strike1, strike2, time1, time2, rate, cost_of_carry, volatility)''),
     (1786, ''writer-extendible option: OPT_EXTENDIBLE_WRITER(call_put, spot, strike1, strike2, time1, time2, rate, cost_of_carry, volatility)''),
     (1790, ''two-asset correlation option: OPT_2_ASSET_CORRELATION(call_put, spot1, spot2, strike1, strike2, time, cost_of_carry1, cost_of_carry2, rate, volatility1, volatility2, rho)''),
     (1791, ''European option to exchange asset 2 for asset 1: OPT_EURO_EXCHANGE(spot1, spot2, qty1, qty2, time, rate, cost_of_carry1, cost_of_carry2, volatility1, volatility2, rho)''),
     (1792, ''American option to exchange asset 2 for asset 1: OPT_AMER_EXCHANGE(spot1, spot2, qty1, qty2, time, rate, cost_of_carry1, cost_of_carry2, volatility1, volatility2, rho)''),
     (1793, ''Kirk'' @ [CHR 0x27] @ ''s futures spread option approximation: OPT_SPREAD_APPROX(call_put, fut_price1, fut_price2, strike, time, rate, volatility1, volatility2, rho)''),
     (1795, ''fixed-strike lookback: OPT_FIXED_STRK_LKBK(call_put, spot, spot_min, spot_max, strike, time, rate, cost_of_carry, volatility)''),
     (1796, ''floating-strike lookback: OPT_FLOAT_STRK_LKBK(call_put, spot, spot_min, spot_max, time, rate, cost_of_carry, volatility)''),
     (1800, ''barrier option: OPT_BARRIER(spot, vol, r, rf, maturity, strike, lower, upper, rebate, put_call, in_out, continuous_or_end, [greek])''),
     (1801, ''one/no-touch option: OPT_TOUCH(spot, vol, r, rf, maturity, lower, upper, foreign_domestic, in_out, continuous_or_end, [greek])''),
     (1802, ''probability of touching a barrier: OPT_PROB_HIT(spot, vol, mu, maturity, lower, upper)''),
     (1803, ''probability of ending between the barriers (and in the money): OPT_PROB_INMONEY(spot, vol, mu, maturity, lower, upper, [strike], [put_call])''),
     (1850, ''MDETERM(A OVER R, C): the determinant of the square matrix A (rows along R, columns along C); 0 if singular''),
     (1851, ''LOGMDETERM(A OVER R, C): ln |det A| (no overflow for large matrices); #NUM! if singular''),
     (1852, ''MINVERSE(A OVER R, C INTO R2, C2): the inverse of the square matrix A, row by row; #NUM! if singular''),
     (1853, ''MPSEUDOINVERSE(A OVER R, C, [threshold] INTO C2, R2): the Moore'' @ [CHR 0xE2, CHR 0x80, CHR 0x93] @ ''Penrose pseudo-inverse (C '' @ [CHR 0xC3, CHR 0x97] @ '' R, row by row); singular values up to threshold (default 256 '' @ [CHR 0xCE, CHR 0xB5] @ '') times the largest count as zero''),
     (1854, ''CHOLESKY(A OVER R, C INTO R2, C2): the lower-triangular L with L'' @ [CHR 0xC2, CHR 0xB7] @ ''L'' @ [CHR 0xE1, CHR 0xB5, CHR 0x80] @ '' = A for a symmetric positive-definite A (asymmetric pairs averaged), row by row; #NUM! where A is not positive definite''),
     (1855, ''EIGEN(A OVER R, C INTO R2, C2): for a symmetric A (asymmetric pairs averaged), its eigenvalues largest magnitude first, then the matrix of their unit eigenvectors as columns: (n + 1) '' @ [CHR 0xC3, CHR 0x97] @ '' n values, row by row''),
     (1868, ''LOGFIT(known_ys, known_xs OVER T INTO K): the fit y = a + b'' @ [CHR 0xC2, CHR 0xB7] @ ''ln(sign'' @ [CHR 0xC2, CHR 0xB7] @ ''(x '' @ [CHR 0xE2, CHR 0x88, CHR 0x92] @ '' c)) by Gnumeric'' @ [CHR 0x27] @ ''s trial-and-error search: sign, a, b, c and the sum of squared residuals; #NUM! if the points are not logarithmic enough''),
     (1869, ''FOURIER(y OVER T, [inverse] INTO K): Gnumeric'' @ [CHR 0x27] @ ''s discrete Fourier transform (scaled by 1/n, zero-padded to a power of two), each value as complex text '' @ [CHR 0x22] @ ''a+bi'' @ [CHR 0x22]),
     (1870, ''PERIODOGRAM(y OVER T, [filter] INTO K): the magnitudes of the first half of the Fourier transform (Gnumeric), after a window: 0 none, 1 Bartlett, 2 Hann, 3 Welch''),
     (1871, ''CRONBACH(x1, x2, '' @ DOTS @ '' OVER T): Cronbach'' @ [CHR 0x27] @ ''s '' @ [CHR 0xCE, CHR 0xB1] @ '' of the items x1, x2, '' @ DOTS @ '' (one row per respondent; population variances, as Gnumeric)''),
     (1879, ''LEVERAGE(A OVER R, C INTO K): the regression leverages, the diagonal of A'' @ [CHR 0xC2, CHR 0xB7] @ ''(A'' @ [CHR 0xE1, CHR 0xB5, CHR 0x80] @ ''A)'' @ [CHR 0xE2, CHR 0x81, CHR 0xBB, CHR 0xC2, CHR 0xB9, CHR 0xC2, CHR 0xB7] @ ''A'' @ [CHR 0xE1, CHR 0xB5, CHR 0x80] @ '', one per row of A (Gnumeric); #NUM! if A'' @ [CHR 0x27] @ ''s columns are dependent'')]"

section \<open>Parameter names\<close>

definition starts_upper :: "string \<Rightarrow> bool" where
  "starts_upper p = (case p of [] \<Rightarrow> False | c # _ \<Rightarrow> ascii_uppercase c)"

text \<open>A piece in capitals after \<open>OVER\<close> or \<open>INTO\<close> is one more category; the list is kept with its last first.\<close>

definition split_step :: "string \<Rightarrow> string list \<Rightarrow> string list" where
  "split_step p out =
     (case out of
        prev # rest \<Rightarrow>
          if (contains '' OVER '' prev \<or> contains '' INTO '' prev) \<and> starts_upper p
          then (prev @ '', '' @ p) # rest else p # out
      | [] \<Rightarrow> [p])"

definition split_params :: "string \<Rightarrow> string list" where
  "split_params l = rev (fold split_step (split_str ['', ''] l) [])"

definition param_word :: "string \<Rightarrow> string" where
  "param_word p =
     trim_end_matches (CHR '']'') (trim_start_matches (CHR ''['') (before_str '' INTO '' (before_str '' OVER '' p)))"

definition bare_param :: "string \<Rightarrow> string \<times> string option" where
  "bare_param p =
     (case split_once (CHR ''='') (param_word p) of
        Some (n, d) \<Rightarrow> (n, Some d)
      | None \<Rightarrow> (param_word p, None))"

text \<open>The offset of the parenthesis that closes.\<close>

fun close_paren :: "nat \<Rightarrow> string \<Rightarrow> nat option" where
  "close_paren depth [] = None"
| "close_paren depth (c # cs) =
     (if c = CHR ''('' then map_option Suc (close_paren (depth + 1) cs)
      else if c = CHR '')'' then if depth = 0 then Some 0 else map_option Suc (close_paren (depth - 1) cs)
      else map_option Suc (close_paren depth cs))"

definition name_like :: "std_lib \<Rightarrow> string \<Rightarrow> bool" where
  "name_like lib p \<longleftrightarrow>
     (let w = param_word p
      in w \<noteq> [] \<and> list_all (\<lambda>ch. is_alphanumeric lib ch \<or> ch \<in> set (DOTS # chars ''_ =.-'')) (chars w) \<and>
         \<not> (ascii_digit (hd w) \<or> hd w = CHR ''-''))"

definition spelled_params :: "std_lib \<Rightarrow> string \<Rightarrow> string \<Rightarrow> string list option" where
  "spelled_params lib n doc =
     (case find_str (n @ ''('') doc of
        None \<Rightarrow> None
      | Some i \<Rightarrow>
          let rest = drop (i + length n + 1) doc
          in case close_paren 0 rest of
               None \<Rightarrow> None
             | Some e \<Rightarrow>
                 let inner = take e rest; parts = map trim (split_params inner)
                 in if inner \<noteq> [] \<and> list_all (name_like lib) parts then Some parts else None)"

definition fn_doc :: "fn_def \<Rightarrow> string" where
  "fn_doc d = (case map_of DOCS (raw_func (fid d)) of Some t \<Rightarrow> t | None \<Rightarrow> [])"

definition named_params :: "std_lib \<Rightarrow> fn_def \<Rightarrow> string list option" where
  "named_params lib d =
     (let rows = filter (\<lambda>(n, _). n = fname d) PARAM_NAMES
      in case find (\<lambda>(_, p). contains '' OVER '' p = reduces (fkind d)) rows of
           Some (_, p) \<Rightarrow> Some (split_params p)
         | None \<Rightarrow>
             (case rows of
                (_, p) # _ \<Rightarrow> Some (split_params p)
              | [] \<Rightarrow> spelled_params lib (fname d) (fn_doc d)))"

definition type_names :: "fn_def \<Rightarrow> string list" where
  "type_names d =
     (let inner = drop (length (fname d) + 1) (butlast (signature d))
      in if inner = [] then [] else split_str ['', ''] inner)"

definition param_names :: "std_lib \<Rightarrow> fn_def \<Rightarrow> string list" where
  "param_names lib d = (case named_params lib d of Some ps \<Rightarrow> ps | None \<Rightarrow> type_names d)"

fun position :: "('a \<Rightarrow> bool) \<Rightarrow> 'a list \<Rightarrow> nat option" where
  "position P [] = None"
| "position P (x # xs) = (if P x then Some 0 else map_option Suc (position P xs))"

definition param_index :: "std_lib \<Rightarrow> fn_def \<Rightarrow> string \<Rightarrow> nat option" where
  "param_index lib d n =
     (if fvariadic d then None
      else position (\<lambda>p. eq_ignore_ascii_case (fst (bare_param p)) n) (param_names lib d))"

definition param_name :: "std_lib \<Rightarrow> fn_def \<Rightarrow> nat \<Rightarrow> string option" where
  "param_name lib d i =
     (let ns = param_names lib d in if i < length ns then Some (fst (bare_param (ns ! i))) else None)"

text \<open>The text \<open>param_default\<close> parses.\<close>

definition default_text :: "std_lib \<Rightarrow> fn_def \<Rightarrow> nat \<Rightarrow> string option" where
  "default_text lib d i =
     (if i < frequired d then None
      else let ns = param_names lib d in if i < length ns then snd (bare_param (ns ! i)) else None)"

definition hint :: "std_lib \<Rightarrow> fn_def \<Rightarrow> string" where
  "hint lib d = fname d @ ''('' @ join_with '', '' (param_names lib d) @ '')''"

section \<open>The nearest names\<close>

text \<open>
  One pass of the loop over \<open>b\<close>: \<open>prev\<close> is the old cell to the upper left, \<open>left\<close> the new one to the left,
  and the old row goes on from the cell above.
\<close>

fun edit_cells :: "'a \<Rightarrow> nat \<Rightarrow> nat \<Rightarrow> 'a list \<Rightarrow> nat list \<Rightarrow> nat list" where
  "edit_cells ca prev left (cb # bs) (cur # row) =
     (let v = min (min (prev + (if ca \<noteq> cb then 1 else 0)) (left + 1)) (cur + 1)
      in v # edit_cells ca cur v bs row)"
| "edit_cells ca prev left _ _ = []"

fun edit_rows :: "nat \<Rightarrow> 'a list \<Rightarrow> 'a list \<Rightarrow> nat list \<Rightarrow> nat list" where
  "edit_rows i [] b row = row"
| "edit_rows i (ca # as) b row = edit_rows (i + 1) as b ((i + 1) # edit_cells ca (hd row) (i + 1) b (tl row))"

definition edit_distance :: "string \<Rightarrow> string \<Rightarrow> nat" where
  "edit_distance a b = last (edit_rows 0 (chars a) (chars b) [0..<length (chars b) + 1])"

fun dedup_names :: "(nat \<times> string) list \<Rightarrow> (nat \<times> string) list" where
  "dedup_names (x # y # xs) = (if snd x = snd y then dedup_names (x # xs) else x # dedup_names (y # xs))"
| "dedup_names xs = xs"

definition nearest :: "string \<Rightarrow> string list \<Rightarrow> nat \<Rightarrow> string list" where
  "nearest w ns n =
     (let lim = max (length (chars w) div 3) 2;
          scored = filter (\<lambda>(d, _). d \<le> lim) (map (\<lambda>x. (edit_distance w x, x)) ns)
      in map snd (take n (dedup_names (sort scored))))"

definition closest :: "string \<Rightarrow> nat \<Rightarrow> string list" where
  "closest w n = nearest (to_ascii_uppercase w) (concat (map (\<lambda>d. fname d # faliases d) all_fns)) n"

definition closest_param :: "std_lib \<Rightarrow> fn_def \<Rightarrow> string \<Rightarrow> string list" where
  "closest_param lib d w =
     (let w = to_ascii_lowercase w;
          ns = List.map_filter (param_name lib d) [0..<length (fparams d)];
          longer = filter (prefix w) ns
      in if longer \<noteq> [] then longer else nearest w ns 2)"

end
