(* ===== verification/Tokens.thy ===== *)
theory Tokens
  imports Fn_Params
begin

text \<open>
  The tokenizer of \<open>crates/core_model/src/parser.rs\<close>. The code walks a byte offset over the text; here a
  step takes the rest of the text from that offset and returns the rest after the token, and the offset
  is the length of what is gone. \<open>ParsePanic\<close> is a panic, \<open>OutOfFuel\<close> the end of a loop's fuel.
\<close>

section \<open>Tokens and errors\<close>

datatype parse_fail = ParseError string "nat option" | ParsePanic | OutOfFuel

datatype tok = KIdent string | KQIdent string | KNumber f64 | KStr string | KDate int | KOp string

type_synonym spanned = "tok \<times> nat"

text \<open>A formula limit, not a syntax or name error.\<close>

fun is_limit :: "parse_fail \<Rightarrow> bool" where
  "is_limit (ParseError m _) \<longleftrightarrow> prefix TOO_DEEP m \<or> prefix TOO_LARGE m"
| "is_limit _ = False"

section \<open>One token\<close>

definition parse_date_literal :: "std_lib \<Rightarrow> string \<Rightarrow> int option" where
  "parse_date_literal lib raw =
     (case rfc3339 lib (trim raw) of Some d \<Rightarrow> Some d | None \<Rightarrow> naive_date lib (trim raw))"

text \<open>After an opening quote \<open>q\<close>: the text to the closing one, a doubled quote being one, and the rest.\<close>

fun scan_quoted :: "char \<Rightarrow> string \<Rightarrow> (string \<times> string) option" where
  "scan_quoted q [] = None"
| "scan_quoted q (c # cs) =
     (if c = q then
        (case cs of
           [] \<Rightarrow> Some ([], [])
         | d # ds \<Rightarrow> if d = q then map_option (\<lambda>(s, r). (q # s, r)) (scan_quoted q ds) else Some ([], cs))
      else map_option (\<lambda>(s, r). (c # s, r)) (scan_quoted q cs))"

text \<open>The digits of a number, and a \<open>.\<close> before a digit.\<close>

fun num_run :: "string \<Rightarrow> string" where
  "num_run [] = []"
| "num_run (c # cs) =
     (if ascii_digit c \<or> c = CHR ''.'' \<and> cs \<noteq> [] \<and> ascii_digit (hd cs) then c # num_run cs else [])"

text \<open>The exponent mark with its sign, and its digits, if a mark follows.\<close>

definition exponent_run :: "string \<Rightarrow> (string \<times> string) option" where
  "exponent_run s =
     (case s of
        [] \<Rightarrow> None
      | c # cs \<Rightarrow>
          if is_e c
          then let sign = (case cs of d # _ \<Rightarrow> if d = CHR ''+'' \<or> d = CHR ''-'' then [d] else [] | [] \<Rightarrow> [])
               in Some (c # sign, takeWhile ascii_digit (drop (length sign) cs))
          else None)"

definition number_token :: "nat \<Rightarrow> string \<Rightarrow> (parse_fail, tok \<times> string) res" where
  "number_token start s =
     (let run = num_run s;
          raw = (case exponent_run (drop (length run) s) of Some (e, ds) \<Rightarrow> run @ e @ ds | None \<Rightarrow> run)
      in if (case exponent_run (drop (length run) s) of Some (_, ds) \<Rightarrow> ds = [] | None \<Rightarrow> False)
         then Inl (ParseError (''exponent without digits: '' @ raw) (Some start))
         else case parse_f64 raw of
             None \<Rightarrow> Inl (ParseError (''invalid number: '' @ raw) (Some start))
           | Some n \<Rightarrow>
               if f64_infinite n
               then Inl (ParseError (''number out of range: '' @ raw @ '' (the largest is about 1.8e308)'') (Some start))
               else Inr (KNumber n, drop (length raw) s))"

definition word_char :: "std_lib \<Rightarrow> string \<Rightarrow> bool" where
  "word_char lib ch \<longleftrightarrow> is_alphanumeric lib ch \<or> ch = ''_''"

text \<open>The bytes \<open>word_end\<close> advances over.\<close>

definition word_len :: "std_lib \<Rightarrow> string \<Rightarrow> nat" where
  "word_len lib s = length (concat (takeWhile (word_char lib) (chars s)))"

text \<open>
  The longest run of \<open>.part\<close>s, at most three, that names a function and is followed by a parenthesis:
  \<open>j\<close> is the end of the run so far.
\<close>

fun dotted_end :: "std_lib \<Rightarrow> nat \<Rightarrow> string \<Rightarrow> nat \<Rightarrow> nat option \<Rightarrow> nat option" where
  "dotted_end lib 0 s j best = best"
| "dotted_end lib (Suc k) s j best =
     (case drop j s of
        [] \<Rightarrow> best
      | c # r \<Rightarrow>
          if c = CHR ''.'' \<and> r \<noteq> [] \<and> word_char lib (first_char r)
          then let j' = j + 1 + word_len lib r
               in dotted_end lib k s j'
                    (if prefix ''('' (trim_start (drop j' s)) \<and> by_name (take j' s) \<noteq> [] then Some j' else best)
          else best)"

definition ident_len :: "std_lib \<Rightarrow> string \<Rightarrow> nat" where
  "ident_len lib s =
     (let n = length (first_char s); i = n + word_len lib (drop n s)
      in case dotted_end lib 3 s i None of Some e \<Rightarrow> e | None \<Rightarrow> i)"

definition starts_ident :: "std_lib \<Rightarrow> string \<Rightarrow> bool" where
  "starts_ident lib s \<longleftrightarrow>
     is_alphabetic lib (first_char s) \<or> first_char s = ''_'' \<or>
     first_char s = ''@'' \<and> is_alphabetic lib (first_char (tl s))"

definition two_ops :: "string list" where
  "two_ops = [''<='', ''>='', ''<>'', ''=='', ''!='', ''=>'']"

definition single_ops :: string where
  "single_ops = ''+-*/^=<>()[],.&%''"

text \<open>The token at the front of a nonempty text (\<open>None\<close> for white space) and what is left.\<close>

definition next_token :: "std_lib \<Rightarrow> nat \<Rightarrow> string \<Rightarrow> (parse_fail, tok option \<times> string) res" where
  "next_token lib start s =
     (let ch = first_char s; rest = drop (length ch) s; quote = CHR 0x22; apostrophe = CHR 0x27
      in if is_whitespace ch then Inr (None, rest)
         else if ch = [quote] then
           (case scan_quoted quote rest of
              None \<Rightarrow> Inl (ParseError ''unterminated string literal'' (Some start))
            | Some (t, r) \<Rightarrow> Inr (Some (KStr t), r))
         else if ch = ''#'' then
           (case split_once (CHR ''#'') rest of
              None \<Rightarrow> Inl (ParseError ''unterminated date literal'' (Some start))
            | Some (raw, r) \<Rightarrow>
                (case parse_date_literal lib raw of
                   None \<Rightarrow> Inl (ParseError (''invalid date: '' @ debug_str lib raw) (Some start))
                 | Some d \<Rightarrow> Inr (Some (KDate d), r)))
         else if length ch = 1 \<and> ascii_digit (hd ch) then
           rmap (\<lambda>(t, r). (Some t, r)) (number_token start s)
         else if ch = [apostrophe] then
           (case scan_quoted apostrophe rest of
              None \<Rightarrow> Inl (ParseError ''unterminated quoted name'' (Some start))
            | Some (t, r) \<Rightarrow>
                if t = []
                then Inl (ParseError (''empty quoted name: '' @ [apostrophe, apostrophe] @ '' names nothing'') (Some start))
                else Inr (Some (KQIdent t), r))
         else if starts_ident lib s then
           (let n = ident_len lib s in Inr (Some (KIdent (take n s)), drop n s))
         else if take 2 s \<in> set two_ops then Inr (Some (KOp (take 2 s)), drop 2 s)
         else if length ch = 1 \<and> hd ch \<in> set single_ops then Inr (Some (KOp ch), rest)
         else Inl (ParseError (''unexpected character: '' @ debug_char lib ch) (Some start)))"

section \<open>The loop\<close>

text \<open>A step that took nothing would loop for ever: the model panics there.\<close>

function tokens_from :: "std_lib \<Rightarrow> nat \<Rightarrow> string \<Rightarrow> (parse_fail, spanned list) res" where
  "tokens_from lib start s =
     (if s = [] then Inr []
      else rbind (next_token lib start s) (\<lambda>(t, r).
        if length r < length s
        then rmap (\<lambda>ts. (case t of Some t \<Rightarrow> (t, start) # ts | None \<Rightarrow> ts))
               (tokens_from lib (start + (length s - length r)) r)
        else Inl OutOfFuel))"
  by pat_completeness auto
termination
  by (relation "measure (\<lambda>(lib, start, s). length s)") auto

declare tokens_from.simps [simp del]

definition tokenize :: "std_lib \<Rightarrow> string \<Rightarrow> (parse_fail, spanned list) res" where
  "tokenize lib text = tokens_from lib 0 text"

end
