(* ===== verification/Parser_State.thy ===== *)
theory Parser_State
  imports Tokens Named_Lambda
begin

text \<open>
  The state of the recursive-descent parser in \<open>crates/core_model/src/parser.rs\<close> and the steps every rule
  of the grammar is made of. A rule is a function of \<open>struct Parser\<close> that fails or returns a value and
  the new state; \<open>pbind\<close> is \<open>?\<close> and sequencing. Two fields are the model's own: \<open>p_lib\<close>, the library, and
  \<open>p_default\<close>, what \<open>FnDef::param_default\<close> returns (it runs this parser on a written default). Looking up a
  name fills a cache in the model without changing what any lookup finds, so the model stays as it is.
\<close>

section \<open>The parser\<close>

record parser =
  p_toks :: "spanned list"
  p_pos :: nat
  p_model :: model
  p_depth :: nat
  p_scope :: "(string \<times> expr) list"
  p_lambdas :: u32
  p_expanded :: nat
  p_stored :: bool
  p_lib :: std_lib
  p_default :: "fn_def \<Rightarrow> nat \<Rightarrow> expr option"

type_synonym 'a pm = "parser \<Rightarrow> (parse_fail, 'a \<times> parser) res"

definition pret :: "'a \<Rightarrow> 'a pm" where
  "pret x s = Inr (x, s)"

definition pbind :: "'a pm \<Rightarrow> ('a \<Rightarrow> 'b pm) \<Rightarrow> 'b pm" where
  "pbind m f s = rbind (m s) (\<lambda>(x, s'). f x s')"

definition pthen :: "'a pm \<Rightarrow> 'b pm \<Rightarrow> 'b pm" where
  "pthen m k = pbind m (\<lambda>_. k)"

definition pget :: "(parser \<Rightarrow> 'a) \<Rightarrow> 'a pm" where
  "pget f s = Inr (f s, s)"

definition pmod :: "(parser \<Rightarrow> parser) \<Rightarrow> unit pm" where
  "pmod f s = Inr ((), f s)"

definition pfail :: "parse_fail \<Rightarrow> 'a pm" where
  "pfail e s = Inl e"

definition plift :: "(parse_fail, 'a) res \<Rightarrow> 'a pm" where
  "plift r s = rmap (\<lambda>x. (x, s)) r"

definition fail_at :: "string \<Rightarrow> nat option \<Rightarrow> 'a pm" where
  "fail_at msg pos = pfail (ParseError msg pos)"

section \<open>Tokens ahead\<close>

definition tok_at :: "nat \<Rightarrow> parser \<Rightarrow> tok option" where
  "tok_at k s = map_option fst (nth_arg (p_toks s) (p_pos s + k))"

definition peek :: "parser \<Rightarrow> tok option" where
  "peek s = tok_at 0 s"

definition toks_pos :: "nat \<Rightarrow> parser \<Rightarrow> nat option" where
  "toks_pos i s = map_option snd (nth_arg (p_toks s) i)"

definition peek_pos :: "parser \<Rightarrow> nat option" where
  "peek_pos s =
     (case toks_pos (p_pos s) s of
        Some p \<Rightarrow> Some p
      | None \<Rightarrow> if p_toks s = [] then None else Some (snd (List.last (p_toks s))))"

definition bump :: "unit pm" where
  "bump = pmod (\<lambda>s. if p_pos s < length (p_toks s) then s\<lparr>p_pos := p_pos s + 1\<rparr> else s)"

definition eat_op :: "string \<Rightarrow> bool pm" where
  "eat_op t s = (if peek s = Some (KOp t) then Inr (True, s\<lparr>p_pos := p_pos s + 1\<rparr>) else Inr (False, s))"

definition peek_kw :: "string \<Rightarrow> parser \<Rightarrow> bool" where
  "peek_kw kw s = (case peek s of Some (KIdent w) \<Rightarrow> eq_ignore_ascii_case w kw | _ \<Rightarrow> False)"

definition err :: "string \<Rightarrow> 'a pm" where
  "err msg s = Inl (ParseError msg (peek_pos s))"

definition expect_op :: "string \<Rightarrow> string \<Rightarrow> unit pm" where
  "expect_op t what = pbind (eat_op t) (\<lambda>b. if b then pret () else err (''expected '' @ what))"

fun name_tok :: "tok option \<Rightarrow> string option" where
  "name_tok (Some (KIdent w)) = Some w"
| "name_tok (Some (KQIdent w)) = Some w"
| "name_tok _ = None"

fun ident_tok :: "tok option \<Rightarrow> string option" where
  "ident_tok (Some (KIdent w)) = Some w"
| "ident_tok _ = None"

definition take_ident :: "string \<Rightarrow> string pm" where
  "take_ident what =
     pbind (pget peek) (\<lambda>t. case name_tok t of
       Some w \<Rightarrow> pthen (pmod (\<lambda>s. s\<lparr>p_pos := p_pos s + 1\<rparr>)) (pret w)
     | None \<Rightarrow> err (''expected '' @ what))"

definition parse_name :: "string \<Rightarrow> (string \<times> nat option) pm" where
  "parse_name what =
     pbind (pget peek_pos) (\<lambda>pos.
     pbind (take_ident what) (\<lambda>n.
     pbind (eat_op ''.'') (\<lambda>dot.
       if \<not> dot then pret (n, pos)
       else pbind (take_ident what) (\<lambda>leaf.
         fail_at (''unknown qualifier: '' @ n @ '' (no such matrix; '' @ [CHR 0x60] @ n @ ''.'' @ leaf @ [CHR 0x60] @
           '' cannot be resolved '' @ [CHR 0xE2, CHR 0x80, CHR 0x94] @ '' write the name alone)'') pos))))"

section \<open>Names\<close>

text \<open>The innermost binding of a name is the last.\<close>

definition local_in :: "string \<Rightarrow> parser \<Rightarrow> expr option" where
  "local_in n s = map_option snd (find (\<lambda>(b, _). eq_ignore_ascii_case b n) (rev (p_scope s)))"

definition find_measure :: "string \<Rightarrow> parser \<Rightarrow> measure option" where
  "find_measure n s = fst (measure_by_name n (p_model s))"

definition find_category :: "string \<Rightarrow> parser \<Rightarrow> category option" where
  "find_category n s = fst (category_by_name n (p_model s))"

definition measure_id_of :: "string \<Rightarrow> nat option \<Rightarrow> measure_id pm" where
  "measure_id_of n pos =
     pbind (pget (find_measure n)) (\<lambda>m. case m of
       Some x \<Rightarrow> pret (m_id x)
     | None \<Rightarrow> fail_at (''unknown measure: '' @ n) pos)"

definition local_category :: "string \<Rightarrow> parser \<Rightarrow> category_id option" where
  "local_category n s =
     (case local_in n s of Some (Ref i _) \<Rightarrow> map_option lambda_category (lambda_param_of i) | _ \<Rightarrow> None)"

definition category_id_of :: "string \<Rightarrow> nat option \<Rightarrow> category_id pm" where
  "category_id_of n pos =
     pbind (pget (local_category n)) (\<lambda>c. case c of
       Some c \<Rightarrow> pret c
     | None \<Rightarrow>
         pbind (pget (find_category n)) (\<lambda>c. case c of
           Some x \<Rightarrow> pret (cat_id x)
         | None \<Rightarrow> fail_at (''unknown category: '' @ n) pos))"

definition parse_category_name :: "category_id pm" where
  "parse_category_name = pbind (parse_name ''a category name'') (\<lambda>(n, pos). category_id_of n pos)"

section \<open>Limits\<close>

definition MAX_PARSE_DEPTH :: nat where "MAX_PARSE_DEPTH = MAX_FORMULA_DEPTH + 64"
definition MAX_STORED_PARSE_DEPTH :: nat where "MAX_STORED_PARSE_DEPTH = MAX_PARSE_DEPTH"

definition max_depth :: "parser \<Rightarrow> nat" where
  "max_depth s = (if p_stored s then MAX_STORED_FORMULA_DEPTH else MAX_FORMULA_DEPTH)"

definition max_nest :: "parser \<Rightarrow> nat" where
  "max_nest s = (if p_stored s then MAX_STORED_PARSE_DEPTH else MAX_PARSE_DEPTH)"

definition check_expr :: "expr \<Rightarrow> nat option \<Rightarrow> unit pm" where
  "check_expr e pos =
     pbind (pget max_depth) (\<lambda>d. plift (map_err (\<lambda>m. ParseError m pos) (check_depth d e)))"

text \<open>Where an expansion's error names a limit.\<close>

definition limit_at :: "string \<Rightarrow> nat option" where
  "limit_at m = (case find_str TOO_DEEP m of Some i \<Rightarrow> Some i | None \<Rightarrow> find_str TOO_LARGE m)"

definition check_formula :: "expr \<Rightarrow> nat option \<Rightarrow> unit pm" where
  "check_formula e pos =
     pthen (check_expr e pos)
     (pbind (pget (\<lambda>s. p_stored s \<or> lambdas (p_model s) = [])) (\<lambda>done_already.
       if done_already then pret ()
       else pbind (pget (\<lambda>s. expand_lambdas e (p_model s))) (\<lambda>r. case r of
           Inr full \<Rightarrow> check_expr full pos
         | Inl m \<Rightarrow> (case limit_at m of Some i \<Rightarrow> fail_at (drop i m) pos | None \<Rightarrow> pret ()))))"

definition link :: "nat option \<Rightarrow> nat \<Rightarrow> binary_op \<Rightarrow> expr \<Rightarrow> expr \<Rightarrow> (expr \<times> nat) pm" where
  "link pos depth b l r =
     (let depth = (if depth = 0 then fst (depth_and_nodes l) else depth);
          depth = 1 + max depth (fst (depth_and_nodes r))
      in pbind (pget max_depth) (\<lambda>lim.
           if lim < depth then fail_at (too_deep depth lim) pos
           else pret (BinaryOp b l r, depth)))"

definition too_nested :: "'a pm" where
  "too_nested = err ''expression nested too deeply''"

text \<open>A loop's fuel: every round takes a token, so one more than there are is enough.\<close>

definition loop_fuel :: "parser \<Rightarrow> nat" where
  "loop_fuel s = Suc (length (p_toks s))"

end
