(* ===== verification/Parser_Forms.thy ===== *)
theory Parser_Forms
  imports Parser_State
begin

text \<open>
  The forms of an identifier-headed primary in \<open>crates/core_model/src/parser.rs\<close>: references, calls with
  their clauses and named arguments, \<open>LET\<close>, \<open>LAMBDA\<close> and the special forms. Each takes the recursive
  \<open>parse_expr\<close> as its argument \<open>ex\<close>.
\<close>

section \<open>References and category lists\<close>

text \<open>An operator in a message, between apostrophes.\<close>

definition tick :: "string \<Rightarrow> string" where
  "tick t = [CHR 0x27] @ t @ [CHR 0x27]"

fun more_cats_by :: "nat \<Rightarrow> category_id list \<Rightarrow> category_id list pm" where
  "more_cats_by 0 cs = pfail OutOfFuel"
| "more_cats_by (Suc n) cs =
     pbind (eat_op '','') (\<lambda>more.
       if \<not> more then pret cs
       else pbind parse_category_name (\<lambda>c. more_cats_by n (cs @ [c])))"

definition parse_measure_ref :: "expr pm" where
  "parse_measure_ref =
     pbind (parse_name ''a measure name'') (\<lambda>(n, pos).
     pbind (measure_id_of n pos) (\<lambda>i.
     pbind (eat_op ''['') (\<lambda>dims.
       if \<not> dims then pret (Ref i default_spec)
       else pbind parse_category_name (\<lambda>c.
            pbind (pget loop_fuel) (\<lambda>n.
            pbind (more_cats_by n [c]) (\<lambda>cs.
            pbind (eat_op '']'') (\<lambda>closed.
              if \<not> closed then err (''expected '' @ tick '']'' @ '' to close dimension list'')
              else pret (Ref i (default_spec\<lparr>sby := cs\<rparr>)))))))))"

text \<open>The next tokens are \<open>, Category\<close>, not a call, a qualified name or a measure.\<close>

definition comma_then_category :: "parser \<Rightarrow> bool" where
  "comma_then_category s =
     (case (tok_at 0 s, name_tok (tok_at 1 s)) of
        (Some (KOp c), Some n) \<Rightarrow>
          c = '','' \<and> \<not> (tok_at 2 s = Some (KOp ''('') \<or> tok_at 2 s = Some (KOp ''.'')) \<and>
          find_category n s \<noteq> None \<and> find_measure n s = None
      | _ \<Rightarrow> False)"

fun more_over_cats :: "nat \<Rightarrow> category_id list \<Rightarrow> category_id list pm" where
  "more_over_cats 0 cs = pfail OutOfFuel"
| "more_over_cats (Suc n) cs =
     pbind (pget comma_then_category) (\<lambda>more.
       if \<not> more then pret cs
       else pthen bump (pbind parse_category_name (\<lambda>c. more_over_cats n (cs @ [c]))))"

text \<open>\<open>Cat {, Cat}\<close>.\<close>

definition parse_cats :: "category_id list pm" where
  "parse_cats =
     pbind parse_category_name (\<lambda>c. pbind (pget loop_fuel) (\<lambda>n. more_over_cats n [c]))"

definition next_is_open_paren :: "parser \<Rightarrow> bool" where
  "next_is_open_paren s \<longleftrightarrow> tok_at 1 s = Some (KOp ''('')"

section \<open>Clauses\<close>

record over_clause =
  oc_cats :: "category_id list"
  oc_all :: bool
  oc_except :: "category_id list"
  oc_window :: "(expr \<times> expr) option"
  oc_into :: "category_id list"
  oc_pred :: "expr option"

definition default_clause :: over_clause where
  "default_clause =
     \<lparr>oc_cats = [], oc_all = False, oc_except = [], oc_window = None, oc_into = [], oc_pred = None\<rparr>"

definition parse_bound :: "expr pm" where
  "parse_bound =
     pbind (pget peek) (\<lambda>t. case ident_tok t of
       None \<Rightarrow> err ''expected FIRST, LAST or THIS in a window''
     | Some w \<Rightarrow>
         let word = to_ascii_uppercase w in
         pthen bump
           (if word = ''FIRST'' \<or> word = ''LAST'' then pret (Literal (Text word))
            else if word = ''THIS'' then
              pbind (pget peek) (\<lambda>o'.
                if o' \<noteq> Some (KOp ''+'') \<and> o' \<noteq> Some (KOp ''-'') then pret (Literal (Number 0))
                else pthen bump (pbind (pget peek) (\<lambda>t. case t of
                    Some (KNumber x) \<Rightarrow>
                      if f64_whole x \<noteq> None
                      then pthen bump (pret (Literal (Number (if o' = Some (KOp ''-'') then f64_minus x else x))))
                      else err ''expected a whole number after THIS+ / THIS-''
                  | _ \<Rightarrow> err ''expected a whole number after THIS+ / THIS-'')))
            else err ''expected FIRST, LAST or THIS in a window''))"

definition parse_window :: "(expr \<times> expr) pm" where
  "parse_window =
     pbind parse_bound (\<lambda>lo.
     pbind (eat_op ''.'') (\<lambda>a.
     pbind (if a then eat_op ''.'' else pret False) (\<lambda>b.
       if \<not> b then err (''expected '' @ tick ''..'' @ '' in a window: OVER T[FIRST..THIS]'')
       else pbind parse_bound (\<lambda>hi.
            pbind (eat_op '']'') (\<lambda>closed.
              if \<not> closed then err (''expected '' @ tick '']'' @ '' to close the window'') else pret (lo, hi))))))"

text \<open>\<open>ALL [EXCEPT \<dots>]\<close>, a window or a category list.\<close>

definition over_head :: "over_clause pm" where
  "over_head =
     pbind (pget (\<lambda>s. peek_kw ''all'' s \<and> \<not> next_is_open_paren s)) (\<lambda>all.
       if all then
         pthen bump (pbind (pget (peek_kw ''except'')) (\<lambda>exc.
           if exc then pthen bump (pbind parse_cats (\<lambda>cs. pret (default_clause\<lparr>oc_all := True, oc_except := cs\<rparr>)))
           else pret (default_clause\<lparr>oc_all := True\<rparr>)))
       else
         pbind parse_category_name (\<lambda>c.
         pbind (eat_op ''['') (\<lambda>window.
           if window then pbind parse_window (\<lambda>w. pret (default_clause\<lparr>oc_cats := [c], oc_window := Some w\<rparr>))
           else pbind (pget loop_fuel) (\<lambda>n. pbind (more_over_cats n [c]) (\<lambda>cs.
                  pret (default_clause\<lparr>oc_cats := cs\<rparr>))))))"

definition parse_over_clause :: "expr pm \<Rightarrow> over_clause pm" where
  "parse_over_clause ex =
     pthen bump
     (pbind over_head (\<lambda>clause.
      pbind (pget (peek_kw ''where'')) (\<lambda>wh.
        if wh then pthen bump (pbind ex (\<lambda>p. pret (clause\<lparr>oc_pred := Some p\<rparr>)))
        else pret clause)))"

section \<open>Named arguments\<close>

type_synonym named_argument = "string \<times> nat option \<times> expr"

definition POSITIONAL_AFTER_NAMED :: string where
  "POSITIONAL_AFTER_NAMED = ''a positional argument cannot follow a named one (name => value)''"

definition named_arg :: "(string \<times> nat option) option pm" where
  "named_arg =
     pbind (pget (\<lambda>s. (ident_tok (tok_at 0 s), tok_at 1 s, peek_pos s))) (\<lambda>(n, o', pos). case n of
       Some n \<Rightarrow>
         if o' = Some (KOp ''=>'')
         then pthen (pmod (\<lambda>s. s\<lparr>p_pos := p_pos s + 2\<rparr>)) (pret (Some (n, pos)))
         else pret None
     | None \<Rightarrow> pret None)"

definition no_param_hint :: "std_lib \<Rightarrow> fn_def \<Rightarrow> string \<Rightarrow> string" where
  "no_param_hint lib d n =
     (let near = closest_param lib d n
      in if near = []
         then ''its parameters are '' @ join_with '', '' (List.map_filter (param_name lib d) [0..<length (fparams d)])
         else ''did you mean '' @ join_with '', '' near @ ''?'')"

text \<open>One named argument into its slot; \<open>n\<close> arguments came by position.\<close>

definition place_one ::
  "std_lib \<Rightarrow> fn_def \<Rightarrow> nat \<Rightarrow> named_argument \<Rightarrow> expr option list \<Rightarrow> (parse_fail, expr option list) res" where
  "place_one lib d n a slots =
     (case a of (name, pos, e) \<Rightarrow>
        case param_index lib d name of
          None \<Rightarrow>
            Inl (ParseError (fname d @ '' has no parameter '' @ name @ ''; '' @ no_param_hint lib d name) pos)
        | Some i \<Rightarrow>
            let slots = slots @ replicate (i + 1 - length slots) None
            in if slots ! i \<noteq> None
               then Inl (ParseError (fname d @ '': '' @ name @ '' is '' @
                      (if i < n then ''already given, as argument '' @ dec (i + 1) else ''named twice'')) pos)
               else Inr (slots[i := Some e]))"

fun place_all ::
  "std_lib \<Rightarrow> fn_def \<Rightarrow> nat \<Rightarrow> named_argument list \<Rightarrow> expr option list \<Rightarrow> (parse_fail, expr option list) res" where
  "place_all lib d n [] slots = Inr slots"
| "place_all lib d n (a # as) slots = rbind (place_one lib d n a slots) (place_all lib d n as)"

definition fill_slot ::
  "std_lib \<Rightarrow> (fn_def \<Rightarrow> nat \<Rightarrow> expr option) \<Rightarrow> fn_def \<Rightarrow> nat option \<Rightarrow> nat \<times> expr option \<Rightarrow> (parse_fail, expr) res" where
  "fill_slot lib dflt d pos = (\<lambda>(i, s).
     let name = (case param_name lib d i of Some x \<Rightarrow> x | None \<Rightarrow> [])
     in case (case s of Some e \<Rightarrow> Some e | None \<Rightarrow> dflt d i) of
          Some e \<Rightarrow> Inr e
        | None \<Rightarrow>
            Inl (ParseError (fname d @ '': '' @ name @ '' (argument '' @ dec (i + 1) @ '') '' @
              (if i < frequired d then ''is required'' else ''has no default'') @
              '', so a later named argument cannot skip it: give it, by position or as '' @ name @ '' => '' @ DOTS) pos))"

definition place_named ::
  "std_lib \<Rightarrow> (fn_def \<Rightarrow> nat \<Rightarrow> expr option) \<Rightarrow> fn_def \<Rightarrow> expr list \<Rightarrow> named_argument list \<Rightarrow> (parse_fail, expr list) res" where
  "place_named lib dflt d args named =
     (case named of
        [] \<Rightarrow> Inr args
      | (_, first, _) # _ \<Rightarrow>
          if fvariadic d
          then Inl (ParseError (fname d @
                 '' takes its arguments by position (a parameter repeats), not by name'') first)
          else rbind (place_all lib d (length args) named (map Some args)) (\<lambda>slots.
                 rtraverse (fill_slot lib dflt d first) (enumerate 0 slots)))"

definition placed :: "fn_def \<Rightarrow> expr list \<Rightarrow> named_argument list \<Rightarrow> expr list pm" where
  "placed d args named = pbind (pget (\<lambda>s. place_named (p_lib s) (p_default s) d args named)) plift"

fun rest_args_loop ::
  "expr pm \<Rightarrow> nat \<Rightarrow> nat \<Rightarrow> expr list \<Rightarrow> named_argument list \<Rightarrow> (expr list \<times> named_argument list) pm" where
  "rest_args_loop ex 0 lim args named = pfail OutOfFuel"
| "rest_args_loop ex (Suc n) lim args named =
     (if lim \<le> length args + length named then pret (args, named)
      else pbind (eat_op '','') (\<lambda>more.
        if \<not> more then pret (args, named)
        else pbind named_arg (\<lambda>label. case label of
            Some (a, pos) \<Rightarrow> pbind ex (\<lambda>e. rest_args_loop ex n lim args (named @ [(a, pos, e)]))
          | None \<Rightarrow>
              if named \<noteq> [] then err POSITIONAL_AFTER_NAMED
              else pbind ex (\<lambda>e. rest_args_loop ex n lim (args @ [e]) named))))"

definition rest_args :: "expr pm \<Rightarrow> fn_def \<Rightarrow> expr list \<Rightarrow> nat \<Rightarrow> expr list pm" where
  "rest_args ex d args lim =
     pbind (pget loop_fuel) (\<lambda>n.
     pbind (rest_args_loop ex n lim args []) (\<lambda>(args, named). placed d args named))"

section \<open>Calls\<close>

definition takes_text :: "std_lib \<Rightarrow> fn_def \<Rightarrow> nat \<Rightarrow> string" where
  "takes_text lib d n = fname d @ '' takes '' @ hint lib d @ '', got '' @ dec n @ '' argument(s)''"

definition over_of :: "over_clause \<Rightarrow> model \<Rightarrow> measure_id \<Rightarrow> category_id list" where
  "over_of c m i =
     (if oc_all c
      then case hget (measure_map m) i of
             Some x \<Rightarrow> filter (\<lambda>k. k \<notin> set (oc_except c)) (m_cats x)
           | None \<Rightarrow> []
      else oc_cats c)"

definition reduce_arg ::
  "fn_def \<Rightarrow> over_clause \<Rightarrow> model \<Rightarrow> nat option \<Rightarrow> nat \<times> expr \<Rightarrow> (string, expr) res" where
  "reduce_arg d c m leading = (\<lambda>(i, a).
     if \<not> (case leading of None \<Rightarrow> over_contains (fover d) i | Some n \<Rightarrow> i < n) then Inr a
     else case a of
         Ref r sp \<Rightarrow> Inr (Ref r (sp\<lparr>sover := over_of c m r\<rparr>))
       | _ \<Rightarrow> Inl (fname d @ '' argument '' @ dec (i + 1) @
                '' must be a measure reference (it is reduced OVER the categories)''))"

fun is_ref :: "expr \<Rightarrow> bool" where
  "is_ref (Ref _ _) = True"
| "is_ref _ = False"

definition err_or :: "(string, 'a) res \<Rightarrow> 'a pm" where
  "err_or r = (case r of Inr x \<Rightarrow> pret x | Inl m \<Rightarrow> err m)"

definition leading_refs :: "fn_def \<Rightarrow> expr list \<Rightarrow> (string, nat option) res" where
  "leading_refs d args =
     (case fover d of
        OverLeading least \<Rightarrow>
          let n = length (takeWhile is_ref args)
          in if n < least
             then Inl (fname d @ '' needs at least '' @ dec least @ '' measure(s) before its options'')
             else Inr (Some n)
      | _ \<Rightarrow> Inr None)"

definition clause_markers :: "over_clause \<Rightarrow> expr list" where
  "clause_markers c =
     (case oc_pred c of Some p \<Rightarrow> [Call WHERE [p]] | None \<Rightarrow> []) @
     (case oc_window c of Some (lo, hi) \<Rightarrow> [Call WINDOW [lo, hi]] | None \<Rightarrow> []) @
     (if oc_into c = [] then [] else [Call INTO (map Category (oc_into c))])"

definition finish_aggregation ::
  "string \<Rightarrow> expr list \<Rightarrow> named_argument list \<Rightarrow> over_clause \<Rightarrow> expr pm" where
  "finish_aggregation name args named c =
     (case aggregation name of
        None \<Rightarrow> err (name @ '' does not aggregate OVER a category'')
      | Some d \<Rightarrow>
          pbind (placed d args named) (\<lambda>args.
            if \<not> accepts d (length args) then pbind (pget p_lib) (\<lambda>lib. err (takes_text lib d (length args)))
            else if oc_window c \<noteq> None \<and> fkind d = PerItem then err (fname d @ '' cannot take a window'')
            else pbind (err_or (leading_refs d args)) (\<lambda>leading.
                 pbind (pget p_model) (\<lambda>m.
                 pbind (err_or (rtraverse (reduce_arg d c m leading) (enumerate 0 args))) (\<lambda>args.
                   pret (Call (fid d) (args @ clause_markers c)))))))"

text \<open>What the loop over a call's arguments gathers.\<close>

record call_args =
  ca_args :: "expr list"
  ca_named :: "named_argument list"
  ca_over :: "over_clause option"
  ca_into :: "category_id list"

definition category_argument :: "string \<Rightarrow> call_args \<Rightarrow> nat option \<Rightarrow> bool" where
  "category_argument name ca i \<longleftrightarrow>
     ca_over ca = None \<and>
     (case (callable name, i) of (Some d, Some i) \<Rightarrow> param d i = ACategory | _ \<Rightarrow> False) \<and>
     aggregation name = None"

text \<open>One argument: its label, itself, and the clauses behind it.\<close>

definition call_arg :: "expr pm \<Rightarrow> string \<Rightarrow> call_args \<Rightarrow> call_args pm" where
  "call_arg ex name ca =
     pbind named_arg (\<lambda>label.
       if label = None \<and> ca_named ca \<noteq> [] then err POSITIONAL_AFTER_NAMED
       else pbind (pget p_lib) (\<lambda>lib.
         let i = (case label of
                    Some (n, _) \<Rightarrow> Option.bind (callable name) (\<lambda>d. param_index lib d n)
                  | None \<Rightarrow> Some (length (ca_args ca)))
         in pbind (if category_argument name ca i then pbind parse_category_name (\<lambda>c. pret (Category c)) else ex)
              (\<lambda>arg. pret (case label of
                 Some (n, pos) \<Rightarrow> ca\<lparr>ca_named := ca_named ca @ [(n, pos, arg)]\<rparr>
               | None \<Rightarrow> ca\<lparr>ca_args := ca_args ca @ [arg]\<rparr>))))"

definition call_over :: "expr pm \<Rightarrow> call_args \<Rightarrow> call_args pm" where
  "call_over ex ca =
     pbind (pget (peek_kw ''over'')) (\<lambda>ov.
       if \<not> ov then pret ca
       else if ca_over ca \<noteq> None then err ''only one OVER clause per aggregation''
       else pbind (parse_over_clause ex) (\<lambda>c. pret (ca\<lparr>ca_over := Some c\<rparr>)))"

definition call_into :: "call_args \<Rightarrow> call_args pm" where
  "call_into ca =
     pbind (pget (peek_kw ''into'')) (\<lambda>into.
       if \<not> into then pret ca
       else pthen bump
         (if ca_into ca \<noteq> [] then err ''only one INTO clause per call''
          else pbind parse_cats (\<lambda>cs. pret (ca\<lparr>ca_into := cs\<rparr>))))"

fun call_loop :: "expr pm \<Rightarrow> string \<Rightarrow> nat \<Rightarrow> call_args \<Rightarrow> call_args pm" where
  "call_loop ex name 0 ca = pfail OutOfFuel"
| "call_loop ex name (Suc n) ca =
     pbind (call_arg ex name ca) (\<lambda>ca.
     pbind (call_over ex ca) (\<lambda>ca.
     pbind (call_into ca) (\<lambda>ca.
     pbind (eat_op '','') (\<lambda>more.
       if more then call_loop ex name n ca else pret ca))))"

text \<open>A \<open>BYROW\<close> parameter carries its row's category: the call reduces over it.\<close>

definition row_clause :: "string \<Rightarrow> call_args \<Rightarrow> over_clause option" where
  "row_clause name ca =
     (if ca_over ca = None \<and> aggregation name \<noteq> None
      then map_option (\<lambda>a. default_clause\<lparr>oc_cats := (case a of Ref _ sp \<Rightarrow> sover sp | _ \<Rightarrow> [])\<rparr>)
             (find (\<lambda>a. case a of Ref _ sp \<Rightarrow> sover sp \<noteq> [] | _ \<Rightarrow> False) (ca_args ca))
      else ca_over ca)"

text \<open>The call of what was gathered: an aggregation if it has a clause.\<close>

definition finish_call :: "string \<Rightarrow> call_args \<Rightarrow> expr pm" where
  "finish_call name ca =
     (let over = row_clause name ca
      in if over \<noteq> None \<or> ca_into ca \<noteq> []
         then finish_aggregation name (ca_args ca) (ca_named ca)
                ((case over of Some c \<Rightarrow> c | None \<Rightarrow> default_clause)\<lparr>oc_into := ca_into ca\<rparr>)
         else case callable name of
             None \<Rightarrow> err (name @ '' aggregates: write '' @ name @ ''(Measure OVER Category)'')
           | Some d \<Rightarrow>
               pbind (placed d (ca_args ca) (ca_named ca)) (\<lambda>args.
                 if \<not> accepts d (length args)
                 then pbind (pget p_lib) (\<lambda>lib. err (takes_text lib d (length args)))
                 else pret (Call (fid d) args)))"

definition no_args :: call_args where
  "no_args = \<lparr>ca_args = [], ca_named = [], ca_over = None, ca_into = []\<rparr>"

definition parse_call :: "expr pm \<Rightarrow> string \<Rightarrow> expr pm" where
  "parse_call ex name =
     pthen bump
     (pbind (eat_op ''('') (\<lambda>open_paren.
       if \<not> open_paren then err (''expected '' @ tick ''('' @ '' after function name'')
       else
         pbind (pget peek) (\<lambda>t.
         pbind (if t = Some (KOp '')'') then pret no_args
                else pbind (pget loop_fuel) (\<lambda>n. call_loop ex name n no_args)) (\<lambda>ca.
         pbind (eat_op '')'') (\<lambda>closed.
           if \<not> closed then err (''expected '' @ tick '')'' @ '' to close function call'')
           else finish_call name ca)))))"

section \<open>LET and LAMBDA\<close>

definition binding_name :: "string pm" where
  "binding_name =
     pbind (pget peek) (\<lambda>t. case ident_tok t of
       Some w \<Rightarrow> pthen bump (pret w)
     | None \<Rightarrow> err ''expected a name to bind'')"

text \<open>\<open>name ,\<close> ahead.\<close>

definition name_comma :: "parser \<Rightarrow> bool" where
  "name_comma s \<longleftrightarrow> ident_tok (tok_at 0 s) \<noteq> None \<and> tok_at 1 s = Some (KOp '','')"

fun let_bindings :: "expr pm \<Rightarrow> nat \<Rightarrow> nat \<Rightarrow> unit pm" where
  "let_bindings ex 0 base = pfail OutOfFuel"
| "let_bindings ex (Suc n) base =
     pbind (pget (\<lambda>s. (name_comma s \<and> length (p_scope s) - base < 126, length (p_scope s)))) (\<lambda>(binds, bound).
       if \<not> binds \<and> base < bound then pret ()
       else pbind binding_name (\<lambda>name.
            pthen (expect_op '','' (tick '','' @ '' after a LET name''))
            (pbind (pget peek_pos) (\<lambda>pos.
             pbind ex (\<lambda>v.
             pthen (check_expr v pos)
            (pthen (pmod (\<lambda>s. s\<lparr>p_scope := p_scope s @ [(name, v)]\<rparr>))
            (pthen (expect_op '','' (tick '','' @ '' then the LET body''))
             (let_bindings ex n base))))))))"

definition parse_let :: "expr pm \<Rightarrow> expr pm" where
  "parse_let ex =
     pthen bump
     (pthen (expect_op ''('' (tick ''('' @ '' after LET''))
     (pbind (pget (\<lambda>s. (loop_fuel s, length (p_scope s)))) (\<lambda>(n, base).
      pthen (let_bindings ex n base)
      (pbind ex (\<lambda>body.
       pthen (pmod (\<lambda>s. s\<lparr>p_scope := take base (p_scope s)\<rparr>))
      (pthen (expect_op '')'' (tick '')'' @ '' to close LET''))
       (pret body)))))))"

fun lambda_names :: "nat \<Rightarrow> string list \<Rightarrow> string list pm" where
  "lambda_names 0 ps = pfail OutOfFuel"
| "lambda_names (Suc n) ps =
     pbind (pget name_comma) (\<lambda>more.
       if \<not> more then pret ps
       else pbind binding_name (\<lambda>p. pthen bump (lambda_names n (ps @ [p]))))"

text \<open>Skip to the parenthesis that closes.\<close>

fun skip_body :: "nat \<Rightarrow> nat \<Rightarrow> unit pm" where
  "skip_body 0 level = pfail OutOfFuel"
| "skip_body (Suc n) level =
     pbind (pget peek) (\<lambda>t.
       if t = None \<or> t = Some (KOp '')'') \<and> level = 0 then pret ()
       else pthen bump
         (skip_body n (if t = Some (KOp ''('') then level + 1
                       else if t = Some (KOp '')'') then level - 1 else level)))"

definition parse_lambda_params :: "(string list \<times> nat \<times> nat) pm" where
  "parse_lambda_params =
     pthen bump
     (pthen (expect_op ''('' (tick ''('' @ '' after LAMBDA''))
     (pbind (pget loop_fuel) (\<lambda>n.
      pbind (lambda_names n []) (\<lambda>ps.
      pbind (pget p_pos) (\<lambda>start.
      pthen (skip_body n 0)
      (pbind (pget p_pos) (\<lambda>stop.
       pthen (expect_op '')'' (tick '')'' @ '' to close LAMBDA''))
       (if ps = [] then err ''LAMBDA needs at least one parameter''
        else pret (ps, start, stop)))))))))"

definition lambda_body :: "expr pm \<Rightarrow> string list \<Rightarrow> expr list \<Rightarrow> nat \<Rightarrow> nat \<Rightarrow> expr pm" where
  "lambda_body ex params args start stop =
     (if length params \<noteq> length args
      then err (''this LAMBDA takes '' @ dec (length params) @ '' argument(s), got '' @ dec (length args))
      else
        pbind (pget (\<lambda>s. (p_pos s, length (p_scope s)))) (\<lambda>(saved, base).
        pthen (pmod (\<lambda>s. s\<lparr>p_scope := p_scope s @ zip params args, p_pos := start\<rparr>))
        (pbind ex (\<lambda>body.
         pbind (pget p_pos) (\<lambda>stopped.
         pthen (pmod (\<lambda>s. s\<lparr>p_scope := take base (p_scope s), p_pos := saved\<rparr>))
         (pbind (pget (\<lambda>s. (toks_pos stopped s, toks_pos start s))) (\<lambda>(end_pos, start_pos).
            if stopped \<noteq> stop then fail_at ''unexpected trailing input in the LAMBDA body'' end_pos
            else pthen (check_expr body start_pos) (pret body))))))))"

fun exprs_by_comma :: "expr pm \<Rightarrow> nat \<Rightarrow> expr list \<Rightarrow> expr list pm" where
  "exprs_by_comma ex 0 args = pfail OutOfFuel"
| "exprs_by_comma ex (Suc n) args =
     pbind ex (\<lambda>e.
     pbind (eat_op '','') (\<lambda>more.
       if more then exprs_by_comma ex n (args @ [e]) else pret (args @ [e])))"

definition parse_lambda_call :: "expr pm \<Rightarrow> expr pm" where
  "parse_lambda_call ex =
     pbind parse_lambda_params (\<lambda>(params, start, stop).
     pbind (eat_op ''('') (\<lambda>called.
       if \<not> called then
         err ''a LAMBDA must be called on the spot (LAMBDA(x, x + 1)(Price)) or passed to MAP, REDUCE or SCAN''
       else
         pbind (pget loop_fuel) (\<lambda>n.
         pbind (exprs_by_comma ex n []) (\<lambda>args.
         pthen (expect_op '')'' (tick '')'' @ '' to close the LAMBDA call''))
         (lambda_body ex params args start stop)))))"

text \<open>An argument of a named LAMBDA, by what its parameter takes.\<close>

definition lambda_argument :: "expr pm \<Rightarrow> string \<Rightarrow> nat \<Rightarrow> lambda_param_kind option \<Rightarrow> expr pm" where
  "lambda_argument ex name i kind =
     (if kind = Some LCategory then pbind parse_category_name (\<lambda>c. pret (Category c))
      else pbind ex (\<lambda>e.
        if kind = Some LReduced \<and> \<not> is_ref e
        then err (name @ '' reduces argument '' @ dec (i + 1) @
               '' over a category: pass a measure, not an expression'')
        else pret e))"

fun lambda_arguments :: "expr pm \<Rightarrow> string \<Rightarrow> lambda_param_kind list \<Rightarrow> nat \<Rightarrow> expr list \<Rightarrow> expr list pm" where
  "lambda_arguments ex name kinds 0 args = pfail OutOfFuel"
| "lambda_arguments ex name kinds (Suc n) args =
     pbind (lambda_argument ex name (length args) (nth_arg kinds (length args))) (\<lambda>a.
     pbind (eat_op '','') (\<lambda>more.
       if more then lambda_arguments ex name kinds n (args @ [a]) else pret (args @ [a])))"

definition parse_named_lambda_call :: "expr pm \<Rightarrow> u32 \<Rightarrow> lambda_param_kind list \<Rightarrow> string \<Rightarrow> expr pm" where
  "parse_named_lambda_call ex i kinds name =
     pthen bump
     (pthen (expect_op ''('' (tick ''(''))
     (pbind (eat_op '')'') (\<lambda>empty.
      pbind (if empty then pret []
             else pbind (pget loop_fuel) (\<lambda>n.
                  pbind (lambda_arguments ex name kinds n []) (\<lambda>args.
                  pthen (expect_op '')'' (tick '')'' @ '' to close the call'')) (pret args)))) (\<lambda>args.
        if length args \<noteq> length kinds
        then err (name @ '' takes '' @ dec (length kinds) @ '' argument(s), got '' @ dec (length args))
        else pret (Call (named_lambda i) args)))))"

end
