(* ===== verification/Parser.thy ===== *)
theory Parser
  imports Parser_Forms
begin

text \<open>
  The grammar of \<open>crates/core_model/src/parser.rs\<close>: the special forms, the operator levels and the
  public entry points. The rules take \<open>u\<close>, \<open>parse_unary\<close> as nested expressions call it; \<open>unary_at\<close> ties
  the knot, by the nesting still allowed: every cycle of the grammar passes a primary or an exponent,
  and both count against \<open>max_nest\<close>, so \<open>max_nest + 1\<close> levels are enough.
\<close>

section \<open>Special forms\<close>

fun map_arguments :: "expr pm \<Rightarrow> nat \<Rightarrow> expr list \<Rightarrow> expr list pm" where
  "map_arguments ex 0 args = pfail OutOfFuel"
| "map_arguments ex (Suc n) args =
     pbind (pget (peek_kw ''lambda'')) (\<lambda>stop.
       if stop then pret args
       else pbind ex (\<lambda>e.
            pthen (expect_op '','' (tick '','' @ '' then a LAMBDA in MAP''))
            (map_arguments ex n (args @ [e]))))"

definition parse_map :: "expr pm \<Rightarrow> expr pm" where
  "parse_map ex =
     pthen bump
     (pthen (expect_op ''('' (tick ''('' @ '' after MAP''))
     (pbind (pget loop_fuel) (\<lambda>n.
      pbind (map_arguments ex n []) (\<lambda>args.
      pbind parse_lambda_params (\<lambda>(params, start, stop).
      pthen (expect_op '')'' (tick '')'' @ '' to close MAP''))
      (lambda_body ex params args start stop))))))"

definition position_of :: "category_id \<Rightarrow> expr" where
  "position_of c = Call POSITION [Category c]"

definition one :: expr where
  "one = Literal (Number 0x3ff0000000000000)"

definition parse_sequence :: "expr pm \<Rightarrow> expr pm" where
  "parse_sequence ex =
     pthen bump
     (pthen (expect_op ''('' (tick ''('' @ '' after SEQUENCE''))
     (pbind parse_category_name (\<lambda>c.
      case callable ''SEQUENCE'' of
        None \<Rightarrow> pfail ParsePanic
      | Some d \<Rightarrow>
          pbind (rest_args ex d [Category c] (2 ^ 64 - 1)) (\<lambda>rest.
          pthen (expect_op '')'' (tick '')'' @ '' to close SEQUENCE''))
          (if 3 < length rest then err ''SEQUENCE takes (Category, [start], [step])''
           else
             let start = (case nth_arg rest 1 of Some e \<Rightarrow> e | None \<Rightarrow> one);
                 step = (case nth_arg rest 2 of Some e \<Rightarrow> e | None \<Rightarrow> one);
                 index = BinaryOp Sub (position_of c) one
             in pret (BinaryOp Add (BinaryOp Mul index step) start))))))"

text \<open>The last argument, a \<open>LAMBDA\<close>, and the closing parenthesis; the texts are the errors'.\<close>

definition then_lambda :: "string \<Rightarrow> string \<Rightarrow> string \<Rightarrow> (string list \<times> nat \<times> nat) pm" where
  "then_lambda comma no_lambda close =
     pthen (expect_op '','' (tick '','' @ comma))
     (pbind (pget (peek_kw ''lambda'')) (\<lambda>lam.
        if \<not> lam then err no_lambda
        else pbind parse_lambda_params (\<lambda>p. pthen (expect_op '')'' (tick '')'' @ close)) (pret p))))"

definition parse_makearray :: "expr pm \<Rightarrow> expr pm" where
  "parse_makearray ex =
     pthen bump
     (pthen (expect_op ''('' (tick ''('' @ '' after MAKEARRAY''))
     (pbind parse_category_name (\<lambda>r.
      pthen (expect_op '','' (tick '','' @ '' after the row category''))
      (pbind parse_category_name (\<lambda>c.
       pbind (then_lambda '' then LAMBDA(r, c, body)'' ''MAKEARRAY needs LAMBDA(r, c, body)''
                '' to close MAKEARRAY'') (\<lambda>(params, start, stop).
         lambda_body ex params [position_of r, position_of c] start stop))))))"

text \<open>A row parameter outside every reduction.\<close>

fun bare_row :: "expr \<Rightarrow> bool" where
  "bare_row (Ref _ sp) \<longleftrightarrow> sover sp \<noteq> []"
| "bare_row (Call f args) \<longleftrightarrow>
     \<not> (case by_id f of Some d \<Rightarrow> reduces (fkind d) | None \<Rightarrow> False) \<and> list_ex bare_row args"
| "bare_row (UnaryOp _ a) \<longleftrightarrow> bare_row a"
| "bare_row (BinaryOp _ a b) \<longleftrightarrow> bare_row a \<or> bare_row b"
| "bare_row _ \<longleftrightarrow> False"

text \<open>\<open>x OVER Category\<close>, as the row or fold forms take it.\<close>

definition over_reference :: "string \<Rightarrow> string \<Rightarrow> expr pm" where
  "over_reference no_over no_ref =
     pbind parse_measure_ref (\<lambda>x.
     pbind (pget (peek_kw ''over'')) (\<lambda>ov.
       if \<not> ov then err no_over
       else pthen bump (pbind parse_category_name (\<lambda>c. case x of
           Ref i sp \<Rightarrow> pret (Ref i (sp\<lparr>sover := [c]\<rparr>))
         | _ \<Rightarrow> err no_ref))))"

definition row_open :: "string \<Rightarrow> expr pm" where
  "row_open name =
     pthen bump
     (pthen (expect_op ''('' (tick ''('' @ '' after the function name''))
     (over_reference (name @ '' needs x OVER Category (the row'' @ [CHR 0x27] @ ''s category)'')
        (name @ '' takes a measure reference'')))"

definition parse_byrow :: "expr pm \<Rightarrow> string \<Rightarrow> expr pm" where
  "parse_byrow ex word =
     (let name = to_ascii_uppercase word in
      pbind (row_open name) (\<lambda>row.
      pbind (then_lambda '' then LAMBDA(row, body)'' (name @ '' needs LAMBDA(row, body)'')
               '' to close the call'') (\<lambda>(params, start, stop).
      pbind (lambda_body ex params [row] start stop) (\<lambda>body.
        if bare_row body
        then err (name @ [CHR 0x27] @
               ''s LAMBDA must reduce its row to one value (SUM(row), MAX(row), '' @ DOTS @ '')'')
        else pret body))))"

text \<open>The initial value and the measure folded.\<close>

definition fold_open :: "expr pm \<Rightarrow> string \<Rightarrow> (expr \<times> expr) pm" where
  "fold_open ex name =
     pthen bump
     (pthen (expect_op ''('' (tick ''('' @ '' after the function name''))
     (pbind ex (\<lambda>init.
      pthen (expect_op '','' (tick '','' @ '' after the initial value''))
      (pbind (over_reference (name @ '' folds a measure: write x OVER Category'')
                (name @ '' folds a measure reference'')) (\<lambda>x. pret (init, x))))))"

definition parse_fold :: "expr pm \<Rightarrow> string \<Rightarrow> expr pm" where
  "parse_fold ex word =
     (case callable word of
        None \<Rightarrow> pfail ParsePanic
      | Some d \<Rightarrow>
          pbind (fold_open ex (fname d)) (\<lambda>(init, x).
          pbind (then_lambda '' then a LAMBDA(accumulator, value, body)''
                   (fname d @ '' needs LAMBDA(accumulator, value, body)'') '' to close the fold'')
            (\<lambda>(params, start, stop).
               if length params \<noteq> 2
               then err (fname d @ [CHR 0x27] @ ''s LAMBDA takes (accumulator, value), got '' @
                      dec (length params) @ '' parameter(s)'')
               else
                 pbind (pget p_lambdas) (\<lambda>k.
                 pthen (pmod (\<lambda>s. s\<lparr>p_lambdas := k + 1\<rparr>))
                 (pbind (lambda_body ex params
                           [Ref (lambda_slot k 0) default_spec, Ref (lambda_slot k 1) default_spec] start stop)
                    (\<lambda>body. pret (Call (fid d) [init, x, body])))))))"

text \<open>The fold's slot and the initial value.\<close>

definition fixpoint_open :: "expr pm \<Rightarrow> (u32 \<times> expr) pm" where
  "fixpoint_open ex =
     pthen bump
     (pthen (expect_op ''('' (tick ''('' @ '' after FIXPOINT''))
     (pbind (pget p_lambdas) (\<lambda>k.
      pthen (pmod (\<lambda>s. s\<lparr>p_lambdas := k + 1\<rparr>))
      (pbind ex (\<lambda>init.
       pthen (expect_op '','' (tick '','' @ '' then LAMBDA(r, body)''))
       (pbind (pget (peek_kw ''lambda'')) (\<lambda>lam.
          if \<not> lam then err ''FIXPOINT needs LAMBDA(r, body)'' else pret (k, init))))))))"

definition parse_fixpoint :: "expr pm \<Rightarrow> expr pm" where
  "parse_fixpoint ex =
     (case callable ''FIXPOINT'' of
        None \<Rightarrow> pfail ParsePanic
      | Some d \<Rightarrow>
          pbind (fixpoint_open ex) (\<lambda>(k, init).
          pbind parse_lambda_params (\<lambda>(params, start, stop).
            if length params \<noteq> 1
            then err (''FIXPOINT'' @ [CHR 0x27] @
                   ''s LAMBDA takes one parameter (the iterate), got '' @ dec (length params))
            else
              pbind (lambda_body ex params [Ref (lambda_slot k 0) default_spec] start stop) (\<lambda>body.
              pbind (rest_args ex d [init, body] 4) (\<lambda>args.
              pthen (expect_op '')'' (tick '')'' @ '' to close FIXPOINT''))
              (pret (Call (fid d) args)))))))"

section \<open>Primaries\<close>

definition special_form :: "expr pm \<Rightarrow> string \<Rightarrow> expr pm option" where
  "special_form ex word =
     (let w = to_ascii_uppercase word
      in if w = ''LET'' then Some (parse_let ex)
         else if w = ''LAMBDA'' then Some (parse_lambda_call ex)
         else if w = ''MAP'' then Some (parse_map ex)
         else if w = ''SEQUENCE'' then Some (parse_sequence ex)
         else if w = ''MAKEARRAY'' then Some (parse_makearray ex)
         else if w = ''BYROW'' \<or> w = ''BYCOL'' then Some (parse_byrow ex word)
         else if w = ''REDUCE'' \<or> w = ''SCAN'' then Some (parse_fold ex word)
         else if w = ''FIXPOINT'' then Some (parse_fixpoint ex)
         else None)"

text \<open>A bound name, replaced by what it is bound to.\<close>

definition use_local :: "expr \<Rightarrow> expr pm" where
  "use_local e =
     pthen (pmod (\<lambda>s. s\<lparr>p_expanded := p_expanded s + snd (depth_and_nodes e)\<rparr>))
     (pbind (pget p_expanded) (\<lambda>n.
        if MAX_FORMULA_NODES < n then err too_large else pthen bump (pret e)))"

definition named_lambda_call :: "expr pm \<Rightarrow> string \<Rightarrow> u32 \<Rightarrow> named_lambda \<Rightarrow> expr pm" where
  "named_lambda_call ex word i l =
     pbind (err_or (param_kinds l)) (\<lambda>kinds. parse_named_lambda_call ex i kinds word)"

definition unknown_function :: "string \<Rightarrow> expr pm" where
  "unknown_function word =
     (let near = closest word 3;
          guess = (if near = [] then [] else ''; did you mean '' @ join_with '', '' near @ ''?'')
      in pbind (pget (\<lambda>s. toks_pos (p_pos s) s)) (\<lambda>pos. fail_at (''unknown function: '' @ word @ guess) pos))"

text \<open>A word that is no bound name: a call, a literal or a measure.\<close>

definition word_primary :: "expr pm \<Rightarrow> string \<Rightarrow> bool \<Rightarrow> expr pm" where
  "word_primary ex word is_call =
     (let true = eq_ignore_ascii_case word ''true''; false = eq_ignore_ascii_case word ''false''
      in if is_call \<and> special_form ex word \<noteq> None then (case special_form ex word of Some m \<Rightarrow> m | None \<Rightarrow> pfail ParsePanic)
         else if is_call \<and> (true \<or> false) then parse_call ex word
         else if true then pthen bump (pret (Literal (Boolean True)))
         else if false then pthen bump (pret (Literal (Boolean False)))
         else if is_call \<and> (aggregation word \<noteq> None \<or> callable word \<noteq> None) then parse_call ex word
         else pbind (pget (find_measure word)) (\<lambda>m.
           if is_call \<and> m = None then unknown_function word else parse_measure_ref))"

definition parse_ident_primary :: "expr pm \<Rightarrow> expr pm" where
  "parse_ident_primary ex =
     pbind (pget (\<lambda>s. (ident_tok (peek s), tok_at 1 s))) (\<lambda>(w, o'). case w of
       None \<Rightarrow> err ''expected identifier''
     | Some word \<Rightarrow>
         if o' = Some (KOp ''=>'')
         then err (''unexpected '' @ word @ '' =>: a named argument goes in a call of a built-in '' @
                ''function with a fixed parameter list, after its positional arguments'')
         else
           let is_call = (o' = Some (KOp ''(''))
           in pbind (pget (\<lambda>s. (local_in word s, lambda_by_name word (p_model s)))) (\<lambda>(l, lam).
                case (if is_call then None else l) of
                  Some e \<Rightarrow> use_local e
                | None \<Rightarrow>
                    (case (if is_call \<and> callable word = None then lam else None) of
                       Some (i, l) \<Rightarrow> named_lambda_call ex word i l
                     | None \<Rightarrow> word_primary ex word is_call)))"

definition primary_inner :: "expr pm \<Rightarrow> expr pm" where
  "primary_inner ex =
     pbind (pget peek) (\<lambda>t. case t of
       None \<Rightarrow> err ''unexpected end of input''
     | Some (KNumber n) \<Rightarrow> pthen bump (pret (Literal (Number n)))
     | Some (KStr t) \<Rightarrow> pthen bump (pret (Literal (Text t)))
     | Some (KDate d) \<Rightarrow> pthen bump (pret (Literal (DateTime d)))
     | Some (KIdent _) \<Rightarrow> parse_ident_primary ex
     | Some (KQIdent _) \<Rightarrow> parse_measure_ref
     | Some (KOp o') \<Rightarrow>
         if o' = ''('' then
           pthen bump (pbind ex (\<lambda>e. pbind (eat_op '')'') (\<lambda>closed.
             if \<not> closed then err (''expected '' @ tick '')'') else pret e)))
         else err (''unexpected operator: '' @ o'))"

text \<open>Go one level down, or refuse to; the level is given back on success.\<close>

definition nested :: "'a pm \<Rightarrow> 'a pm" where
  "nested m =
     pthen (pmod (\<lambda>s. s\<lparr>p_depth := p_depth s + 1\<rparr>))
     (pbind (pget (\<lambda>s. max_nest s < p_depth s)) (\<lambda>deep.
        if deep then pthen (pmod (\<lambda>s. s\<lparr>p_depth := p_depth s - 1\<rparr>)) too_nested
        else pbind m (\<lambda>x. pthen (pmod (\<lambda>s. s\<lparr>p_depth := p_depth s - 1\<rparr>)) (pret x))))"

definition parse_primary :: "expr pm \<Rightarrow> expr pm" where
  "parse_primary ex = nested (primary_inner ex)"

section \<open>Operators\<close>

definition hundred :: f64 where
  "hundred = 0x4059000000000000"

fun percents :: "nat \<Rightarrow> expr \<Rightarrow> nat \<Rightarrow> expr pm" where
  "percents 0 e depth = pfail OutOfFuel"
| "percents (Suc n) e depth =
     pbind (pget peek_pos) (\<lambda>pos.
     pbind (eat_op ''%'') (\<lambda>more.
       if \<not> more then pret e
       else case e of
           Literal (Number x) \<Rightarrow> percents n (Literal (Number (f64_percent x))) depth
         | _ \<Rightarrow> pbind (link pos depth Div e (Literal (Number hundred))) (\<lambda>(e, depth). percents n e depth)))"

definition parse_postfix :: "expr pm \<Rightarrow> expr pm" where
  "parse_postfix ex =
     pbind (parse_primary ex) (\<lambda>e. pbind (pget loop_fuel) (\<lambda>n. percents n e 0))"

definition parse_power :: "expr pm \<Rightarrow> expr pm \<Rightarrow> expr pm" where
  "parse_power ex u =
     pbind (parse_postfix ex) (\<lambda>base.
     pbind (eat_op ''^'') (\<lambda>pow.
       if \<not> pow then pret base
       else pbind (nested u) (\<lambda>e. pret (BinaryOp Pow base e))))"

text \<open>A run of prefix operators, each a level of nesting.\<close>

fun prefixes :: "(parser \<Rightarrow> bool) \<Rightarrow> nat \<Rightarrow> nat \<Rightarrow> nat pm" where
  "prefixes here 0 k = pfail OutOfFuel"
| "prefixes here (Suc n) k =
     pbind (pget (\<lambda>s. (here s, max_nest s \<le> p_depth s + k))) (\<lambda>(more, deep).
       if \<not> more then pret k
       else if deep then too_nested
       else pthen bump (prefixes here n (k + 1)))"

definition prefixed :: "(parser \<Rightarrow> bool) \<Rightarrow> unary_op \<Rightarrow> expr pm \<Rightarrow> expr pm" where
  "prefixed here op m =
     pbind (pget loop_fuel) (\<lambda>n.
     pbind (prefixes here n 0) (\<lambda>k.
     pthen (pmod (\<lambda>s. s\<lparr>p_depth := p_depth s + k\<rparr>))
     (pbind m (\<lambda>e.
      pthen (pmod (\<lambda>s. s\<lparr>p_depth := p_depth s - k\<rparr>))
      (pret ((UnaryOp op ^^ k) e))))))"

definition parse_unary :: "expr pm \<Rightarrow> expr pm \<Rightarrow> expr pm" where
  "parse_unary ex u = prefixed (\<lambda>s. peek s = Some (KOp ''-'')) Neg (parse_power ex u)"

text \<open>A left-associative chain: \<open>depth\<close> is the left side's, 0 before the first link.\<close>

fun links :: "(parser \<Rightarrow> binary_op option) \<Rightarrow> expr pm \<Rightarrow> nat \<Rightarrow> expr \<Rightarrow> nat \<Rightarrow> expr pm" where
  "links op m 0 l depth = pfail OutOfFuel"
| "links op m (Suc n) l depth =
     pbind (pget (\<lambda>s. (op s, peek_pos s))) (\<lambda>(b, pos). case b of
       None \<Rightarrow> pret l
     | Some b \<Rightarrow>
         pthen bump (pbind m (\<lambda>r. pbind (link pos depth b l r) (\<lambda>(e, depth). links op m n e depth))))"

definition chain :: "(parser \<Rightarrow> binary_op option) \<Rightarrow> expr pm \<Rightarrow> expr pm" where
  "chain op m = pbind m (\<lambda>l. pbind (pget loop_fuel) (\<lambda>n. links op m n l 0))"

definition op_here :: "(string \<times> binary_op) list \<Rightarrow> parser \<Rightarrow> binary_op option" where
  "op_here ops s = (case peek s of Some (KOp t) \<Rightarrow> map_of ops t | _ \<Rightarrow> None)"

definition kw_here :: "string \<Rightarrow> binary_op \<Rightarrow> parser \<Rightarrow> binary_op option" where
  "kw_here kw b s = (if peek_kw kw s then Some b else None)"

definition comparisons :: "(string \<times> binary_op) list" where
  "comparisons =
     [(''=='', Eq), (''<>'', Ne), (''!='', Ne), (''<'', Lt), (''<='', Le), (''>'', Gt), (''>='', Ge)]"

definition parse_term :: "expr pm \<Rightarrow> expr pm" where
  "parse_term u = chain (op_here [(''*'', Mul), (''/'', Div)]) u"

definition parse_additive :: "expr pm \<Rightarrow> expr pm" where
  "parse_additive u = chain (op_here [(''+'', Add), (''-'', Sub)]) (parse_term u)"

definition parse_concat :: "expr pm \<Rightarrow> expr pm" where
  "parse_concat u = chain (op_here [(''&'', Concat)]) (parse_additive u)"

definition parse_comparison :: "expr pm \<Rightarrow> expr pm" where
  "parse_comparison u =
     pbind (parse_concat u) (\<lambda>l.
     pbind (pget (op_here comparisons)) (\<lambda>b. case b of
       Some b \<Rightarrow> pthen bump (pbind (parse_concat u) (\<lambda>r. pret (BinaryOp b l r)))
     | None \<Rightarrow> pret l))"

definition parse_not :: "expr pm \<Rightarrow> expr pm" where
  "parse_not u = prefixed (peek_kw ''not'') Not (parse_comparison u)"

definition parse_and :: "expr pm \<Rightarrow> expr pm" where
  "parse_and u = chain (kw_here ''and'' And) (parse_not u)"

definition parse_or :: "expr pm \<Rightarrow> expr pm" where
  "parse_or u = chain (kw_here ''or'' Or) (parse_and u)"

text \<open>\<open>parse_unary\<close> with \<open>n\<close> levels of nesting left, and \<open>parse_expr\<close> from it.\<close>

fun unary_at :: "nat \<Rightarrow> parser \<Rightarrow> (parse_fail, expr \<times> parser) res" where
  "unary_at 0 s = Inl OutOfFuel"
| "unary_at (Suc n) s = parse_unary (parse_or (unary_at n)) (unary_at n) s"

definition parse_top :: "expr pm" where
  "parse_top s = parse_or (unary_at (Suc (max_nest s))) s"

section \<open>Entry points\<close>

definition new_parser ::
  "std_lib \<Rightarrow> (fn_def \<Rightarrow> nat \<Rightarrow> expr option) \<Rightarrow> spanned list \<Rightarrow> model \<Rightarrow> bool \<Rightarrow> parser" where
  "new_parser lib dflt ts m st =
     \<lparr>p_toks = ts, p_pos = 0, p_model = m, p_depth = 0, p_scope = [], p_lambdas = 0, p_expanded = 0,
      p_stored = st, p_lib = lib, p_default = dflt\<rparr>"

definition whole_expr :: "expr pm" where
  "whole_expr =
     pbind parse_top (\<lambda>e.
     pbind (pget peek) (\<lambda>t.
       if t \<noteq> None then err ''unexpected trailing input''
       else pbind (pget (toks_pos 0)) (\<lambda>pos. pthen (check_formula e pos) (pret e))))"

definition run :: "'a pm \<Rightarrow> parser \<Rightarrow> (parse_fail, 'a) res" where
  "run m s = rmap fst (m s)"

definition expr_text ::
  "std_lib \<Rightarrow> (fn_def \<Rightarrow> nat \<Rightarrow> expr option) \<Rightarrow> model \<Rightarrow> string \<Rightarrow> bool \<Rightarrow> (parse_fail, formula) res" where
  "expr_text lib dflt m text st =
     rbind (tokenize lib text) (\<lambda>ts.
       if ts = [] then Inl (ParseError ''empty expression'' None)
       else rmap new_formula (run whole_expr (new_parser lib dflt ts m st)))"

text \<open>
  \<open>FnDef::param_default\<close>: the written default, parsed. The written defaults name no argument, so the
  parser that reads them asks for no default itself.
\<close>

definition param_default :: "std_lib \<Rightarrow> fn_def \<Rightarrow> nat \<Rightarrow> expr option" where
  "param_default lib d i =
     (case default_text lib d i of
        None \<Rightarrow> None
      | Some t \<Rightarrow> (case expr_text lib (\<lambda>_ _. None) new_model t False of
                    Inr f \<Rightarrow> Some (fexpr f) | Inl _ \<Rightarrow> None))"

definition parse_expr :: "std_lib \<Rightarrow> model \<Rightarrow> string \<Rightarrow> (parse_fail, formula) res" where
  "parse_expr lib m text = expr_text lib (param_default lib) m text False"

definition parse_stored_expr :: "std_lib \<Rightarrow> model \<Rightarrow> string \<Rightarrow> (parse_fail, formula) res" where
  "parse_stored_expr lib m text = expr_text lib (param_default lib) m text True"

subsection \<open>Definitions\<close>

text \<open>Past the target's dimension list, whose \<open>[\<close> is at \<open>i - 1\<close>.\<close>

fun past_bracket :: "spanned list \<Rightarrow> nat option" where
  "past_bracket [] = None"
| "past_bracket ((t, _) # ts) = (if t = KOp '']'' then Some 1 else map_option Suc (past_bracket ts))"

definition parse_lhs :: "spanned list \<Rightarrow> (parse_fail, string \<times> nat) res" where
  "parse_lhs ts =
     (case ts of
        [] \<Rightarrow> Inl (ParseError ''empty formula'' None)
      | (t, pos) # rest \<Rightarrow>
          (case name_tok (Some t) of
             None \<Rightarrow> Inl (ParseError ''formula must start with a target measure name'' (Some pos))
           | Some target \<Rightarrow>
               rbind (case rest of
                   (d, _) # inner \<Rightarrow>
                     if d = KOp ''['' then
                       (case past_bracket inner of
                          None \<Rightarrow> Inl (ParseError (''unterminated '' @ tick ''['' @ '' in target dimension list'') (Some pos))
                        | Some k \<Rightarrow> Inr (2 + k))
                     else Inr 1
                 | [] \<Rightarrow> Inr 1) (\<lambda>i.
                 if map_option fst (nth_arg ts i) = Some (KOp ''='') then Inr (target, i + 1)
                 else Inl (ParseError (''expected '' @ tick ''='' @ '' after target measure name'')
                        (map_option snd (nth_arg ts i))))))"

record formula_text =
  ft_target :: string
  ft_formula :: formula

datatype definition_text =
    DFormula formula_text
  | DSql string string
  | DCall string string "string list"
  | DLambda string named_lambda

text \<open>The tokens from \<open>i\<close> on; past the end is a panic.\<close>

definition toks_from :: "nat \<Rightarrow> spanned list \<Rightarrow> (parse_fail, spanned list) res" where
  "toks_from i ts = (if i \<le> length ts then Inr (drop i ts) else Inl ParsePanic)"

definition formula_of ::
  "std_lib \<Rightarrow> model \<Rightarrow> bool \<Rightarrow> string \<Rightarrow> spanned list \<Rightarrow> (parse_fail, formula_text) res" where
  "formula_of lib m st target ts =
     rmap (\<lambda>e. \<lparr>ft_target = target, ft_formula = new_formula e\<rparr>)
       (run whole_expr (new_parser lib (param_default lib) ts m st))"

definition parse_formula :: "std_lib \<Rightarrow> model \<Rightarrow> string \<Rightarrow> (parse_fail, formula_text) res" where
  "parse_formula lib m text =
     rbind (tokenize lib text) (\<lambda>ts.
     rbind (parse_lhs ts) (\<lambda>(target, rhs).
     rbind (toks_from rhs ts) (formula_of lib m False target)))"

definition tok_opt :: "nat \<Rightarrow> spanned list \<Rightarrow> tok option" where
  "tok_opt i ts = map_option fst (nth_arg ts i)"

definition pos_opt :: "nat \<Rightarrow> spanned list \<Rightarrow> nat option" where
  "pos_opt i ts = map_option snd (nth_arg ts i)"

definition parse_sql_form :: "spanned list \<Rightarrow> nat \<Rightarrow> string \<Rightarrow> (parse_fail, definition_text) res" where
  "parse_sql_form ts rhs target =
     (case tok_opt (rhs + 2) ts of
        Some (KStr query) \<Rightarrow>
          if tok_opt (rhs + 3) ts \<noteq> Some (KOp '')'')
          then Inl (ParseError (''expected '' @ tick '')'' @ '' to close SQL(...)'') (pos_opt (rhs + 3) ts))
          else if tok_opt (rhs + 4) ts \<noteq> None
          then Inl (ParseError ''unexpected trailing input after SQL(...)'' (pos_opt (rhs + 4) ts))
          else Inr (DSql target query)
      | _ \<Rightarrow> Inl (ParseError ''SQL(...) takes a single quoted query string'' (pos_opt (rhs + 2) ts)))"

text \<open>The arguments from \<open>ts\<close> on, and the tokens after the closing parenthesis.\<close>

fun call_measures :: "spanned list \<Rightarrow> string list \<Rightarrow> (parse_fail, string list \<times> spanned list) res" where
  "call_measures [] args = Inl (ParseError ''unterminated CALL(...)'' None)"
| "call_measures ((t, pos) # ts) args =
     (if t = KOp '')'' then Inr (args, ts)
      else if t = KOp '','' then
        (case ts of
           [] \<Rightarrow> Inl (ParseError (''expected an argument measure name after '' @ tick '','' @ '' in CALL(...)'') None)
         | (n, pos') # ts' \<Rightarrow>
             (case name_tok (Some n) of
                Some w \<Rightarrow> call_measures ts' (args @ [w])
              | None \<Rightarrow>
                  Inl (ParseError (''expected an argument measure name after '' @ tick '','' @ '' in CALL(...)'')
                    (Some pos'))))
      else Inl (ParseError (''expected '' @ tick '','' @ '' or '' @ tick '')'' @ '' in CALL(...)'') (Some pos)))"

definition parse_call_form :: "spanned list \<Rightarrow> nat \<Rightarrow> string \<Rightarrow> (parse_fail, definition_text) res" where
  "parse_call_form ts rhs target =
     (case ident_tok (tok_opt (rhs + 2) ts) of
        None \<Rightarrow>
          Inl (ParseError ''CALL(...) takes a function name then argument measures'' (pos_opt (rhs + 2) ts))
      | Some func \<Rightarrow>
          rbind (call_measures (drop (rhs + 3) ts) []) (\<lambda>(args, rest).
            case rest of
              [] \<Rightarrow> Inr (DCall target func args)
            | (_, pos) # _ \<Rightarrow> Inl (ParseError ''unexpected trailing input after CALL(...)'' (Some pos))))"

definition lambda_definition :: "(string list \<times> expr) pm" where
  "lambda_definition =
     pbind parse_lambda_params (\<lambda>(params, start, stop).
     pbind (pget peek) (\<lambda>t.
       if t \<noteq> None then err ''unexpected input after the LAMBDA (a named LAMBDA is not called here)''
       else pbind (lambda_body parse_top params
                     (map (\<lambda>i. Ref (lambda_param i) default_spec) [0..<length params]) start stop) (\<lambda>body.
              pret (params, body))))"

definition parse_lambda_form ::
  "std_lib \<Rightarrow> model \<Rightarrow> spanned list \<Rightarrow> nat \<Rightarrow> string \<Rightarrow> bool \<Rightarrow> (parse_fail, definition_text) res" where
  "parse_lambda_form lib m ts rhs target st =
     (if callable target \<noteq> None
      then Inl (ParseError (target @ '' is a built-in function; name the LAMBDA differently'') None)
      else
        let m' = (case lambda_by_name target m of
                    Some (i, _) \<Rightarrow> m\<lparr>lambdas := filter (\<lambda>(j, _). j \<noteq> i) (lambdas m)\<rparr>
                  | None \<Rightarrow> m)
        in rbind (toks_from rhs ts) (\<lambda>ts'.
           rbind (run lambda_definition (new_parser lib (param_default lib) ts' m' st)) (\<lambda>(params, body).
             let refs = referenced_measures body in
             if list_ex (\<lambda>r. lambda_param_of r = None) refs
             then Inl (ParseError ''a named LAMBDA reads only its parameters: pass measures as arguments'' None)
             else if list_ex (\<lambda>r. lambda_slot_of r \<noteq> None) refs
             then Inl (ParseError ''a named LAMBDA cannot hold SCAN or REDUCE'' None)
             else
               let l = \<lparr>l_name = target, l_params = params, l_body = body\<rparr>
               in rbind (map_err (\<lambda>e. ParseError e None) (param_kinds l)) (\<lambda>_. Inr (DLambda target l)))))"

definition definition_of :: "std_lib \<Rightarrow> model \<Rightarrow> string \<Rightarrow> bool \<Rightarrow> (parse_fail, definition_text) res" where
  "definition_of lib m text st =
     rbind (tokenize lib text) (\<lambda>ts.
     rbind (parse_lhs ts) (\<lambda>(target, rhs).
       let head = (case ident_tok (tok_opt rhs ts) of
                     Some h \<Rightarrow> if tok_opt (rhs + 1) ts = Some (KOp ''('') then h else []
                   | None \<Rightarrow> [])
       in if eq_ignore_ascii_case head ''sql'' then parse_sql_form ts rhs target
          else if eq_ignore_ascii_case head ''call'' then parse_call_form ts rhs target
          else if eq_ignore_ascii_case head ''lambda'' then parse_lambda_form lib m ts rhs target st
          else rbind (toks_from rhs ts) (\<lambda>ts'. rmap DFormula (formula_of lib m st target ts'))))"

definition parse_definition :: "std_lib \<Rightarrow> model \<Rightarrow> string \<Rightarrow> (parse_fail, definition_text) res" where
  "parse_definition lib m text = definition_of lib m text False"

definition parse_stored_definition :: "std_lib \<Rightarrow> model \<Rightarrow> string \<Rightarrow> (parse_fail, definition_text) res" where
  "parse_stored_definition lib m text = definition_of lib m text True"

end
