(* ===== verification/Parser_Logic.thy ===== *)
theory Parser_Logic
  imports Parser Infer_Facts
begin

text \<open>
  A weakest precondition for the parser's rules: \<open>wp m s Q\<close> says that \<open>m\<close>, run from \<open>s\<close>, neither panics
  nor runs out of fuel, and that a value it returns, with the state it leaves, satisfies \<open>Q\<close>. The rules
  below carry \<open>wp\<close> through the primitives; \<open>steps\<close> and \<open>advances\<close> say what no rule of the grammar changes
  and that the position only moves forward.
\<close>

section \<open>The calculus\<close>

definition wp :: "'a pm \<Rightarrow> parser \<Rightarrow> ('a \<Rightarrow> parser \<Rightarrow> bool) \<Rightarrow> bool" where
  "wp m s Q \<longleftrightarrow> (case m s of Inr (x, s') \<Rightarrow> Q x s' | Inl e \<Rightarrow> \<exists>msg pos. e = ParseError msg pos)"

lemma wp_bind [simp]: "wp (pbind m f) s Q \<longleftrightarrow> wp m s (\<lambda>x s'. wp (f x) s' Q)"
  by (auto simp: wp_def pbind_def split: sum.splits)

lemma wp_then [simp]: "wp (pthen m k) s Q \<longleftrightarrow> wp m s (\<lambda>_ s'. wp k s' Q)"
  by (simp add: pthen_def)

lemma wp_prims [simp]:
  "wp (pret x) s Q \<longleftrightarrow> Q x s"
  "wp (pget f) s Q \<longleftrightarrow> Q (f s) s"
  "wp (pmod h) s R' \<longleftrightarrow> R' () (h s)"
  "wp (err msg) s T"
  "wp (fail_at msg pos) s T"
  "wp (pfail (ParseError msg pos)) s T"
  "\<not> wp (pfail ParsePanic) s T"
  "\<not> wp (pfail OutOfFuel) s T"
  by (simp_all add: wp_def pret_def pget_def pmod_def err_def fail_at_def pfail_def)

lemma wp_too_nested [simp]: "wp too_nested s Q"
  by (simp add: too_nested_def)

lemma wp_err_or [simp]: "wp (err_or r) s Q \<longleftrightarrow> (\<forall>x. r = Inr x \<longrightarrow> Q x s)"
  by (auto simp: err_or_def split: sum.splits)

lemma wp_lift: "wp (plift r) s Q \<longleftrightarrow> (case r of Inr x \<Rightarrow> Q x s | Inl e \<Rightarrow> \<exists>msg pos. e = ParseError msg pos)"
  by (auto simp: wp_def plift_def split: sum.splits)

lemma wp_mono: "wp m s Q \<Longrightarrow> (\<And>x s'. Q x s' \<Longrightarrow> T x s') \<Longrightarrow> wp m s T"
  by (auto simp: wp_def split: sum.splits)

lemma wp_run: "wp m s Q \<Longrightarrow> (\<exists>msg pos. m s = Inl (ParseError msg pos)) \<or> (\<exists>x s'. m s = Inr (x, s') \<and> Q x s')"
  by (auto simp: wp_def split: sum.splits)

section \<open>The position\<close>

text \<open>\<open>p_stored\<close> as a number, which rewriting keeps in one equation.\<close>

definition mode :: "parser \<Rightarrow> nat" where
  "mode s = (if p_stored s then 1 else 0)"

lemma mode_update [simp]:
  "mode (s\<lparr>p_pos := i\<rparr>) = mode s" "mode (s\<lparr>p_depth := i\<rparr>) = mode s" "mode (s\<lparr>p_scope := sc\<rparr>) = mode s"
  "mode (s\<lparr>p_lambdas := k\<rparr>) = mode s" "mode (s\<lparr>p_expanded := i\<rparr>) = mode s"
  by (simp_all add: mode_def)

lemma mode_eq: "mode s' = mode s \<Longrightarrow> p_stored s' = p_stored s"
  by (simp add: mode_def split: if_splits)

lemma limits_update [simp]:
  "max_nest (s\<lparr>p_pos := i\<rparr>) = max_nest s" "max_depth (s\<lparr>p_pos := i\<rparr>) = max_depth s"
  "max_nest (s\<lparr>p_depth := i\<rparr>) = max_nest s" "max_depth (s\<lparr>p_depth := i\<rparr>) = max_depth s"
  "max_nest (s\<lparr>p_scope := sc\<rparr>) = max_nest s" "max_depth (s\<lparr>p_scope := sc\<rparr>) = max_depth s"
  "max_nest (s\<lparr>p_lambdas := k\<rparr>) = max_nest s" "max_depth (s\<lparr>p_lambdas := k\<rparr>) = max_depth s"
  "max_nest (s\<lparr>p_expanded := i\<rparr>) = max_nest s" "max_depth (s\<lparr>p_expanded := i\<rparr>) = max_depth s"
  by (simp_all add: max_nest_def max_depth_def)

definition steps :: "parser \<Rightarrow> parser \<Rightarrow> bool" where
  "steps s s' \<longleftrightarrow>
     p_toks s' = p_toks s \<and> p_model s' = p_model s \<and> p_depth s' = p_depth s \<and> p_scope s' = p_scope s \<and>
     mode s' = mode s \<and> max_nest s' = max_nest s \<and> max_depth s' = max_depth s \<and>
     p_lib s' = p_lib s \<and> p_default s' = p_default s \<and>
     p_pos s \<le> p_pos s' \<and> p_pos s' \<le> length (p_toks s)"

definition advances :: "parser \<Rightarrow> parser \<Rightarrow> bool" where
  "advances s s' \<longleftrightarrow> steps s s' \<and> p_pos s < p_pos s'"

definition inside :: "parser \<Rightarrow> bool" where
  "inside s \<longleftrightarrow> p_pos s \<le> length (p_toks s)"

lemmas frame = steps_def advances_def inside_def

lemma tok_at_inside: "tok_at k s = Some t \<Longrightarrow> p_pos s + k < length (p_toks s)"
  by (auto simp: tok_at_def nth_arg_def split: if_splits)

lemma peek_inside: "peek s = Some t \<Longrightarrow> p_pos s < length (p_toks s)"
  using tok_at_inside [of 0] by (simp add: peek_def)

lemma name_tok_Some: "name_tok t = Some w \<Longrightarrow> t \<noteq> None"
  by (cases t) auto

lemma ident_tok_Some: "ident_tok t = Some w \<Longrightarrow> t \<noteq> None"
  by (cases t) auto

lemma peek_kw_inside: "peek_kw w s \<Longrightarrow> p_pos s < length (p_toks s)"
  by (auto simp: peek_kw_def peek_inside split: option.splits)

lemma wp_bump [intro!]:
  assumes "inside s"
    and "\<And>s'. steps s s' \<Longrightarrow> p_pos s < length (p_toks s) \<Longrightarrow> advances s s' \<Longrightarrow> Q () s'"
    and "p_pos s = length (p_toks s) \<Longrightarrow> Q () s"
  shows "wp bump s Q"
  using assms by (auto simp: bump_def frame)

lemma wp_eat [intro!]:
  assumes "\<And>s'. advances s s' \<Longrightarrow> Q True s'" "Q False s"
  shows "wp (eat_op t) s Q"
  using assms peek_inside [of s] by (auto simp: eat_op_def wp_def frame)

lemma wp_expect [intro!]:
  assumes "\<And>s'. advances s s' \<Longrightarrow> Q () s'"
  shows "wp (expect_op t what) s Q"
  using assms by (auto simp: expect_op_def)

lemma wp_take_ident [intro!]:
  assumes "\<And>w s'. advances s s' \<Longrightarrow> Q w s'"
  shows "wp (take_ident what) s Q"
  using assms by (auto simp: take_ident_def frame split: option.splits dest!: name_tok_Some peek_inside)

lemma wp_parse_name [intro!]:
  assumes "\<And>x s'. advances s s' \<Longrightarrow> Q x s'"
  shows "wp (parse_name what) s Q"
  using assms by (auto simp: parse_name_def)

lemma wp_check_expr [simp]: "wp (check_expr e pos) s Q \<longleftrightarrow> (check_depth (max_depth s) e = Inr () \<longrightarrow> Q () s)"
  by (auto simp: check_expr_def wp_lift map_err_def split: sum.splits)

lemma wp_link [simp]:
  "wp (link pos d b l r) s Q \<longleftrightarrow>
     (let n = 1 + max (if d = 0 then fst (depth_and_nodes l) else d) (fst (depth_and_nodes r))
      in n \<le> max_depth s \<longrightarrow> Q (BinaryOp b l r, n) s)"
  by (auto simp: link_def Let_def not_less)

lemma wp_named_arg [intro!]:
  assumes "\<And>x s'. steps s s' \<Longrightarrow> Q x s'" "inside s"
  shows "wp named_arg s Q"
  using assms by (auto simp: named_arg_def frame split: option.splits dest!: tok_at_inside)

lemma wp_binding_name [intro!]:
  assumes "\<And>x s'. advances s s' \<Longrightarrow> Q x s'"
  shows "wp binding_name s Q"
  using assms
  by (auto simp: binding_name_def frame split: option.splits dest!: ident_tok_Some peek_inside)

lemma loop_fuel_enough [simp]: "p_toks s' = p_toks s \<Longrightarrow> length (p_toks s) < loop_fuel s' + k"
  by (simp add: loop_fuel_def)

section \<open>Functions the rules name\<close>

lemma callable_member:
  assumes "d \<in> set all_fns" "eq_ignore_ascii_case (fname d) w" "\<not> reduces (fkind d)"
  shows "\<exists>d. callable w = Some d"
proof -
  have "d \<in> set (by_name w)" using assms by (simp add: by_name_def)
  then show ?thesis using assms(3) by (cases "callable w") (auto simp: callable_def find_None_iff)
qed

lemma ascii_lower_upper [simp]: "ascii_lower (ascii_upper c) = ascii_lower c"
  by (auto simp: ascii_lower_def ascii_upper_def Let_def char_of_char)

lemma eq_upper: "to_ascii_uppercase w = n \<Longrightarrow> eq_ignore_ascii_case n w"
  by (auto simp: eq_ignore_ascii_case_def to_ascii_lowercase_def to_ascii_uppercase_def)

lemma form_rows:
  "fn_row 911 ''SCAN'' Lazy CLogical [AAny, AAny, AAny] 3 False RUnify \<in> set DIMENSIONAL"
  "fn_row 912 ''REDUCE'' Lazy CLogical [AAny, AAny, AAny] 3 False RUnify \<in> set DIMENSIONAL"
  "fn_row 916 ''SEQUENCE'' Lazy CDimensional [AAny, AAny, AAny] 1 False RUnify \<in> set DIMENSIONAL"
  "fn_row 922 ''FIXPOINT'' Lazy CDimensional [AAny, AAny, ANumber, ANumber] 2 False RUnify \<in> set DIMENSIONAL"
  unfolding DIMENSIONAL_def by (simp_all only: list.set insert_iff simp_thms)

lemma scan_registered: "to_ascii_uppercase w = ''SCAN'' \<Longrightarrow> \<exists>d. callable w = Some d"
  by (rule callable_member [OF dimensional_member [OF form_rows(1)]]) (simp_all add: fn_row_def eq_upper)

lemma reduce_registered: "to_ascii_uppercase w = ''REDUCE'' \<Longrightarrow> \<exists>d. callable w = Some d"
  by (rule callable_member [OF dimensional_member [OF form_rows(2)]]) (simp_all add: fn_row_def eq_upper)

lemma sequence_registered: "\<exists>d. callable ''SEQUENCE'' = Some d"
  by (rule callable_member [OF dimensional_member [OF form_rows(3)]]) (simp_all add: fn_row_def)

lemma fixpoint_registered: "\<exists>d. callable ''FIXPOINT'' = Some d"
  by (rule callable_member [OF dimensional_member [OF form_rows(4)]]) (simp_all add: fn_row_def)

end
