(* ===== verification/Parser_Sound.thy ===== *)
theory Parser_Sound
  imports Parser_Logic
begin

text \<open>
  What a rule of the grammar builds, by one walk over the rules. \<open>formula_values\<close> is the contract of a
  set of formulas: it holds what the rules put together, and a category a formula may name. From it every
  rule is shown to advance, to keep the parser's frame, to end without a panic and within its fuel, and to
  return only such a formula.
\<close>

locale formula_values =
  fixes cat_ok :: "model \<Rightarrow> category_id \<Rightarrow> bool"
    and good :: "model \<Rightarrow> expr \<Rightarrow> bool"
  assumes category_found: "find_category n s = Some x \<Longrightarrow> cat_ok (p_model s) (cat_id x)"
    and category_param: "lambda_param_of i = Some k \<Longrightarrow> cat_ok m (lambda_category k)"
    and category_of_measure: "hget (measure_map m) i = Some y \<Longrightarrow> c \<in> set (m_cats y) \<Longrightarrow> cat_ok m c"
    and good_measure: "find_measure n s = Some y \<Longrightarrow> good (p_model s) (Ref (m_id y) default_spec)"
    and good_slot: "good m (Ref (lambda_slot k0 j0) default_spec)"
    and good_param: "good m (Ref (lambda_param k) default_spec)"
    and good_new: "good new_model e \<Longrightarrow> good m e"
    and good_by: "good m (Ref i sp) \<Longrightarrow> \<forall>c \<in> set cs. cat_ok m c \<Longrightarrow> good m (Ref i (sp\<lparr>sby := cs\<rparr>))"
    and good_over: "good m (Ref i sp) \<Longrightarrow> \<forall>c \<in> set cs. cat_ok m c \<Longrightarrow> good m (Ref i (sp\<lparr>sover := cs\<rparr>))"
    and over_good: "good m (Ref i sp) \<Longrightarrow> c \<in> set (sover sp) \<Longrightarrow> cat_ok m c"
    and good_literal: "good m (Literal v)"
    and good_category: "cat_ok m c \<Longrightarrow> good m (Category c)"
    and good_unary: "good m a \<Longrightarrow> good m (UnaryOp u a)"
    and good_binary: "good m a \<Longrightarrow> good m b \<Longrightarrow> good m (BinaryOp op a b)"
    and good_call: "callable n = Some d \<or> aggregation n = Some d \<Longrightarrow> \<forall>a \<in> set args. good m a \<Longrightarrow> good m (Call (fid d) args)"
    and good_named: "lambda_by_name n m = Some (j, l) \<Longrightarrow> \<forall>a \<in> set args. good m a \<Longrightarrow> good m (Call (named_lambda j) args)"
    and good_position: "cat_ok m c \<Longrightarrow> good m (Call POSITION [Category c])"
    and good_where: "good m p \<Longrightarrow> good m (Call WHERE [p])"
    and good_window: "good m a \<Longrightarrow> good m b \<Longrightarrow> good m (Call WINDOW [a, b])"
    and good_into: "\<forall>c \<in> set cs. cat_ok m c \<Longrightarrow> good m (Call INTO (map Category cs))"
begin

definition cats_ok :: "model \<Rightarrow> category_id list \<Rightarrow> bool" where
  "cats_ok m cs \<longleftrightarrow> (\<forall>c \<in> set cs. cat_ok m c)"

definition all_good :: "model \<Rightarrow> expr list \<Rightarrow> bool" where
  "all_good m es \<longleftrightarrow> (\<forall>e \<in> set es. good m e)"

text \<open>What a rule relies on: the names in scope and the written defaults stand for such formulas.\<close>

definition env :: "model \<Rightarrow> (string \<times> expr) list \<Rightarrow> (fn_def \<Rightarrow> nat \<Rightarrow> expr option) \<Rightarrow> bool" where
  "env m sc dflt \<longleftrightarrow> all_good m (map snd sc) \<and> (\<forall>d i e. dflt d i = Some e \<longrightarrow> good m e)"

definition ready :: "parser \<Rightarrow> bool" where
  "ready s \<longleftrightarrow> inside s \<and> env (p_model s) (p_scope s) (p_default s)"

text \<open>And the levels of nesting left.\<close>

definition fits :: "nat \<Rightarrow> nat \<Rightarrow> nat \<Rightarrow> bool" where
  "fits n lim d \<longleftrightarrow> d \<le> lim \<and> lim < d + n"

definition rule :: "nat \<Rightarrow> expr pm \<Rightarrow> bool" where
  "rule n m \<longleftrightarrow>
     (\<forall>s. ready s \<longrightarrow> fits n (max_nest s) (p_depth s) \<longrightarrow>
        wp m s (\<lambda>e s'. advances s s' \<and> good (p_model s) e))"

lemma ruleD:
  assumes "rule n m" "ready s" "fits n (max_nest s) (p_depth s)"
    and "\<And>e s'. advances s s' \<Longrightarrow> good (p_model s) e \<Longrightarrow> Q e s'"
  shows "wp m s Q"
  using assms by (auto simp: rule_def intro: wp_mono)

lemmas ready = ready_def inside_def frame

lemma all_good_simps [simp]:
  "all_good m []"
  "all_good m (e # es) \<longleftrightarrow> good m e \<and> all_good m es"
  "all_good m (es @ fs) \<longleftrightarrow> all_good m es \<and> all_good m fs"
  by (auto simp: all_good_def)

lemma cats_ok_simps [simp]:
  "cats_ok m []"
  "cats_ok m (c # cs) \<longleftrightarrow> cat_ok m c \<and> cats_ok m cs"
  "cats_ok m (cs @ ds) \<longleftrightarrow> cats_ok m cs \<and> cats_ok m ds"
  by (auto simp: cats_ok_def)

lemma by_cats: "good m (Ref i sp) \<Longrightarrow> cats_ok m cs \<Longrightarrow> good m (Ref i (sp\<lparr>sby := cs\<rparr>))"
  by (simp add: cats_ok_def good_by)

lemma over_cats: "good m (Ref i sp) \<Longrightarrow> cats_ok m cs \<Longrightarrow> good m (Ref i (sp\<lparr>sover := cs\<rparr>))"
  by (simp add: cats_ok_def good_over)

lemma local_good:
  assumes "local_in n s = Some e" "ready s"
  shows "good (p_model s) e"
proof -
  obtain b where "find (\<lambda>(b, _). eq_ignore_ascii_case b n) (rev (p_scope s)) = Some (b, e)"
    using assms(1) by (auto simp: local_in_def)
  then have "(b, e) \<in> set (rev (p_scope s))" by (metis find_Some_iff nth_mem)
  then show ?thesis using assms(2) by (force simp: ready_def env_def all_good_def)
qed

lemma local_category_ok: "local_category n s = Some c \<Longrightarrow> cat_ok m c"
  by (auto simp: local_category_def category_param split: option.splits expr.splits)

subsection \<open>References and categories\<close>

lemma wp_parse_category: "wp parse_category_name s (\<lambda>c s'. advances s s' \<and> cat_ok (p_model s) c)"
  unfolding parse_category_name_def category_id_of_def
  by (auto simp: frame local_category_ok split: option.splits dest!: category_found)

lemmas parse_category [intro!] = wp_parse_category [THEN wp_mono]

lemma wp_more_cats:
  "length (p_toks s) < n + p_pos s \<Longrightarrow> inside s \<Longrightarrow> cats_ok (p_model s) cs \<Longrightarrow>
   wp (more_cats_by n cs) s (\<lambda>ds s'. steps s s' \<and> cats_ok (p_model s) ds)"
proof (induction n arbitrary: s cs)
  case (Suc n)
  note IH = Suc.IH [THEN wp_mono]
  show ?case using Suc.prems by (auto simp: frame intro!: IH)
qed (simp add: inside_def)

lemmas more_cats [intro!] = wp_more_cats [THEN wp_mono]

lemma wp_measure_ref:
  "inside s \<Longrightarrow> wp parse_measure_ref s (\<lambda>e s'. advances s s' \<and> good (p_model s) e \<and> is_ref e)"
  unfolding parse_measure_ref_def measure_id_of_def
  by (auto simp: frame split: option.splits dest!: good_measure intro!: by_cats)

lemmas measure_ref [intro!] = wp_measure_ref [THEN wp_mono]

lemma comma_then_inside: "comma_then_category s \<Longrightarrow> p_pos s < length (p_toks s)"
  by (auto simp: comma_then_category_def split: option.splits prod.splits tok.splits dest!: tok_at_inside [of 0, simplified])

lemma wp_more_over_cats:
  "length (p_toks s) < n + p_pos s \<Longrightarrow> inside s \<Longrightarrow> cats_ok (p_model s) cs \<Longrightarrow>
   wp (more_over_cats n cs) s (\<lambda>ds s'. steps s s' \<and> cats_ok (p_model s) ds)"
proof (induction n arbitrary: s cs)
  case (Suc n)
  note IH = Suc.IH [THEN wp_mono]
  show ?case using Suc.prems by (auto simp: frame dest!: comma_then_inside intro!: IH)
qed (simp add: inside_def)

lemmas more_over_cats [intro!] = wp_more_over_cats [THEN wp_mono]

lemma wp_cats: "wp parse_cats s (\<lambda>cs s'. advances s s' \<and> cats_ok (p_model s) cs)"
  unfolding parse_cats_def by (auto simp: frame)

lemmas cats [intro!] = wp_cats [THEN wp_mono]

subsection \<open>Clauses\<close>

definition clause_ok :: "model \<Rightarrow> over_clause \<Rightarrow> bool" where
  "clause_ok m c \<longleftrightarrow>
     cats_ok m (oc_cats c) \<and> cats_ok m (oc_except c) \<and> cats_ok m (oc_into c) \<and>
     (\<forall>lo hi. oc_window c = Some (lo, hi) \<longrightarrow> good m lo \<and> good m hi) \<and>
     (\<forall>p. oc_pred c = Some p \<longrightarrow> good m p)"

lemma clause_ok_default [simp]: "clause_ok m default_clause"
  by (simp add: clause_ok_def default_clause_def)

lemma wp_bound: "inside s \<Longrightarrow> wp parse_bound s (\<lambda>e s'. advances s s' \<and> good (p_model s) e)"
  unfolding parse_bound_def Let_def
  by (auto simp: frame good_literal split: option.splits tok.splits dest!: ident_tok_Some peek_inside)

lemmas bound [intro!] = wp_bound [THEN wp_mono]

lemma wp_window:
  "inside s \<Longrightarrow> wp parse_window s (\<lambda>(lo, hi) s'. advances s s' \<and> good (p_model s) lo \<and> good (p_model s) hi)"
  unfolding parse_window_def by (auto simp: frame)

lemmas window [intro!] = wp_window [THEN wp_mono]

lemma over_of_ok: "clause_ok m c \<Longrightarrow> cats_ok m (over_of c m i)"
  by (auto simp: clause_ok_def over_of_def cats_ok_def split: option.splits intro: category_of_measure [OF sym])

lemma wp_over_head: "inside s \<Longrightarrow> wp over_head s (\<lambda>c s'. advances s s' \<and> clause_ok (p_model s) c)"
  unfolding over_head_def
  by (auto simp: frame clause_ok_def default_clause_def dest!: peek_kw_inside)

lemmas over_head [intro!] = wp_over_head [THEN wp_mono]

lemma wp_over_clause:
  assumes "rule n ex" "ready s" "fits n (max_nest s) (p_depth s)"
  shows "wp (parse_over_clause ex) s (\<lambda>c s'. advances s s' \<and> clause_ok (p_model s) c)"
proof -
  note ex = ruleD [OF assms(1)]
  show ?thesis using assms(2-) unfolding parse_over_clause_def
    by (auto simp: ready clause_ok_def dest!: peek_kw_inside intro!: ex)
qed

subsection \<open>Named arguments\<close>

definition named_ok :: "model \<Rightarrow> named_argument list \<Rightarrow> bool" where
  "named_ok m named \<longleftrightarrow> (\<forall>a \<in> set named. good m (snd (snd a)))"

definition slots_ok :: "model \<Rightarrow> expr option list \<Rightarrow> bool" where
  "slots_ok m slots \<longleftrightarrow> (\<forall>e. Some e \<in> set slots \<longrightarrow> good m e)"

lemma named_ok_simps [simp]:
  "named_ok m []"
  "named_ok m ((a, pos, e) # as) \<longleftrightarrow> good m e \<and> named_ok m as"
  "named_ok m (as @ bs) \<longleftrightarrow> named_ok m as \<and> named_ok m bs"
  by (auto simp: named_ok_def)

lemma slots_ok_update: "slots_ok m slots \<Longrightarrow> good m e \<Longrightarrow> slots_ok m (slots[i := Some e])"
  using set_update_subset_insert by (fastforce simp: slots_ok_def)

lemma place_one_ok:
  "place_one lib d n (a, pos, e) slots = Inr r \<Longrightarrow> slots_ok m slots \<Longrightarrow> good m e \<Longrightarrow> slots_ok m r"
  by (auto simp: place_one_def Let_def split: option.splits if_splits intro!: slots_ok_update)
    (auto simp: slots_ok_def)

lemma place_all_ok:
  "place_all lib d n named slots = Inr r \<Longrightarrow> slots_ok m slots \<Longrightarrow> named_ok m named \<Longrightarrow> slots_ok m r"
proof (induction named arbitrary: slots)
  case (Cons a as)
  then show ?case by (cases a) (auto simp: rbind_Inr_iff dest: place_one_ok)
qed simp

lemma place_one_err: "place_one lib d n a slots = Inl e \<Longrightarrow> \<exists>msg pos. e = ParseError msg pos"
  by (auto simp: place_one_def Let_def split: option.splits if_splits prod.splits)

lemma place_all_err: "place_all lib d n named slots = Inl e \<Longrightarrow> \<exists>msg pos. e = ParseError msg pos"
  by (induction named arbitrary: slots) (auto simp: rbind_def split: sum.splits dest: place_one_err)

lemma fill_slot_err: "fill_slot lib dflt d pos x = Inl e \<Longrightarrow> \<exists>msg pos. e = ParseError msg pos"
  by (auto simp: fill_slot_def Let_def split: option.splits prod.splits)

lemma rtraverse_err: "rtraverse f xs = Inl e \<Longrightarrow> \<exists>x \<in> set xs. f x = Inl e"
  by (induction xs) (auto simp: rbind_def split: sum.splits)

lemma place_named_err:
  "place_named lib dflt d args named = Inl e \<Longrightarrow> \<exists>msg pos. e = ParseError msg pos"
  by (auto simp: place_named_def rbind_def simp del: place_all.simps split: list.splits if_splits sum.splits
      dest!: place_all_err rtraverse_err dest: fill_slot_err)

lemma place_named_ok:
  assumes "place_named lib dflt d args named = Inr r"
    and "all_good m args" "named_ok m named" "\<forall>d i e. dflt d i = Some e \<longrightarrow> good m e"
  shows "all_good m r"
proof (cases named)
  case (Cons a as)
  obtain slots pos where s: "place_all lib d (length args) named (map Some args) = Inr slots"
      "rtraverse (fill_slot lib dflt d pos) (enumerate 0 slots) = Inr r"
    using assms(1) Cons
    by (cases a) (auto simp: place_named_def rbind_Inr_iff simp del: place_all.simps split: if_splits)
  have "slots_ok m slots"
    by (rule place_all_ok [OF s(1) _ assms(3)]) (use assms(2) in \<open>auto simp: slots_ok_def all_good_def\<close>)
  moreover have "\<exists>x \<in> set (enumerate 0 slots). fill_slot lib dflt d pos x = Inr e" if "e \<in> set r" for e
    using rtraverse_set [OF s(2)] that by blast
  ultimately show ?thesis using assms(4)
    by (fastforce simp: all_good_def slots_ok_def fill_slot_def Let_def in_set_enumerate_eq
        split: option.splits dest: nth_mem)
qed (use assms in \<open>simp add: place_named_def\<close>)

lemma wp_placed:
  assumes "ready s" "all_good (p_model s) args" "named_ok (p_model s) named"
  shows "wp (placed d args named) s (\<lambda>es s'. s' = s \<and> all_good (p_model s) es)"
  using assms place_named_ok [OF _ assms(2,3)] place_named_err
  by (fastforce simp: placed_def wp_lift ready_def env_def split: sum.splits)

lemmas placed [intro!] = wp_placed [THEN wp_mono]

lemma wp_rest_loop:
  assumes ex: "rule k ex"
  shows "length (p_toks s) < n + p_pos s \<Longrightarrow> ready s \<Longrightarrow> fits k (max_nest s) (p_depth s) \<Longrightarrow>
    all_good (p_model s) args \<Longrightarrow> named_ok (p_model s) named \<Longrightarrow>
    wp (rest_args_loop ex n lim args named) s
      (\<lambda>(as, ns) s'. steps s s' \<and> all_good (p_model s) as \<and> named_ok (p_model s) ns)"
proof (induction n arbitrary: s args named)
  case (Suc n)
  note IH = Suc.IH [THEN wp_mono]
  note ex = ruleD [OF ex]
  show ?case using Suc.prems by (auto simp: ready split: option.splits intro!: IH ex)
qed (simp add: ready inside_def)

lemmas rest_loop = wp_rest_loop [THEN wp_mono]

lemma wp_rest_args:
  assumes "rule k ex" "ready s" "fits k (max_nest s) (p_depth s)" "all_good (p_model s) args"
  shows "wp (rest_args ex d args lim) s (\<lambda>es s'. steps s s' \<and> all_good (p_model s) es)"
  using assms(2-) unfolding rest_args_def
  by (auto simp: ready intro!: rest_loop [OF assms(1)])

subsection \<open>Calls\<close>

lemma callable_good: "callable n = Some d \<Longrightarrow> all_good m args \<Longrightarrow> good m (Call (fid d) args)"
  and aggregation_good: "aggregation n = Some d \<Longrightarrow> all_good m args \<Longrightarrow> good m (Call (fid d) args)"
  by (rule good_call [of n d]; simp add: all_good_def)+

lemma reduce_args_good:
  assumes "rtraverse (reduce_arg d c m l) (enumerate 0 args) = Inr r" "clause_ok m c" "all_good m args"
  shows "all_good m r"
proof -
  have "\<exists>x \<in> set (enumerate 0 args). reduce_arg d c m l x = Inr e" if "e \<in> set r" for e
    using rtraverse_set [OF assms(1)] that by blast
  moreover have "good m e" if "reduce_arg d c m l (i, a) = Inr e" "good m a" for i a e
    using that over_cats [OF _ over_of_ok [OF assms(2)]]
    by (auto simp: reduce_arg_def split: if_splits expr.splits)
  ultimately show ?thesis using assms(3)
    by (fastforce simp: all_good_def in_set_enumerate_eq dest: nth_mem)
qed

lemma markers_good: "clause_ok m c \<Longrightarrow> all_good m (clause_markers c)"
  by (auto simp: clause_ok_def clause_markers_def cats_ok_def good_where good_window
      intro!: good_into split: option.splits)

lemma wp_finish:
  assumes "ready s" "all_good (p_model s) args" "named_ok (p_model s) named" "clause_ok (p_model s) c"
  shows "wp (finish_aggregation name args named c) s (\<lambda>e s'. s' = s \<and> good (p_model s) e)"
  using assms unfolding finish_aggregation_def
  by (auto split: option.splits intro!: aggregation_good [of name] markers_good) (erule reduce_args_good; assumption)+

lemmas finish [intro!] = wp_finish [THEN wp_mono]

definition call_ok :: "model \<Rightarrow> call_args \<Rightarrow> bool" where
  "call_ok m ca \<longleftrightarrow>
     all_good m (ca_args ca) \<and> named_ok m (ca_named ca) \<and> cats_ok m (ca_into ca) \<and>
     (\<forall>c. ca_over ca = Some c \<longrightarrow> clause_ok m c)"

lemma wp_call_arg:
  assumes "rule k ex" "ready s" "fits k (max_nest s) (p_depth s)" "call_ok (p_model s) ca"
  shows "wp (call_arg ex name ca) s (\<lambda>ca s'. advances s s' \<and> call_ok (p_model s) ca)"
  using assms(2-) unfolding call_arg_def
  by (auto simp: ready call_ok_def good_category split: option.splits intro!: ruleD [OF assms(1)])

lemma wp_call_over:
  assumes "rule k ex" "ready s" "fits k (max_nest s) (p_depth s)" "call_ok (p_model s) ca"
  shows "wp (call_over ex ca) s (\<lambda>ca s'. steps s s' \<and> call_ok (p_model s) ca)"
  using assms(2-) unfolding call_over_def
  by (auto simp: ready call_ok_def intro!: wp_over_clause [OF assms(1), THEN wp_mono])

lemma wp_call_into:
  "inside s \<Longrightarrow> call_ok (p_model s) ca \<Longrightarrow> wp (call_into ca) s (\<lambda>ca s'. steps s s' \<and> call_ok (p_model s) ca)"
  unfolding call_into_def by (auto simp: frame call_ok_def)

lemmas call_into [intro!] = wp_call_into [THEN wp_mono]

lemma wp_call_loop:
  assumes ex: "rule k ex"
  shows "length (p_toks s) < n + p_pos s \<Longrightarrow> ready s \<Longrightarrow> fits k (max_nest s) (p_depth s) \<Longrightarrow>
    call_ok (p_model s) ca \<Longrightarrow> wp (call_loop ex name n ca) s (\<lambda>ca s'. steps s s' \<and> call_ok (p_model s) ca)"
proof (induction n arbitrary: s ca)
  case (Suc n)
  note IH = Suc.IH [THEN wp_mono] wp_call_arg [OF ex, THEN wp_mono] wp_call_over [OF ex, THEN wp_mono]
  show ?case using Suc.prems by (auto simp: ready intro!: IH)
qed (simp add: ready inside_def)

lemma row_clause_ok:
  assumes "row_clause name ca = Some c" "call_ok m ca"
  shows "clause_ok m c"
proof (cases "ca_over ca = None \<and> aggregation name \<noteq> None")
  case True
  then obtain a where a: "find (\<lambda>a. case a of Ref _ sp \<Rightarrow> sover sp \<noteq> [] | _ \<Rightarrow> False) (ca_args ca) = Some a"
      and c: "c = default_clause\<lparr>oc_cats := (case a of Ref _ sp \<Rightarrow> sover sp | _ \<Rightarrow> [])\<rparr>"
    using assms(1) by (auto simp: row_clause_def)
  have "good m a" using a assms(2) by (auto simp: call_ok_def all_good_def find_Some_iff)
  then have "cats_ok m (case a of Ref _ sp \<Rightarrow> sover sp | _ \<Rightarrow> [])"
    by (auto simp: cats_ok_def over_good split: expr.splits)
  then show ?thesis by (simp add: c clause_ok_def default_clause_def)
qed (use assms in \<open>auto simp: row_clause_def call_ok_def split: if_splits\<close>)

lemma into_ok: "clause_ok m c \<Longrightarrow> cats_ok m cs \<Longrightarrow> clause_ok m (c\<lparr>oc_into := cs\<rparr>)"
  by (simp add: clause_ok_def)

lemma call_ok_none [simp]: "call_ok m no_args"
  by (simp add: call_ok_def no_args_def)

lemma wp_finish_call:
  assumes "ready s" "call_ok (p_model s) ca"
  shows "wp (finish_call name ca) s (\<lambda>e s'. s' = s \<and> good (p_model s) e)"
proof -
  have "clause_ok (p_model s) (case row_clause name ca of Some c \<Rightarrow> c | None \<Rightarrow> default_clause)"
    by (auto split: option.split dest: row_clause_ok [OF _ assms(2)])
  with assms show ?thesis unfolding finish_call_def Let_def
    by (auto simp: call_ok_def split: option.splits intro!: into_ok callable_good [of name])
qed

lemmas finish_call [intro!] = wp_finish_call [THEN wp_mono]

lemma wp_parse_call:
  assumes "rule k ex" "ready s" "fits k (max_nest s) (p_depth s)"
  shows "wp (parse_call ex name) s (\<lambda>e s'. advances s s' \<and> good (p_model s) e)"
  using assms(2-) unfolding parse_call_def
  by (auto simp: ready intro!: wp_call_loop [OF assms(1), THEN wp_mono])

subsection \<open>LET and LAMBDA\<close>

definition binds :: "nat \<Rightarrow> parser \<Rightarrow> parser \<Rightarrow> bool" where
  "binds base s s' \<longleftrightarrow>
     steps (s\<lparr>p_scope := p_scope s'\<rparr>) s' \<and> take base (p_scope s') = take base (p_scope s) \<and>
     env (p_model s) (p_scope s') (p_default s)"

lemma env_append: "env m (sc @ sc') dflt \<longleftrightarrow> env m sc dflt \<and> all_good m (map snd sc')"
  by (auto simp: env_def)

lemma env_zip: "env m sc dflt \<Longrightarrow> all_good m args \<Longrightarrow> env m (sc @ zip params args) dflt"
  by (auto simp: env_append all_good_def dest: set_zip_rightD)

lemma name_comma_inside: "name_comma s \<Longrightarrow> p_pos s < length (p_toks s)"
  using tok_at_inside [of 0 s] by (auto simp: name_comma_def dest!: ident_tok_Some)

lemma wp_let_bindings:
  assumes ex: "rule k ex"
  shows "length (p_toks s) < n + p_pos s \<Longrightarrow> ready s \<Longrightarrow> fits k (max_nest s) (p_depth s) \<Longrightarrow>
    base \<le> length (p_scope s) \<Longrightarrow> wp (let_bindings ex n base) s (\<lambda>_. binds base s)"
proof (induction n arbitrary: s base)
  case (Suc n)
  note IH = Suc.IH [THEN wp_mono]
  note ex = ruleD [OF ex]
  show ?case using Suc.prems by (auto simp: ready binds_def env_append intro!: IH ex)
qed (simp add: ready inside_def)

lemma wp_parse_let:
  assumes "rule k ex" "ready s" "fits k (max_nest s) (p_depth s)"
  shows "wp (parse_let ex) s (\<lambda>e s'. advances s s' \<and> good (p_model s) e)"
proof -
  note ex = ruleD [OF assms(1)] and bind = wp_let_bindings [OF assms(1), THEN wp_mono]
  show ?thesis using assms(2-) unfolding parse_let_def
    by (auto simp: ready binds_def intro!: ex bind)
qed

lemma wp_lambda_names:
  "length (p_toks s) < n + p_pos s \<Longrightarrow> inside s \<Longrightarrow> wp (lambda_names n ps) s (\<lambda>_. steps s)"
proof (induction n arbitrary: s ps)
  case (Suc n)
  note IH = Suc.IH [THEN wp_mono]
  show ?case using Suc.prems by (auto simp: frame intro!: IH)
qed (simp add: inside_def)

lemma wp_skip_body:
  "length (p_toks s) < n + p_pos s \<Longrightarrow> inside s \<Longrightarrow> wp (skip_body n level) s (\<lambda>_. steps s)"
proof (induction n arbitrary: s level)
  case (Suc n)
  note IH = Suc.IH [THEN wp_mono]
  show ?case using Suc.prems by (auto simp: frame dest!: peek_inside intro!: IH)
qed (simp add: inside_def)

lemmas lambda_loops = wp_lambda_names [THEN wp_mono] wp_skip_body [THEN wp_mono]

lemma wp_lambda_params:
  "inside s \<Longrightarrow> wp parse_lambda_params s (\<lambda>(ps, start, stop) s'. advances s s' \<and> start \<le> length (p_toks s))"
  unfolding parse_lambda_params_def by (auto simp: frame intro!: lambda_loops)

lemmas lambda_params [intro!] = wp_lambda_params [THEN wp_mono]

lemma wp_lambda_body:
  assumes "rule k ex" "ready s" "fits k (max_nest s) (p_depth s)" "all_good (p_model s) args"
    and "start \<le> length (p_toks s)"
  shows "wp (lambda_body ex params args start stop) s (\<lambda>e s'. steps s s' \<and> good (p_model s) e)"
  using assms(2-) unfolding lambda_body_def
  by (auto simp: ready env_zip intro!: ruleD [OF assms(1)])

lemmas lambda_body = wp_lambda_body [THEN wp_mono]

lemma wp_exprs_by_comma:
  assumes ex: "rule k ex"
  shows "length (p_toks s) < n + p_pos s \<Longrightarrow> ready s \<Longrightarrow> fits k (max_nest s) (p_depth s) \<Longrightarrow>
    all_good (p_model s) es \<Longrightarrow> wp (exprs_by_comma ex n es) s (\<lambda>es s'. advances s s' \<and> all_good (p_model s) es)"
proof (induction n arbitrary: s es)
  case (Suc n)
  note IH = Suc.IH [THEN wp_mono]
  note ex = ruleD [OF ex]
  show ?case using Suc.prems by (auto simp: ready intro!: IH ex)
qed (simp add: ready inside_def)

lemma wp_lambda_call:
  assumes "rule k ex" "ready s" "fits k (max_nest s) (p_depth s)"
  shows "wp (parse_lambda_call ex) s (\<lambda>e s'. advances s s' \<and> good (p_model s) e)"
proof -
  note rules = lambda_body [OF assms(1)] wp_exprs_by_comma [OF assms(1), THEN wp_mono]
  show ?thesis using assms(2-) unfolding parse_lambda_call_def by (auto simp: ready intro!: rules)
qed

lemma wp_lambda_argument:
  assumes "rule k ex" "ready s" "fits k (max_nest s) (p_depth s)"
  shows "wp (lambda_argument ex name i kind) s (\<lambda>e s'. advances s s' \<and> good (p_model s) e)"
  using assms(2-) unfolding lambda_argument_def
  by (auto simp: ready good_category intro!: ruleD [OF assms(1)])

lemma wp_lambda_arguments:
  assumes ex: "rule k ex"
  shows "length (p_toks s) < n + p_pos s \<Longrightarrow> ready s \<Longrightarrow> fits k (max_nest s) (p_depth s) \<Longrightarrow>
    all_good (p_model s) es \<Longrightarrow>
    wp (lambda_arguments ex name kinds n es) s (\<lambda>es s'. advances s s' \<and> all_good (p_model s) es)"
proof (induction n arbitrary: s es)
  case (Suc n)
  note IH = Suc.IH [THEN wp_mono] wp_lambda_argument [OF ex, THEN wp_mono]
  show ?case using Suc.prems by (auto simp: ready intro!: IH)
qed (simp add: ready inside_def)

lemma named_good: "lambda_by_name n m = Some (j, l) \<Longrightarrow> all_good m args \<Longrightarrow> good m (Call (named_lambda j) args)"
  by (rule good_named [of n]) (simp_all add: all_good_def)

lemma wp_named_lambda_call:
  assumes "rule k ex" "ready s" "fits k (max_nest s) (p_depth s)" "lambda_by_name word (p_model s) = Some (j, l)"
    and "peek s \<noteq> None"
  shows "wp (parse_named_lambda_call ex j kinds name) s (\<lambda>e s'. advances s s' \<and> good (p_model s) e)"
proof -
  note args = wp_lambda_arguments [OF assms(1), THEN wp_mono]
  show ?thesis using assms(2-) unfolding parse_named_lambda_call_def
    by (auto simp: ready intro!: args named_good [OF assms(4)])
qed

subsection \<open>Special forms\<close>

lemma wp_map_arguments:
  assumes ex: "rule k ex"
  shows "length (p_toks s) < n + p_pos s \<Longrightarrow> ready s \<Longrightarrow> fits k (max_nest s) (p_depth s) \<Longrightarrow>
    all_good (p_model s) es \<Longrightarrow> wp (map_arguments ex n es) s (\<lambda>es s'. steps s s' \<and> all_good (p_model s) es)"
proof (induction n arbitrary: s es)
  case (Suc n)
  note IH = Suc.IH [THEN wp_mono]
  note ex = ruleD [OF ex]
  show ?case using Suc.prems by (auto simp: ready intro!: IH ex)
qed (simp add: ready inside_def)

lemma wp_map:
  assumes "rule k ex" "ready s" "fits k (max_nest s) (p_depth s)"
  shows "wp (parse_map ex) s (\<lambda>e s'. advances s s' \<and> good (p_model s) e)"
proof -
  note rules = lambda_body [OF assms(1)] wp_map_arguments [OF assms(1), THEN wp_mono]
  show ?thesis using assms(2-) unfolding parse_map_def by (auto simp: ready intro!: rules)
qed

lemma nth_good: "nth_arg es i = Some e \<Longrightarrow> all_good m es \<Longrightarrow> good m e"
  by (auto simp: nth_arg_def all_good_def split: if_splits)

lemma wp_sequence:
  assumes "rule k ex" "ready s" "fits k (max_nest s) (p_depth s)"
  shows "wp (parse_sequence ex) s (\<lambda>e s'. advances s s' \<and> good (p_model s) e)"
proof -
  obtain d where d: "callable ''SEQUENCE'' = Some d" using sequence_registered by blast
  have g: "good m (case nth_arg es i of Some e \<Rightarrow> e | None \<Rightarrow> one)" if "all_good m es" for m es i
    using that by (auto simp: one_def good_literal nth_good split: option.split)
  show ?thesis using assms(2-) unfolding parse_sequence_def d Let_def position_of_def
    by (auto simp: ready good_category good_position good_literal [of _ "Number 0x3ff0000000000000", folded one_def]
      intro!: good_binary g wp_rest_args [OF assms(1), THEN wp_mono])
qed

lemma wp_then_lambda:
  "inside s \<Longrightarrow> wp (then_lambda a b c) s (\<lambda>(ps, start, stop) s'. advances s s' \<and> start \<le> length (p_toks s))"
  unfolding then_lambda_def by (auto simp: frame)

lemmas then_lambda [intro!] = wp_then_lambda [THEN wp_mono]

lemma wp_makearray:
  assumes "rule k ex" "ready s" "fits k (max_nest s) (p_depth s)"
  shows "wp (parse_makearray ex) s (\<lambda>e s'. advances s s' \<and> good (p_model s) e)"
  using assms(2-) unfolding parse_makearray_def position_of_def
  by (auto simp: ready good_position intro!: lambda_body [OF assms(1)])

lemma wp_over_reference:
  assumes "inside s"
  shows "wp (over_reference a b) s (\<lambda>e s'. advances s s' \<and> good (p_model s) e)"
  using assms unfolding over_reference_def
  by (auto simp: frame intro!: over_cats split: expr.splits)

lemmas over_reference [intro!] = wp_over_reference [THEN wp_mono]

lemma wp_row_open: "inside s \<Longrightarrow> wp (row_open name) s (\<lambda>e s'. advances s s' \<and> good (p_model s) e)"
  unfolding row_open_def by (auto simp: frame)

lemmas row_open [intro!] = wp_row_open [THEN wp_mono]

lemma wp_byrow:
  assumes "rule k ex" "ready s" "fits k (max_nest s) (p_depth s)"
  shows "wp (parse_byrow ex word) s (\<lambda>e s'. advances s s' \<and> good (p_model s) e)"
  using assms(2-) unfolding parse_byrow_def Let_def
  by (auto simp: ready intro!: lambda_body [OF assms(1)])

lemma wp_fold_open:
  assumes "rule k ex" "ready s" "fits k (max_nest s) (p_depth s)"
  shows "wp (fold_open ex name) s (\<lambda>(a, b) s'. advances s s' \<and> good (p_model s) a \<and> good (p_model s) b)"
  using assms(2-) unfolding fold_open_def by (auto simp: ready intro!: ruleD [OF assms(1)])

lemma wp_fold:
  assumes "rule k ex" "ready s" "fits k (max_nest s) (p_depth s)" "callable word = Some d"
  shows "wp (parse_fold ex word) s (\<lambda>e s'. advances s s' \<and> good (p_model s) e)"
proof -
  note rules = lambda_body [OF assms(1)] wp_fold_open [OF assms(1), THEN wp_mono] callable_good [OF assms(4)]
  show ?thesis using assms(2-) unfolding parse_fold_def by (auto simp: ready good_slot intro!: rules)
qed

lemma wp_fixpoint_open:
  assumes "rule k ex" "ready s" "fits k (max_nest s) (p_depth s)"
  shows "wp (fixpoint_open ex) s (\<lambda>(j, a) s'. advances s s' \<and> good (p_model s) a)"
  using assms(2-) unfolding fixpoint_open_def by (auto simp: ready intro!: ruleD [OF assms(1)])

lemma wp_fixpoint:
  assumes "rule k ex" "ready s" "fits k (max_nest s) (p_depth s)"
  shows "wp (parse_fixpoint ex) s (\<lambda>e s'. advances s s' \<and> good (p_model s) e)"
proof -
  obtain d where d: "callable ''FIXPOINT'' = Some d" using fixpoint_registered by blast
  note rules = lambda_body [OF assms(1)] wp_fixpoint_open [OF assms(1), THEN wp_mono]
    wp_rest_args [OF assms(1), THEN wp_mono]
  show ?thesis using assms(2-) unfolding parse_fixpoint_def d
    by (auto simp: ready good_slot intro!: rules callable_good [OF d])
qed

subsection \<open>Primaries\<close>

lemma special_form_good:
  assumes "special_form ex word = Some m" "rule k ex"
  shows "rule k m"
  using assms(1) scan_registered [of word] reduce_registered [of word]
  unfolding rule_def special_form_def Let_def
  by (auto split: if_splits intro: wp_parse_let [OF assms(2)] wp_lambda_call [OF assms(2)] wp_map [OF assms(2)]
      wp_sequence [OF assms(2)] wp_makearray [OF assms(2)] wp_byrow [OF assms(2)] wp_fold [OF assms(2)]
      wp_fixpoint [OF assms(2)])

lemma wp_use_local:
  assumes "ready s" "good (p_model s) e" "peek s \<noteq> None"
  shows "wp (use_local e) s (\<lambda>e s'. advances s s' \<and> good (p_model s) e)"
  using assms unfolding use_local_def by (auto simp: ready dest!: peek_inside)

lemma wp_unknown_function [simp]: "wp (unknown_function word) s Q"
  by (simp add: unknown_function_def Let_def)

lemma wp_word_primary:
  assumes "rule k ex" "ready s" "fits k (max_nest s) (p_depth s)" "peek s \<noteq> None"
  shows "wp (word_primary ex word c) s (\<lambda>e s'. advances s s' \<and> good (p_model s) e)"
proof (cases "c \<and> special_form ex word \<noteq> None")
  case True
  then obtain m where m: "special_form ex word = Some m" by blast
  have "word_primary ex word c = m" using True m by (simp add: word_primary_def Let_def)
  with special_form_good [OF m assms(1)] assms(2,3) show ?thesis by (simp add: rule_def)
next
  case False
  note call = wp_parse_call [OF assms(1), THEN wp_mono]
  show ?thesis using assms(2-) unfolding word_primary_def Let_def if_not_P [OF False]
    by (auto simp: ready good_literal intro!: call dest!: peek_inside)
qed

lemma wp_ident_primary:
  assumes "rule k ex" "ready s" "fits k (max_nest s) (p_depth s)"
  shows "wp (parse_ident_primary ex) s (\<lambda>e s'. advances s s' \<and> good (p_model s) e)"
proof (cases "ident_tok (peek s)")
  case (Some word)
  then have p: "peek s \<noteq> None" by (auto dest: ident_tok_Some)
  note rules = wp_word_primary [OF assms p] wp_use_local [OF assms(2) _ p]
    wp_named_lambda_call [OF assms _ p]
  show ?thesis using Some local_good [OF _ assms(2)]
    by (auto simp: parse_ident_primary_def Let_def named_lambda_call_def intro!: rules split: option.splits)
qed (simp add: parse_ident_primary_def)

lemma rule_primary_inner:
  assumes "rule k ex"
  shows "rule k (primary_inner ex)"
  unfolding rule_def primary_inner_def
  by (auto simp: good_literal ready dest: peek_inside split: option.splits tok.splits
      intro!: wp_ident_primary [OF assms, THEN wp_mono] ruleD [OF assms])

subsection \<open>Operators\<close>

lemma fits_deeper: "fits n lim d \<Longrightarrow> d + k \<le> lim \<Longrightarrow> fits n lim (d + k)"
  by (auto simp: fits_def)

lemma fits_nested: "fits (Suc n) lim d \<Longrightarrow> Suc d \<le> lim \<Longrightarrow> fits n lim (Suc d)"
  by (auto simp: fits_def)

lemma rule_nested:
  assumes "rule n m"
  shows "rule (Suc n) (nested m)"
  unfolding rule_def nested_def by (auto simp: ready not_less intro!: ruleD [OF assms] fits_nested)

lemma percent_good: "good m e \<Longrightarrow> good m (BinaryOp Div e (Literal (Number hundred)))"
  by (intro good_binary good_literal)

lemma wp_percents:
  "length (p_toks s) < n + p_pos s \<Longrightarrow> inside s \<Longrightarrow> good (p_model s) e \<Longrightarrow>
   wp (percents n e depth) s (\<lambda>e s'. steps s s' \<and> good (p_model s) e)"
proof (induction n arbitrary: s e depth)
  case (Suc n)
  note IH = Suc.IH [THEN wp_mono]
  show ?case using Suc.prems
    by (auto simp: frame Let_def good_literal percent_good split: expr.splits val.splits intro!: IH)
qed (simp add: inside_def)

lemma rule_postfix: "rule k ex \<Longrightarrow> rule (Suc k) (parse_postfix ex)"
  unfolding rule_def [of "Suc k"] parse_postfix_def parse_primary_def
  by (auto simp: ready intro!: ruleD [OF rule_nested [OF rule_primary_inner]] wp_percents [THEN wp_mono])

lemma rule_power: "rule k ex \<Longrightarrow> rule k u \<Longrightarrow> rule (Suc k) (parse_power ex u)"
  unfolding rule_def [of "Suc k"] parse_power_def
  by (auto simp: ready intro!: ruleD [OF rule_postfix] ruleD [OF rule_nested] good_binary)

lemma wp_prefixes:
  assumes here: "\<And>s. here s \<Longrightarrow> p_pos s < length (p_toks s)"
  shows "length (p_toks s) < n + p_pos s \<Longrightarrow> inside s \<Longrightarrow> p_depth s + k \<le> max_nest s \<Longrightarrow>
    wp (prefixes here n k) s (\<lambda>j s'. steps s s' \<and> p_depth s + j \<le> max_nest s)"
proof (induction n arbitrary: s k)
  case (Suc n)
  note IH = Suc.IH [THEN wp_mono]
  show ?case using Suc.prems by (auto simp: frame not_le dest!: here intro!: IH)
qed (simp add: inside_def)

lemma good_unaries: "good m e \<Longrightarrow> good m ((UnaryOp u ^^ k) e)"
  by (induction k) (auto intro: good_unary)

lemma rule_prefixed:
  assumes here: "\<And>s. here s \<Longrightarrow> p_pos s < length (p_toks s)" and m: "rule n m"
  shows "rule n (prefixed here u m)"
proof -
  note rules = wp_prefixes [OF here, THEN wp_mono] ruleD [OF m] good_unaries
  have "p_depth s \<le> max_nest s" if "fits n (max_nest s) (p_depth s)" for s using that by (simp add: fits_def)
  then show ?thesis unfolding rule_def prefixed_def
    by (auto simp: ready intro!: rules fits_deeper)
qed

lemma rule_unary: "rule k ex \<Longrightarrow> rule k u \<Longrightarrow> rule (Suc k) (parse_unary ex u)"
  unfolding parse_unary_def by (rule rule_prefixed [OF _ rule_power]) (auto dest: peek_inside)

lemma wp_links:
  assumes op: "\<And>s b. op s = Some b \<Longrightarrow> p_pos s < length (p_toks s)" and m: "rule k m"
  shows "length (p_toks s) < n + p_pos s \<Longrightarrow> ready s \<Longrightarrow> fits k (max_nest s) (p_depth s) \<Longrightarrow> good (p_model s) e \<Longrightarrow>
    wp (links op m n e depth) s (\<lambda>e s'. steps s s' \<and> good (p_model s) e)"
proof (induction n arbitrary: s e depth)
  case (Suc n)
  note IH = Suc.IH [THEN wp_mono]
  show ?case using Suc.prems
    by (auto simp: ready Let_def dest: op split: option.splits intro!: IH ruleD [OF m] good_binary)
qed (simp add: ready inside_def)

lemma rule_chain:
  assumes "\<And>s b. op s = Some b \<Longrightarrow> p_pos s < length (p_toks s)" "rule k m"
  shows "rule k (chain op m)"
proof -
  note rules = wp_links [OF assms, THEN wp_mono] ruleD [OF assms(2)]
  show ?thesis unfolding rule_def chain_def by (auto simp: ready intro!: rules)
qed

lemma op_here_inside: "op_here ops s = Some b \<Longrightarrow> p_pos s < length (p_toks s)"
  by (auto simp: op_here_def split: option.splits tok.splits dest: peek_inside)

lemma kw_here_inside: "kw_here kw b' s = Some b \<Longrightarrow> p_pos s < length (p_toks s)"
  by (auto simp: kw_here_def peek_kw_inside split: if_splits)

lemma rule_concat: "rule k u \<Longrightarrow> rule k (parse_concat u)"
  unfolding parse_concat_def parse_additive_def parse_term_def
  by (intro rule_chain) (auto dest: op_here_inside)

lemma rule_comparison: "rule k u \<Longrightarrow> rule k (parse_comparison u)"
  unfolding rule_def [of k "parse_comparison u"] unfolding parse_comparison_def
  by (auto simp: ready split: option.splits intro!: ruleD [OF rule_concat] good_binary dest: op_here_inside)

lemma rule_or: "rule k u \<Longrightarrow> rule k (parse_or u)"
  unfolding parse_or_def parse_and_def parse_not_def
  by (intro rule_chain rule_prefixed rule_comparison) (auto dest: kw_here_inside peek_kw_inside)

lemma rule_unary_at: "rule n (unary_at n)"
proof (induction n)
  case 0
  show ?case by (auto simp: rule_def fits_def)
next
  case (Suc n)
  have "unary_at (Suc n) = parse_unary (parse_or (unary_at n)) (unary_at n)" by (rule ext) simp
  with rule_unary [OF rule_or [OF Suc] Suc] show ?case by simp
qed

lemma wp_top:
  assumes "ready s" "p_depth s \<le> max_nest s"
  shows "wp parse_top s (\<lambda>e s'. advances s s' \<and> good (p_model s) e)"
proof -
  have "wp (parse_or (unary_at (Suc (max_nest s)))) s (\<lambda>e s'. advances s s' \<and> good (p_model s) e)"
    using rule_or [OF rule_unary_at [of "Suc (max_nest s)"]] assms by (simp add: rule_def fits_def)
  then show ?thesis by (simp add: wp_def parse_top_def)
qed

end

end
