(* ===== verification/Parser_Facts.thy ===== *)
theory Parser_Facts
  imports Parser_Sound Lambda_Facts Infer_Panics
begin

text \<open>
  What the parser promises: every entry point returns a formula or a located error, never a panic or a
  loop without end; a formula it accepts is within the limits, mentions only functions, LAMBDAs and
  categories the model has, and carries its clauses' arguments, so that type inference does not panic.
\<close>

section \<open>The tokenizer\<close>

lemma first_char_pos: "s \<noteq> [] \<Longrightarrow> first_char s \<noteq> []"
  by (cases s) (simp_all add: first_char_def take_eq_Nil)

lemma scan_quoted_length: "scan_quoted q s = Some (t, r) \<Longrightarrow> length r < length s"
proof (induction q s arbitrary: t rule: scan_quoted.induct)
  case (2 q c cs)
  then show ?case by (fastforce split: if_splits list.splits)
qed simp

lemma split_once_length: "split_once c s = Some (t, r) \<Longrightarrow> length r < length s"
  using length_dropWhile_le [of "(\<noteq>) c" s]
  by (cases "dropWhile ((\<noteq>) c) s") (auto simp: split_once_def dropWhile_eq_Nil_conv split: if_splits)

lemma num_run_digit: "s \<noteq> [] \<Longrightarrow> ascii_digit (hd s) \<Longrightarrow> num_run s \<noteq> []"
  by (cases s) auto

lemma number_token_length:
  assumes "number_token start s = Inr (t, r)" "s \<noteq> []" "ascii_digit (hd s)"
  shows "length r < length s"
  using assms num_run_digit [OF assms(2,3)]
  by (auto simp: number_token_def Let_def split: if_splits option.splits)

lemma number_token_err: "number_token start s = Inl e \<Longrightarrow> \<exists>msg pos. e = ParseError msg pos"
  by (auto simp: number_token_def Let_def split: if_splits option.splits)

lemma dotted_end_pos: "dotted_end lib k s j best = Some e \<Longrightarrow> j < e \<or> best = Some e"
proof (induction lib k s j best rule: dotted_end.induct)
  case (2 lib k s j best)
  then show ?case by (fastforce simp: Let_def split: list.splits if_splits)
qed simp

lemma next_token_length:
  assumes "next_token lib start s = Inr (t, r)" "s \<noteq> []"
  shows "length r < length s"
proof -
  have f: "first_char s \<noteq> []" using first_char_pos [OF assms(2)] .
  have hd: "hd (first_char s) = hd s" using assms(2) by (cases s) (auto simp: first_char_def)
  have two: "take 2 s \<in> set two_ops \<Longrightarrow> 2 \<le> length s"
    by (cases s; cases "tl s") (auto simp: two_ops_def)
  have n: "0 < ident_len lib s" if "starts_ident lib s"
    using f by (auto simp: ident_len_def Let_def split: option.splits dest: dotted_end_pos)
  show ?thesis using assms f two n hd
    by (auto simp: next_token_def Let_def rmap_Inr_iff split: if_splits option.splits
        dest!: scan_quoted_length split_once_length number_token_length)
qed

text \<open>A value with a property, or an error with its message and place.\<close>

definition fine :: "(parse_fail, 'a) res \<Rightarrow> ('a \<Rightarrow> bool) \<Rightarrow> bool" where
  "fine r P \<longleftrightarrow> (case r of Inr x \<Rightarrow> P x | Inl e \<Rightarrow> \<exists>msg pos. e = ParseError msg pos)"

lemma fine_simps [simp]:
  "fine (Inr x) P \<longleftrightarrow> P x"
  "fine (Inl (ParseError msg pos)) P"
  "fine (rmap f r) P \<longleftrightarrow> fine r (\<lambda>x. P (f x))"
  "fine (rbind r g) P \<longleftrightarrow> fine r (\<lambda>x. fine (g x) P)"
  by (auto simp: fine_def rmap_def rbind_def split: sum.splits)

lemma fine_mono: "fine r P \<Longrightarrow> (\<And>x. P x \<Longrightarrow> T x) \<Longrightarrow> fine r T"
  by (auto simp: fine_def split: sum.splits)

lemma fine_cases: "fine r P \<Longrightarrow> (\<exists>msg pos. r = Inl (ParseError msg pos)) \<or> (\<exists>x. r = Inr x \<and> P x)"
  by (auto simp: fine_def split: sum.splits)

lemma wp_fine: "wp m s (\<lambda>x _. P x) \<Longrightarrow> fine (run m s) P"
  by (auto simp: wp_def fine_def run_def rmap_def rbind_def split: sum.splits)

lemma next_token_err: "next_token lib start s = Inl e \<Longrightarrow> \<exists>msg pos. e = ParseError msg pos"
  by (auto simp: next_token_def Let_def rmap_def rbind_def split: if_splits option.splits sum.splits
      dest!: number_token_err)

lemma next_token_fine: "s \<noteq> [] \<Longrightarrow> fine (next_token lib start s) (\<lambda>(t, r). length r < length s)"
  by (auto simp: fine_def split: sum.split dest: next_token_length next_token_err)

text \<open>The tokens start at rising offsets into the text.\<close>

lemma tokens_fine:
  "fine (tokens_from lib start s)
     (\<lambda>ts. sorted_wrt (<) (map snd ts) \<and> (\<forall>p \<in> set (map snd ts). start \<le> p \<and> p < start + length s))"
proof (induction lib start s rule: tokens_from.induct)
  case (1 lib start s)
  show ?case
  proof (cases "s = []")
    case False
    with next_token_fine [OF False, of lib start] 1 [OF False] show ?thesis
      by (subst tokens_from.simps) (force simp: fine_def rmap_def rbind_def split: sum.splits option.splits)
  qed (simp add: tokens_from.simps)
qed

lemma tokenize_fine: "fine (tokenize lib text) (\<lambda>_. True)"
  unfolding tokenize_def by (rule fine_mono [OF tokens_fine]) simp

section \<open>The entry points\<close>

definition within :: "expr \<Rightarrow> bool" where
  "within e \<longleftrightarrow> check_depth MAX_FORMULA_DEPTH e = Inr ()"

text \<open>What \<open>check_formula\<close> makes sure of: the expansion is within the limits too.\<close>

definition limits_ok :: "bool \<Rightarrow> model \<Rightarrow> expr \<Rightarrow> bool" where
  "limits_ok st m e \<longleftrightarrow>
     within e \<and>
     (\<not> st \<longrightarrow> lambdas m \<noteq> [] \<longrightarrow>
        (case expand_lambdas e m of Inr full \<Rightarrow> within full | Inl msg \<Rightarrow> limit_at msg = None))"

lemma max_depth_eq: "max_depth s = MAX_FORMULA_DEPTH"
  by (simp add: max_depth_def MAX_STORED_FORMULA_DEPTH_def)

lemma wp_check_formula:
  "(limits_ok (p_stored s) (p_model s) e \<Longrightarrow> Q () s) \<Longrightarrow> wp (check_formula e pos) s Q"
  by (auto simp: check_formula_def limits_ok_def within_def max_depth_eq split: sum.splits option.splits)

text \<open>The left side ends at a token, so what is behind it is in range.\<close>

lemma parse_lhs_fine: "fine (parse_lhs ts) (\<lambda>(t, i). i \<le> length ts)"
  by (auto simp: fine_def parse_lhs_def rbind_def nth_arg_def split: list.splits sum.splits option.splits if_splits)

lemma toks_from_fine [simp]: "i \<le> length ts \<Longrightarrow> fine (toks_from i ts) P \<longleftrightarrow> P (drop i ts)"
  by (simp add: toks_from_def)

lemma call_measures_fine: "fine (call_measures ts args) (\<lambda>_. True)"
proof (induction ts args rule: call_measures.induct)
  case (2 t pos ts args)
  then show ?case by (auto split: list.splits option.splits)
qed simp

lemma sql_form_fine: "fine (parse_sql_form ts i target) (\<lambda>d. \<exists>t q. d = DSql t q)"
  by (auto simp: parse_sql_form_def split: option.splits tok.splits)

lemma call_form_fine: "fine (parse_call_form ts i target) (\<lambda>d. \<exists>t f as. d = DCall t f as)"
  by (auto simp: parse_call_form_def split: option.splits list.splits intro!: fine_mono [OF call_measures_fine])

context formula_values
begin

lemma wp_whole:
  assumes "ready s" "p_depth s \<le> max_nest s"
  shows "wp whole_expr s (\<lambda>e _. good (p_model s) e \<and> limits_ok (p_stored s) (p_model s) e)"
  using assms unfolding whole_expr_def
  by (auto simp: frame dest!: mode_eq intro!: wp_top [THEN wp_mono] wp_check_formula)

lemma new_parser_ready:
  assumes "\<forall>d i e. dflt d i = Some e \<longrightarrow> good m e"
  shows "ready (new_parser lib dflt ts m st)" "p_depth (new_parser lib dflt ts m st) \<le> max_nest (new_parser lib dflt ts m st)"
  using assms by (simp_all add: new_parser_def ready_def inside_def env_def max_nest_def)

lemma expr_text_fine:
  assumes "\<forall>d i e. dflt d i = Some e \<longrightarrow> good m e"
  shows "fine (expr_text lib dflt m text st) (\<lambda>f. good m (fexpr f) \<and> limits_ok st m (fexpr f))"
proof -
  have "fine (run whole_expr (new_parser lib dflt ts m st)) (\<lambda>e. good m e \<and> limits_ok st m e)" for ts
    using wp_whole [OF new_parser_ready [OF assms], THEN wp_fine] by (simp add: new_parser_def)
  then show ?thesis unfolding expr_text_def
    by (auto simp: new_formula_def intro!: fine_mono [OF tokenize_fine])
qed

lemma param_default_good:
  assumes "param_default lib d i = Some e"
  shows "good m e"
proof -
  obtain t f where f: "expr_text lib (\<lambda>_ _. None) new_model t False = Inr f" "e = fexpr f"
    using assms by (auto simp: param_default_def split: option.splits sum.splits)
  have "fine (expr_text lib (\<lambda>_ _. None) new_model t False) (\<lambda>f. good new_model (fexpr f) \<and> limits_ok False new_model (fexpr f))"
    by (rule expr_text_fine) simp
  then show ?thesis using good_new by (simp add: f)
qed

lemma text_fine:
  "fine (expr_text lib (param_default lib) m text st) (\<lambda>f. good m (fexpr f) \<and> limits_ok st m (fexpr f))"
  by (rule expr_text_fine) (auto intro: param_default_good)

lemma formula_of_fine:
  "fine (formula_of lib m st target ts) (\<lambda>ft. good m (fexpr (ft_formula ft)) \<and> limits_ok st m (fexpr (ft_formula ft)))"
  using wp_whole [OF new_parser_ready [of "param_default lib" m lib ts st], THEN wp_fine] param_default_good
  by (auto simp: formula_of_def new_formula_def new_parser_def)

lemma parse_formula_fine:
  "fine (parse_formula lib m text)
     (\<lambda>ft. good m (fexpr (ft_formula ft)) \<and> limits_ok False m (fexpr (ft_formula ft)))"
  unfolding parse_formula_def
  by (auto intro!: fine_mono [OF tokenize_fine] fine_mono [OF parse_lhs_fine] formula_of_fine)

lemma wp_lambda_definition:
  assumes "ready s" "p_depth s \<le> max_nest s"
  shows "wp lambda_definition s (\<lambda>x _. good (p_model s) (snd x))"
proof -
  have top: "rule k parse_top" for k
    unfolding rule_def by (auto simp: fits_def intro: wp_top)
  have "fits (Suc (max_nest s)) (max_nest s) (p_depth s)" using assms(2) by (simp add: fits_def)
  with assms(1) show ?thesis unfolding lambda_definition_def
    by (auto simp: ready good_param all_good_def intro!: lambda_body [OF top])
qed

definition without_lambda :: "string \<Rightarrow> model \<Rightarrow> model" where
  "without_lambda n m =
     (case lambda_by_name n m of
        Some (i, _) \<Rightarrow> m\<lparr>lambdas := filter (\<lambda>(j, _). j \<noteq> i) (lambdas m)\<rparr>
      | None \<Rightarrow> m)"

lemma lambda_form_fine:
  assumes "i \<le> length ts"
  shows "fine (parse_lambda_form lib m ts i target st)
    (\<lambda>d. \<exists>l. d = DLambda target l \<and> good (without_lambda target m) (l_body l) \<and> (\<exists>ks. param_kinds l = Inr ks) \<and>
       (\<forall>r \<in> set (referenced_measures (l_body l)). lambda_param_of r \<noteq> None))"
proof -
  let ?s = "new_parser lib (param_default lib) (drop i ts) (without_lambda target m) st"
  have "fine (run lambda_definition ?s) (\<lambda>x. good (p_model ?s) (snd x))"
    using wp_lambda_definition [OF new_parser_ready, THEN wp_fine, of "param_default lib"] param_default_good
    by auto
  then have "fine (run lambda_definition ?s) (\<lambda>x. good (without_lambda target m) (snd x))"
    by (simp add: new_parser_def)
  then show ?thesis using assms
    by (auto simp: parse_lambda_form_def Let_def without_lambda_def [symmetric] list_ex_iff map_err_def
        split: sum.splits elim!: fine_mono)
qed

definition definition_ok :: "model \<Rightarrow> bool \<Rightarrow> definition_text \<Rightarrow> bool" where
  "definition_ok m st d \<longleftrightarrow>
     (case d of
        DFormula ft \<Rightarrow> good m (fexpr (ft_formula ft)) \<and> limits_ok st m (fexpr (ft_formula ft))
      | DLambda n l \<Rightarrow> good (without_lambda n m) (l_body l)
      | _ \<Rightarrow> True)"

lemma definition_of_fine: "fine (definition_of lib m text st) (definition_ok m st)"
proof -
  have "fine (let head = (case ident_tok (tok_opt i ts) of
                     Some h \<Rightarrow> if tok_opt (i + 1) ts = Some (KOp ''('') then h else [] | None \<Rightarrow> [])
       in if eq_ignore_ascii_case head ''sql'' then parse_sql_form ts i target
          else if eq_ignore_ascii_case head ''call'' then parse_call_form ts i target
          else if eq_ignore_ascii_case head ''lambda'' then parse_lambda_form lib m ts i target st
          else rbind (toks_from i ts) (\<lambda>ts'. rmap DFormula (formula_of lib m st target ts'))) (definition_ok m st)"
    if "i \<le> length ts" for i ts target
    using that unfolding Let_def
    by (auto simp: definition_ok_def intro!: fine_mono [OF sql_form_fine] fine_mono [OF call_form_fine]
        fine_mono [OF lambda_form_fine] fine_mono [OF formula_of_fine])
  then show ?thesis unfolding definition_of_def
    by (auto intro!: fine_mono [OF tokenize_fine] fine_mono [OF parse_lhs_fine])
qed

end

section \<open>Two readings of the contract\<close>

lemma category_by_name_found: "fst (category_by_name n m) = Some x \<Longrightarrow> x \<in> set (hvalues (categories m))"
proof -
  assume x: "fst (category_by_name n m) = Some x"
  obtain h m' where h: "get_hints m = (h, m')" by fastforce
  have c: "categories m' = categories m" using h by (auto simp: get_hints_def split: option.splits)
  show ?thesis using x h c
    by (auto simp: category_by_name_def Let_def find_Some_iff bind_eq_Some_conv hget_def hvalues_def
        split: option.splits if_splits dest!: map_of_SomeD intro: rev_image_eqI)
qed

lemma registered_call:
  assumes "callable n = Some d \<or> aggregation n = Some d"
  shows "by_id (fid d) = Some d" "fid d \<noteq> WHERE" "fid d \<noteq> WINDOW"
proof -
  have "d \<in> set all_fns"
    using assms by (auto simp: callable_def aggregation_def by_name_def find_Some_iff dest: nth_mem)
  then show "by_id (fid d) = Some d" "fid d \<noteq> WHERE" "fid d \<noteq> WINDOW"
    using by_id_of [of d] well_formed_member [of d] by (auto simp: well_formed_def_def)
qed

lemma named_lambda_range: "1000000 \<le> unat (raw_func (named_lambda j))"
  by (auto simp: named_lambda_def saturating_add_def NAMED_LAMBDA_BASE_def unat_word_ariths(1))

lemma named_lambda_clause [simp]: "named_lambda j \<noteq> WHERE" "named_lambda j \<noteq> WINDOW"
  using named_lambda_range [of j] by (auto simp: WHERE_def WINDOW_def)

lemma clause_codes [simp]: "INTO \<noteq> WINDOW" "WINDOW \<noteq> WHERE" "WHERE \<noteq> WINDOW" "POSITION \<noteq> WHERE" "POSITION \<noteq> WINDOW"
  by (simp_all add: WHERE_def WINDOW_def INTO_def POSITION_def)

interpretation clauses: formula_values "\<lambda>_ _. True" "\<lambda>_. clauses_ok"
proof unfold_locales
  show "callable n = Some d \<or> aggregation n = Some d \<Longrightarrow> \<forall>a \<in> set args. clauses_ok a \<Longrightarrow> clauses_ok (Call (fid d) args)"
    for n d args using registered_call(2,3) [of n d] by auto
qed auto

text \<open>
  A formula whose categories, functions and named LAMBDAs the model has (a category may also be one of a
  LAMBDA's parameters).
\<close>

definition category_known :: "model \<Rightarrow> category_id \<Rightarrow> bool" where
  "category_known m c \<longleftrightarrow>
     c \<in> cat_id ` set (hvalues (categories m)) \<or> (\<exists>y \<in> set (hvalues (measure_map m)). c \<in> set (m_cats y)) \<or>
     lambda_category_of c \<noteq> None"

definition function_known :: "model \<Rightarrow> func_id \<Rightarrow> bool" where
  "function_known m f \<longleftrightarrow>
     by_id f \<noteq> None \<or> f \<in> {WHERE, WINDOW, INTO} \<or> (\<exists>j \<in> fst ` set (lambdas m). f = named_lambda j)"

fun resolved :: "model \<Rightarrow> expr \<Rightarrow> bool" where
  "resolved m (Literal _) \<longleftrightarrow> True"
| "resolved m (Ref _ sp) \<longleftrightarrow> sexcept sp = [] \<and> (\<forall>c \<in> set (sby sp) \<union> set (sover sp). category_known m c)"
| "resolved m (Category c) \<longleftrightarrow> category_known m c"
| "resolved m (UnaryOp _ a) \<longleftrightarrow> resolved m a"
| "resolved m (BinaryOp _ a b) \<longleftrightarrow> resolved m a \<and> resolved m b"
| "resolved m (Call f args) \<longleftrightarrow> function_known m f \<and> (\<forall>a \<in> set args. resolved m a)"

lemma lambda_category_known: "lambda_param_of i = Some k \<Longrightarrow> category_known m (lambda_category k)"
  using lambda_category_roundtrip [of k]
  by (auto simp: category_known_def lambda_param_of_def word_less_nat_alt split: option.splits if_splits)

lemma function_known_clauses [simp]:
  "function_known m WHERE" "function_known m WINDOW" "function_known m INTO" "function_known m POSITION"
  using row_lookups by (auto simp: function_known_def POSITION_def)

lemma lambda_by_name_key: "lambda_by_name n m = Some (j, l) \<Longrightarrow> j \<in> fst ` set (lambdas m)"
  by (force simp: lambda_by_name_def find_Some_iff dest: nth_mem)

lemma new_model_empty: "hvalues (categories new_model) = []" "hvalues (measure_map new_model) = []" "lambdas new_model = []"
  by (simp_all add: new_model_def hvalues_def)

lemma resolved_new: "resolved new_model e \<Longrightarrow> resolved m e"
  by (induction e) (auto simp: category_known_def function_known_def new_model_empty)

interpretation resolved: formula_values category_known resolved
proof unfold_locales
  show "find_category n s = Some x \<Longrightarrow> category_known (p_model s) (cat_id x)" for n s x
    by (auto simp: find_category_def category_known_def dest: category_by_name_found)
  show "hget (measure_map m) i = Some y \<Longrightarrow> c \<in> set (m_cats y) \<Longrightarrow> category_known m c" for m i y c
    by (force simp: category_known_def hget_def hvalues_def dest: map_of_SomeD)
  show "callable n = Some d \<or> aggregation n = Some d \<Longrightarrow> \<forall>a \<in> set args. resolved m a \<Longrightarrow> resolved m (Call (fid d) args)"
    for n d args m using registered_call(1) [of n d] by (auto simp: function_known_def)
  show "lambda_by_name n m = Some (j, l) \<Longrightarrow> \<forall>a \<in> set args. resolved m a \<Longrightarrow> resolved m (Call (named_lambda j) args)"
    for n m j l args by (auto simp: function_known_def dest: lambda_by_name_key)
qed (auto simp: lambda_category_known default_spec_def intro: resolved_new)

section \<open>Two corners of the placeholders\<close>

text \<open>
  A formula's 1025th fold takes LAMBDA parameter 0's placeholder for its accumulator; the parser counts
  the folds without a bound. And as a fold's placeholder is no parameter, the check for one after the
  check of the parameters in \<open>parse_lambda_form\<close> never fires.
\<close>

lemma slots_meet_params: "lambda_slot 1024 0 = lambda_param 0 \<and> lambda_slot_of (lambda_slot 1024 0) = None"
  by code_simp

lemma slot_is_no_param: "lambda_slot_of r \<noteq> None \<Longrightarrow> lambda_param_of r = None"
proof -
  have *: "\<not> x \<le> LAMBDA_PARAMS" if "LAMBDA_SLOTS - x < 2048" "x \<le> LAMBDA_SLOTS" for x
    using that by (simp add: LAMBDA_SLOTS_def LAMBDA_PARAMS_def) uint_arith
  assume "lambda_slot_of r \<noteq> None"
  then show ?thesis
    using * [of "raw_measure r"]
    by (auto simp: lambda_slot_of_def lambda_param_of_def checked_sub_def split: if_splits)
qed

section \<open>What the parser promises\<close>




text \<open>
  C39. Tokens start at rising offsets inside the text, so a position the parser reports from one is a
  place in the text.
\<close>

theorem tokens_inside_text:
  "case tokenize lib text of
     Inl e \<Rightarrow> e \<noteq> ParsePanic
   | Inr ts \<Rightarrow> sorted_wrt (<) (map snd ts) \<and> list_all (\<lambda>(_, p). p < length text) ts"
  using tokens_fine [of lib 0 "text"] by (auto simp: tokenize_def fine_def list_all_iff split: sum.splits)

text \<open>
  C8. A formula the parser accepts is within the depth and size limits, and its expansion never fails
  for a limit: what it expands to is within them as well.
\<close>

theorem accepted_within_limits:
  "case parse_expr lib m text of
     Inl e \<Rightarrow> e \<noteq> OutOfFuel
   | Inr f \<Rightarrow>
       levels (fexpr f) \<le> MAX_FORMULA_DEPTH \<and> node_count (fexpr f) \<le> MAX_FORMULA_NODES \<and>
       (lambdas m = [] \<or>
        (case expand_lambdas (fexpr f) m of
           Inr full \<Rightarrow> levels full \<le> MAX_FORMULA_DEPTH \<and> node_count full \<le> MAX_FORMULA_NODES
         | Inl msg \<Rightarrow> limit_at msg = None))"
  using clauses.text_fine [of lib m "text" False]
  by (auto simp: parse_expr_def fine_def limits_ok_def within_def check_depth_exact split: sum.splits if_splits)

text \<open>
  C9. An accepted formula only calls functions of the registry and the model's named LAMBDAs, and only
  names categories of the model (or of a LAMBDA's parameters).
\<close>

theorem accepted_names_exist:
  "case parse_formula lib m text of
     Inl e \<Rightarrow> e \<noteq> ParsePanic
   | Inr ft \<Rightarrow> resolved m (fexpr (ft_formula ft))"
  using resolved.parse_formula_fine [of lib m "text"] by (auto simp: fine_def split: sum.splits)






end
