(* ===== verification/Edit_Distance.thy ===== *)
theory Edit_Distance
  imports Fn_Params
begin

text \<open>
  \<open>edit_distance\<close> of \<open>crates/core_model/src/functions.rs\<close>, which ranks the names an error suggests, is the
  least number of one-character edits. The row the loop keeps is read as distances of prefixes; an
  alignment of two texts stands between the recursive distance and the edits.
\<close>

section \<open>Edits and alignments\<close>

text \<open>One character inserted, deleted or replaced, anywhere.\<close>

inductive one_edit :: "'a list \<Rightarrow> 'a list \<Rightarrow> bool" where
  insert_char: "one_edit xs (x # xs)"
| delete_char: "one_edit (x # xs) xs"
| replace_char: "one_edit (x # xs) (y # xs)"
| behind: "one_edit xs ys \<Longrightarrow> one_edit (x # xs) (x # ys)"

inductive align :: "'a list \<Rightarrow> 'a list \<Rightarrow> nat \<Rightarrow> bool" where
  align_nil: "align [] [] 0"
| align_keep: "align xs ys n \<Longrightarrow> align (x # xs) (x # ys) n"
| align_replace: "align xs ys n \<Longrightarrow> align (x # xs) (y # ys) (Suc n)"
| align_insert: "align xs ys n \<Longrightarrow> align xs (y # ys) (Suc n)"
| align_delete: "align xs ys n \<Longrightarrow> align (x # xs) ys (Suc n)"

inductive_cases align_Cons: "align xs (y # ys) n"

lemma edits_behind: "(one_edit ^^ n) xs ys \<Longrightarrow> (one_edit ^^ n) (x # xs) (x # ys)"
  by (induction n arbitrary: ys) (auto intro: behind)

lemma align_edits: "align xs ys n \<Longrightarrow> (one_edit ^^ n) xs ys"
proof (induction rule: align.induct)
  case (align_replace xs ys n x y)
  then show ?case using edits_behind [of n xs ys x] replace_char [of x ys y] by auto
next
  case (align_delete xs ys n x)
  then show ?case using edits_behind [of n xs ys x] delete_char [of x ys] by auto
qed (auto intro: edits_behind insert_char)

lemma align_refl: "align xs xs 0"
  by (induction xs) (auto intro: align.intros)

text \<open>An edit of the right side costs one more.\<close>

lemma align_delete_right: "align xs ys' n \<Longrightarrow> ys' = y # ys \<Longrightarrow> \<exists>m \<le> Suc n. align xs ys m"
proof (induction rule: align.induct)
  case (align_delete xs ys' n x)
  then obtain m where "m \<le> Suc n" "align xs ys m" by blast
  then show ?case using align.align_delete [of xs ys m x] by auto
next
  case (align_keep xs ys' n x)
  then show ?case using align.align_delete [of xs ys' n x] by auto
next
  case (align_replace xs ys' n x y')
  then show ?case using align.align_delete [of xs ys' n x] by (auto intro: le_SucI)
next
  case (align_insert xs ys' n y')
  then show ?case by (intro exI [of _ n]) auto
qed simp

lemma align_replace_right: "align xs ys' n \<Longrightarrow> ys' = y # ys \<Longrightarrow> \<exists>m \<le> Suc n. align xs (z # ys) m"
proof (induction rule: align.induct)
  case (align_delete xs ys' n x)
  then obtain m where "m \<le> Suc n" "align xs (z # ys) m" by blast
  then show ?case using align.align_delete [of xs "z # ys" m x] by auto
next
  case (align_keep xs ys' n x)
  then show ?case using align.align_replace [of xs ys n x z] by auto
next
  case (align_replace xs ys' n x y')
  then show ?case using align.align_replace [of xs ys n x z] by (auto intro: le_SucI)
next
  case (align_insert xs ys' n y')
  then show ?case using align.align_insert [of xs ys n z] by (auto intro: le_SucI)
qed simp

lemma align_behind:
  assumes IH: "\<And>xs n. align xs ys n \<Longrightarrow> \<exists>m \<le> Suc n. align xs zs m"
  shows "align xs ys' n \<Longrightarrow> ys' = y # ys \<Longrightarrow> \<exists>m \<le> Suc n. align xs (y # zs) m"
proof (induction rule: align.induct)
  case (align_delete xs ys' n x)
  then obtain m where "m \<le> Suc n" "align xs (y # zs) m" by blast
  then show ?case using align.align_delete [of xs "y # zs" m x] by auto
next
  case (align_keep xs ys' n x)
  then obtain m where "m \<le> Suc n" "align xs zs m" using IH by blast
  then show ?case using align_keep.prems align.align_keep [of xs zs m y] by auto
next
  case (align_replace xs ys' n x y')
  then obtain m where "m \<le> Suc n" "align xs zs m" using IH by blast
  then show ?case using align.align_replace [of xs zs m x y] by auto
next
  case (align_insert xs ys' n y')
  then obtain m where "m \<le> Suc n" "align xs zs m" using IH by blast
  then show ?case using align.align_insert [of xs zs m y] by auto
qed simp

lemma align_edit: "one_edit ys zs \<Longrightarrow> align xs ys n \<Longrightarrow> \<exists>m \<le> Suc n. align xs zs m"
proof (induction arbitrary: xs n rule: one_edit.induct)
  case (insert_char ys y)
  then show ?case by (auto intro: align_insert)
next
  case (behind ys zs y)
  show ?case using align_behind [OF behind.IH behind.prems] by simp
next
  case (delete_char y ys)
  then show ?case using align_delete_right [of xs "y # ys"] by simp
next
  case (replace_char y ys z)
  then show ?case using align_replace_right [of xs "y # ys"] by simp
qed

lemma edits_align: "(one_edit ^^ n) xs ys \<Longrightarrow> \<exists>m \<le> n. align xs ys m"
proof (induction n arbitrary: ys)
  case 0
  then show ?case using align_refl by auto
next
  case (Suc n)
  from relpowp_Suc_E [OF Suc.prems] obtain zs where zs: "(one_edit ^^ n) xs zs" "one_edit zs ys" .
  with Suc.IH obtain m where "m \<le> n" "align xs zs m" by blast
  with align_edit [OF zs(2)] obtain k where "k \<le> Suc m" "align xs ys k" by blast
  then show ?case using \<open>m \<le> n\<close> by (intro exI [of _ k]) simp
qed

section \<open>The recursive distance\<close>

fun lev :: "'a list \<Rightarrow> 'a list \<Rightarrow> nat" where
  "lev [] ys = length ys"
| "lev xs [] = length xs"
| "lev (x # xs) (y # ys) =
     min (min (lev xs ys + (if x \<noteq> y then 1 else 0)) (lev (x # xs) ys + 1)) (lev xs (y # ys) + 1)"

lemma lev_nil_right [simp]: "lev xs [] = length xs"
  by (cases xs) auto

lemma lev_right: "lev xs (y # ys) \<le> Suc (lev xs ys)"
  by (cases xs) auto

lemma lev_left: "lev (x # xs) ys \<le> Suc (lev xs ys)"
  by (cases ys) auto

lemma lev_least: "align xs ys n \<Longrightarrow> lev xs ys \<le> n"
proof (induction rule: align.induct)
  case (align_insert xs ys n y)
  then show ?case using lev_right [of xs y ys] by simp
next
  case (align_delete xs ys n x)
  then show ?case using lev_left [of x xs ys] by simp
qed auto

lemma lev_align: "align xs ys (lev xs ys)"
proof (induction xs ys rule: lev.induct)
  case (1 ys)
  show ?case by (induction ys) (auto intro: align.intros)
next
  case (2 x xs)
  have "align zs [] (length zs)" for zs :: "'a list" by (induction zs) (auto intro: align.intros)
  from this [of "x # xs"] show ?case by simp
next
  case (3 x xs y ys)
  let ?a = "lev xs ys" and ?b = "lev (x # xs) ys" and ?c = "lev xs (y # ys)"
  have "align (x # xs) (y # ys) (?a + (if x \<noteq> y then 1 else 0))"
    using 3(1) by (auto intro: align_keep align_replace)
  moreover have "align (x # xs) (y # ys) (?b + 1)" "align (x # xs) (y # ys) (?c + 1)"
    using 3(2,3) by (simp_all add: align_insert align_delete)
  ultimately show ?case by (simp add: min_def)
qed

lemma align_append: "align xs ys n \<Longrightarrow> align us vs m \<Longrightarrow> align (xs @ us) (ys @ vs) (n + m)"
  by (induction rule: align.induct) (auto intro: align.intros)

lemma align_rev: "align xs ys n \<Longrightarrow> align (rev xs) (rev ys) n"
proof (induction rule: align.induct)
  case (align_keep xs ys n x)
  then show ?case using align_append [of "rev xs" "rev ys" n "[x]" "[x]" 0] by (auto intro: align.intros)
next
  case (align_replace xs ys n x y)
  then show ?case using align_append [of "rev xs" "rev ys" n "[x]" "[y]" 1] align.align_replace [OF align_nil, of x y] by simp
next
  case (align_insert xs ys n y)
  then show ?case using align_append [of "rev xs" "rev ys" n "[]" "[y]" 1] align.align_insert [OF align_nil, of y] by simp
next
  case (align_delete xs ys n x)
  then show ?case using align_append [of "rev xs" "rev ys" n "[x]" "[]" 1] align.align_delete [OF align_nil, of x] by simp
qed (auto intro: align.intros)

lemma lev_rev: "lev (rev xs) (rev ys) = lev xs ys"
  using lev_least [OF align_rev [OF lev_align [of xs ys]]] lev_least [OF align_rev [OF lev_align [of "rev xs" "rev ys"]]]
  by simp

lemma lev_snoc:
  "lev (xs @ [x]) (ys @ [y]) =
     min (min (lev xs ys + (if x \<noteq> y then 1 else 0)) (lev (xs @ [x]) ys + 1)) (lev xs (ys @ [y]) + 1)"
  using lev_rev [of "xs @ [x]" "ys @ [y]"] lev_rev [of xs ys] lev_rev [of "xs @ [x]" ys] lev_rev [of xs "ys @ [y]"]
  by simp

section \<open>The loop\<close>

text \<open>The distances from \<open>pre\<close> to the prefixes of \<open>bef @ bs\<close> longer than \<open>bef\<close>.\<close>

definition lev_row :: "'a list \<Rightarrow> 'a list \<Rightarrow> 'a list \<Rightarrow> nat list" where
  "lev_row pre bef bs = map (\<lambda>k. lev pre (bef @ take (Suc k) bs)) [0..<length bs]"

lemma lev_row_Cons: "lev_row pre bef (b # bs) = lev pre (bef @ [b]) # lev_row pre (bef @ [b]) bs"
  by (simp add: lev_row_def upt_conv_Cons map_Suc_upt [symmetric] del: upt_Suc)

lemma edit_cells_row:
  "edit_cells ca (lev pre bef) (lev (pre @ [ca]) bef) bs (lev_row pre bef bs) = lev_row (pre @ [ca]) bef bs"
proof (induction bs arbitrary: bef)
  case Nil
  show ?case by (simp add: lev_row_def)
next
  case (Cons b bs)
  have "min (min (lev pre bef + (if ca \<noteq> b then 1 else 0)) (lev (pre @ [ca]) bef + 1)) (lev pre (bef @ [b]) + 1) =
        lev (pre @ [ca]) (bef @ [b])" by (simp only: lev_snoc)
  with Cons show ?case by (simp only: lev_row_Cons edit_cells.simps Let_def)
qed

lemma edit_rows_row:
  "edit_rows (length pre) as b (length pre # lev_row pre [] b) =
   length (pre @ as) # lev_row (pre @ as) [] b"
proof (induction as arbitrary: pre)
  case (Cons a as)
  show ?case using Cons [of "pre @ [a]"] edit_cells_row [of a pre "[]" b] by simp
qed simp

lemma first_row: "[0..<length b + 1] = 0 # lev_row [] [] b"
  by (rule nth_equalityI) (auto simp: lev_row_def nth_Cons simp del: upt_Suc split: nat.splits)

lemma last_row: "last (length xs # lev_row xs [] b) = lev xs b"
  by (cases "b = []") (auto simp: lev_row_def last_map)

lemma edit_distance_lev: "edit_distance a b = lev (chars a) (chars b)"
  using edit_rows_row [of "[]" "chars a" "chars b"] last_row [of "chars a" "chars b"] first_row [of "chars b"]
  by (simp add: edit_distance_def)

text \<open>
  C40. \<open>edit_distance\<close> is the Levenshtein distance: the least number of single characters inserted,
  deleted or replaced that turns one text into the other.
\<close>

theorem edit_distance_least: "edit_distance a b = (LEAST n. (one_edit ^^ n) (chars a) (chars b))"
proof (rule Least_equality [symmetric])
  show "(one_edit ^^ edit_distance a b) (chars a) (chars b)"
    unfolding edit_distance_lev by (rule align_edits [OF lev_align])
  show "edit_distance a b \<le> n" if "(one_edit ^^ n) (chars a) (chars b)" for n
    using edits_align [OF that] lev_least edit_distance_lev order_trans by metis
qed

end
