(* ===== verification/Number_Text.thy ===== *)
theory Number_Text
  imports Text_Chars
begin

text \<open>
  A double as text: the shortest digits that read back (Rust's \<open>{}\<close> and \<open>{:e}\<close>) and \<open>number_literal\<close> of
  \<open>crates/core_model/src/parser.rs\<close>, which writes a number as the tokenizer reads it. Seventeen digits
  are always enough: the nearest decimal of that length is nearer to the double than half its distance
  to either neighbour.
\<close>

section \<open>Digits\<close>

text \<open>\<open>10 ^ e\<close> is at most \<open>u\<close> units.\<close>

definition ge_pow10 :: "int \<Rightarrow> int \<Rightarrow> bool" where
  "ge_pow10 u e \<longleftrightarrow> (if 0 \<le> e then 10 ^ nat e * 2 ^ 1074 \<le> u else 2 ^ 1074 \<le> u * 10 ^ nat (- e))"

text \<open>The exponent of the first digit, for a positive double.\<close>

definition dec_exp :: "int \<Rightarrow> int" where
  "dec_exp u = (case find (ge_pow10 u) (map (\<lambda>i. 308 - int i) [0..<633]) of Some e \<Rightarrow> e | None \<Rightarrow> 0)"

definition half_up :: "int \<Rightarrow> int \<Rightarrow> int" where
  "half_up n d = (2 * n + d) div (2 * d)"

text \<open>\<open>u\<close> units in units of \<open>10 ^ s\<close>.\<close>

definition sig_digits :: "int \<Rightarrow> int \<Rightarrow> int" where
  "sig_digits u s =
     (if 0 \<le> s then half_up u (2 ^ 1074 * 10 ^ nat s) else half_up (u * 10 ^ nat (- s)) (2 ^ 1074))"

definition floor_digits :: "int \<Rightarrow> int \<Rightarrow> int" where
  "floor_digits u s =
     (if 0 \<le> s then u div (2 ^ 1074 * 10 ^ nat s) else u * 10 ^ nat (- s) div 2 ^ 1074)"

text \<open>
  A double as a count of units of \<open>10 ^ s\<close> that reads back: the nearest, else the one on the other
  side, which below a power of two may be the only one, as the next double is nearer there.
\<close>

definition round_digits :: "f64 \<Rightarrow> int \<Rightarrow> int option" where
  "round_digits x s =
     (let u = units x; f = floor_digits u s in find (\<lambda>q. scaled q s = x) [sig_digits u s, f, f + 1])"

text \<open>The shortest digits of a positive double that read back, how many, and the first one's exponent.\<close>

definition shortest_len :: "f64 \<Rightarrow> nat" where
  "shortest_len x =
     (let e = dec_exp (units x)
      in case find (\<lambda>k. round_digits x (e - int k + 1) \<noteq> None) [1..<17] of Some k \<Rightarrow> k | None \<Rightarrow> 17)"

definition shortest :: "f64 \<Rightarrow> int \<times> int" where
  "shortest x =
     (let e = dec_exp (units x); k = shortest_len x;
          q = (case round_digits x (e - int k + 1) of Some q \<Rightarrow> q | None \<Rightarrow> 0)
      in if q = 10 ^ k then (10 ^ (k - 1), e + 1) else (q, e))"

section \<open>Texts\<close>

text \<open>Digits with the exponent of the first, without and with an exponent mark.\<close>

definition plain_text :: "string \<Rightarrow> int \<Rightarrow> string" where
  "plain_text ds e =
     (if e < 0 then ''0.'' @ replicate (nat (- e) - 1) (CHR ''0'') @ ds
      else if int (length ds) \<le> e + 1 then ds @ replicate (nat e + 1 - length ds) (CHR ''0'')
      else take (nat e + 1) ds @ ''.'' @ drop (nat e + 1) ds)"

definition signed_dec :: "int \<Rightarrow> string" where
  "signed_dec e = (if e < 0 then ''-'' @ dec (nat (- e)) else dec (nat e))"

definition exp_text :: "string \<Rightarrow> int \<Rightarrow> string" where
  "exp_text ds e = take 1 ds @ (if length ds = 1 then [] else ''.'' @ drop 1 ds) @ ''e'' @ signed_dec e"

text \<open>\<open>{}\<close> and \<open>{:e}\<close> of a double that is finite and not negative.\<close>

definition display_f64 :: "f64 \<Rightarrow> string" where
  "display_f64 x = (if x = 0 then ''0'' else case shortest x of (q, e) \<Rightarrow> plain_text (dec (nat q)) e)"

definition display_exp :: "f64 \<Rightarrow> string" where
  "display_exp x = (if x = 0 then ''0e0'' else case shortest x of (q, e) \<Rightarrow> exp_text (dec (nat q)) e)"

definition number_literal :: "f64 \<Rightarrow> string option" where
  "number_literal x =
     (if \<not> f64_finite x \<or> f64_neg x then None
      else if x \<noteq> 0 \<and> \<not> (units (scaled 1 (- 6)) \<le> units x \<and> units x < units (scaled 1 21))
      then Some (display_exp x)
      else Some (display_f64 x))"

end
