(* ===== verification/Number_Facts.thy ===== *)
theory Number_Facts
  imports Number_Text
begin

text \<open>
  A number literal reads back as the double it was printed from: the rounding in \<open>f64_of_ratio\<close> finds a
  double from any ratio near enough to it, seventeen digits are near enough, and reading the printed
  digits gives that ratio.
\<close>

section \<open>Ratios near a double\<close>

lemma round_ratio_near:
  fixes n m d :: int
  assumes "2 * \<bar>n - m * d\<bar> < d"
  shows "round_ratio n d = m"
proof -
  have "0 < d" if "0 \<le> a" "2 * a < d" for a using that by simp
  from this [OF abs_ge_zero assms] have d: "0 < d" .
  have "n div d = m \<and> 2 * (n mod d) < d \<or> n div d = m - 1 \<and> d < 2 * (n mod d)"
  proof (cases "m * d \<le> n")
    case True
    with assms have "0 \<le> n - m * d" "n - m * d < d" by simp_all
    then have "n div d = m" "n mod d = n - m * d"
      using int_div_pos_eq [of n d m "n - m * d"] int_mod_pos_eq [of n d m "n - m * d"] by (simp_all add: mult.commute)
    then show ?thesis using True assms by simp
  next
    case False
    with assms have r: "0 \<le> n - (m - 1) * d" "n - (m - 1) * d < d" by (simp_all add: algebra_simps)
    then have "n div d = m - 1" "n mod d = n - (m - 1) * d"
      using int_div_pos_eq [of n d "m - 1" "n - (m - 1) * d"] int_mod_pos_eq [of n d "m - 1" "n - (m - 1) * d"]
      by (simp_all add: mult.commute)
    then show ?thesis using False assms by (simp add: algebra_simps)
  qed
  then show ?thesis by (auto simp: round_ratio_def Let_def)
qed

lemma int_log2_bounds: "0 < n \<Longrightarrow> 2 ^ int_log2 n \<le> n \<and> n < 2 ^ Suc (int_log2 n)"
proof (induction n rule: int_log2.induct)
  case (1 n)
  show ?case
  proof (cases "n < 2")
    case True
    with "1.prems" show ?thesis by (subst (1 2) int_log2.simps) simp
  next
    case False
    with 1 have "2 ^ int_log2 (n div 2) \<le> n div 2 \<and> n div 2 < 2 ^ Suc (int_log2 (n div 2))" by simp
    moreover have "int_log2 n = Suc (int_log2 (n div 2))" using False by (subst int_log2.simps) simp
    ultimately show ?thesis by auto
  qed
qed

lemma int_log2_eq:
  assumes "2 ^ k \<le> n" "n < 2 ^ Suc k"
  shows "int_log2 n = k"
proof -
  have "0 < n" using assms(1) by (meson less_le_trans zero_less_numeral zero_less_power)
  from int_log2_bounds [OF this] assms have "(2::int) ^ k < 2 ^ Suc (int_log2 n)" "(2::int) ^ int_log2 n < 2 ^ Suc k"
    by linarith+
  then have "k < Suc (int_log2 n)" "int_log2 n < Suc k" by (simp_all only: power_strict_increasing_iff one_less_numeral_iff semiring_norm)
  then show ?thesis by simp
qed

text \<open>The fields of a finite double that is not negative: \<open>m\<close> in units of \<open>2 ^ k\<close>.\<close>

lemma mask_or_bit: "(x AND mask n) OR push_bit n 1 = (x AND mask n) + push_bit n (1 :: 64 word)"
  by (subst disjunctive_add) (auto simp: bit_and_iff bit_mask_iff bit_push_bit_iff bit_1_iff bit_exp_iff)

lemma double_fields:
  assumes "f64_finite x" "\<not> f64_neg x"
  obtains k m where "units x = m * 2 ^ k" "0 \<le> m" "m < 2 ^ 53" "0 < k \<Longrightarrow> 2 ^ 52 \<le> m"
    "uint x = int k * 2 ^ 52 + m" "k < 2046"
proof -
  let ?E = "uint x div 2 ^ 52" and ?F = "uint x mod 2 ^ 52"
  have "uint x div 2 ^ 63 \<noteq> 1"
    using assms(2) by (auto simp: f64_neg_def word_uint_eq_iff uint_div drop_bit_eq_div)
  moreover have "uint x < 2 ^ 64" using uint_bounded [of x] by simp
  ultimately have x: "0 \<le> uint x" "uint x < 2 ^ 63" by simp_all
  then have E: "0 \<le> ?E" "?E < 2 ^ 11" by (simp_all add: pos_imp_zdiv_nonneg_iff)
  have exp: "uint (f64_exp x) = ?E"
  proof -
    have "f64_exp x = take_bit 11 (drop_bit 52 x)"
      by (simp add: f64_exp_def take_bit_eq_mask mask_eq_exp_minus_1)
    then have "uint (f64_exp x) = ?E mod 2 ^ 11"
      by (simp add: take_bit_eq_mod drop_bit_eq_div uint_div uint_mod)
    then show ?thesis using E by simp
  qed
  have frac: "uint (f64_frac x) = ?F"
  proof -
    have "f64_frac x = take_bit 52 x" by (simp add: f64_frac_def take_bit_eq_mask)
    then show ?thesis by (simp add: take_bit_eq_mod uint_mod)
  qed
  have split: "uint x = ?E * 2 ^ 52 + ?F" by simp
  have "?E \<noteq> 2047" using assms(1) exp by (auto simp: f64_finite_def word_uint_eq_iff)
  show ?thesis
  proof (cases "?E = 0")
    case True
    then have "f64_exp x = 0" using exp by (simp add: word_uint_eq_iff)
    then have "units x = ?F * 2 ^ 0" using assms(2) frac by (simp add: units_def f64_mant_def f64_shift_def)
    moreover have "?F < 2 ^ 53" using pos_mod_bound [of "2 ^ 52" "uint x"] by simp
    ultimately show ?thesis using split True by (intro that [of ?F 0]) simp_all
  next
    case False
    then have ex: "f64_exp x \<noteq> 0" using exp by (auto simp: word_uint_eq_iff)
    have "f64_mant x = f64_frac x + push_bit 52 1"
      using ex mask_or_bit [of x 52] by (simp only: f64_mant_def f64_frac_def if_False)
    moreover have "uint (f64_frac x + push_bit 52 1) = ?F + 2 ^ 52"
    proof -
      have "uint (f64_frac x + push_bit 52 1) = (?F + 2 ^ 52) mod 2 ^ 64"
        by (simp add: uint_word_ariths frac push_bit_eq_mult)
      moreover have "?F < 2 ^ 52" "0 \<le> ?F" by simp_all
      ultimately show ?thesis by simp
    qed
    moreover have "f64_shift x = nat (?E - 1)"
    proof -
      have "unat (f64_exp x) = nat ?E" using exp by (simp flip: nat_uint_eq)
      then show ?thesis using ex unat_minus_one [OF ex] by (simp add: f64_shift_def) arith
    qed
    ultimately have "units x = (?F + 2 ^ 52) * 2 ^ nat (?E - 1)"
      using assms(2) by (simp add: units_def)
    moreover have "?F < 2 ^ 52" "0 \<le> ?F" by simp_all
    moreover have "int (nat (?E - 1)) = ?E - 1" using False E by simp
    moreover have "nat (?E - 1) < 2046" using E \<open>?E \<noteq> 2047\<close> by simp
    ultimately show ?thesis using split False E by (intro that [of "?F + 2 ^ 52" "nat (?E - 1)"]) simp_all
  qed
qed

lemma le_div_int: "0 < (d :: int) \<Longrightarrow> c \<le> a div d \<longleftrightarrow> c * d \<le> a"
proof
  assume d: "0 < d" and "c \<le> a div d"
  then have "c * d \<le> a div d * d" by (intro mult_right_mono) simp_all
  also have "\<dots> \<le> a" using d by (simp add: minus_mod_eq_div_mult [symmetric])
  finally show "c * d \<le> a" .
next
  assume d: "0 < d" and "c * d \<le> a"
  then show "c \<le> a div d" using zdiv_mono1 [of "c * d" a d] by simp
qed

lemma div_less_int: "0 < (d :: int) \<Longrightarrow> a div d < c \<longleftrightarrow> a < c * d"
  using le_div_int [of d c a] by (simp flip: not_le)

text \<open>A ratio off by less than \<open>2 ^ -54\<close> of a double is rounded to it.\<close>

lemma f64_of_ratio_near:
  assumes x: "f64_finite x" "\<not> f64_neg x" and d: "0 < d"
    and near: "\<bar>n * 2 ^ 1074 - units x * d\<bar> * 2 ^ 54 < units x * d"
  shows "f64_of_ratio n d = x"
proof -
  obtain k m where u: "units x = m * 2 ^ k" and m: "0 \<le> m" "m < 2 ^ 53" "0 < k \<Longrightarrow> 2 ^ 52 \<le> m"
    and ux: "uint x = int k * 2 ^ 52 + m" and k: "k < 2046"
    using double_fields [OF x] by metis
  define a D where "a = n * 2 ^ 1074" and "D = d * 2 ^ k"
  have D: "0 < D" using d by (simp add: D_def)
  have ud: "units x * d = m * D" by (simp add: u D_def)
  have near': "\<bar>a - m * D\<bar> * 2 ^ 54 < m * D" using near by (simp add: a_def ud)
  have mD: "m * D \<le> (2 ^ 53 - 1) * D" using m(2) D by (intro mult_right_mono) simp_all
  have "2 * y < D" if "y * 2 ^ 54 < z" "z \<le> (2 ^ 53 - 1) * D" for y z using that D by simp
  from this [OF near' mD] have close: "2 * \<bar>a - m * D\<bar> < D" .
  have fit: "p < 0x7ff0000000000000" if "p = uint x" for p
  proof -
    have "int k * 2 ^ 52 \<le> 2045 * 2 ^ 52" using k by simp
    then show ?thesis using that ux m(2) by simp
  qed
  have done_if: ?thesis if e: "int_log2 (a div d) - 52 = e"
    and p: "int e * 2 ^ 52 + round_ratio a (d * 2 ^ e) = uint x" for e
    unfolding f64_of_ratio_def Let_def a_def [symmetric] e p using fit [OF refl] by simp
  have pos: "0 < m" using near' D by (cases "m = 0") (use m in auto)
  have "z - D < a \<and> a < z + D" if "2 * \<bar>a - z\<bar> < D" for z using that by arith
  from this [OF close] have lo: "(m - 1) * D < a" and hi: "a < (m + 1) * D" by (simp_all add: algebra_simps)
  show ?thesis
  proof (cases "k = 0")
    case True
    have "a div d < 2 ^ 53"
    proof -
      have "(m + 1) * d \<le> 2 ^ 53 * d" using m(2) d by (intro mult_right_mono) simp_all
      then have "a < 2 ^ 53 * d" using hi by (simp add: D_def True)
      then show ?thesis using d by (simp add: div_less_int)
    qed
    then have "int_log2 (a div d) - 52 = 0"
      using int_log2_bounds [of "a div d"] int_log2.simps [of "a div d"]
    proof (cases "0 < a div d")
      case True
      with int_log2_bounds [OF this] \<open>a div d < 2 ^ 53\<close> have "(2::int) ^ int_log2 (a div d) < 2 ^ 53" by linarith
      then have "int_log2 (a div d) < 53" by (simp only: power_strict_increasing_iff one_less_numeral_iff semiring_norm)
      then show ?thesis by simp
    qed simp
    moreover have "round_ratio a d = m"
      using close by (intro round_ratio_near) (simp add: D_def True)
    ultimately show ?thesis using ux by (intro done_if [of 0]) (simp_all add: True)
  next
    case False
    show ?thesis
    proof (cases "m * D \<le> a \<or> 2 ^ 52 < m")
      case True
      have "2 ^ (52 + k) * d \<le> a"
      proof -
        have "2 ^ 52 * D \<le> a"
        proof (cases "2 ^ 52 < m")
          case True
          then have "2 ^ 52 * D \<le> (m - 1) * D" using D by (intro mult_right_mono) simp_all
          then show ?thesis using lo by simp
        next
          case F: False
          then have "2 ^ 52 * D \<le> m * D" using m(3) False D by (intro mult_right_mono) simp_all
          then show ?thesis using True F by simp
        qed
        then show ?thesis by (simp add: D_def power_add algebra_simps)
      qed
      then have "2 ^ (52 + k) \<le> a div d" using d by (simp add: le_div_int)
      moreover have "a div d < 2 ^ Suc (52 + k)"
      proof -
        have "(m + 1) * D \<le> 2 ^ 53 * D" using m(2) D by (intro mult_right_mono) simp_all
        then have "a < 2 ^ Suc (52 + k) * d" using hi by (simp add: D_def power_add algebra_simps)
        then show ?thesis using d by (simp add: div_less_int)
      qed
      ultimately have "int_log2 (a div d) - 52 = k" by (simp add: int_log2_eq)
      moreover have "round_ratio a (d * 2 ^ k) = m"
        using close by (intro round_ratio_near) (simp add: D_def)
      ultimately show ?thesis using ux by (intro done_if [of k]) simp_all
    next
      case below: False
      then have m52: "m = 2 ^ 52" using m(3) False by simp
      obtain j where kj: "k = Suc j" using False by (cases k) auto
      define E where "E = d * 2 ^ j"
      have DE: "D = 2 * E" by (simp add: D_def E_def kj)
      have E: "0 < E" using d by (simp add: E_def)
      have close2: "2 * \<bar>a - 2 ^ 53 * E\<bar> < E" using near' by (simp add: m52 DE)
      have "z - E < a" if "2 * \<bar>a - z\<bar> < E" for z using that by arith
      from this [OF close2] have "2 ^ 52 * E \<le> a" using E by simp
      then have "2 ^ (52 + j) * d \<le> a" by (simp add: E_def power_add algebra_simps)
      then have "2 ^ (52 + j) \<le> a div d" using d by (simp add: le_div_int)
      moreover have "a < 2 ^ Suc (52 + j) * d"
        using below by (simp add: m52 DE E_def power_add algebra_simps)
      then have "a div d < 2 ^ Suc (52 + j)" using d by (simp add: div_less_int)
      ultimately have "int_log2 (a div d) - 52 = j" by (simp add: int_log2_eq)
      moreover have "round_ratio a (d * 2 ^ j) = 2 ^ 53"
        using close2 by (intro round_ratio_near) (simp add: E_def)
      moreover have "int j * 2 ^ 52 + 2 ^ 53 = uint x" using ux by (simp add: kj m52)
      ultimately show ?thesis by (intro done_if [of j]) simp_all
    qed
  qed
qed

section \<open>Enough digits\<close>

lemma half_up_near: "0 < (d :: int) \<Longrightarrow> 2 * \<bar>half_up n d * d - n\<bar> \<le> d"
proof -
  assume d: "0 < d"
  let ?r = "(2 * n + d) mod (2 * d)"
  have "half_up n d * (2 * d) = 2 * n + d - ?r"
    unfolding half_up_def by (simp add: minus_mod_eq_div_mult [symmetric])
  then have "2 * (half_up n d * d - n) = d - ?r" by (simp add: algebra_simps)
  moreover have "0 \<le> ?r" "?r < 2 * d" using d by simp_all
  ultimately show ?thesis by arith
qed

lemma half_up_ge: "0 < (d :: int) \<Longrightarrow> c * d \<le> n \<Longrightarrow> c \<le> half_up n d"
  unfolding half_up_def by (subst le_div_int) (simp_all add: algebra_simps)

lemma half_up_le: "0 < (d :: int) \<Longrightarrow> n < c * d \<Longrightarrow> half_up n d \<le> c"
proof -
  assume d: "0 < d" and "n < c * d"
  then have "(2 * n + d) div (2 * d) < c + 1" by (subst div_less_int) (simp_all add: algebra_simps)
  then show ?thesis by (simp add: half_up_def)
qed

lemma find_first:
  assumes "find P xs = Some x"
  obtains i where "i < length xs" "xs ! i = x" "P x" "\<forall>j < i. \<not> P (xs ! j)"
  using assms by (auto simp: find_Some_iff)

lemma dec_exp_bounds:
  assumes "0 < u" "u < 2 ^ 2098"
  shows "ge_pow10 u (dec_exp u)" "\<not> ge_pow10 u (dec_exp u + 1)"
proof -
  let ?xs = "map (\<lambda>i. 308 - int i) [0..<633]"
  have "ge_pow10 u (- 324)"
  proof -
    have "(2::int) ^ 1074 \<le> 1 * 10 ^ 324" by simp
    also have "\<dots> \<le> u * 10 ^ 324" using assms(1) by (intro mult_right_mono) simp_all
    finally show ?thesis unfolding ge_pow10_def by simp
  qed
  moreover have "- 324 \<in> set ?xs"
  proof -
    have "(- 324 :: int) = 308 - int 632" "632 \<in> set [0..<633]" by simp_all
    then show ?thesis unfolding set_map by (rule image_eqI)
  qed
  ultimately have "find (ge_pow10 u) ?xs \<noteq> None" unfolding find_None_iff by blast
  then obtain e where e: "find (ge_pow10 u) ?xs = Some e" by blast
  then have de: "dec_exp u = e" by (simp add: dec_exp_def del: upt_Suc upt_rec_numeral)
  from e obtain i where i: "i < 633" "e = 308 - int i" "ge_pow10 u e"
    and first: "\<forall>j < i. \<not> ge_pow10 u (308 - int j)"
    by (rule find_first) (auto simp del: upt_Suc upt_rec_numeral)
  show "ge_pow10 u (dec_exp u)" using i(3) de by simp
  show "\<not> ge_pow10 u (dec_exp u + 1)"
  proof (cases i)
    case 0
    have "(2::int) ^ 2098 \<le> 10 ^ 309 * 2 ^ 1074" by simp
    with assms(2) have "\<not> 10 ^ 309 * 2 ^ 1074 \<le> u" by linarith
    then show ?thesis unfolding de i(2) 0 ge_pow10_def by simp
  next
    case (Suc j)
    then have "e + 1 = 308 - int j" using i(2) by simp
    then show ?thesis using first Suc de by simp
  qed
qed

text \<open>\<open>u\<close> units as a ratio of integers in units of \<open>10 ^ s\<close>.\<close>

definition num10 :: "int \<Rightarrow> int \<Rightarrow> int" where
  "num10 u s = (if 0 \<le> s then u else u * 10 ^ nat (- s))"

definition den10 :: "int \<Rightarrow> int" where
  "den10 s = (if 0 \<le> s then 2 ^ 1074 * 10 ^ nat s else 2 ^ 1074)"

lemma den10_pos [simp]: "0 < den10 s"
  by (simp add: den10_def)

lemma floor_digits_ratio: "floor_digits u s = num10 u s div den10 s"
  by (simp add: floor_digits_def num10_def den10_def)

lemma sig_digits_ratio: "sig_digits u s = half_up (num10 u s) (den10 s)"
  by (simp add: sig_digits_def num10_def den10_def)

lemma nat_minus_split: "0 \<le> s \<Longrightarrow> s \<le> e \<Longrightarrow> (10::int) ^ nat (e - s) * 10 ^ nat s = 10 ^ nat e"
  by (simp flip: power_add nat_add_distrib)

lemma ge_pow10_ratio: "s \<le> e \<Longrightarrow> ge_pow10 u e \<longleftrightarrow> 10 ^ nat (e - s) * den10 s \<le> num10 u s"
proof -
  assume se: "s \<le> e"
  consider "0 \<le> s" | "s < 0" "0 \<le> e" | "e < 0" by linarith
  then show ?thesis
  proof cases
    case 1
    then have "(10::int) ^ nat (e - s) * (2 ^ 1074 * 10 ^ nat s) = 10 ^ nat e * 2 ^ 1074"
      using nat_minus_split [OF 1 se] by (metis mult.assoc mult.commute)
    then show ?thesis using 1 se by (simp only: ge_pow10_def num10_def den10_def if_True) simp
  next
    case 2
    then have "(10::int) ^ nat (e - s) = 10 ^ nat e * 10 ^ nat (- s)"
      by (simp flip: power_add nat_add_distrib)
    then have "10 ^ nat (e - s) * 2 ^ 1074 = 10 ^ nat e * 2 ^ 1074 * (10::int) ^ nat (- s)"
      by (simp only: mult.commute mult.left_commute)
    then show ?thesis using 2 by (simp add: ge_pow10_def num10_def den10_def)
  next
    case 3
    then have "(10::int) ^ nat (- s) = 10 ^ nat (- e) * 10 ^ nat (e - s)"
      using se by (simp flip: power_add nat_add_distrib)
    then have "u * 10 ^ nat (- s) = 10 ^ nat (e - s) * (u * 10 ^ nat (- e))"
      by (simp only: mult.commute mult.left_commute)
    then have "10 ^ nat (e - s) * 2 ^ 1074 \<le> u * 10 ^ nat (- s) \<longleftrightarrow> 2 ^ 1074 \<le> u * 10 ^ nat (- e)"
      by (simp only:) (rule mult_le_cancel_left_pos, simp)
    then show ?thesis using 3 se by (simp add: ge_pow10_def num10_def den10_def)
  qed
qed

lemma scaled_near:
  assumes x: "f64_finite x" "\<not> f64_neg x"
    and near: "\<bar>q * den10 s - num10 (units x) s\<bar> * 2 ^ 54 < num10 (units x) s"
  shows "scaled q s = x"
proof (cases "0 \<le> s")
  case True
  have "f64_of_ratio (q * 10 ^ nat s) 1 = x"
  proof (rule f64_of_ratio_near [OF x])
    have "q * 10 ^ nat s * 2 ^ 1074 = q * den10 s" using True by (simp only: den10_def if_True mult_ac)
    then show "\<bar>q * 10 ^ nat s * 2 ^ 1074 - units x * 1\<bar> * 2 ^ 54 < units x * 1"
      using near True by (simp only: num10_def if_True mult_1_right)
  qed simp
  then show ?thesis using True by (simp add: scaled_def)
next
  case False
  have "f64_of_ratio q (10 ^ nat (- s)) = x"
    using near False by (intro f64_of_ratio_near [OF x]) (simp_all only: num10_def den10_def if_False, simp)
  then show ?thesis using False by (simp add: scaled_def)
qed

lemma seventeen_digits:
  assumes x: "f64_finite x" "\<not> f64_neg x" and e: "ge_pow10 (units x) e"
  shows "scaled (sig_digits (units x) (e - 16)) (e - 16) = x"
proof (rule scaled_near [OF x])
  define n d q where "n = num10 (units x) (e - 16)" and "d = den10 (e - 16)" and "q = half_up n d"
  have d: "0 < d" by (simp add: d_def)
  have n: "10 ^ 16 * d \<le> n" using ge_pow10_ratio [of "e - 16" e "units x"] e by (simp add: n_def d_def)
  have "y * 2 ^ 54 < n" if "2 * y \<le> d" for y using that n d by simp
  from this [OF half_up_near [OF d, of n]]
  show "\<bar>sig_digits (units x) (e - 16) * den10 (e - 16) - num10 (units x) (e - 16)\<bar> * 2 ^ 54 < num10 (units x) (e - 16)"
    by (simp only: sig_digits_ratio n_def d_def q_def)
qed

text \<open>Ten times the digits in units a tenth: the same ratio.\<close>

lemma round_ratio_scale: "0 < d \<Longrightarrow> 0 < c \<Longrightarrow> round_ratio (n * c) (d * c) = round_ratio n d"
proof -
  assume "0 < d" "0 < c"
  then have "n * c div (d * c) = n div d" "n * c mod (d * c) = n mod d * c" by (simp_all add: mod_mult_mult2)
  moreover have "2 * (n mod d * c) < d * c \<longleftrightarrow> 2 * (n mod d) < d" "2 * (n mod d * c) = d * c \<longleftrightarrow> 2 * (n mod d) = d"
    using \<open>0 < c\<close> by (simp_all flip: mult.assoc)
  ultimately show ?thesis unfolding round_ratio_def Let_def by (simp only:)
qed

lemma f64_of_ratio_scale: "0 < d \<Longrightarrow> 0 < c \<Longrightarrow> f64_of_ratio (n * c) (d * c) = f64_of_ratio n d"
proof -
  assume dc: "0 < d" "0 < c"
  have "n * c * 2 ^ 1074 = n * 2 ^ 1074 * c" by (simp only: mult_ac)
  moreover have "d * c * 2 ^ e = d * 2 ^ e * c" for e by (simp only: mult_ac)
  moreover have "a * c div (d * c) = a div d" for a using dc by simp
  moreover have "round_ratio (a * c) (d * 2 ^ e * c) = round_ratio a (d * 2 ^ e)" for a e
    using dc by (intro round_ratio_scale) simp_all
  ultimately show ?thesis unfolding f64_of_ratio_def Let_def by (simp only:)
qed

lemma scaled_tenth: "scaled (q * 10) s = scaled q (s + 1)"
proof -
  consider "0 \<le> s" | "s = - 1" | "s < - 1" by linarith
  then show ?thesis
  proof cases
    case 1
    then show ?thesis by (simp add: scaled_def nat_add_distrib mult.assoc)
  next
    case 2
    then show ?thesis using f64_of_ratio_scale [of 1 10 q] by (simp add: scaled_def)
  next
    case 3
    then have "nat (- s) = Suc (nat (- (s + 1)))" by simp
    then have "(10::int) ^ nat (- s) = 10 ^ nat (- (s + 1)) * 10" by simp
    then show ?thesis using 3 f64_of_ratio_scale [of "10 ^ nat (- (s + 1))" 10 q] by (simp add: scaled_def)
  qed
qed

definition digit_count :: "int \<Rightarrow> nat \<Rightarrow> bool" where
  "digit_count q k \<longleftrightarrow> 0 < k \<and> 10 ^ (k - 1) \<le> q \<and> q < 10 ^ k"

lemma units_positive:
  assumes "f64_finite x" "\<not> f64_neg x" "x \<noteq> 0"
  shows "0 < units x" "units x < 2 ^ 2098"
proof -
  obtain k m where u: "units x = m * 2 ^ k" and m: "0 \<le> m" "m < 2 ^ 53" "0 < k \<Longrightarrow> 2 ^ 52 \<le> m"
    and ux: "uint x = int k * 2 ^ 52 + m" and k: "k < 2046"
    using double_fields [OF assms(1,2)] by metis
  have "m \<noteq> 0" using ux m(3) assms(3) by (cases "k = 0") (auto simp: word_uint_eq_iff)
  then show "0 < units x" using m(1) by (simp add: u)
  have "m * 2 ^ k < 2 ^ 53 * (2 ^ k :: int)" using m(2) by (intro mult_strict_right_mono) simp_all
  also have "\<dots> \<le> 2 ^ 53 * (2 ^ 2045 :: int)" using k by (intro mult_left_mono power_increasing) simp_all
  also have "\<dots> = 2 ^ 2098" by (simp flip: power_add)
  finally show "units x < 2 ^ 2098" by (simp only: u)
qed

lemma round_digits_cases:
  assumes "round_digits x s = Some q"
  shows "scaled q s = x" "q \<in> {sig_digits (units x) s, floor_digits (units x) s, floor_digits (units x) s + 1}"
  using assms by (auto simp: round_digits_def Let_def split: if_splits)

lemma shortest_reads:
  assumes x: "f64_finite x" "\<not> f64_neg x" "x \<noteq> 0" and sh: "shortest x = (q, e)"
  obtains k where "digit_count q k" "scaled q (e - int k + 1) = x"
proof -
  let ?u = "units x"
  define e0 k s where "e0 = dec_exp ?u" and "k = shortest_len x" and "s = e0 - int k + 1"
  note de = dec_exp_bounds [OF units_positive [OF x], folded e0_def]
  have "0 < k \<and> round_digits x s \<noteq> None"
  proof (cases "find (\<lambda>k. round_digits x (e0 - int k + 1) \<noteq> None) [1..<17]")
    case None
    then have "k = 17" by (simp add: k_def shortest_len_def Let_def flip: e0_def)
    then have "s = e0 - 16" by (simp add: s_def)
    then show ?thesis using seventeen_digits [OF x(1,2) de(1)] \<open>k = 17\<close> by (simp add: round_digits_def Let_def)
  next
    case (Some j)
    then have "k = j" by (simp add: k_def shortest_len_def Let_def flip: e0_def)
    moreover have "j \<in> set [1..<17] \<and> round_digits x (e0 - int j + 1) \<noteq> None"
      using Some by (auto simp: find_Some_iff simp del: upt_Suc upt_rec_numeral intro: nth_mem)
    ultimately show ?thesis by (simp add: s_def)
  qed
  then obtain q0 where r: "round_digits x s = Some q0" and k: "0 < k \<and> scaled q0 s = x"
    using round_digits_cases(1) by fastforce
  have n: "10 ^ (k - 1) * den10 s \<le> num10 ?u s" "num10 ?u s < 10 ^ k * den10 s"
  proof -
    have "nat (e0 - s) = k - 1" "nat (e0 + 1 - s) = k" using k by (simp_all add: s_def nat_diff_distrib)
    then show "10 ^ (k - 1) * den10 s \<le> num10 ?u s" "num10 ?u s < 10 ^ k * den10 s"
      using ge_pow10_ratio [of s e0 ?u] ge_pow10_ratio [of s "e0 + 1" ?u] de k by (simp_all add: s_def not_le)
  qed
  have d: "0 < den10 s" by (simp add: den10_def)
  have "10 ^ (k - 1) * den10 s div den10 s \<le> num10 ?u s div den10 s" using n(1) d by (rule zdiv_mono1)
  moreover have "num10 ?u s div den10 s * den10 s \<le> num10 ?u s" using pos_mod_sign [OF d] by (simp add: minus_mod_eq_div_mult [symmetric])
  then have "num10 ?u s div den10 s < 10 ^ k" using n(2) d by (meson le_less_trans mult_less_cancel_right_pos)
  ultimately have "10 ^ (k - 1) \<le> floor_digits ?u s" "floor_digits ?u s < 10 ^ k"
    using d by (simp_all add: floor_digits_ratio)
  moreover have "10 ^ (k - 1) \<le> sig_digits ?u s" "sig_digits ?u s \<le> 10 ^ k"
    using n by (simp_all add: sig_digits_ratio half_up_ge half_up_le)
  ultimately have q0: "10 ^ (k - 1) \<le> q0" "q0 \<le> 10 ^ k" using round_digits_cases(2) [OF r] by auto
  have sh': "shortest x = (if q0 = 10 ^ k then (10 ^ (k - 1), e0 + 1) else (q0, e0))"
    using r by (simp add: shortest_def Let_def flip: k_def e0_def s_def)
  show ?thesis
  proof (cases "q0 = 10 ^ k")
    case True
    then have "q = 10 ^ (k - 1)" "e = e0 + 1" using sh sh' by simp_all
    moreover have "(10::int) ^ k = 10 ^ (k - 1) * 10" using k by (cases k) auto
    then have "scaled (10 ^ (k - 1)) (s + 1) = x" using k True scaled_tenth [of "10 ^ (k - 1)" s] by simp
    ultimately show ?thesis using k by (intro that [of k]) (simp_all add: digit_count_def s_def algebra_simps)
  next
    case False
    then have "q = q0" "e = e0" using sh sh' by simp_all
    then show ?thesis using k q0 False by (intro that [of k]) (simp_all add: digit_count_def s_def)
  qed
qed

section \<open>Reading the digits\<close>

lemma digit_char_props: "n < 10 \<Longrightarrow> ascii_digit (digit_char n)" "n < 10 \<Longrightarrow> of_char (digit_char n) = 48 + int n"
proof -
  assume n: "n < 10"
  then have c: "(of_char (digit_char n) :: nat) = 48 + n" by (simp add: digit_char_def)
  then show "ascii_digit (digit_char n)" using n by (simp add: ascii_digit_def byte_val_def)
  have "of_char (digit_char n) = int (of_char (digit_char n))" by (simp add: of_nat_of_char)
  then show "of_char (digit_char n) = 48 + int n" unfolding c by simp
qed

lemma dec_digits: "list_all ascii_digit (dec n)"
proof (induction n rule: dec.induct)
  case (1 n)
  then show ?case by (subst dec.simps) (simp add: digit_char_props)
qed

lemma digits_num_append: "digits_num (xs @ ys) = digits_num xs * 10 ^ length ys + digits_num ys"
proof (induction ys rule: rev_induct)
  case (snoc y ys)
  then show ?case by (simp add: digits_num_def algebra_simps flip: append_assoc)
qed (simp add: digits_num_def)

lemma digits_num_dec: "digits_num (dec n) = int n"
proof (induction n rule: dec.induct)
  case (1 n)
  show ?case
  proof (cases "n < 10")
    case True
    then show ?thesis by (simp add: dec_digit digits_num_def digit_char_props)
  next
    case False
    have "dec n = dec (n div 10) @ [digit_char (n mod 10)]" using False by (subst dec.simps) simp
    then show ?thesis using 1 [OF False]
      by (simp add: digits_num_append) (simp add: digits_num_def digit_char_props, presburger)
  qed
qed

lemma length_dec: "10 ^ (k - 1) \<le> n \<Longrightarrow> n < 10 ^ k \<Longrightarrow> 0 < k \<Longrightarrow> length (dec n) = k"
proof (induction n arbitrary: k rule: dec.induct)
  case (1 n)
  show ?case
  proof (cases "n < 10")
    case True
    have "k = 1"
    proof (rule ccontr)
      assume "k \<noteq> 1"
      then obtain j where "k = Suc (Suc j)" using "1.prems"(3) by (cases k; cases "k - 1") auto
      then have "(10::nat) ^ Suc 0 \<le> 10 ^ (k - 1)" by (intro power_increasing) simp_all
      then show False using True "1.prems"(1) by simp
    qed
    then show ?thesis using True by (simp add: dec_digit)
  next
    case False
    then obtain j where k: "k = Suc (Suc j)" using "1.prems"(2,3) by (cases k; cases "k - 1") auto
    have "length (dec (n div 10)) = k - 1"
    proof (rule 1(1) [OF False])
      show "10 ^ (k - 1 - 1) \<le> n div 10" using "1.prems"(1) by (simp add: k less_eq_div_iff_mult_less_eq mult.commute)
      show "n div 10 < 10 ^ (k - 1)" using "1.prems"(2) by (simp add: k div_less_iff_less_mult mult.commute)
    qed (simp add: k)
    moreover have "dec n = dec (n div 10) @ [digit_char (n mod 10)]" using False by (subst dec.simps) simp
    ultimately show ?thesis by (simp add: k)
  qed
qed

lemma digit_no_mark: "ascii_digit c \<Longrightarrow> \<not> is_e c" "ascii_digit c \<Longrightarrow> c \<noteq> CHR ''.''" "ascii_digit c \<Longrightarrow> c \<noteq> CHR ''+''"
    "ascii_digit c \<Longrightarrow> c \<noteq> CHR ''-''"
  by (auto simp: ascii_digit_def byte_val_def is_e_def)

text \<open>Digits with at most one point, and an exponent perhaps.\<close>

lemma point_value:
  assumes "list_all ascii_digit ip" "list_all ascii_digit fp" "ip \<noteq> []"
    and "m = ip \<and> fp = [] \<or> m = ip @ ''.'' @ fp"
  shows "parse_f64 m = Some (scaled (digits_num (ip @ fp)) (- int (length fp)))"
    and "parse_exponent ex = Some e \<Longrightarrow>
      parse_f64 (m @ ''e'' @ ex) = Some (scaled (digits_num (ip @ fp)) (e - int (length fp)))"
proof -
  have point: "is_e (CHR ''.'') = False" "ascii_digit (CHR ''.'') = False" "is_e (CHR ''e'')"
    by (simp_all add: is_e_def ascii_digit_def byte_val_def)
  have chars: "\<forall>c \<in> set m. \<not> is_e c" using assms digit_no_mark(1) point by (auto simp: list_all_iff)
  then have whole: "takeWhile (\<lambda>c. \<not> is_e c) m = m" "dropWhile (\<lambda>c. \<not> is_e c) m = []"
    "takeWhile (\<lambda>c. \<not> is_e c) (m @ ''e'' @ ex) = m" "dropWhile (\<lambda>c. \<not> is_e c) (m @ ''e'' @ ex) = ''e'' @ ex"
    using point by (simp_all add: takeWhile_append dropWhile_append)
  have no_dot: "CHR ''.'' \<notin> set ip" using assms(1) point by (auto simp: list_all_iff)
  then have split: "(case split_once (CHR ''.'') m of Some (i, f) \<Rightarrow> (i, f) | None \<Rightarrow> (m, [])) = (ip, fp)"
    using assms(4) by (auto simp: split_once_def takeWhile_append dropWhile_append)
  show "parse_f64 m = Some (scaled (digits_num (ip @ fp)) (- int (length fp)))"
    using assms(1-3) by (simp only: parse_f64_def Let_def whole split prod.case) simp
  show "parse_f64 (m @ ''e'' @ ex) = Some (scaled (digits_num (ip @ fp)) (e - int (length fp)))"
    if "parse_exponent ex = Some e"
    using assms(1-3) that by (simp only: parse_f64_def Let_def whole split prod.case) simp
qed

lemma digits_num_zeros [simp]: "digits_num (replicate n (CHR ''0'') @ ds) = digits_num ds"
proof (induction n)
  case (Suc n)
  have "digits_num ''0'' = 0" by (simp add: digits_num_def)
  then show ?case using Suc digits_num_append [of "''0''" "replicate n (CHR ''0'') @ ds"] by simp
qed simp

lemma digits_num_only_zeros [simp]: "digits_num (replicate n (CHR ''0'')) = 0"
  using digits_num_zeros [of n "[]"] by (simp add: digits_num_def)

lemma zeros_digits [simp]: "list_all ascii_digit (replicate n (CHR ''0''))"
  by (simp add: list_all_iff ascii_digit_def byte_val_def)

lemma scaled_shift: "scaled (q * 10 ^ t) s = scaled q (s + int t)"
proof (induction t arbitrary: s)
  case (Suc t)
  show ?case using Suc [of "s + 1"] scaled_tenth [of "q * 10 ^ t" s] by (simp add: algebra_simps)
qed simp

lemma take_digits: "list_all P xs \<Longrightarrow> list_all P (take n xs)" "list_all P xs \<Longrightarrow> list_all P (drop n xs)"
  by (auto simp: list_all_iff dest: in_set_takeD in_set_dropD)

lemma plain_text_value:
  assumes "list_all ascii_digit ds" "ds \<noteq> []"
  shows "parse_f64 (plain_text ds e) = Some (scaled (digits_num ds) (1 + e - int (length ds)))"
proof -
  consider (small) "e < 0" | (whole) "0 \<le> e" "int (length ds) \<le> e + 1" | (mixed) "0 \<le> e" "e + 1 < int (length ds)"
    by linarith
  then show ?thesis
  proof cases
    case small
    let ?z = "replicate (nat (- e) - 1) (CHR ''0'')"
    have "parse_f64 (''0'' @ ''.'' @ (?z @ ds)) = Some (scaled (digits_num (''0'' @ ?z @ ds)) (- int (length (?z @ ds))))"
      using assms by (intro point_value(1)) (simp_all add: ascii_digit_def byte_val_def)
    moreover have "digits_num (''0'' @ ?z @ ds) = digits_num ds"
      using digits_num_zeros [of "Suc (nat (- e) - 1)" ds] by simp
    moreover have "- int (length (?z @ ds)) = 1 + e - int (length ds)" using small by simp
    ultimately show ?thesis using small by (simp only: plain_text_def if_True) simp
  next
    case whole
    let ?t = "nat e + 1 - length ds"
    have "parse_f64 (ds @ replicate ?t (CHR ''0'')) = Some (scaled (digits_num (ds @ replicate ?t (CHR ''0'') @ [])) (- int (length [])))"
      using assms point_value(1) [of "ds @ replicate ?t (CHR ''0'')" "[]"] by simp
    moreover have "digits_num (ds @ replicate ?t (CHR ''0'')) = digits_num ds * 10 ^ ?t"
      by (simp add: digits_num_append)
    ultimately show ?thesis using whole by (simp add: plain_text_def scaled_shift of_nat_diff algebra_simps)
  next
    case mixed
    let ?i = "nat e + 1"
    have "parse_f64 (take ?i ds @ ''.'' @ drop ?i ds) = Some (scaled (digits_num (take ?i ds @ drop ?i ds)) (- int (length (drop ?i ds))))"
      using assms by (intro point_value(1)) (simp_all add: take_digits del: append_take_drop_id)
    moreover have "- int (length (drop ?i ds)) = 1 + e - int (length ds)" using mixed by simp
    ultimately show ?thesis using mixed by (simp add: plain_text_def)
  qed
qed

lemma signed_dec_value: "parse_exponent (signed_dec e) = Some e"
proof (cases "e < 0")
  case True
  then show ?thesis by (simp add: signed_dec_def parse_exponent_def Let_def dec_digits digits_num_dec)
next
  case False
  obtain c cs where d: "dec (nat e) = c # cs" by (meson dec_nonempty neq_Nil_conv)
  then have "ascii_digit c" using dec_digits [of "nat e"] by simp
  then show ?thesis using False d dec_digits [of "nat e"] digits_num_dec [of "nat e"] digit_no_mark(3,4) [of c]
    by (auto simp: signed_dec_def parse_exponent_def Let_def)
qed

lemma exp_text_value:
  assumes "list_all ascii_digit ds" "ds \<noteq> []"
  shows "parse_f64 (exp_text ds e) = Some (scaled (digits_num ds) (1 + e - int (length ds)))"
proof -
  let ?m = "take 1 ds @ (if length ds = 1 then [] else ''.'' @ drop 1 ds)"
  have "parse_f64 (?m @ ''e'' @ signed_dec e) =
      Some (scaled (digits_num (take 1 ds @ drop 1 ds)) (e - int (length (drop 1 ds))))"
    using assms by (intro point_value(2) signed_dec_value) (auto simp: take_digits simp del: append_take_drop_id)
  moreover have "e - int (length (drop 1 ds)) = 1 + e - int (length ds)" using assms(2) by (cases ds) simp_all
  ultimately show ?thesis by (simp only: exp_text_def append_take_drop_id append_assoc)
qed

lemma display_reads:
  assumes x: "f64_finite x" "\<not> f64_neg x" "x \<noteq> 0"
  shows "parse_f64 (display_f64 x) = Some x" "parse_f64 (display_exp x) = Some x"
proof -
  obtain q e where sh: "shortest x = (q, e)" by (cases "shortest x")
  obtain k where k: "digit_count q k" "scaled q (e - int k + 1) = x" using shortest_reads [OF x sh] .
  have q: "10 ^ (k - 1) \<le> nat q" "nat q < 10 ^ k" "0 < k" "0 \<le> q"
  proof -
    show "0 \<le> q" using k(1) by (auto simp: digit_count_def intro: order_trans [rotated])
    then show "10 ^ (k - 1) \<le> nat q" "nat q < 10 ^ k"
      using k(1) by (simp_all add: digit_count_def le_nat_iff nat_less_iff)
  qed (use k(1) in \<open>simp add: digit_count_def\<close>)
  have "length (dec (nat q)) = k" "digits_num (dec (nat q)) = q"
    using length_dec [OF q(1-3)] q(4) by (simp_all add: digits_num_dec)
  then show "parse_f64 (display_f64 x) = Some x" "parse_f64 (display_exp x) = Some x"
    using plain_text_value [OF dec_digits dec_nonempty, of "nat q" e] exp_text_value [OF dec_digits dec_nonempty, of "nat q" e]
      k(2) x(3) sh by (simp_all add: display_f64_def display_exp_def algebra_simps)
qed

lemma zero_reads: "parse_f64 ''0'' = Some 0"
proof -
  have "parse_f64 ''0'' = Some (scaled (digits_num ''0'') 0)"
    using point_value(1) [of "''0''" "[]" "''0''"] by (simp add: ascii_digit_def byte_val_def)
  moreover have "f64_of_ratio 0 1 = 0"
    by (simp add: f64_of_ratio_def Let_def int_log2.simps [of 0] round_ratio_def)
  ultimately show ?thesis by (simp add: digits_num_def scaled_def)
qed

lemma number_literal_readable:
  "case number_literal x of
     Some t \<Rightarrow> f64_finite x \<and> \<not> f64_neg x \<and> parse_f64 t = Some x
   | None \<Rightarrow> \<not> (f64_finite x \<and> \<not> f64_neg x)"
proof (cases "f64_finite x \<and> \<not> f64_neg x")
  case True
  then have f: "f64_finite x" "\<not> f64_neg x" by simp_all
  show ?thesis
  proof (cases "x = 0")
    case True
    then show ?thesis using f zero_reads by (simp add: number_literal_def display_f64_def)
  next
    case False
    then show ?thesis using f display_reads [OF f False] by (simp add: number_literal_def)
  qed
qed (auto simp: number_literal_def)

text \<open>
  C11. Every finite double that is not negative has a number literal, which reads back as the same
  double, bit for bit; no other double has one.
\<close>

theorem number_literal_reads_back:
  "case number_literal x of
     Some t \<Rightarrow> f64_finite x \<and> \<not> f64_neg x \<and> parse_f64 t = Some x
   | None \<Rightarrow> \<not> (f64_finite x \<and> \<not> f64_neg x)"
  by (rule number_literal_readable)

end
