(* ===== verification/Printer.thy ===== *)
theory Printer
  imports Parser Number_Text
begin

text \<open>
  Formulas printed as the text the parser reads: \<open>crates/client/src/dsl.rs\<close>. \<open>None\<close> is a shape without
  an exact spelling. The printers of compound formulas take \<open>ex\<close>, the recursive \<open>expr\<close>, which
  \<open>expr_dsl\<close> calls on smaller trees only; \<open>show_date\<close> is chrono's \<open>to_rfc3339\<close>, and \<open>lib\<close> the library
  the parser has too.
\<close>

section \<open>Names and literals\<close>

definition KEYWORDS :: "string list" where
  "KEYWORDS =
     [''NOT'', ''AND'', ''OR'', ''OVER'', ''TRUE'', ''FALSE'', ''WHERE'', ''INTO'', ''EXCEPT'', ''ALL'']"

text \<open>\<open>replace\<close> of a character by a doubled one.\<close>

definition doubled :: "char \<Rightarrow> string \<Rightarrow> string" where
  "doubled q s = concat (map (\<lambda>c. if c = q then [q, q] else [c]) s)"

definition bare_word :: "std_lib \<Rightarrow> string \<Rightarrow> bool" where
  "bare_word lib name =
     (case chars name of
        [] \<Rightarrow> False
      | c # cs \<Rightarrow>
          (is_alphabetic lib c \<or> c = ''_'') \<and> list_all (\<lambda>c. is_alphanumeric lib c \<or> c = ''_'') cs)"

definition ident_dsl :: "std_lib \<Rightarrow> string \<Rightarrow> string option" where
  "ident_dsl lib name =
     (if bare_word lib name \<and> \<not> list_ex (\<lambda>k. eq_ignore_ascii_case name k) KEYWORDS then Some name
      else if name \<noteq> [] then Some ([CHR 0x27] @ doubled (CHR 0x27) name @ [CHR 0x27]) else None)"

definition is_control :: "string \<Rightarrow> bool" where
  "is_control ch \<longleftrightarrow> code_point ch < 32 \<or> 127 \<le> code_point ch \<and> code_point ch < 160"

fun literal_dsl :: "(int \<Rightarrow> string) \<Rightarrow> val \<Rightarrow> string option" where
  "literal_dsl show_date (Number n) = number_literal n"
| "literal_dsl show_date (Boolean b) = Some (if b then ''TRUE'' else ''FALSE'')"
| "literal_dsl show_date (Text t) =
     (if CHR 0x5C \<notin> set t \<and> \<not> list_ex is_control (chars t)
      then Some ([CHR 0x22] @ doubled (CHR 0x22) t @ [CHR 0x22]) else None)"
| "literal_dsl show_date (DateTime d) = Some (''#'' @ show_date d @ ''#'')"
| "literal_dsl show_date (Enum _) = None"
| "literal_dsl show_date (Error _) = None"

definition category_dsl :: "std_lib \<Rightarrow> model \<Rightarrow> category_id \<Rightarrow> string option" where
  "category_dsl lib m c = Option.bind (hget (categories m) c) (\<lambda>k. ident_dsl lib (cat_name k))"

text \<open>All the texts, joined by commas.\<close>

definition commas :: "string option list \<Rightarrow> string option" where
  "commas ts = (if None \<in> set ts then None else Some (join_with '', '' (map the ts)))"

definition reference_dsl :: "std_lib \<Rightarrow> model \<Rightarrow> measure_id \<Rightarrow> category_id list \<Rightarrow> string option" where
  "reference_dsl lib m i by_cats =
     Option.bind (hget (measure_map m) i) (\<lambda>x.
     Option.bind (ident_dsl lib (m_name x)) (\<lambda>name.
       if by_cats = [] then Some name
       else map_option (\<lambda>cs. name @ ''['' @ cs @ '']'') (commas (map (category_dsl lib m) by_cats))))"

section \<open>Operators\<close>

fun prec :: "expr \<Rightarrow> nat" where
  "prec (BinaryOp b _ _) =
     (case b of
        Or \<Rightarrow> 1 | And \<Rightarrow> 2 | Eq \<Rightarrow> 4 | Ne \<Rightarrow> 4 | Lt \<Rightarrow> 4 | Le \<Rightarrow> 4 | Gt \<Rightarrow> 4 | Ge \<Rightarrow> 4
      | Concat \<Rightarrow> 5 | Add \<Rightarrow> 6 | Sub \<Rightarrow> 6 | Mul \<Rightarrow> 7 | Div \<Rightarrow> 7 | Pow \<Rightarrow> 9)"
| "prec (UnaryOp Not _) = 3"
| "prec (UnaryOp Neg _) = 8"
| "prec _ = 10"

fun symbol :: "binary_op \<Rightarrow> string" where
  "symbol Add = ''+''"
| "symbol Sub = ''-''"
| "symbol Mul = ''*''"
| "symbol Div = ''/''"
| "symbol And = ''AND''"
| "symbol Or = ''OR''"
| "symbol Eq = ''==''"
| "symbol Ne = ''<>''"
| "symbol Lt = ''<''"
| "symbol Le = ''<=''"
| "symbol Gt = ''>''"
| "symbol Ge = ''>=''"
| "symbol Pow = ''^''"
| "symbol Concat = ''&''"

definition parens :: "string \<Rightarrow> string" where
  "parens s = ''('' @ s @ '')''"

definition child_dsl :: "(expr \<Rightarrow> string option) \<Rightarrow> expr \<Rightarrow> nat \<Rightarrow> string option" where
  "child_dsl ex e least = map_option (\<lambda>s. if prec e < least then parens s else s) (ex e)"

text \<open>How tightly the sides of an operator of level \<open>p\<close> must bind.\<close>

definition side_levels :: "binary_op \<Rightarrow> nat \<Rightarrow> nat \<times> nat" where
  "side_levels b p = (if b = Pow then (p + 1, 8) else if p = 4 then (5, 5) else (p, p + 1))"

definition list_dsl :: "(expr \<Rightarrow> string option) \<Rightarrow> expr list \<Rightarrow> string option" where
  "list_dsl ex args = commas (map ex args)"

section \<open>Calls\<close>

text \<open>A window bound as written.\<close>

fun bound_dsl :: "expr \<Rightarrow> string option" where
  "bound_dsl (Literal (Text t)) = (if t = ''FIRST'' \<or> t = ''LAST'' then Some t else None)"
| "bound_dsl (Literal (Number n)) =
     (if f64_whole n = None then None
      else Some (if f64_whole n = Some 0 then ''THIS''
                 else if f64_neg n then ''THIS-'' @ display_f64 (f64_minus n)
                 else ''THIS+'' @ display_f64 n))"
| "bound_dsl _ = None"

text \<open>The clauses of an aggregation, the last of each kind, and the other arguments.\<close>

record agg_marks =
  am_pred :: "expr option"
  am_window :: "expr list option"
  am_into :: "expr list option"
  am_rest :: "expr list"

definition agg_mark :: "expr \<Rightarrow> agg_marks \<Rightarrow> agg_marks" where
  "agg_mark a k =
     (case a of
        Call f xs \<Rightarrow>
          if f = INTO then k\<lparr>am_into := Some xs\<rparr>
          else if f = WHERE then k\<lparr>am_pred := nth_arg xs 0\<rparr>
          else if f = WINDOW then k\<lparr>am_window := Some xs\<rparr>
          else k\<lparr>am_rest := am_rest k @ [a]\<rparr>
      | _ \<Rightarrow> k\<lparr>am_rest := am_rest k @ [a]\<rparr>)"

definition agg_split :: "expr list \<Rightarrow> agg_marks" where
  "agg_split args = fold agg_mark args \<lparr>am_pred = None, am_window = None, am_into = None, am_rest = []\<rparr>"

definition over_at :: "fn_def \<Rightarrow> expr list \<Rightarrow> nat option" where
  "over_at d rest =
     (let is_reduced = (\<lambda>i. reduced d i (rest ! i))
      in case fover d of
           OverLeading _ \<Rightarrow> find is_reduced (rev [0..<length rest])
         | _ \<Rightarrow> find is_reduced [0..<length rest])"

text \<open>\<open>OVER\<close>, the window and \<open>WHERE\<close>, after the argument they stand with.\<close>

definition over_text ::
  "std_lib \<Rightarrow> model \<Rightarrow> (expr \<Rightarrow> string option) \<Rightarrow> agg_marks \<Rightarrow> category_id list \<Rightarrow> string option" where
  "over_text lib m ex k over =
     Option.bind (commas (map (category_dsl lib m) over)) (\<lambda>cs.
     Option.bind (case am_window k of
         None \<Rightarrow> Some []
       | Some [lo, hi] \<Rightarrow>
           if length over = 1
           then Option.bind (bound_dsl lo) (\<lambda>l. map_option (\<lambda>h. ''['' @ l @ ''..'' @ h @ '']'') (bound_dsl hi))
           else None
       | Some _ \<Rightarrow> None) (\<lambda>w.
     Option.bind (case am_pred k of None \<Rightarrow> Some [] | Some p \<Rightarrow> map_option (\<lambda>t. '' WHERE '' @ t) (ex p)) (\<lambda>wh.
       Some ('' OVER '' @ cs @ w @ wh))))"

text \<open>The texts of the arguments from \<open>i\<close> on; \<open>over\<close> is the clause so far.\<close>

fun agg_parts ::
  "std_lib \<Rightarrow> model \<Rightarrow> (expr \<Rightarrow> string option) \<Rightarrow> fn_def \<Rightarrow> agg_marks \<Rightarrow> nat option \<Rightarrow> nat \<Rightarrow>
   category_id list option \<Rightarrow> expr list \<Rightarrow> (string list \<times> category_id list option) option" where
  "agg_parts lib m ex d k at i over [] = Some ([], over)"
| "agg_parts lib m ex d k at i over (a # as) =
     Option.bind
       (if \<not> reduced d i a then map_option (\<lambda>t. (t, over)) (ex a)
        else case a of
            Ref r sp \<Rightarrow>
              if sexcept sp \<noteq> [] \<or> sover sp = [] \<or> (case over of Some o' \<Rightarrow> o' \<noteq> sover sp | None \<Rightarrow> False)
              then None
              else Option.bind (reference_dsl lib m r (sby sp)) (\<lambda>t.
                   map_option (\<lambda>c. (t @ c, Some (sover sp)))
                     (if Some i = at then over_text lib m ex k (sover sp) else Some []))
          | _ \<Rightarrow> None) (\<lambda>(t, over).
     map_option (\<lambda>(ts, over). (t # ts, over)) (agg_parts lib m ex d k at (i + 1) over as))"

definition aggregation_dsl ::
  "std_lib \<Rightarrow> model \<Rightarrow> (expr \<Rightarrow> string option) \<Rightarrow> fn_def \<Rightarrow> expr list \<Rightarrow> string option" where
  "aggregation_dsl lib m ex d args =
     (let k = agg_split args; rest = am_rest k
      in Option.bind (agg_parts lib m ex d k (over_at d rest) 0 None rest) (\<lambda>(parts, over).
         if over = None then None
         else Option.bind (case am_into k of
                None \<Rightarrow> Some parts
              | Some ks \<Rightarrow>
                  if parts = [] then None
                  else map_option (\<lambda>t. butlast parts @ [List.last parts @ '' INTO '' @ t]) (list_dsl ex ks))
              (\<lambda>parts. Some (fname d @ ''('' @ join_with '', '' parts @ '')''))))"

definition fold_dsl ::
  "std_lib \<Rightarrow> model \<Rightarrow> (expr \<Rightarrow> string option) \<Rightarrow> string \<Rightarrow> expr list \<Rightarrow> string option" where
  "fold_dsl lib m ex name args =
     (case args of
        [init, Ref x sp, body] \<Rightarrow>
          (case sover sp of
             [cat] \<Rightarrow>
               Option.bind (ex init) (\<lambda>i.
               Option.bind (reference_dsl lib m x (sby sp)) (\<lambda>r.
               Option.bind (category_dsl lib m cat) (\<lambda>c.
               Option.bind (ex body) (\<lambda>b.
                 Some (name @ ''('' @ i @ '', '' @ r @ '' OVER '' @ c @ '', LAMBDA(acc0, val0, '' @ b @ ''))'')))))
           | _ \<Rightarrow> None)
      | _ \<Rightarrow> None)"

definition fixpoint_dsl :: "(expr \<Rightarrow> string option) \<Rightarrow> expr \<Rightarrow> expr \<Rightarrow> expr list \<Rightarrow> string option" where
  "fixpoint_dsl ex init body opts =
     Option.bind (ex init) (\<lambda>i.
     Option.bind (ex body) (\<lambda>b.
       if None \<in> set (map ex opts) then None
       else Some (''FIXPOINT('' @ i @ '', LAMBDA(acc0, '' @ b @ '')'' @
              concat (map (\<lambda>t. '', '' @ the (ex t)) opts) @ '')'')))"

definition call_dsl ::
  "std_lib \<Rightarrow> model \<Rightarrow> (expr \<Rightarrow> string option) \<Rightarrow> func_id \<Rightarrow> expr list \<Rightarrow> string option" where
  "call_dsl lib m ex f args =
     (case named_lambda_of f of
        Some i \<Rightarrow>
          Option.bind (bget (lambdas m) i) (\<lambda>l.
          Option.bind (ident_dsl lib (l_name l)) (\<lambda>n. map_option (\<lambda>t. n @ parens t) (list_dsl ex args)))
      | None \<Rightarrow>
          Option.bind (by_id f) (\<lambda>d.
            if fname d = ''SCAN'' \<or> fname d = ''REDUCE'' then fold_dsl lib m ex (fname d) args
            else case (fname d = ''FIXPOINT'', args) of
                (True, init # body # opts) \<Rightarrow> fixpoint_dsl ex init body opts
              | _ \<Rightarrow>
                  if is_aggregation f then aggregation_dsl lib m ex d args
                  else map_option (\<lambda>t. fname d @ parens t) (list_dsl ex args)))"

section \<open>The printer\<close>

definition expr_here ::
  "std_lib \<Rightarrow> (int \<Rightarrow> string) \<Rightarrow> model \<Rightarrow> (expr \<Rightarrow> string option) \<Rightarrow> expr \<Rightarrow> string option" where
  "expr_here lib show_date m ex e =
     (case e of
        Literal v \<Rightarrow> literal_dsl show_date v
      | Ref i sp \<Rightarrow>
          (case lambda_slot_of i of
             Some (k, j) \<Rightarrow> Some ((if j = 0 then ''acc'' else ''val'') @ dec (unat k))
           | None \<Rightarrow> if sover sp = [] \<and> sexcept sp = [] then reference_dsl lib m i (sby sp) else None)
      | UnaryOp u a \<Rightarrow>
          map_option (\<lambda>s. (case u of Neg \<Rightarrow> ''-'' | Not \<Rightarrow> ''NOT '') @ s) (child_dsl ex a (prec e))
      | BinaryOp b l r \<Rightarrow>
          (let (lmin, rmin) = side_levels b (prec e)
           in Option.bind (child_dsl ex l lmin) (\<lambda>ls.
              map_option (\<lambda>rs. ls @ '' '' @ symbol b @ '' '' @ rs) (child_dsl ex r rmin)))
      | Call f args \<Rightarrow> call_dsl lib m ex f args
      | Category c \<Rightarrow> category_dsl lib m c)"

function expr_dsl :: "std_lib \<Rightarrow> (int \<Rightarrow> string) \<Rightarrow> model \<Rightarrow> expr \<Rightarrow> string option" where
  "expr_dsl lib show_date m e =
     expr_here lib show_date m (\<lambda>a. if size a < size e then expr_dsl lib show_date m a else None) e"
  by pat_completeness auto
termination
  by (relation "measure (\<lambda>(lib, show_date, m, e). size e)") auto

declare expr_dsl.simps [simp del]

definition formula_dsl :: "std_lib \<Rightarrow> (int \<Rightarrow> string) \<Rightarrow> model \<Rightarrow> formula \<Rightarrow> string option" where
  "formula_dsl lib show_date m f = expr_dsl lib show_date m (fexpr f)"

end
