(* ===== verification/Printer_Parse.thy ===== *)
theory Printer_Parse
  imports Printer Parser_Logic
begin

text \<open>
  What the parser does on the tokens of a printed formula. \<open>toks\<close> are the tokens \<open>expr_dsl\<close>'s text stands
  for, \<open>plain\<close> the formulas without aggregations, folds and named LAMBDAs whose names find what they
  name, and \<open>reads\<close> says that a rule of the grammar takes exactly these tokens and returns the formula,
  whatever calm token follows.
\<close>

section \<open>Tokens of a formula\<close>

definition word_tok :: "std_lib \<Rightarrow> string \<Rightarrow> tok" where
  "word_tok lib n =
     (if bare_word lib n \<and> \<not> list_ex (\<lambda>k. eq_ignore_ascii_case n k) KEYWORDS then KIdent n else KQIdent n)"

definition measure_name_of :: "model \<Rightarrow> measure_id \<Rightarrow> string" where
  "measure_name_of m i = (case hget (measure_map m) i of Some x \<Rightarrow> m_name x | None \<Rightarrow> [])"

definition category_name_of :: "model \<Rightarrow> category_id \<Rightarrow> string" where
  "category_name_of m c = (case hget (categories m) c of Some k \<Rightarrow> cat_name k | None \<Rightarrow> [])"

fun comma_toks :: "tok list list \<Rightarrow> tok list" where
  "comma_toks [] = []"
| "comma_toks [ts] = ts"
| "comma_toks (ts # tss) = ts @ KOp '','' # comma_toks tss"

definition ref_toks :: "std_lib \<Rightarrow> model \<Rightarrow> measure_id \<Rightarrow> category_id list \<Rightarrow> tok list" where
  "ref_toks lib m i cs =
     word_tok lib (measure_name_of m i) #
     (if cs = [] then []
      else KOp ''['' # comma_toks (map (\<lambda>c. [word_tok lib (category_name_of m c)]) cs) @ [KOp '']''])"

fun literal_tok :: "val \<Rightarrow> tok" where
  "literal_tok (Number n) = KNumber n"
| "literal_tok (Boolean b) = KIdent (if b then ''TRUE'' else ''FALSE'')"
| "literal_tok (Text t) = KStr t"
| "literal_tok (DateTime d) = KDate d"
| "literal_tok _ = KOp []"

definition symbol_tok :: "binary_op \<Rightarrow> tok" where
  "symbol_tok b = (if b = And \<or> b = Or then KIdent (symbol b) else KOp (symbol b))"

fun unary_tok :: "unary_op \<Rightarrow> tok" where
  "unary_tok Neg = KOp ''-''"
| "unary_tok Not = KIdent ''NOT''"

fun toks :: "std_lib \<Rightarrow> model \<Rightarrow> expr \<Rightarrow> tok list" where
  "toks lib m (Literal v) = [literal_tok v]"
| "toks lib m (Ref i sp) = ref_toks lib m i (sby sp)"
| "toks lib m (UnaryOp u a) =
     unary_tok u # (if prec a < prec (UnaryOp u a) then KOp ''('' # toks lib m a @ [KOp '')''] else toks lib m a)"
| "toks lib m (BinaryOp b l r) =
     (if prec l < fst (side_levels b (prec (BinaryOp b l r)))
      then KOp ''('' # toks lib m l @ [KOp '')''] else toks lib m l) @
     symbol_tok b #
     (if prec r < snd (side_levels b (prec (BinaryOp b l r)))
      then KOp ''('' # toks lib m r @ [KOp '')''] else toks lib m r)"
| "toks lib m (Call f args) =
     KIdent (case by_id f of Some d \<Rightarrow> fname d | None \<Rightarrow> []) # KOp ''('' # comma_toks (map (toks lib m) args) @ [KOp '')'']"
| "toks lib m (Category c) = [word_tok lib (category_name_of m c)]"

definition child_toks :: "std_lib \<Rightarrow> model \<Rightarrow> expr \<Rightarrow> nat \<Rightarrow> tok list" where
  "child_toks lib m a k = (if prec a < k then KOp ''('' # toks lib m a @ [KOp '')''] else toks lib m a)"

lemma toks_child [simp]:
  "toks lib m (UnaryOp u a) = unary_tok u # child_toks lib m a (prec (UnaryOp u a))"
  "toks lib m (BinaryOp b l r) =
     child_toks lib m l (fst (side_levels b (prec (BinaryOp b l r)))) @
     symbol_tok b # child_toks lib m r (snd (side_levels b (prec (BinaryOp b l r))))"
  by (simp_all add: child_toks_def)

declare toks.simps(3,4) [simp del]

section \<open>Formulas the text determines\<close>

fun is_category :: "expr \<Rightarrow> bool" where
  "is_category (Category _) = True"
| "is_category _ = False"

definition finds_measure :: "model \<Rightarrow> measure_id \<Rightarrow> bool" where
  "finds_measure m i \<longleftrightarrow>
     hget (measure_map m) i \<noteq> None \<and> map_option m_id (fst (measure_by_name (measure_name_of m i) m)) = Some i"

definition finds_category :: "model \<Rightarrow> category_id \<Rightarrow> bool" where
  "finds_category m c \<longleftrightarrow>
     hget (categories m) c \<noteq> None \<and> map_option cat_id (fst (category_by_name (category_name_of m c) m)) = Some c"

text \<open>The special forms and the prefix operator.\<close>

definition FORMS :: "string list" where
  "FORMS = [''LET'', ''LAMBDA'', ''MAP'', ''SEQUENCE'', ''MAKEARRAY'', ''BYROW'', ''BYCOL'', ''REDUCE'', ''SCAN'', ''FIXPOINT'', ''NOT'']"

definition plain_call :: "func_id \<Rightarrow> expr list \<Rightarrow> bool" where
  "plain_call f args \<longleftrightarrow>
     (case by_id f of
        None \<Rightarrow> False
      | Some d \<Rightarrow>
          named_lambda_of f = None \<and> \<not> is_aggregation f \<and> to_ascii_uppercase (fname d) \<notin> set FORMS \<and>
          callable (fname d) = Some d \<and> accepts d (length args) \<and>
          list_all (\<lambda>(i, a). is_category a \<longleftrightarrow> param d i = ACategory \<and> aggregation (fname d) = None)
            (enumerate 0 args))"

fun plain :: "model \<Rightarrow> expr \<Rightarrow> bool" where
  "plain m (Literal v) = True"
| "plain m (Ref i sp) \<longleftrightarrow>
     lambda_slot_of i = None \<and> sover sp = [] \<and> sexcept sp = [] \<and> finds_measure m i \<and> list_all (finds_category m) (sby sp)"
| "plain m (UnaryOp u a) \<longleftrightarrow> \<not> is_category a \<and> plain m a"
| "plain m (BinaryOp b l r) \<longleftrightarrow> \<not> is_category l \<and> \<not> is_category r \<and> plain m l \<and> plain m r"
| "plain m (Call f args) \<longleftrightarrow> plain_call f args \<and> list_all (plain m) args"
| "plain m (Category c) \<longleftrightarrow> finds_category m c"

text \<open>The nesting the parser counts.\<close>

fun nesting :: "expr \<Rightarrow> nat" where
  "nesting (UnaryOp u a) = 1 + (if prec a < prec (UnaryOp u a) then 1 + nesting a else nesting a)"
| "nesting (BinaryOp b l r) =
     (let (lmin, rmin) = side_levels b (prec (BinaryOp b l r))
      in max (if prec l < lmin then 1 + nesting l else nesting l)
           ((if b = Pow then 1 else 0) + (if prec r < rmin then 1 + nesting r else nesting r)))"
| "nesting (Call f args) = 1 + max_list (map nesting args)"
| "nesting _ = 1"

definition child_nesting :: "expr \<Rightarrow> nat \<Rightarrow> nat" where
  "child_nesting a k = (if prec a < k then 1 + nesting a else nesting a)"

lemma max_list_mono: "list_all2 (\<le>) ns ms \<Longrightarrow> max_list ns \<le> max_list ms"
  by (induction rule: list_all2_induct) auto

lemma max_list_ge: "n \<in> set ns \<Longrightarrow> n \<le> max_list ns"
  by (induction ns) auto

lemma max_list_le: "\<forall>n \<in> set ns. n \<le> k \<Longrightarrow> max_list ns \<le> k"
  by (induction ns) auto

lemma nesting_levels: "nesting e \<le> 2 * levels e"
proof (induction e)
  case (BinaryOp b l r)
  then show ?case by (auto simp: Let_def split: prod.splits)
next
  case (Call f args)
  have "max_list (map nesting args) \<le> 2 * max_list (map levels args)"
  proof (rule max_list_le, safe)
    fix n assume "n \<in> set (map nesting args)"
    then obtain a where a: "a \<in> set args" "n = nesting a" by auto
    then have "levels a \<le> max_list (map levels args)" by (intro max_list_ge) simp
    then show "n \<le> 2 * max_list (map levels args)" using Call a by fastforce
  qed
  then show ?case by auto
qed auto

section \<open>States\<close>

definition rem :: "parser \<Rightarrow> tok list" where
  "rem s = map fst (List.drop (p_pos s) (p_toks s))"

definition moved :: "parser \<Rightarrow> nat \<Rightarrow> parser" where
  "moved s n = s\<lparr>p_pos := p_pos s + n\<rparr>"

lemma moved_fields [simp]:
  "rem (moved s n) = List.drop n (rem s)" "p_model (moved s n) = p_model s" "p_scope (moved s n) = p_scope s"
  "p_depth (moved s n) = p_depth s" "p_toks (moved s n) = p_toks s" "max_nest (moved s n) = max_nest s"
  "max_depth (moved s n) = max_depth s" "moved (moved s n) k = moved s (n + k)" "moved s 0 = s"
  "p_pos (moved s n) = p_pos s + n" "p_depth_update f (moved s n) = moved (p_depth_update f s) n"
  "p_lib (moved s n) = p_lib s" "p_default (moved s n) = p_default s"
  by (simp_all add: rem_def moved_def drop_map max_nest_def max_depth_def add.commute)

lemma depth_fields [simp]:
  "rem (s\<lparr>p_depth := d\<rparr>) = rem s"
  by (simp add: rem_def)

lemma tok_at_rem: "tok_at k s = nth_arg (rem s) k"
  by (auto simp: tok_at_def rem_def nth_arg_def prod_eq_iff)

lemma peek_rem [simp]: "rem s = t # ts \<Longrightarrow> peek s = Some t" "rem s = [] \<Longrightarrow> peek s = None"
  by (simp_all add: peek_def tok_at_rem nth_arg_def)

lemma rem_inside: "rem s = t # ts \<Longrightarrow> p_pos s < length (p_toks s)"
  by (rule ccontr) (simp add: rem_def)

lemma bump_rem [simp]: "rem s = t # ts \<Longrightarrow> bump s = Inr ((), moved s 1)"
  using rem_inside [of s] by (simp add: bump_def pmod_def moved_def)

lemma eat_op_rem: "eat_op o' s = (if peek s = Some (KOp o') then Inr (True, moved s 1) else Inr (False, s))"
  by (simp add: eat_op_def moved_def)

lemma expect_rem [simp]: "rem s = KOp o' # ts \<Longrightarrow> expect_op o' what s = Inr ((), moved s 1)"
  by (simp add: expect_op_def pbind_def eat_op_rem pret_def)

lemma loop_fuel_moved [simp]: "loop_fuel (moved s n) = loop_fuel s" "loop_fuel (s\<lparr>p_depth := d\<rparr>) = loop_fuel s"
  by (simp_all add: loop_fuel_def)

lemma rem_fuel: "length (rem s) < loop_fuel s"
  by (simp add: rem_def loop_fuel_def)

lemmas runs = pbind_def pthen_def pget_def pmod_def pret_def

section \<open>Calm tokens\<close>

fun infix_level :: "tok \<Rightarrow> nat" where
  "infix_level (KOp t) =
     (if t \<in> {'')'', '','', '']''} then 0
      else if t \<in> fst ` set comparisons then 4
      else if t = ''&'' then 5
      else if t \<in> {''+'', ''-''} then 6
      else if t \<in> {''*'', ''/''} then 7
      else if t = ''^'' then 9
      else if t = ''%'' then 10
      else 11)"
| "infix_level (KIdent w) =
     (if eq_ignore_ascii_case w ''or'' then 1 else if eq_ignore_ascii_case w ''and'' then 2 else 0)"
| "infix_level _ = 0"

definition calm :: "nat \<Rightarrow> tok list \<Rightarrow> bool" where
  "calm k ts \<longleftrightarrow> ts = [] \<or> infix_level (hd ts) < k"

lemma no_level_eight: "infix_level t < 9 \<Longrightarrow> infix_level t < 8"
  by (cases t) (auto simp: comparisons_def split: if_splits)

lemma calm_mono: "calm k ts \<Longrightarrow> k \<le> j \<Longrightarrow> calm j ts"
  by (auto simp: calm_def)

lemma rem_cases:
  obtains "rem s = []" "peek s = None" | t ts where "rem s = t # ts" "peek s = Some t"
  by (cases "rem s") auto

lemma calm_eat: "calm k (rem s) \<Longrightarrow> k \<le> infix_level (KOp o') \<Longrightarrow> eat_op o' s = Inr (False, s)"
  by (cases s rule: rem_cases) (auto simp: eat_op_rem calm_def)

lemma calm_op:
  assumes "calm k (rem s)" "\<forall>t \<in> fst ` set ops. k \<le> infix_level (KOp t)"
  shows "op_here ops s = None"
proof (cases "peek s")
  case (Some t)
  then obtain ts where r: "rem s = t # ts" by (cases s rule: rem_cases) auto
  show ?thesis
  proof (cases t)
    case (KOp x)
    then have "x \<notin> fst ` set ops" using assms r by (auto simp: calm_def simp del: infix_level.simps)
    then show ?thesis using Some KOp by (simp add: op_here_def map_of_eq_None_iff)
  qed (simp_all add: op_here_def Some)
qed (simp add: op_here_def)

lemma calm_kw: "calm k (rem s) \<Longrightarrow> (\<And>w. eq_ignore_ascii_case w kw \<Longrightarrow> k \<le> infix_level (KIdent w)) \<Longrightarrow> kw_here kw b s = None"
  by (cases s rule: rem_cases) (force simp: kw_here_def peek_kw_def calm_def split: tok.splits)+

lemma lower_or_and: "to_ascii_lowercase ''or'' \<noteq> to_ascii_lowercase ''and''"
  by code_simp

lemma kw_levels:
  "eq_ignore_ascii_case w ''or'' \<Longrightarrow> infix_level (KIdent w) = 1"
  "eq_ignore_ascii_case w ''and'' \<Longrightarrow> infix_level (KIdent w) = 2"
  using lower_or_and by (auto simp: eq_ignore_ascii_case_def)

section \<open>Reading\<close>

definition small :: "parser \<Rightarrow> expr \<Rightarrow> bool" where
  "small s e \<longleftrightarrow> levels e \<le> max_depth s \<and> node_count e \<le> MAX_FORMULA_NODES"

lemma small_update [simp]: "small (moved s n) e = small s e" "small (s\<lparr>p_depth := d\<rparr>) e = small s e"
  by (simp_all add: small_def)

lemma small_exact: "small s e \<Longrightarrow> depth_and_nodes e = (levels e, node_count e)"
  unfolding depth_and_nodes_def small_def by (subst walk_exact) simp_all

definition reads :: "model \<Rightarrow> nat \<Rightarrow> expr pm \<Rightarrow> tok list \<Rightarrow> nat \<Rightarrow> expr \<Rightarrow> bool" where
  "reads m need p ts k e \<longleftrightarrow>
     (\<forall>s rest. rem s = ts @ rest \<longrightarrow> p_model s = m \<longrightarrow> p_scope s = [] \<longrightarrow> p_depth s + need \<le> max_nest s \<longrightarrow>
        small s e \<longrightarrow> calm k rest \<longrightarrow> p s = Inr (e, moved s (length ts)))"

lemma readsD:
  "reads m need p ts k e \<Longrightarrow> rem s = ts @ rest \<Longrightarrow> p_model s = m \<Longrightarrow> p_scope s = [] \<Longrightarrow>
   p_depth s + need \<le> max_nest s \<Longrightarrow> small s e \<Longrightarrow> calm k rest \<Longrightarrow> p s = Inr (e, moved s (length ts))"
  by (simp add: reads_def)

lemma reads_calm: "reads m need p ts k e \<Longrightarrow> j \<le> k \<Longrightarrow> reads m need p ts j e"
  by (auto simp: reads_def dest: calm_mono)

lemma reads_need: "reads m need p ts k e \<Longrightarrow> need \<le> need' \<Longrightarrow> reads m need' p ts k e"
  by (auto simp: reads_def)

definition level :: "nat \<Rightarrow> nat \<Rightarrow> expr pm" where
  "level k n =
     (if k \<le> 1 then parse_or (unary_at n) else if k = 2 then parse_and (unary_at n)
      else if k = 3 then parse_not (unary_at n) else if k = 4 then parse_comparison (unary_at n)
      else if k = 5 then parse_concat (unary_at n) else if k = 6 then parse_additive (unary_at n)
      else if k = 7 then parse_term (unary_at n) else if k = 8 then unary_at n
      else if k = 9 then parse_power (parse_or (unary_at (n - 1))) (unary_at (n - 1))
      else parse_postfix (parse_or (unary_at (n - 1))))"

text \<open>The operator of a chain's level.\<close>

definition chain_op :: "nat \<Rightarrow> parser \<Rightarrow> binary_op option" where
  "chain_op k =
     (if k = 1 then kw_here ''or'' Or else if k = 2 then kw_here ''and'' And
      else if k = 5 then op_here [(''&'', Concat)]
      else if k = 6 then op_here [(''+'', Add), (''-'', Sub)] else op_here [(''*'', Mul), (''/'', Div)])"

lemma level_chain: "k \<in> {1, 2, 5, 6, 7} \<Longrightarrow> level k n = chain (chain_op k) (level (k + 1) n)"
  by (auto simp: level_def chain_op_def parse_or_def parse_and_def parse_concat_def parse_additive_def parse_term_def)

lemma chain_op_calm: "k \<in> {1, 2, 5, 6, 7} \<Longrightarrow> calm k (rem s) \<Longrightarrow> chain_op k s = None"
  by (auto simp: chain_op_def comparisons_def intro!: calm_op calm_kw dest: kw_levels simp del: infix_level.simps(2))

lemma reads_chain:
  assumes k: "k \<in> {1, 2, 5, 6, 7}" and r: "reads m need (level (k + 1) n) ts (k + 1) e"
  shows "reads m need (level k n) ts k e"
  unfolding reads_def
proof (intro allI impI)
  fix s rest
  assume s: "rem s = ts @ rest" "p_model s = m" "p_scope s = []" "p_depth s + need \<le> max_nest s" "small s e"
    and c: "calm k rest"
  have "calm (k + 1) rest" using c by (rule calm_mono) simp
  note r1 = readsD [OF r s this]
  have "chain_op k (moved s (length ts)) = None" using k c s(1) by (intro chain_op_calm) simp_all
  then show "level k n s = Inr (e, moved s (length ts))"
    using r1 unfolding level_chain [OF k]
    by (simp add: chain_def runs loop_fuel_def)
qed

text \<open>The other levels, when nothing of theirs follows or precedes.\<close>

definition is_not :: "tok \<Rightarrow> bool" where
  "is_not t \<longleftrightarrow> (case t of KIdent w \<Rightarrow> eq_ignore_ascii_case w ''not'' | _ \<Rightarrow> False)"

text \<open>No prefix operator of a level below \<open>k\<close> in front.\<close>

definition opens :: "nat \<Rightarrow> tok list \<Rightarrow> bool" where
  "opens k ts \<longleftrightarrow> ts \<noteq> [] \<and> (9 \<le> k \<longrightarrow> hd ts \<noteq> KOp ''-'') \<and> (4 \<le> k \<longrightarrow> \<not> is_not (hd ts))"

lemma prefixed_none:
  assumes "\<not> here s" "m s = Inr (e, s')" "p_depth s' = p_depth s"
  shows "prefixed here op m s = Inr (e, s')"
  using assms by (simp add: prefixed_def runs loop_fuel_def)

lemma reads_power:
  assumes r: "reads m need (level 10 n) ts 10 e"
  shows "reads m need (level 9 n) ts 9 e"
  unfolding reads_def
proof (intro allI impI)
  fix s rest
  assume s: "rem s = ts @ rest" "p_model s = m" "p_scope s = []" "p_depth s + need \<le> max_nest s" "small s e"
    and c: "calm 9 rest"
  have "calm 10 rest" using c by (rule calm_mono) simp
  note r1 = readsD [OF r s this]
  have "eat_op ''^'' (moved s (length ts)) = Inr (False, moved s (length ts))"
    using c s(1) by (intro calm_eat [of 9]) (simp_all add: comparisons_def)
  then show "level 9 n s = Inr (e, moved s (length ts))"
    using r1 by (simp add: level_def parse_power_def runs)
qed

lemma unary_level: "0 < n \<Longrightarrow> level 8 n s = prefixed (\<lambda>s. peek s = Some (KOp ''-'')) Neg (level 9 n) s"
  by (cases n) (simp_all add: level_def parse_unary_def)

lemma not_level: "level 3 n s = prefixed (peek_kw ''not'') Not (level 4 n) s"
  by (simp add: level_def parse_not_def)

lemma reads_prefix:
  assumes r: "reads m need (level (k + 1) n) ts (k + 1) e" and o': "opens (k + 1) ts" and k: "k = 8 \<and> 0 < n \<or> k = 3"
  shows "reads m need (level k n) ts k e"
  unfolding reads_def
proof (intro allI impI)
  fix s rest
  assume s: "rem s = ts @ rest" "p_model s = m" "p_scope s = []" "p_depth s + need \<le> max_nest s" "small s e"
    and c: "calm k rest"
  have "calm (k + 1) rest" using c by (rule calm_mono) simp
  note r1 = readsD [OF r s this]
  obtain t ts' where "rem s = t # ts'" "t = hd ts" using o' s(1) by (cases ts) (auto simp: opens_def)
  then show "level k n s = Inr (e, moved s (length ts))"
    using k r1 o' by (auto simp: unary_level not_level opens_def peek_kw_def is_not_def split: tok.splits intro!: prefixed_none)
qed

lemma reads_comparison:
  assumes r: "reads m need (level 5 n) ts 5 e"
  shows "reads m need (level 4 n) ts 4 e"
  unfolding reads_def
proof (intro allI impI)
  fix s rest
  assume s: "rem s = ts @ rest" "p_model s = m" "p_scope s = []" "p_depth s + need \<le> max_nest s" "small s e"
    and c: "calm 4 rest"
  have "calm 5 rest" using c by (rule calm_mono) simp
  note r1 = readsD [OF r s this]
  have "op_here comparisons (moved s (length ts)) = None"
    using c s(1) by (intro calm_op [of 4]) (auto simp: comparisons_def)
  then show "level 4 n s = Inr (e, moved s (length ts))"
    using r1 by (simp add: level_def parse_comparison_def runs)
qed

lemma opens_mono: "opens k ts \<Longrightarrow> j \<le> k \<Longrightarrow> opens j ts"
  by (auto simp: opens_def)

lemma reads_step:
  assumes "reads m need (level (k + 1) n) ts (k + 1) e" "opens (k + 1) ts" "1 \<le> k" "k < 10" "0 < n"
  shows "reads m need (level k n) ts k e"
proof -
  have "k = 1 \<or> k = 2 \<or> k = 3 \<or> k = 4 \<or> k = 5 \<or> k = 6 \<or> k = 7 \<or> k = 8 \<or> k = 9" using assms(3,4) by arith
  moreover have ?thesis if "k \<in> {1, 2, 5, 6, 7}" using that assms(1) by (rule reads_chain)
  moreover have ?thesis if "k = 3 \<or> k = 8"
    using assms(1,2) by (rule reads_prefix) (use that assms(5) in auto)
  moreover have ?thesis if "k = 4" using that assms(1) by (simp add: reads_comparison)
  moreover have ?thesis if "k = 9" using that assms(1) by (simp add: reads_power)
  ultimately show ?thesis by (elim disjE) simp_all
qed

lemma reads_lower:
  assumes "j \<le> k" "reads m need (level k n) ts k e" "opens k ts" "1 \<le> j" "k \<le> 10" "0 < n"
  shows "reads m need (level j n) ts j e"
  using assms
proof (induction j rule: inc_induct)
  case (step i)
  then show ?case using reads_step [of m need i n ts e] opens_mono [of k ts "Suc i"] by simp
qed simp

section \<open>Primaries\<close>

text \<open>A primary, one level of nesting down.\<close>

lemma reads_postfix:
  assumes "0 < need"
    and "\<And>s rest. rem s = ts @ rest \<Longrightarrow> p_model s = m \<Longrightarrow> p_scope s = [] \<Longrightarrow> p_depth s + (need - 1) \<le> max_nest s \<Longrightarrow>
      small s e \<Longrightarrow> calm 10 rest \<Longrightarrow>
      primary_inner (parse_or (unary_at (n - 1))) s = Inr (e, moved s (length ts))"
  shows "reads m need (level 10 n) ts 10 e"
  unfolding reads_def
proof (intro allI impI)
  fix s rest
  assume s: "rem s = ts @ rest" "p_model s = m" "p_scope s = []" "p_depth s + need \<le> max_nest s" "small s e"
    and c: "calm 10 rest"
  let ?s = "s\<lparr>p_depth := p_depth s + 1\<rparr>"
  have "primary_inner (parse_or (unary_at (n - 1))) ?s = Inr (e, moved ?s (length ts))"
    using assms(1) s c by (intro assms(2) [of _ rest]) (simp_all add: max_nest_def)
  moreover have "\<not> max_nest ?s < p_depth ?s" using s(4) assms(1) by (simp add: max_nest_def)
  ultimately have p: "parse_primary (parse_or (unary_at (n - 1))) s = Inr (e, moved s (length ts))"
    by (simp add: parse_primary_def nested_def runs)
  have "eat_op ''%'' (moved s (length ts)) = Inr (False, moved s (length ts))"
    using c s(1) by (intro calm_eat [of 10]) (simp_all add: comparisons_def)
  with p show "level 10 n s = Inr (e, moved s (length ts))"
    by (simp add: level_def parse_postfix_def runs loop_fuel_def)
qed

lemma reads_parens:
  assumes "reads m need (level 1 (n - 1)) ts 1 e"
  shows "reads m (1 + need) (level 10 n) (KOp ''('' # ts @ [KOp '')'']) 10 e"
proof (rule reads_postfix)
  fix s rest
  assume s: "rem s = (KOp ''('' # ts @ [KOp '')'']) @ rest" "p_model s = m" "p_scope s = []"
    "p_depth s + (1 + need - 1) \<le> max_nest s" "small s e"
  have "level 1 (n - 1) (moved s 1) = Inr (e, moved (moved s 1) (length ts))"
    using s by (intro readsD [OF assms, of _ "KOp '')'' # rest"]) (simp_all add: calm_def)
  then show "primary_inner (parse_or (unary_at (n - 1))) s = Inr (e, moved s (length (KOp ''('' # ts @ [KOp '')''])))"
    using s(1) by (simp add: primary_inner_def runs level_def eat_op_rem)
qed simp

lemma reads_literal:
  assumes "literal_dsl sd v \<noteq> None"
  shows "reads m 1 (level 10 n) [literal_tok v] 10 (Literal v)"
proof (rule reads_postfix)
  fix s rest
  assume s: "rem s = [literal_tok v] @ rest" "p_scope s = []" and c: "calm 10 rest"
  have next_tok: "tok_at 1 s = (case rest of [] \<Rightarrow> None | t # _ \<Rightarrow> Some t)"
    using s(1) by (cases rest) (simp_all add: tok_at_rem nth_arg_def)
  have calm_next: "tok_at 1 s \<noteq> Some (KOp ''=>'')" "tok_at 1 s \<noteq> Some (KOp ''('')"
    using c unfolding next_tok by (auto simp: calm_def comparisons_def split: list.splits)
  show "primary_inner (parse_or (unary_at (n - 1))) s = Inr (Literal v, moved s (length [literal_tok v]))"
  proof (cases v)
    case (Boolean b)
    have "local_in w s = None" for w using s(2) by (simp add: local_in_def)
    moreover have "eq_ignore_ascii_case ''TRUE'' ''true''" "eq_ignore_ascii_case ''FALSE'' ''false''"
      "\<not> eq_ignore_ascii_case ''FALSE'' ''true''" by code_simp+
    ultimately show ?thesis using s(1) calm_next Boolean
      by (cases b) (simp_all add: primary_inner_def parse_ident_primary_def word_primary_def runs Let_def)
  qed (use assms s(1) in \<open>simp_all add: primary_inner_def runs\<close>)
qed simp

section \<open>Names\<close>

lemma word_tok_cases:
  obtains "word_tok lib n = KIdent n" "\<not> list_ex (\<lambda>k. eq_ignore_ascii_case n k) KEYWORDS" | "word_tok lib n = KQIdent n"
  unfolding word_tok_def by (cases "bare_word lib n \<and> \<not> list_ex (\<lambda>k. eq_ignore_ascii_case n k) KEYWORDS") simp_all

lemma moved_Suc: "s\<lparr>p_pos := Suc (p_pos s)\<rparr> = moved s 1"
  by (simp add: moved_def)

lemma word_tok_name [simp]: "name_tok (Some (word_tok lib n)) = Some n"
  by (cases lib n rule: word_tok_cases) simp_all

lemma lower_keywords:
  "to_ascii_lowercase ''TRUE'' = ''true''" "to_ascii_lowercase ''FALSE'' = ''false''" "to_ascii_lowercase ''NOT'' = ''not''"
  "to_ascii_lowercase ''true'' = ''true''" "to_ascii_lowercase ''false'' = ''false''" "to_ascii_lowercase ''not'' = ''not''"
  "to_ascii_lowercase ''OVER'' = ''over''" "to_ascii_lowercase ''over'' = ''over''"
  "to_ascii_lowercase ''INTO'' = ''into''" "to_ascii_lowercase ''into'' = ''into''"
  by code_simp+

lemma no_keyword:
  assumes "\<not> list_ex (\<lambda>k. eq_ignore_ascii_case n k) KEYWORDS"
  shows "\<not> eq_ignore_ascii_case n ''true''" "\<not> eq_ignore_ascii_case n ''false''" "\<not> eq_ignore_ascii_case n ''not''"
  using assms by (simp_all add: KEYWORDS_def eq_ignore_ascii_case_def lower_keywords)

lemma word_not_not [simp]: "\<not> is_not (word_tok lib n)"
  by (cases lib n rule: word_tok_cases) (simp_all add: is_not_def no_keyword)

lemma parse_name_word:
  assumes "rem s = word_tok lib n # ts" "ts = [] \<or> hd ts \<noteq> KOp ''.''"
  shows "parse_name what s = Inr ((n, peek_pos s), moved s 1)"
proof -
  have p: "peek s = Some (word_tok lib n)" "rem (moved s 1) = ts" using assms(1) by simp_all
  then have "peek (moved s 1) \<noteq> Some (KOp ''.'')" using assms(2) by (cases "moved s 1" rule: rem_cases) auto
  then show ?thesis using p by (simp add: parse_name_def take_ident_def runs eat_op_rem moved_Suc)
qed

lemma category_word:
  assumes "rem s = word_tok lib (category_name_of m c) # ts" "ts = [] \<or> hd ts \<noteq> KOp ''.''"
    and "p_model s = m" "p_scope s = []" "finds_category m c"
  shows "parse_category_name s = Inr (c, moved s 1)"
proof -
  obtain k where k: "find_category (category_name_of m c) (moved s 1) = Some k" "cat_id k = c"
    using assms(3,5) by (auto simp: finds_category_def find_category_def)
  have "local_category n (moved s 1) = None" for n using assms(4) by (simp add: local_category_def local_in_def)
  then show ?thesis using parse_name_word [OF assms(1,2)] k
    by (simp add: parse_category_name_def category_id_of_def runs)
qed

text \<open>Words after the first, each behind a comma.\<close>

definition comma_words :: "std_lib \<Rightarrow> model \<Rightarrow> category_id list \<Rightarrow> tok list" where
  "comma_words lib m cs = concat (map (\<lambda>c. [KOp '','', word_tok lib (category_name_of m c)]) cs)"

lemma comma_words_simps [simp]:
  "comma_words lib m [] = []"
  "comma_words lib m (c # cs) = KOp '','' # word_tok lib (category_name_of m c) # comma_words lib m cs"
  by (simp_all add: comma_words_def)

lemma comma_toks_words:
  "comma_toks (map (\<lambda>c. [word_tok lib (category_name_of m c)]) (c # cs)) =
     word_tok lib (category_name_of m c) # comma_words lib m cs"
  by (induction cs arbitrary: c) simp_all

lemma more_cats_words:
  assumes "rem s = comma_words lib m cs @ KOp '']'' # rest" "p_model s = m" "p_scope s = []"
    "list_all (finds_category m) cs" "length cs < n"
  shows "more_cats_by n cs0 s = Inr (cs0 @ cs, moved s (length (comma_words lib m cs)))"
  using assms
proof (induction cs arbitrary: s n cs0)
  case Nil
  then show ?case by (cases n) (simp_all add: runs eat_op_rem)
next
  case (Cons c cs)
  then obtain k where n: "n = Suc k" by (cases n) auto
  have "parse_category_name (moved s 1) = Inr (c, moved (moved s 1) 1)"
    using Cons.prems by (intro category_word [of _ lib m c "comma_words lib m cs @ KOp '']'' # rest"]) (cases cs; simp)+
  moreover have "more_cats_by k (cs0 @ [c]) (moved s 2) = Inr ((cs0 @ [c]) @ cs, moved (moved s 2) (length (comma_words lib m cs)))"
    using Cons.prems n by (intro Cons.IH) simp_all
  ultimately show ?case using Cons.prems(1) by (simp add: n runs eat_op_rem numeral_2_eq_2)
qed

lemma measure_ref_toks:
  assumes s: "rem s = ref_toks lib m i (sby sp) @ rest" "p_model s = m" "p_scope s = []" and c: "calm 10 rest"
    and p: "plain m (Ref i sp)"
  shows "parse_measure_ref s = Inr (Ref i sp, moved s (length (ref_toks lib m i (sby sp))))"
proof -
  let ?n = "measure_name_of m i"
  obtain x where x: "find_measure ?n (moved s 1) = Some x" "m_id x = i"
    using p s(2) by (auto simp: finds_measure_def find_measure_def)
  have sp: "sp = default_spec\<lparr>sby := sby sp\<rparr>" using p by (simp add: default_spec_def)
  have calm_ops: "t \<in> {''['', ''.''} \<Longrightarrow> rest = [] \<or> hd rest \<noteq> KOp t" for t
    using c by (auto simp: calm_def comparisons_def)
  show ?thesis
  proof (cases "sby sp")
    case Nil
    then have r: "rem s = word_tok lib ?n # rest" using s(1) by (simp add: ref_toks_def)
    have "parse_name ''a measure name'' s = Inr ((?n, peek_pos s), moved s 1)"
      using r calm_ops [of "''.''"] by (intro parse_name_word) simp_all
    moreover have "eat_op ''['' (moved s 1) = Inr (False, moved s 1)"
      using r c by (intro calm_eat [of 10]) (simp_all add: comparisons_def)
    ultimately show ?thesis using x sp Nil
      by (simp add: default_spec_def parse_measure_ref_def measure_id_of_def runs ref_toks_def)
  next
    case (Cons cat cs)
    let ?w = "word_tok lib (category_name_of m cat)"
    have r: "rem s = word_tok lib ?n # KOp ''['' # ?w # comma_words lib m cs @ KOp '']'' # rest"
      using s(1) Cons by (simp add: ref_toks_def comma_toks_words del: list.map)
    have "parse_name ''a measure name'' s = Inr ((?n, peek_pos s), moved s 1)"
      by (rule parse_name_word [OF r]) simp
    moreover have "parse_category_name (moved s 2) = Inr (cat, moved (moved s 2) 1)"
      using r s(2,3) p Cons
      by (intro category_word [of _ lib m cat "comma_words lib m cs @ KOp '']'' # rest"])
        (simp_all add: numeral_2_eq_2, cases cs, simp_all)
    moreover have "more_cats_by (loop_fuel s) [cat] (moved s 3) = Inr ([cat] @ cs, moved (moved s 3) (length (comma_words lib m cs)))"
    proof (intro more_cats_words [of _ lib m cs rest])
      have "length cs \<le> length (comma_words lib m cs)" by (induction cs) simp_all
      then show "length cs < loop_fuel s" using rem_fuel [of s] r by simp
    qed (use r s(2,3) p Cons in \<open>simp_all add: numeral_3_eq_3\<close>)
    ultimately show ?thesis using x sp Cons r
      by (simp add: parse_measure_ref_def measure_id_of_def runs ref_toks_def comma_toks_words eat_op_rem
          numeral_2_eq_2 numeral_3_eq_3 del: list.map)
  qed
qed

lemma reads_ref:
  assumes p: "plain m (Ref i sp)"
  shows "reads m 1 (level 10 n) (toks lib m (Ref i sp)) 10 (Ref i sp)"
proof (rule reads_postfix)
  fix s rest
  assume s: "rem s = toks lib m (Ref i sp) @ rest" "p_model s = m" "p_scope s = []" and c: "calm 10 rest"
  let ?n = "measure_name_of m i"
  have ref: "parse_measure_ref s = Inr (Ref i sp, moved s (length (toks lib m (Ref i sp))))"
    using measure_ref_toks [OF _ s(2,3) c p] s(1) by simp
  obtain ts where r: "rem s = word_tok lib ?n # ts" using s(1) by (simp add: ref_toks_def)
  have t1: "tok_at 1 s = (if sby sp = [] then (case rest of [] \<Rightarrow> None | t # _ \<Rightarrow> Some t) else Some (KOp ''[''))"
    using s(1) by (cases rest) (simp_all add: tok_at_rem nth_arg_def ref_toks_def)
  have calm_next: "tok_at 1 s \<noteq> Some (KOp ''=>'')" "tok_at 1 s \<noteq> Some (KOp ''('')"
    using c unfolding t1 by (auto simp: calm_def comparisons_def split: list.splits if_splits)
  have loc: "local_in w s = None" for w using s(3) by (simp add: local_in_def)
  show "primary_inner (parse_or (unary_at (n - 1))) s = Inr (Ref i sp, moved s (length (toks lib m (Ref i sp))))"
  proof (cases lib ?n rule: word_tok_cases)
    case 1
    then show ?thesis using r ref calm_next loc no_keyword(1,2) [OF 1(2)]
      by (simp add: primary_inner_def parse_ident_primary_def word_primary_def runs Let_def)
  next
    case 2
    then show ?thesis using r ref by (simp add: primary_inner_def runs)
  qed
qed simp

section \<open>Calls\<close>

lemma arrow_in_comma_toks: "KOp ''=>'' \<in> set (comma_toks tss) \<Longrightarrow> \<exists>ts \<in> set tss. KOp ''=>'' \<in> set ts"
  by (induction tss rule: comma_toks.induct) auto

lemma no_arrow: "KOp ''=>'' \<notin> set (toks lib m e)"
proof (induction e)
  case (Literal v)
  then show ?case by (cases v) simp_all
next
  case (Ref i sp)
  have "KOp ''=>'' \<noteq> word_tok lib n" for n by (cases lib n rule: word_tok_cases) simp_all
  then show ?case by (auto simp: ref_toks_def dest!: arrow_in_comma_toks)
next
  case (UnaryOp u a)
  then show ?case by (cases u) (simp_all add: child_toks_def)
next
  case (BinaryOp b l r)
  then show ?case by (cases b) (auto simp: child_toks_def symbol_tok_def split: if_splits)
next
  case (Call f args)
  then show ?case by (auto dest!: arrow_in_comma_toks)
next
  case (Category c)
  have "KOp ''=>'' \<noteq> word_tok lib n" for n by (cases lib n rule: word_tok_cases) simp_all
  then show ?case by simp
qed

lemma toks_nonempty [simp]: "toks lib m e \<noteq> []"
  by (cases e) (simp_all add: ref_toks_def)

lemma no_named_arg:
  assumes "rem s = toks lib m a @ KOp t # rest" "t \<noteq> ''=>''"
  shows "named_arg s = Inr (None, s)"
proof -
  obtain t0 ts where a: "toks lib m a = t0 # ts" by (cases "toks lib m a") auto
  have "tok_at 1 s \<noteq> Some (KOp ''=>'')"
    using assms a no_arrow [of lib m a] by (cases ts) (auto simp: tok_at_rem nth_arg_def)
  then show ?thesis by (auto simp: named_arg_def runs split: option.splits)
qed

definition gathered :: "expr list \<Rightarrow> call_args" where
  "gathered args = no_args\<lparr>ca_args := args\<rparr>"

lemma gathered_fields [simp]:
  "ca_args (gathered args) = args" "ca_named (gathered args) = []" "ca_over (gathered args) = None"
  "ca_into (gathered args) = []" "gathered args\<lparr>ca_args := bs\<rparr> = gathered bs"
  by (simp_all add: gathered_def no_args_def)

text \<open>What an argument of a call is read as, at index \<open>i\<close>.\<close>

definition arg_reads :: "std_lib \<Rightarrow> model \<Rightarrow> nat \<Rightarrow> nat \<Rightarrow> string \<Rightarrow> nat \<Rightarrow> expr \<Rightarrow> bool" where
  "arg_reads lib m need n name i a \<longleftrightarrow>
     (if category_argument name (gathered []) (Some i)
      then (\<exists>c. a = Category c \<and> finds_category m c)
      else reads m need (level 1 n) (toks lib m a) 1 a)"

lemma category_argument_gathered:
  "category_argument name (gathered args) i = category_argument name (gathered []) i"
  by (simp add: category_argument_def)

lemma call_arg_reads:
  assumes "rem s = toks lib m a @ KOp t # rest" "t \<in> {'','', '')''}" "p_model s = m" "p_scope s = []"
    "p_depth s + need \<le> max_nest s" "small s a" "arg_reads lib m need n name (length done_args) a"
  shows "call_arg (level 1 n) name (gathered done_args) s = Inr (gathered (done_args @ [a]), moved s (length (toks lib m a)))"
proof -
  have label: "named_arg s = Inr (None, s)" using assms(1,2) by (intro no_named_arg [of s lib m a t rest]) auto
  show ?thesis
  proof (cases "category_argument name (gathered []) (Some (length done_args))")
    case True
    then obtain c where c: "a = Category c" "finds_category m c" using assms(7) by (auto simp: arg_reads_def)
    then have "parse_category_name s = Inr (c, moved s 1)"
      using assms(1-4) by (intro category_word [of s lib m c "KOp t # rest"]) auto
    then show ?thesis using label True c
      by (simp add: call_arg_def runs category_argument_gathered [of name done_args])
  next
    case False
    then have "reads m need (level 1 n) (toks lib m a) 1 a" using assms(7) by (simp add: arg_reads_def)
    then have "level 1 n s = Inr (a, moved s (length (toks lib m a)))"
      using assms by (intro readsD [where rest = "KOp t # rest"]) (auto simp: calm_def)
    then show ?thesis using label False
      by (simp add: call_arg_def runs category_argument_gathered [of name done_args])
  qed
qed

lemma call_loop_reads:
  assumes "rem s = comma_toks (map (toks lib m) (a # as)) @ KOp '')'' # rest" "p_model s = m" "p_scope s = []"
    "p_depth s + need \<le> max_nest s" "\<forall>x \<in> set (a # as). small s x" "length as < k"
    "\<forall>i < length (a # as). arg_reads lib m need n name (length done_args + i) ((a # as) ! i)"
  shows "call_loop (level 1 n) name k (gathered done_args) s =
     Inr (gathered (done_args @ a # as), moved s (length (comma_toks (map (toks lib m) (a # as)))))"
  using assms
proof (induction as arbitrary: a s k done_args)
  case Nil
  then obtain j where k: "k = Suc j" by (cases k) auto
  have "call_arg (level 1 n) name (gathered done_args) s = Inr (gathered (done_args @ [a]), moved s (length (toks lib m a)))"
    using Nil.prems by (intro call_arg_reads [where t = "'')''" and rest = rest]) simp_all
  then show ?case using Nil.prems(1)
    by (simp add: k runs call_over_def call_into_def peek_kw_def eat_op_rem)
next
  case (Cons b as)
  then obtain j where k: "k = Suc j" by (cases k) auto
  let ?T = "comma_toks (map (toks lib m) (b # as))"
  have T: "comma_toks (map (toks lib m) (a # b # as)) = toks lib m a @ KOp '','' # ?T" by simp
  have arg: "call_arg (level 1 n) name (gathered done_args) s = Inr (gathered (done_args @ [a]), moved s (length (toks lib m a)))"
    using Cons.prems by (intro call_arg_reads [where t = "'',''" and rest = "?T @ KOp '')'' # rest"]) (auto dest: spec [of _ 0])
  have "call_loop (level 1 n) name j (gathered (done_args @ [a])) (moved s (length (toks lib m a) + 1)) =
      Inr (gathered ((done_args @ [a]) @ b # as), moved (moved s (length (toks lib m a) + 1)) (length ?T))"
  proof (rule Cons.IH)
    show "\<forall>i < length (b # as). arg_reads lib m need n name (length (done_args @ [a]) + i) ((b # as) ! i)"
    proof (intro allI impI)
      fix i assume "i < length (b # as)"
      then show "arg_reads lib m need n name (length (done_args @ [a]) + i) ((b # as) ! i)"
        using Cons.prems(7) [rule_format, of "Suc i"] by simp
    qed
  qed (use Cons.prems k in simp_all)
  then show ?case using arg Cons.prems(1) unfolding T
    by (simp add: k runs call_over_def call_into_def peek_kw_def eat_op_rem)
qed

lemma find_none_plain: "list_all (plain m) args \<Longrightarrow> find (\<lambda>a. case a of Ref _ sp \<Rightarrow> sover sp \<noteq> [] | _ \<Rightarrow> False) args = None"
  by (auto simp: find_None_iff list_all_iff split: expr.splits)

lemma comma_toks_head: "args \<noteq> [] \<Longrightarrow> \<exists>t ts. comma_toks (map (toks lib m) args) = t # ts \<and> t = hd (toks lib m (hd args))"
proof -
  assume "args \<noteq> []"
  then obtain a as where a: "args = a # as" by (cases args) auto
  obtain t ts where "toks lib m a = t # ts" by (cases "toks lib m a") auto
  then show ?thesis using a by (cases as) auto
qed

lemma toks_head_not_close: "plain m e \<Longrightarrow> hd (toks lib m e) \<noteq> KOp '')''"
proof (induction e)
  case (Literal v)
  then show ?case by (cases v) simp_all
next
  case (Ref i sp)
  then show ?case by (cases lib "measure_name_of m i" rule: word_tok_cases) (simp_all add: ref_toks_def)
next
  case (UnaryOp u a)
  then show ?case by (cases u) simp_all
next
  case (BinaryOp b l r)
  then show ?case by (simp add: child_toks_def)
next
  case (Category c)
  then show ?case by (cases lib "category_name_of m c" rule: word_tok_cases) simp_all
qed simp

lemma length_comma_toks: "length args \<le> length (comma_toks (map (toks lib m) args))"
proof (induction args rule: induct_list012)
  case (2 a)
  then show ?case by (cases "toks lib m a") simp_all
qed simp_all

lemma parse_call_reads:
  assumes s: "rem s = toks lib m (Call f args) @ rest" "p_model s = m" "p_scope s = []"
    "p_depth s + need \<le> max_nest s" "small s (Call f args)"
    and p: "plain m (Call f args)" and d: "by_id f = Some d"
    and a: "\<forall>i < length args. arg_reads lib m need n (fname d) i (args ! i)"
  shows "parse_call (level 1 n) (fname d) s = Inr (Call f args, moved s (length (toks lib m (Call f args))))"
proof -
  let ?T = "comma_toks (map (toks lib m) args)"
  have pc: "callable (fname d) = Some d" "accepts d (length args)"
    and plain_args: "list_all (plain m) args" using p d by (simp_all add: plain_call_def)
  have r: "rem s = KIdent (fname d) # KOp ''('' # ?T @ KOp '')'' # rest" using s(1) d by simp
  have small_args: "\<forall>x \<in> set args. small s x"
  proof
    fix x assume x: "x \<in> set args"
    then have "levels x \<le> max_list (map levels args)" by (intro max_list_ge) simp
    moreover have "node_count x \<le> sum_list (map node_count args)" using x by (intro member_le_sum_list) simp_all
    ultimately show "small s x" using s(5) x by (auto simp: small_def split: if_splits)
  qed
  have row: "row_clause (fname d) (gathered args) = None"
    using find_none_plain [OF plain_args] by (simp add: row_clause_def)
  have finish: "finish_call (fname d) (gathered args) s' = Inr (Call f args, s')" for s'
    using pc row by (simp add: finish_call_def placed_def place_named_def plift_def runs by_id_fid [OF d])
  show ?thesis
  proof (cases args)
    case Nil
    have "finish_call (fname d) no_args s' = Inr (Call f args, s')" for s'
      using finish Nil by (simp add: gathered_def no_args_def)
    then show ?thesis using r Nil by (simp add: parse_call_def runs eat_op_rem)
  next
    case (Cons x xs)
    obtain t ts where t: "?T = t # ts" "t = hd (toks lib m x)" using comma_toks_head [of args lib m] Cons by auto
    have close: "t \<noteq> KOp '')''" using t(2) toks_head_not_close [of m x lib] plain_args Cons by simp
    have "call_loop (level 1 n) (fname d) (loop_fuel s) (gathered []) (moved s 2) =
        Inr (gathered ([] @ x # xs), moved (moved s 2) (length (comma_toks (map (toks lib m) (x # xs)))))"
    proof (rule call_loop_reads [where rest = rest and need = need])
      show "length xs < loop_fuel s"
        using rem_fuel [of s] r length_comma_toks [of args lib m] Cons by simp
    qed (use r s a small_args Cons in \<open>simp_all add: numeral_2_eq_2 del: list.map\<close>)
    then have "call_loop (level 1 n) (fname d) (loop_fuel s) no_args (moved s 2) = Inr (gathered args, moved s (2 + length ?T))"
      using Cons by (simp add: gathered_def no_args_def)
    then show ?thesis using r t(1) close finish
      by (simp add: parse_call_def runs eat_op_rem numeral_2_eq_2)
  qed
qed

lemma special_form_none: "to_ascii_uppercase w \<notin> set FORMS \<Longrightarrow> special_form ex w = None"
  by (simp add: special_form_def FORMS_def Let_def)

lemma reads_call:
  assumes p: "plain m (Call f args)" and d: "by_id f = Some d" and n: "0 < n"
    and a: "\<forall>i < length args. arg_reads lib m need (n - 1) (fname d) i (args ! i)"
  shows "reads m (1 + need) (level 10 n) (toks lib m (Call f args)) 10 (Call f args)"
proof (rule reads_postfix)
  fix s rest
  assume s: "rem s = toks lib m (Call f args) @ rest" "p_model s = m" "p_scope s = []"
    "p_depth s + (1 + need - 1) \<le> max_nest s" "small s (Call f args)"
  let ?w = "fname d"
  have call: "parse_call (level 1 (n - 1)) ?w s = Inr (Call f args, moved s (length (toks lib m (Call f args))))"
    using s by (intro parse_call_reads [OF _ _ _ _ _ p d a]) simp_all
  have pc: "callable ?w = Some d" "special_form ex ?w = None" for ex
    using p d by (simp_all add: plain_call_def special_form_none)
  have r: "rem s = KIdent ?w # KOp ''('' # comma_toks (map (toks lib m) args) @ KOp '')'' # rest" using s(1) d by simp
  then have t1: "tok_at 1 s = Some (KOp ''('')" by (simp add: tok_at_rem nth_arg_def)
  show "primary_inner (parse_or (unary_at (n - 1))) s = Inr (Call f args, moved s (length (toks lib m (Call f args))))"
    using call r t1 pc
    by (simp add: primary_inner_def parse_ident_primary_def word_primary_def runs Let_def level_def)
qed simp

section \<open>Operators\<close>

text \<open>A child, in parentheses where it binds too loosely.\<close>

lemma opens_child: "opens (prec e) (toks lib m e) \<Longrightarrow> opens k (child_toks lib m e k)"
proof -
  assume o': "opens (prec e) (toks lib m e)"
  show ?thesis
  proof (cases "prec e < k")
    case True
    then show ?thesis by (simp add: child_toks_def opens_def is_not_def)
  next
    case False
    then show ?thesis using opens_mono [OF o', of k] by (simp add: child_toks_def)
  qed
qed

lemma child_opens_more: "opens (prec e) (toks lib m e) \<Longrightarrow> prec e \<noteq> k \<Longrightarrow> opens (Suc k) (child_toks lib m e k)"
proof -
  assume o': "opens (prec e) (toks lib m e)" and "prec e \<noteq> k"
  show ?thesis
  proof (cases "prec e < k")
    case True
    then show ?thesis by (simp add: child_toks_def opens_def is_not_def)
  next
    case False
    then show ?thesis using opens_mono [OF o', of "Suc k"] \<open>prec e \<noteq> k\<close> by (simp add: child_toks_def)
  qed
qed

lemma prec_range [simp]: "0 < prec e" "Suc 0 \<le> prec e" "prec e \<le> 10"
  by (cases e rule: prec.cases; simp split: binary_op.splits)+

text \<open>
  What the induction proves of a formula: every level up to its own reads it.
\<close>

definition readable :: "std_lib \<Rightarrow> model \<Rightarrow> expr \<Rightarrow> bool" where
  "readable lib m e \<longleftrightarrow>
     opens (prec e) (toks lib m e) \<and>
     (\<forall>n. nesting e \<le> n \<longrightarrow> reads m (nesting e) (level (prec e) n) (toks lib m e) (prec e) e)"

lemma nesting_pos [simp]: "0 < nesting e"
  by (induction e) (auto simp: Let_def split: prod.splits)

lemma readable_level:
  assumes "readable lib m e" "nesting e \<le> n" "1 \<le> k" "k \<le> prec e"
  shows "reads m (nesting e) (level k n) (toks lib m e) k e"
proof (rule reads_lower [OF assms(4)])
  show "0 < n" using assms(2) nesting_pos [of e] by linarith
qed (use assms in \<open>simp_all add: readable_def\<close>)

lemma readable_child:
  assumes e: "readable lib m e" and n: "child_nesting e j \<le> n" and k: "1 \<le> k" "k \<le> 10" "j \<le> k"
    "prec e < j \<or> k \<le> prec e"
  shows "reads m (child_nesting e j) (level k n) (child_toks lib m e j) k e"
proof (cases "prec e < j")
  case True
  then have "reads m (nesting e) (level 1 (n - 1)) (toks lib m e) 1 e"
    using n by (intro readable_level [OF e]) (simp_all add: child_nesting_def)
  then have "reads m (1 + nesting e) (level 10 n) (child_toks lib m e j) 10 e"
    using True reads_parens by (simp add: child_toks_def)
  then show ?thesis using True k n
    by (intro reads_lower [of k 10]) (simp_all add: child_nesting_def child_toks_def opens_def is_not_def)
next
  case False
  then show ?thesis using n k by (simp add: child_toks_def child_nesting_def readable_level [OF e])
qed

subsection \<open>Chains\<close>

text \<open>What is left of a chain's loop once a formula of its level has been read.\<close>

definition continues :: "model \<Rightarrow> nat \<Rightarrow> nat \<Rightarrow> nat \<Rightarrow> tok list \<Rightarrow> expr \<Rightarrow> bool" where
  "continues m k n need ts e \<longleftrightarrow>
     (\<forall>s rest. rem s = ts @ rest \<longrightarrow> p_model s = m \<longrightarrow> p_scope s = [] \<longrightarrow> p_depth s + need \<le> max_nest s \<longrightarrow>
        small s e \<longrightarrow> calm (k + 1) rest \<longrightarrow>
        (\<exists>j d. level k n s = links (chain_op k) (level (k + 1) n) j e d (moved s (length ts)) \<and>
           length rest < j \<and> (d = 0 \<or> d = levels e)))"

lemma continuesE:
  assumes "continues m k n need ts e" "rem s = ts @ rest" "p_model s = m" "p_scope s = []"
    "p_depth s + need \<le> max_nest s" "small s e" "calm (k + 1) rest"
  obtains j d where "level k n s = links (chain_op k) (level (k + 1) n) j e d (moved s (length ts))"
    "length rest < j" "d = 0 \<or> d = levels e"
  using assms unfolding continues_def by blast

definition linked :: "std_lib \<Rightarrow> model \<Rightarrow> expr \<Rightarrow> bool" where
  "linked lib m e \<longleftrightarrow>
     (\<forall>n. prec e \<in> {1, 2, 5, 6, 7} \<longrightarrow> nesting e \<le> n \<longrightarrow> continues m (prec e) n (nesting e) (toks lib m e) e)"

lemma continues_child:
  assumes l: "readable lib m l" "linked lib m l" and k: "k \<in> {1, 2, 5, 6, 7}" and n: "child_nesting l k \<le> n"
  shows "continues m k n (child_nesting l k) (child_toks lib m l k) l"
proof (cases "prec l = k")
  case True
  then have "prec l \<in> {1, 2, 5, 6, 7}" "nesting l \<le> n" using k n by (simp_all only: child_nesting_def if_False less_irrefl)
  then have "continues m (prec l) n (nesting l) (toks lib m l) l" using l(2) unfolding linked_def by blast
  then show ?thesis using True by (simp add: child_toks_def child_nesting_def)
next
  case False
  have r: "reads m (child_nesting l k) (level (k + 1) n) (child_toks lib m l k) (k + 1) l"
    using False k by (intro readable_child [OF l(1) n]) auto
  show ?thesis
    unfolding continues_def
  proof (intro allI impI)
    fix s rest
    assume s: "rem s = child_toks lib m l k @ rest" "p_model s = m" "p_scope s = []"
      "p_depth s + child_nesting l k \<le> max_nest s" "small s l" "calm (k + 1) rest"
    have "level k n s = links (chain_op k) (level (k + 1) n) (loop_fuel s) l 0 (moved s (length (child_toks lib m l k)))"
      using readsD [OF r s] unfolding level_chain [OF k] by (simp add: chain_def runs)
    moreover have "length rest < loop_fuel s" using rem_fuel [of s] s(1) by simp
    ultimately show "\<exists>j d. level k n s = links (chain_op k) (level (k + 1) n) j l d (moved s (length (child_toks lib m l k))) \<and>
       length rest < j \<and> (d = 0 \<or> d = levels l)" by blast
  qed
qed

lemma continues_reads:
  assumes c: "continues m k n need ts e" and k: "k \<in> {1, 2, 5, 6, 7}"
  shows "reads m need (level k n) ts k e"
  unfolding reads_def
proof (intro allI impI)
  fix s rest
  assume s: "rem s = ts @ rest" "p_model s = m" "p_scope s = []" "p_depth s + need \<le> max_nest s" "small s e"
    and q: "calm k rest"
  have "calm (k + 1) rest" using q by (rule calm_mono) simp
  then obtain j d where j: "level k n s = links (chain_op k) (level (k + 1) n) j e d (moved s (length ts))" "length rest < j"
    using c s unfolding continues_def by blast
  have "chain_op k (moved s (length ts)) = None" using s(1) q k by (intro chain_op_calm) simp_all
  then show "level k n s = Inr (e, moved s (length ts))"
    using j by (cases j) (simp_all add: runs)
qed

lemma chain_op_symbol:
  assumes "rem s = symbol_tok b # ts" "prec (BinaryOp b l r) = k" "k \<in> {1, 2, 5, 6, 7}"
  shows "chain_op k s = Some b"
proof -
  have "eq_ignore_ascii_case ''OR'' ''or''" "eq_ignore_ascii_case ''AND'' ''and''" by code_simp+
  then show ?thesis using assms
    by (cases b) (simp_all add: chain_op_def op_here_def kw_here_def peek_kw_def symbol_tok_def)
qed

lemma symbol_level: "infix_level (symbol_tok b) = prec (BinaryOp b l r)"
proof -
  have "eq_ignore_ascii_case ''OR'' ''or''" "eq_ignore_ascii_case ''AND'' ''and''" "\<not> eq_ignore_ascii_case ''AND'' ''or''"
    by code_simp+
  then show ?thesis by (cases b) (simp_all add: symbol_tok_def comparisons_def)
qed

lemma nesting_binary:
  "nesting (BinaryOp b l r) =
     max (child_nesting l (fst (side_levels b (prec (BinaryOp b l r)))))
       ((if b = Pow then 1 else 0) + child_nesting r (snd (side_levels b (prec (BinaryOp b l r)))))"
  by (simp add: child_nesting_def Let_def case_prod_beta)

lemma small_binary: "small s (BinaryOp b l r) \<Longrightarrow> small s l \<and> small s r"
  by (auto simp: small_def)

lemma linked_binary:
  assumes l: "readable lib m l" "linked lib m l" and r: "readable lib m r"
    and k: "prec (BinaryOp b l r) \<in> {1, 2, 5, 6, 7}"
  shows "linked lib m (BinaryOp b l r)"
  unfolding linked_def
proof (intro allI impI)
  fix n
  let ?e = "BinaryOp b l r"
  define k where "k = prec ?e"
  assume n: "nesting ?e \<le> n"
  have kk: "k \<in> {1, 2, 5, 6, 7}" using assms(4) by (simp only: k_def)
  have sides: "side_levels b k = (k, k + 1)" and not_pow: "b \<noteq> Pow"
    using kk by (cases b; auto simp: k_def side_levels_def)+
  have nest: "nesting ?e = max (child_nesting l k) (child_nesting r (k + 1))"
    using not_pow unfolding nesting_binary k_def [symmetric] sides by (simp only: fst_conv snd_conv if_False add_0)
  have ts: "toks lib m ?e = child_toks lib m l k @ symbol_tok b # child_toks lib m r (k + 1)"
    unfolding toks_child k_def [symmetric] sides by (simp only: fst_conv snd_conv)
  have left: "continues m k n (child_nesting l k) (child_toks lib m l k) l"
    using n nest by (intro continues_child [OF l kk]) simp
  have right: "reads m (child_nesting r (k + 1)) (level (k + 1) n) (child_toks lib m r (k + 1)) (k + 1) r"
    using n nest kk by (intro readable_child [OF r]) auto
  show "continues m (prec ?e) n (nesting ?e) (toks lib m ?e) ?e"
    unfolding continues_def k_def [symmetric]
  proof (intro allI impI)
    fix s rest
    assume s: "rem s = toks lib m ?e @ rest" "p_model s = m" "p_scope s = []" "p_depth s + nesting ?e \<le> max_nest s"
      "small s ?e" and c: "calm (k + 1) rest"
    let ?L = "length (child_toks lib m l k)" and ?R = "length (child_toks lib m r (k + 1))"
    let ?mid = "symbol_tok b # child_toks lib m r (k + 1) @ rest"
    have "calm (k + 1) ?mid" using symbol_level [of b l r] by (simp add: calm_def k_def)
    moreover have s1: "rem s = child_toks lib m l k @ ?mid" using s(1) unfolding ts by simp
    moreover have room: "p_depth s + child_nesting l k \<le> max_nest s" "p_depth s + child_nesting r (k + 1) \<le> max_nest s"
      using s(4) unfolding nest by simp_all
    ultimately obtain j d where j: "level k n s = links (chain_op k) (level (k + 1) n) j l d (moved s ?L)"
      "length ?mid < j" "d = 0 \<or> d = levels l"
      using continuesE [OF left, of s ?mid] s(2,3) small_binary [OF s(5)] by metis
    obtain i where i: "j = Suc i" using j(2) by (cases j) auto
    have op: "chain_op k (moved s ?L) = Some b"
      by (rule chain_op_symbol [OF _ k_def [symmetric] kk]) (simp add: s1)
    have reads_r: "level (k + 1) n (moved s (?L + 1)) = Inr (r, moved (moved s (?L + 1)) ?R)"
      using s(2,3) room s1 small_binary [OF s(5)] c by (intro readsD [OF right, of _ rest]) simp_all
    have bump: "bump (moved s ?L) = Inr ((), moved s (?L + 1))" using s1 by simp
    have "levels ?e \<le> max_depth s" using s(5) by (simp add: small_def)
    then have "link pos d b l r (moved s (?L + 1 + ?R)) = Inr ((?e, levels ?e), moved s (?L + 1 + ?R))" for pos
      using j(3) small_exact [of s l] small_exact [of s r] small_binary [OF s(5)] levels_pos [of l]
      by (elim disjE) (simp_all add: link_def Let_def runs not_less)
    then have "level k n s = links (chain_op k) (level (k + 1) n) i ?e (levels ?e) (moved s (?L + 1 + ?R))"
      using j(1) i op reads_r bump by (simp add: runs)
    then show "\<exists>j d. level k n s = links (chain_op k) (level (k + 1) n) j ?e d (moved s (length (toks lib m ?e))) \<and>
        length rest < j \<and> (d = 0 \<or> d = levels ?e)"
      using j(2) i unfolding ts by (intro exI [of _ i] exI [of _ "levels ?e"]) simp
  qed
qed

lemma toks_opens_binary:
  assumes "opens (prec l) (toks lib m l)" "1 \<le> prec (BinaryOp b l r)"
  shows "opens (prec (BinaryOp b l r)) (toks lib m (BinaryOp b l r))"
proof -
  let ?p = "prec (BinaryOp b l r)"
  define k where "k = fst (side_levels b ?p)"
  have "?p \<le> k" by (simp add: k_def side_levels_def)
  have "opens ?p (child_toks lib m l k)"
    using opens_mono [OF opens_child [OF assms(1)] \<open>?p \<le> k\<close>] .
  then show ?thesis unfolding toks_child k_def [symmetric] by (simp add: opens_def)
qed

subsection \<open>Powers and comparisons\<close>

lemma reads_pow:
  assumes l: "readable lib m l" and r: "readable lib m r" and n: "nesting (BinaryOp Pow l r) \<le> n"
  shows "reads m (nesting (BinaryOp Pow l r)) (level 9 n) (toks lib m (BinaryOp Pow l r)) 9 (BinaryOp Pow l r)"
  unfolding reads_def
proof (intro allI impI)
  fix s rest
  let ?e = "BinaryOp Pow l r"
  assume s: "rem s = toks lib m ?e @ rest" "p_model s = m" "p_scope s = []" "p_depth s + nesting ?e \<le> max_nest s" "small s ?e"
    and c: "calm 9 rest"
  let ?L = "length (child_toks lib m l 10)" and ?R = "length (child_toks lib m r 8)"
  have nest: "nesting ?e = max (child_nesting l 10) (1 + child_nesting r 8)"
    by (simp add: nesting_binary side_levels_def del: nesting.simps)
  have s1: "rem s = child_toks lib m l 10 @ KOp ''^'' # child_toks lib m r 8 @ rest"
    using s(1) by (simp add: side_levels_def symbol_tok_def)
  have left: "reads m (child_nesting l 10) (level 10 n) (child_toks lib m l 10) 10 l"
    using n nest by (intro readable_child [OF l]) auto
  have right: "reads m (child_nesting r 8) (level 8 (n - 1)) (child_toks lib m r 8) 8 r"
    using n nest by (intro readable_child [OF r]) auto
  have "calm 10 (KOp ''^'' # ts)" for ts by (simp add: calm_def comparisons_def)
  then have base: "level 10 n s = Inr (l, moved s ?L)"
    using s(2-4) nest small_binary [OF s(5)] by (intro readsD [OF left s1]) simp_all
  let ?s = "(moved s (?L + 1))\<lparr>p_depth := p_depth s + 1\<rparr>"
  have q: "calm 8 rest" using c no_level_eight by (auto simp: calm_def)
  have "level 8 (n - 1) ?s = Inr (r, moved ?s ?R)"
    using s(2-4) s1 nest small_binary [OF s(5)] q by (intro readsD [OF right, of _ rest]) simp_all
  moreover have "\<not> max_nest ?s < p_depth ?s" using s(4) nest by simp
  ultimately have "nested (level 8 (n - 1)) (moved s (?L + 1)) = Inr (r, moved s (?L + 1 + ?R))"
    by (simp add: nested_def runs)
  then show "level 9 n s = Inr (?e, moved s (length (toks lib m ?e)))"
    using base s1 by (simp add: level_def parse_power_def runs eat_op_rem side_levels_def)
qed

lemma reads_compare:
  assumes l: "readable lib m l" and r: "readable lib m r" and n: "nesting (BinaryOp b l r) \<le> n"
    and p: "prec (BinaryOp b l r) = 4"
  shows "reads m (nesting (BinaryOp b l r)) (level 4 n) (toks lib m (BinaryOp b l r)) 4 (BinaryOp b l r)"
  unfolding reads_def
proof (intro allI impI)
  fix s rest
  let ?e = "BinaryOp b l r"
  assume s: "rem s = toks lib m ?e @ rest" "p_model s = m" "p_scope s = []" "p_depth s + nesting ?e \<le> max_nest s" "small s ?e"
    and c: "calm 4 rest"
  let ?L = "length (child_toks lib m l 5)" and ?R = "length (child_toks lib m r 5)"
  have sides: "side_levels b 4 = (5, 5)" "b \<noteq> Pow" using p by (auto simp: side_levels_def)
  have nest: "nesting ?e = max (child_nesting l 5) (child_nesting r 5)"
    unfolding nesting_binary p sides(1) using sides(2) by simp
  have s1: "rem s = child_toks lib m l 5 @ symbol_tok b # child_toks lib m r 5 @ rest"
    using s(1) unfolding toks_child p sides(1) by simp
  have left: "reads m (child_nesting l 5) (level 5 n) (child_toks lib m l 5) 5 l"
    using n nest by (intro readable_child [OF l]) auto
  have right: "reads m (child_nesting r 5) (level 5 n) (child_toks lib m r 5) 5 r"
    using n nest by (intro readable_child [OF r]) auto
  have base: "level 5 n s = Inr (l, moved s ?L)"
    using s(2-4) s1 nest small_binary [OF s(5)] symbol_level [of b l r] p
    by (intro readsD [OF left, of _ "symbol_tok b # child_toks lib m r 5 @ rest"]) (simp_all add: calm_def)
  have op: "op_here comparisons (moved s ?L) = Some b"
    using s1 p by (cases b) (simp_all add: op_here_def comparisons_def symbol_tok_def)
  have "calm 5 rest" using c by (rule calm_mono) simp
  then have "level 5 n (moved s (?L + 1)) = Inr (r, moved (moved s (?L + 1)) ?R)"
    using s(2-4) s1 nest small_binary [OF s(5)] by (intro readsD [OF right, of _ rest]) simp_all
  moreover have "bump (moved s ?L) = Inr ((), moved s (?L + 1))" using s1 by simp
  moreover have "length (toks lib m ?e) = ?L + 1 + ?R" unfolding toks_child p sides(1) by simp
  ultimately show "level 4 n s = Inr (?e, moved s (length (toks lib m ?e)))"
    using base op by (simp add: level_def parse_comparison_def runs)
qed

subsection \<open>Prefix operators\<close>

lemma prefixes_run:
  assumes "rem s = replicate j t @ ts" "\<And>s'. here s' \<longleftrightarrow> (\<exists>t' ts'. rem s' = t' # ts' \<and> is_t t')" "is_t t"
    "ts = [] \<or> \<not> is_t (hd ts)" "p_depth s + k + j \<le> max_nest s" "j < n"
  shows "prefixes here n k s = Inr (k + j, moved s j)"
  using assms
proof (induction j arbitrary: s k n)
  case 0
  then obtain i where "n = Suc i" by (cases n) auto
  moreover have "\<not> here s" using 0 by auto
  ultimately show ?case by (simp add: runs)
next
  case (Suc j)
  then obtain i where n: "n = Suc i" by (cases n) auto
  have r: "rem s = t # replicate j t @ ts" using Suc.prems(1) by simp
  have "here s" using r Suc.prems(2,3) by auto
  moreover have "prefixes here i (k + 1) (moved s 1) = Inr (k + 1 + j, moved (moved s 1) j)"
    using Suc.prems(4-6) n r by (intro Suc.IH [OF _ Suc.prems(2,3)]) simp_all
  ultimately show ?case using r Suc.prems(5) by (simp add: n runs)
qed

text \<open>A run of one prefix operator and what is under it.\<close>

lemma unary_run:
  obtains j a where "UnaryOp u e = (UnaryOp u ^^ Suc j) a" "\<forall>x. a \<noteq> UnaryOp u x"
proof -
  have "\<exists>j a. UnaryOp u e = (UnaryOp u ^^ Suc j) a \<and> (\<forall>x. a \<noteq> UnaryOp u x)"
  proof (induction e)
    case (UnaryOp v e)
    show ?case
    proof (cases "v = u")
      case True
      then obtain j a where "UnaryOp u e = (UnaryOp u ^^ Suc j) a \<and> (\<forall>x. a \<noteq> UnaryOp u x)" using UnaryOp by blast
      then have "UnaryOp u (UnaryOp v e) = (UnaryOp u ^^ Suc (Suc j)) a" using True by simp
      then show ?thesis using \<open>UnaryOp u e = _ \<and> _\<close> by blast
    next
      case False
      then show ?thesis by (intro exI [of _ 0] exI [of _ "UnaryOp v e"]) simp
    qed
  qed (intro exI [of _ 0], simp)+
  then show thesis using that by blast
qed

definition unary_prec :: "unary_op \<Rightarrow> nat" where
  "unary_prec u = (case u of Not \<Rightarrow> 3 | Neg \<Rightarrow> 8)"

lemma prec_unary [simp]: "prec (UnaryOp u a) = unary_prec u"
  by (cases u) (simp_all add: unary_prec_def)

lemma unary_run_props:
  "toks lib m ((UnaryOp u ^^ Suc j) a) = replicate (Suc j) (unary_tok u) @ child_toks lib m a (unary_prec u)"
  "nesting ((UnaryOp u ^^ Suc j) a) = Suc j + child_nesting a (unary_prec u)"
  "small s ((UnaryOp u ^^ Suc j) a) \<Longrightarrow> small s a"
  "size a < size ((UnaryOp u ^^ Suc j) a)"
  "plain m ((UnaryOp u ^^ Suc j) a) \<Longrightarrow> plain m a \<and> \<not> is_category a"
proof (induction j)
  case 0
  {
    case 1
    show ?case by simp
  next
    case 2
    show ?case by (simp add: child_nesting_def)
  next
    case 3
    then show ?case by (simp add: small_def)
  next
    case 4
    show ?case by simp
  next
    case 5
    then show ?case by simp
  }
next
  case (Suc j)
  {
    case 1
    show ?case using Suc(1) by (simp add: child_toks_def)
  next
    case 2
    show ?case using Suc(2) by (simp add: child_nesting_def)
  next
    case 3
    then show ?case using Suc(3) by (simp add: small_def)
  next
    case 4
    show ?case using Suc(4) by simp
  next
    case 5
    then show ?case using Suc(5) by simp
  }
qed

lemma readable_unary:
  assumes a: "readable lib m a" "\<forall>x. a \<noteq> UnaryOp u x"
  shows "readable lib m ((UnaryOp u ^^ Suc j) a)"
proof -
  let ?e = "(UnaryOp u ^^ Suc j) a" and ?p = "unary_prec u"
  have prec_e: "prec ?e = ?p" by simp
  have "opens ?p (toks lib m ?e)"
  proof -
    have "\<not> is_not (KOp ''-'')" "unary_prec Not = 3" "unary_prec Neg = 8" by (simp_all add: is_not_def unary_prec_def)
    then show ?thesis unfolding unary_run_props(1) by (cases u) (simp_all add: opens_def)
  qed
  moreover have "reads m (nesting ?e) (level ?p n) (toks lib m ?e) ?p ?e" if n: "nesting ?e \<le> n" for n
    unfolding reads_def
  proof (intro allI impI)
    fix s rest
    assume s: "rem s = toks lib m ?e @ rest" "p_model s = m" "p_scope s = []" "p_depth s + nesting ?e \<le> max_nest s" "small s ?e"
      and c: "calm ?p rest"
    let ?ts = "child_toks lib m a ?p"
    define is_t where "is_t = (\<lambda>t. if u = Neg then t = KOp ''-'' else is_not t)"
    define here where "here = (if u = Neg then (\<lambda>s. peek s = Some (KOp ''-'')) else peek_kw ''not'')"
    have here: "here s' \<longleftrightarrow> (\<exists>t ts. rem s' = t # ts \<and> is_t t)" for s'
      by (cases s' rule: rem_cases) (auto simp: here_def is_t_def peek_kw_def is_not_def split: tok.splits)
    have "is_not (KIdent ''NOT'')" by (simp add: is_not_def eq_ignore_ascii_case_def lower_keywords)
    then have it: "is_t (unary_tok u)" by (cases u) (simp_all add: is_t_def)
    have "prec a \<noteq> ?p" using a(2) by (cases a rule: prec.cases; cases u; auto simp: unary_prec_def split: binary_op.splits)
    then have "opens (Suc ?p) ?ts" using a(1) by (intro child_opens_more) (simp_all add: readable_def)
    then have quiet: "?ts \<noteq> []" "\<not> is_t (hd ?ts)"
      by (cases u; simp add: opens_def is_t_def unary_prec_def)+
    have s1: "rem s = replicate (Suc j) (unary_tok u) @ ?ts @ rest" using s(1) unfolding unary_run_props(1) by simp
    have nest: "nesting ?e = Suc j + child_nesting a ?p" by (rule unary_run_props(2))
    have run: "prefixes here (loop_fuel s) 0 s = Inr (0 + Suc j, moved s (Suc j))"
    proof (rule prefixes_run [OF s1 here it])
      show "?ts @ rest = [] \<or> \<not> is_t (hd (?ts @ rest))" using quiet by simp
      show "p_depth s + 0 + Suc j \<le> max_nest s" using s(4) nest by simp
      show "Suc j < loop_fuel s" using rem_fuel [of s] s1 by simp
    qed
    have p: "1 \<le> ?p" "Suc ?p \<le> 10" by (simp_all add: unary_prec_def split: unary_op.splits)
    have "reads m (child_nesting a ?p) (level (Suc ?p) n) ?ts (Suc ?p) a"
      using n nest p \<open>prec a \<noteq> ?p\<close> by (intro readable_child [OF a(1)]) auto
    then have under: "level (Suc ?p) n ((moved s (Suc j))\<lparr>p_depth := p_depth s + Suc j\<rparr>) =
        Inr (a, moved ((moved s (Suc j))\<lparr>p_depth := p_depth s + Suc j\<rparr>) (length ?ts))"
      using s(2-5) s1 nest unary_run_props(3) [OF s(5)] calm_mono [OF c, of "Suc ?p"]
      by (intro readsD [of m _ _ _ _ _ _ rest]) (simp_all add: add.assoc)
    have "0 < n" using n nest by simp
    then have "level ?p n s = prefixed here u (level (Suc ?p) n) s"
      by (cases u) (simp_all add: unary_prec_def here_def unary_level not_level)
    also have "\<dots> = Inr (?e, moved s (Suc j + length ?ts))"
      using run under by (simp add: prefixed_def runs del: funpow.simps)
    finally show "level ?p n s = Inr (?e, moved s (length (toks lib m ?e)))"
      unfolding unary_run_props(1) by simp
  qed
  ultimately show ?thesis unfolding readable_def prec_e by blast
qed

section \<open>Every plain formula\<close>

text \<open>Every literal has a spelling.\<close>

fun spelled :: "(int \<Rightarrow> string) \<Rightarrow> expr \<Rightarrow> bool" where
  "spelled sd (Literal v) \<longleftrightarrow> literal_dsl sd v \<noteq> None"
| "spelled sd (UnaryOp u a) \<longleftrightarrow> spelled sd a"
| "spelled sd (BinaryOp b l r) \<longleftrightarrow> spelled sd l \<and> spelled sd r"
| "spelled sd (Call f args) \<longleftrightarrow> list_all (spelled sd) args"
| "spelled sd _ = True"

lemma spelled_unary_run: "spelled sd ((UnaryOp u ^^ j) a) = spelled sd a"
  by (induction j) simp_all

lemma literal_opens: "literal_dsl sd v \<noteq> None \<Longrightarrow> opens 10 [literal_tok v]"
  by (cases v) (simp_all add: opens_def is_not_def eq_ignore_ascii_case_def lower_keywords)

lemma ascii_upper_lower [simp]: "ascii_upper (ascii_lower c) = ascii_upper c"
  by (auto simp: ascii_lower_def ascii_upper_def Let_def char_of_char)

lemma upper_eq: "eq_ignore_ascii_case a b \<Longrightarrow> to_ascii_uppercase a = to_ascii_uppercase b"
proof -
  have "to_ascii_uppercase (to_ascii_lowercase x) = to_ascii_uppercase x" for x
    by (simp add: to_ascii_uppercase_def to_ascii_lowercase_def)
  then show "eq_ignore_ascii_case a b \<Longrightarrow> ?thesis" unfolding eq_ignore_ascii_case_def by metis
qed

lemma upper_not: "to_ascii_uppercase ''not'' = ''NOT''"
  by code_simp

lemma reads_readable:
  assumes "plain m e" "spelled sd e" "\<not> is_category e"
  shows "readable lib m e \<and> linked lib m e"
  using assms
proof (induction "size e" arbitrary: e rule: less_induct)
  case less
  have leaf: "readable lib m x \<and> linked lib m x"
    if "prec x = 10" "opens 10 (toks lib m x)" "\<And>n. nesting x \<le> n \<Longrightarrow> reads m (nesting x) (level 10 n) (toks lib m x) 10 x" for x
    using that by (simp add: readable_def linked_def)
  show ?case
  proof (cases e)
    case (Literal v)
    then have v: "literal_dsl sd v \<noteq> None" using less.prems(2) by simp
    show ?thesis unfolding Literal using literal_opens [OF v] reads_literal [OF v, of m]
      by (intro leaf) simp_all
  next
    case (Ref i sp)
    have "opens 10 (toks lib m (Ref i sp))"
      by (cases lib "measure_name_of m i" rule: word_tok_cases) (simp_all add: opens_def ref_toks_def is_not_def no_keyword)
    moreover have "reads m 1 (level 10 n) (toks lib m (Ref i sp)) 10 (Ref i sp)" for n
      using less.prems(1) unfolding Ref by (rule reads_ref)
    ultimately show ?thesis unfolding Ref by (intro leaf) simp_all
  next
    case (UnaryOp u x)
    obtain j a where e: "e = (UnaryOp u ^^ Suc j) a" and a: "\<forall>x. a \<noteq> UnaryOp u x"
      using unary_run [of u x] UnaryOp by metis
    have "plain m a" "\<not> is_category a" using less.prems(1) unary_run_props(5) e by blast+
    moreover have "spelled sd a" using less.prems(2) unfolding e by (simp only: spelled_unary_run)
    ultimately have "readable lib m a" using less.hyps [of a] unary_run_props(4) e by blast
    then have "readable lib m e" unfolding e using a by (rule readable_unary)
    moreover have "prec e \<notin> {1, 2, 5, 6, 7}" unfolding e by (cases u) (simp_all add: unary_prec_def)
    ultimately show ?thesis unfolding linked_def by blast
  next
    case (BinaryOp b l r)
    have sub: "plain m l" "plain m r" "spelled sd l" "spelled sd r" "\<not> is_category l" "\<not> is_category r"
      "size l < size e" "size r < size e" using less.prems BinaryOp by simp_all
    have l: "readable lib m l" "linked lib m l" and r: "readable lib m r"
      using less.hyps [OF sub(7)] less.hyps [OF sub(8)] sub by blast+
    have opens: "opens (prec e) (toks lib m e)"
      unfolding BinaryOp using l(1) prec_range(1) [of "BinaryOp b l r"]
      by (intro toks_opens_binary) (simp add: readable_def, linarith)
    have "prec e = 9 \<or> prec e = 4 \<or> prec e \<in> {1, 2, 5, 6, 7}" using BinaryOp by (cases b) simp_all
    then consider (pow) "b = Pow" | (compare) "prec e = 4" | (chain) "prec e \<in> {1, 2, 5, 6, 7}"
      using BinaryOp by (cases b) auto
    then show ?thesis
    proof cases
      case pow
      then show ?thesis using opens reads_pow [OF l(1) r] unfolding BinaryOp readable_def linked_def by simp
    next
      case compare
      then have "\<forall>n. nesting e \<le> n \<longrightarrow> reads m (nesting e) (level (prec e) n) (toks lib m e) (prec e) e"
        unfolding BinaryOp by (auto simp only: intro!: reads_compare [OF l(1) r])
      then show ?thesis using opens compare unfolding readable_def linked_def by simp
    next
      case chain
      have linked: "linked lib m e" using linked_binary [OF l r] chain unfolding BinaryOp by blast
      then have "\<forall>n. nesting e \<le> n \<longrightarrow> reads m (nesting e) (level (prec e) n) (toks lib m e) (prec e) e"
        using continues_reads chain unfolding linked_def by blast
      then show ?thesis using opens linked unfolding readable_def by blast
    qed
  next
    case (Call f args)
    obtain d where d: "by_id f = Some d" using less.prems(1) unfolding Call by (auto simp: plain_call_def split: option.splits)
    let ?need = "max_list (map nesting args)"
    have pc: "callable (fname d) = Some d"
      and cats: "\<And>i. i < length args \<Longrightarrow> is_category (args ! i) \<longleftrightarrow> param d i = ACategory \<and> aggregation (fname d) = None"
      using less.prems(1) d unfolding Call by (simp_all add: plain_call_def list_all_length nth_enumerate_eq)
    have args: "arg_reads lib m ?need (n - 1) (fname d) i (args ! i)" if i: "i < length args" and n: "1 + ?need \<le> n" for i n
    proof -
      have x: "args ! i \<in> set args" using i by simp
      have px: "plain m (args ! i)" "spelled sd (args ! i)"
        using less.prems(1,2) x unfolding Call by (simp_all add: list_all_iff)
      show ?thesis
      proof (cases "is_category (args ! i)")
        case True
        then obtain c where "args ! i = Category c" by (cases "args ! i") simp_all
        then show ?thesis using px(1) cats [OF i] True pc by (simp add: arg_reads_def category_argument_def)
      next
        case False
        have "size (args ! i) < size e" using x unfolding Call by (simp add: less_Suc_eq_le size_list_estimation')
        then have "readable lib m (args ! i)" using less.hyps px False by blast
        moreover have le: "nesting (args ! i) \<le> ?need" using x by (intro max_list_ge) simp
        ultimately have "reads m (nesting (args ! i)) (level 1 (n - 1)) (toks lib m (args ! i)) 1 (args ! i)"
          using n by (intro readable_level) simp_all
        then have "reads m ?need (level 1 (n - 1)) (toks lib m (args ! i)) 1 (args ! i)" using le by (rule reads_need)
        then show ?thesis using cats [OF i] False pc by (auto simp: arg_reads_def category_argument_def)
      qed
    qed
    have "opens 10 (toks lib m (Call f args))"
    proof -
      have "\<not> eq_ignore_ascii_case (fname d) ''not''"
        using less.prems(1) d upper_eq [of "fname d" "''not''"] upper_not unfolding Call
        by (auto simp: plain_call_def FORMS_def)
      then show ?thesis using d by (simp add: opens_def is_not_def)
    qed
    moreover have "reads m (1 + ?need) (level 10 n) (toks lib m (Call f args)) 10 (Call f args)" if "1 + ?need \<le> n" for n
      using that args less.prems(1) unfolding Call by (intro reads_call [OF _ d]) auto
    ultimately show ?thesis unfolding Call by (intro leaf) simp_all
  next
    case (Category c)
    then show ?thesis using less.prems(3) by simp
  qed
qed

end
