(* ===== verification/Printer_Text.thy ===== *)
theory Printer_Text
  imports Printer_Parse Number_Facts
begin

text \<open>
  The tokens of a printed formula's text: \<open>spells lib t ts\<close> says that the tokenizer reads the text \<open>t\<close> as
  the tokens \<open>ts\<close> and goes on after it, whatever soft text follows (none, a space, a comma, a bracket).
\<close>

section \<open>Steps of the tokenizer\<close>

definition soft :: "string \<Rightarrow> bool" where
  "soft rest \<longleftrightarrow> rest = [] \<or> hd rest \<in> set '' ,()[]''"

definition takes :: "std_lib \<Rightarrow> string \<Rightarrow> tok option \<Rightarrow> string \<Rightarrow> bool" where
  "takes lib s t rest \<longleftrightarrow> s \<noteq> [] \<and> (\<forall>start. next_token lib start (s @ rest) = Inr (t, rest))"

definition tokens_after :: "std_lib \<Rightarrow> string \<Rightarrow> tok list \<Rightarrow> string \<Rightarrow> bool" where
  "tokens_after lib s ts rest \<longleftrightarrow>
     (\<forall>start. \<exists>us. map fst us = ts \<and>
        tokens_from lib start (s @ rest) = rmap (\<lambda>vs. us @ vs) (tokens_from lib (start + length s) rest))"

definition spells :: "std_lib \<Rightarrow> string \<Rightarrow> tok list \<Rightarrow> bool" where
  "spells lib s ts \<longleftrightarrow> (\<forall>rest. soft rest \<longrightarrow> tokens_after lib s ts rest)"

text \<open>Whatever follows.\<close>

definition always :: "std_lib \<Rightarrow> string \<Rightarrow> tok list \<Rightarrow> bool" where
  "always lib s ts \<longleftrightarrow> (\<forall>rest. tokens_after lib s ts rest)"

lemma rmap_rmap: "rmap f (rmap g x) = rmap (\<lambda>y. f (g y)) x"
  by (cases x) simp_all

lemma rmap_id [simp]: "rmap (\<lambda>x. x) r = r"
  by (cases r) simp_all

lemma takes_after:
  assumes "takes lib s t rest"
  shows "tokens_after lib s (case t of Some t \<Rightarrow> [t] | None \<Rightarrow> []) rest"
  unfolding tokens_after_def
proof
  fix start
  have n: "next_token lib start (s @ rest) = Inr (t, rest)" and s: "s \<noteq> []" using assms by (auto simp: takes_def)
  then have "tokens_from lib start (s @ rest) =
      rmap (\<lambda>ts. (case t of Some t \<Rightarrow> (t, start) # ts | None \<Rightarrow> ts)) (tokens_from lib (start + length s) rest)"
    by (subst tokens_from.simps) simp
  then show "\<exists>us. map fst us = (case t of Some t \<Rightarrow> [t] | None \<Rightarrow> []) \<and>
      tokens_from lib start (s @ rest) = rmap (\<lambda>vs. us @ vs) (tokens_from lib (start + length s) rest)"
    by (intro exI [of _ "case t of Some t \<Rightarrow> [(t, start)] | None \<Rightarrow> []"]) (simp split: option.splits)
qed

lemma tokens_after_append:
  assumes "tokens_after lib a ts (b @ rest)" "tokens_after lib b us rest"
  shows "tokens_after lib (a @ b) (ts @ us) rest"
  unfolding tokens_after_def
proof
  fix start
  obtain xs where xs: "map fst xs = ts" "tokens_from lib start (a @ b @ rest) = rmap (\<lambda>vs. xs @ vs) (tokens_from lib (start + length a) (b @ rest))"
    using assms(1) unfolding tokens_after_def by blast
  obtain ys where ys: "map fst ys = us"
    "tokens_from lib (start + length a) (b @ rest) = rmap (\<lambda>vs. ys @ vs) (tokens_from lib (start + length a + length b) rest)"
    using assms(2) unfolding tokens_after_def by blast
  show "\<exists>zs. map fst zs = ts @ us \<and>
      tokens_from lib start ((a @ b) @ rest) = rmap (\<lambda>vs. zs @ vs) (tokens_from lib (start + length (a @ b)) rest)"
    using xs ys by (intro exI [of _ "xs @ ys"]) (simp add: rmap_rmap add.assoc)
qed

lemma soft_append: "soft b \<Longrightarrow> b \<noteq> [] \<Longrightarrow> soft (b @ rest)"
  by (simp add: soft_def)

lemma spells_soft: "spells lib a ts \<Longrightarrow> spells lib b us \<Longrightarrow> soft b \<Longrightarrow> b \<noteq> [] \<Longrightarrow> spells lib (a @ b) (ts @ us)"
  by (simp add: spells_def soft_append tokens_after_append)

lemma spells_always: "always lib a ts \<Longrightarrow> spells lib b us \<Longrightarrow> spells lib (a @ b) (ts @ us)"
  by (simp add: spells_def always_def tokens_after_append)

lemma always_append: "always lib a ts \<Longrightarrow> always lib b us \<Longrightarrow> always lib (a @ b) (ts @ us)"
  by (simp add: always_def tokens_after_append)

lemma always_spells: "always lib a ts \<Longrightarrow> spells lib a ts"
  by (simp add: always_def spells_def)

lemma takes_always: "(\<And>rest. takes lib s t rest) \<Longrightarrow> always lib s (case t of Some t \<Rightarrow> [t] | None \<Rightarrow> [])"
  by (simp add: always_def takes_after)

lemma takes_spells: "(\<And>rest. soft rest \<Longrightarrow> takes lib s (Some t) rest) \<Longrightarrow> spells lib s [t]"
  using takes_after [of lib s "Some t"] by (simp add: spells_def)

section \<open>Operators\<close>

text \<open>An ASCII character is a character of its own.\<close>

lemma first_char_ascii: "byte_val c < 128 \<Longrightarrow> first_char (c # s) = [c]"
  by (simp add: first_char_def char_len_def)

definition single :: "char \<Rightarrow> bool" where
  "single c \<longleftrightarrow> byte_val c < 128 \<and> c \<notin> set '' <>=!#@_'' \<and> c \<noteq> CHR 0x22 \<and> c \<noteq> CHR 0x27 \<and>
     \<not> ascii_digit c \<and> \<not> ascii_alphabetic c \<and> [c] \<notin> set white_space \<and> c \<in> set single_ops"

lemma single_takes: "single c \<Longrightarrow> takes lib [c] (Some (KOp [c])) rest"
  by (auto simp: takes_def next_token_def first_char_ascii single_def is_whitespace_def starts_ident_def
      is_alphabetic_def two_ops_def Let_def)

lemma singles: "single (CHR ''+'')" "single (CHR ''-'')" "single (CHR ''*'')" "single (CHR ''/'')" "single (CHR ''^'')"
  "single (CHR ''('')" "single (CHR '')'')" "single (CHR ''['')" "single (CHR '']'')" "single (CHR '','')" "single (CHR ''&'')"
  by code_simp+

lemma space_takes: "takes lib '' '' None rest"
proof -
  have "is_whitespace '' ''" by code_simp
  moreover have "byte_val (CHR '' '') < 128" by code_simp
  ultimately show ?thesis by (simp add: takes_def next_token_def first_char_ascii Let_def)
qed

section \<open>Words\<close>

text \<open>Every character is whole, as in a Rust string.\<close>

definition whole_chars :: "string \<Rightarrow> bool" where
  "whole_chars s \<longleftrightarrow> list_all (\<lambda>ch. ch \<noteq> [] \<and> length ch = char_len (hd ch)) (chars s)"

lemma chars_whole_append: "whole_chars a \<Longrightarrow> chars (a @ b) = chars a @ chars b"
proof (induction a rule: chars.induct)
  case (2 c cs)
  let ?n = "char_len c"
  have len: "?n \<le> Suc (length cs)" and tl: "whole_chars (List.drop (?n - 1) cs)"
    using 2(2) by (auto simp: whole_chars_def min_def split: if_splits)
  then have "take ?n (c # cs @ b) = take ?n (c # cs)" "List.drop (?n - 1) (cs @ b) = List.drop (?n - 1) cs @ b"
    using char_len_pos(1) [of c] by (cases ?n; simp)+
  then show ?case using 2(1) [OF tl] by simp
qed simp

lemma concat_chars: "concat (chars s) = s"
proof (induction s rule: chars.induct)
  case (2 c cs)
  have "take (char_len c) (c # cs) @ List.drop (char_len c - 1) cs = c # cs"
    using char_len_pos(1) [of c] by (cases "char_len c") simp_all
  then show ?case using 2 by simp
qed simp

lemma ascii_chars: "list_all (\<lambda>c. byte_val c < 128) s \<Longrightarrow> chars s = map (\<lambda>c. [c]) s"
  by (induction s) (simp_all add: char_len_def)

lemma ascii_whole: "list_all (\<lambda>c. byte_val c < 128) s \<Longrightarrow> whole_chars s"
  by (simp add: whole_chars_def ascii_chars list_all_iff) (simp add: char_len_def)

lemma soft_head:
  assumes "soft rest"
  shows "rest = [] \<or> (\<exists>c r. rest = c # r \<and> c \<in> set '' ,()[]'')"
  using assms by (cases rest) (auto simp: soft_def)

lemma soft_not_word: "soft rest \<Longrightarrow> takeWhile (word_char lib) (chars rest) = []"
  by (auto simp: char_len_def byte_val_def word_char_def is_alphanumeric_def ascii_alphabetic_def ascii_uppercase_def ascii_digit_def
      dest!: soft_head)

lemma word_len_soft:
  assumes "whole_chars t" "list_all (word_char lib) (chars t)" "takeWhile (word_char lib) (chars rest) = []"
  shows "word_len lib (t @ rest) = length t"
proof -
  have "takeWhile (word_char lib) (chars (t @ rest)) = chars t"
    using assms by (simp add: chars_whole_append takeWhile_append list_all_iff)
  then show ?thesis by (simp add: word_len_def concat_chars)
qed

text \<open>The letters the library knows beyond ASCII are not white space.\<close>

definition letters_no_space :: "std_lib \<Rightarrow> bool" where
  "letters_no_space lib \<longleftrightarrow> list_all (\<lambda>ch. \<not> is_alphabetic lib ch) white_space"

lemma first_char_chars: "s \<noteq> [] \<Longrightarrow> chars s = first_char s # chars (List.drop (length (first_char s)) s)"
proof -
  assume "s \<noteq> []"
  then obtain c cs where s: "s = c # cs" by (cases s) auto
  have "List.drop (length (take (char_len c) (c # cs))) (c # cs) = List.drop (char_len c - 1) cs"
    using char_len_pos(1) [of c] by (cases "char_len c") (simp_all add: min_def)
  then show ?thesis by (simp add: s first_char_def)
qed

lemma first_char_append:
  assumes "whole_chars s" "s \<noteq> []"
  shows "first_char (s @ rest) = first_char s"
  using chars_whole_append [OF assms(1), of rest] first_char_chars [of s] first_char_chars [of "s @ rest"] assms(2) by simp

lemma bare_word_parts:
  assumes "bare_word lib name"
  shows "name \<noteq> []" "is_alphabetic lib (first_char name) \<or> first_char name = ''_''"
    "list_all (word_char lib) (chars (List.drop (length (first_char name)) name))"
proof -
  show n: "name \<noteq> []" using assms by (auto simp: bare_word_def)
  show "is_alphabetic lib (first_char name) \<or> first_char name = ''_''"
    "list_all (word_char lib) (chars (List.drop (length (first_char name)) name))"
    using assms first_char_chars [OF n] by (auto simp: bare_word_def word_char_def [abs_def])
qed

text \<open>The character a word starts with sends the tokenizer to the identifiers.\<close>

lemma word_start:
  assumes "letters_no_space lib" "is_alphabetic lib ch \<or> ch = ''_''"
  shows "\<not> is_whitespace ch" "ch \<noteq> [CHR 0x22]" "ch \<noteq> ''#''" "\<not> (length ch = 1 \<and> ascii_digit (hd ch))" "ch \<noteq> [CHR 0x27]"
proof -
  have "\<not> is_whitespace ''_''" by code_simp
  then show "\<not> is_whitespace ch" using assms by (auto simp: letters_no_space_def is_whitespace_def list_all_iff)
  show "ch \<noteq> [CHR 0x22]" "ch \<noteq> ''#''" "ch \<noteq> [CHR 0x27]" "\<not> (length ch = 1 \<and> ascii_digit (hd ch))"
    using assms(2)
    by (auto simp: is_alphabetic_def ascii_alphabetic_def ascii_uppercase_def ascii_digit_def byte_val_def length_Suc_conv)
qed

lemma word_takes:
  assumes lib: "letters_no_space lib" and w: "bare_word lib name" "whole_chars name" and r: "soft rest"
  shows "takes lib name (Some (KIdent name)) rest"
  unfolding takes_def
proof (intro conjI allI)
  note parts = bare_word_parts [OF w(1)]
  show "name \<noteq> []" by (rule parts(1))
  fix start
  let ?ch = "first_char name" and ?tl = "List.drop (length (first_char name)) name"
  have ch: "first_char (name @ rest) = ?ch" by (rule first_char_append [OF w(2) parts(1)])
  have len: "length ?ch \<le> length name" using parts(1) by (cases name) (simp_all add: first_char_def)
  have "whole_chars ?tl" using w(2) unfolding whole_chars_def first_char_chars [OF parts(1)] list.pred_inject by blast
  then have "word_len lib (?tl @ rest) = length ?tl"
    using parts(3) soft_not_word [OF r] by (rule word_len_soft)
  then have i: "length ?ch + word_len lib (List.drop (length ?ch) (name @ rest)) = length name" using len by simp
  have "dotted_end lib 3 (name @ rest) (length name) None = None"
    using soft_head [OF r] by (auto simp: numeral_3_eq_3)
  then have n: "ident_len lib (name @ rest) = length name" unfolding ident_len_def Let_def ch i by simp
  have "starts_ident lib (name @ rest)" using parts(2) unfolding starts_ident_def ch by blast
  then show "next_token lib start (name @ rest) = Inr (Some (KIdent name), rest)"
    using word_start [OF lib parts(2)] n unfolding next_token_def Let_def ch by auto
qed

text \<open>ASCII words.\<close>

definition ascii_word :: "string \<Rightarrow> bool" where
  "ascii_word w \<longleftrightarrow> w \<noteq> [] \<and> (ascii_alphabetic (hd w) \<or> hd w = CHR ''_'') \<and>
     list_all (\<lambda>c. ascii_alphabetic c \<or> ascii_digit c \<or> c = CHR ''_'') w"

lemma ascii_word_byte: "ascii_alphabetic c \<or> ascii_digit c \<or> c = CHR ''_'' \<Longrightarrow> byte_val c < 128"
  by (auto simp: ascii_alphabetic_def ascii_uppercase_def ascii_digit_def byte_val_def)

lemma ascii_word_bare: "ascii_word w \<Longrightarrow> bare_word lib w \<and> whole_chars w"
proof -
  assume w: "ascii_word w"
  then have b: "list_all (\<lambda>c. byte_val c < 128) w" using ascii_word_byte by (auto simp: ascii_word_def list_all_iff)
  obtain c cs where "w = c # cs" using w by (cases w) (auto simp: ascii_word_def)
  then show ?thesis using w ascii_chars [OF b] ascii_whole [OF b]
    by (auto simp: bare_word_def is_alphabetic_def is_alphanumeric_def ascii_word_def list_all_iff)
qed

section \<open>Quoted texts and names\<close>

lemma doubled_simps [simp]:
  "doubled q [] = []" "doubled q (c # cs) = (if c = q then [q, q] else [c]) @ doubled q cs"
  by (simp_all add: doubled_def)

lemma scan_doubled:
  assumes "rest = [] \<or> hd rest \<noteq> q"
  shows "scan_quoted q (doubled q t @ q # rest) = Some (t, rest)"
proof (induction t)
  case Nil
  then show ?case using assms by (cases rest) simp_all
qed simp

lemma soft_not_quote: "soft rest \<Longrightarrow> rest = [] \<or> hd rest \<noteq> CHR 0x22 \<and> hd rest \<noteq> CHR 0x27"
  by (auto simp: soft_def)

lemma string_takes:
  assumes "soft rest"
  shows "takes lib ([CHR 0x22] @ doubled (CHR 0x22) t @ [CHR 0x22]) (Some (KStr t)) rest"
proof -
  have "\<not> is_whitespace [CHR 0x22]" "byte_val (CHR 0x22) < 128" by code_simp+
  then show ?thesis using scan_doubled [of rest "CHR 0x22" t] soft_not_quote [OF assms]
    by (auto simp: takes_def next_token_def first_char_ascii Let_def)
qed

lemma quoted_takes:
  assumes "soft rest" "t \<noteq> []"
  shows "takes lib ([CHR 0x27] @ doubled (CHR 0x27) t @ [CHR 0x27]) (Some (KQIdent t)) rest"
proof -
  have "\<not> is_whitespace [CHR 0x27]" "byte_val (CHR 0x27) < 128" "\<not> ascii_digit (CHR 0x27)" by code_simp+
  then show ?thesis using scan_doubled [of rest "CHR 0x27" t] soft_not_quote [OF assms(1)] assms(2)
    by (auto simp: takes_def next_token_def first_char_ascii Let_def)
qed

lemma ident_spells:
  assumes "ident_dsl lib name = Some t" "letters_no_space lib" "whole_chars name"
  shows "spells lib t [word_tok lib name]"
  using assms by (intro takes_spells) (auto simp: ident_dsl_def word_tok_def word_takes quoted_takes [simplified] split: if_splits)

section \<open>Numbers and dates\<close>

lemma num_run_digits:
  "list_all ascii_digit ds \<Longrightarrow> num_run (ds @ r) = ds @ num_run r"
  "list_all ascii_digit ds \<Longrightarrow> ds \<noteq> [] \<Longrightarrow> num_run (CHR ''.'' # ds @ r) = CHR ''.'' # ds @ num_run r"
proof -
  show a: "list_all ascii_digit ds \<Longrightarrow> num_run (ds @ r) = ds @ num_run r" for ds
    by (induction ds) simp_all
  show "list_all ascii_digit ds \<Longrightarrow> ds \<noteq> [] \<Longrightarrow> num_run (CHR ''.'' # ds @ r) = CHR ''.'' # ds @ num_run r"
    using a by (cases ds) simp_all
qed

text \<open>The digits and the point of a printed number, and its exponent.\<close>

definition mantissa :: "string \<Rightarrow> bool" where
  "mantissa t \<longleftrightarrow> t \<noteq> [] \<and> ascii_digit (hd t) \<and> (\<forall>r. num_run (t @ r) = t @ num_run r)"

lemma mantissa_digits: "list_all ascii_digit ds \<Longrightarrow> ds \<noteq> [] \<Longrightarrow> mantissa ds"
  by (cases ds) (simp_all add: mantissa_def num_run_digits)

lemma mantissa_point:
  "list_all ascii_digit ds \<Longrightarrow> ds \<noteq> [] \<Longrightarrow> list_all ascii_digit fs \<Longrightarrow> fs \<noteq> [] \<Longrightarrow> mantissa (ds @ CHR ''.'' # fs)"
proof -
  assume d: "list_all ascii_digit ds" "ds \<noteq> []" and f: "list_all ascii_digit fs" "fs \<noteq> []"
  have "num_run ((ds @ CHR ''.'' # fs) @ r) = (ds @ CHR ''.'' # fs) @ num_run r" for r
    using num_run_digits(1) [OF d(1), of "CHR ''.'' # fs @ r"] num_run_digits(2) [OF f, of r] by simp
  moreover have "ascii_digit (hd ds)" using d by (cases ds) simp_all
  ultimately show ?thesis using d(2) by (simp add: mantissa_def)
qed

lemma plain_text_mantissa:
  assumes "list_all ascii_digit ds" "ds \<noteq> []"
  shows "mantissa (plain_text ds e)"
proof -
  consider "e < 0" | "0 \<le> e" "int (length ds) \<le> e + 1" | "0 \<le> e" "e + 1 < int (length ds)" by linarith
  then show ?thesis
  proof cases
    case 1
    then show ?thesis using mantissa_point [of "''0''" "replicate (nat (- e) - 1) (CHR ''0'') @ ds"] assms
      by (simp add: plain_text_def ascii_digit_def byte_val_def)
  next
    case 2
    then show ?thesis using assms by (auto simp: plain_text_def intro!: mantissa_digits)
  next
    case 3
    then show ?thesis using mantissa_point [of "take (nat e + 1) ds" "List.drop (nat e + 1) ds"] assms
      by (simp add: plain_text_def take_digits)
  qed
qed

lemma soft_no_number: "soft rest \<Longrightarrow> num_run rest = [] \<and> exponent_run rest = None"
  by (auto simp: exponent_run_def is_e_def ascii_digit_def byte_val_def dest!: soft_head)

lemma digit_char_facts:
  assumes "ascii_digit c"
  shows "byte_val c < 128" "\<not> is_whitespace [c]" "c \<noteq> CHR 0x22" "c \<noteq> CHR ''#''"
proof -
  have c: "48 \<le> byte_val c" "byte_val c \<le> 57" using assms by (simp_all add: ascii_digit_def)
  then show "byte_val c < 128" by linarith
  have "byte_val (CHR 0x22) = 34" "byte_val (CHR ''#'') = 35" by code_simp+
  then show "c \<noteq> CHR 0x22" "c \<noteq> CHR ''#''" using c by auto
  have "list_all (\<lambda>w. case w of [d] \<Rightarrow> byte_val d < 48 | _ \<Rightarrow> True) white_space" by code_simp
  then show "\<not> is_whitespace [c]" using c by (auto simp: is_whitespace_def list_all_iff)
qed

lemma number_takes:
  assumes t: "mantissa m" "t = m \<or> (\<exists>sg ds. t = m @ ''e'' @ sg @ ds \<and> (sg = [] \<or> sg = ''-'') \<and> list_all ascii_digit ds \<and> ds \<noteq> [])"
    and x: "parse_f64 t = Some x" "f64_finite x" and r: "soft rest"
  shows "takes lib t (Some (KNumber x)) rest"
  unfolding takes_def
proof (intro conjI allI)
  show "t \<noteq> []" using t by (auto simp: mantissa_def)
  fix start
  obtain c cs where m: "m = c # cs" "ascii_digit c" using t(1) by (cases m) (auto simp: mantissa_def)
  then obtain ts where tc: "t = c # ts" using t(2) by auto
  have inf: "\<not> f64_infinite x" using x(2) by (simp add: f64_infinite_def f64_finite_def)
  have run: "num_run (m @ r') = m @ num_run r'" for r' using t(1) by (simp add: mantissa_def)
  have number: "number_token start (t @ rest) = Inr (KNumber x, rest)"
  proof (cases "t = m")
    case True
    then show ?thesis using run [of rest] soft_no_number [OF r] x(1) inf by (simp add: number_token_def Let_def)
  next
    case False
    then obtain sg ds where e: "t = m @ ''e'' @ sg @ ds" "list_all ascii_digit ds" "ds \<noteq> []" and sg: "sg = [] \<or> sg = ''-''"
      using t(2) by blast
    have d0: "hd ds \<noteq> CHR ''+''" "hd ds \<noteq> CHR ''-''" "ascii_digit (hd ds)" using e(2,3) digit_no_mark(3,4) by (cases ds; auto)+
    have "takeWhile ascii_digit (ds @ rest) = ds"
      using e(2) soft_head [OF r] by (auto simp: takeWhile_append list_all_iff ascii_digit_def byte_val_def)
    then have ex: "exponent_run (''e'' @ sg @ ds @ rest) = Some (CHR ''e'' # sg, ds)"
      using sg d0 e(3) by (cases ds) (auto simp: exponent_run_def is_e_def Let_def)
    have "num_run (''e'' @ sg @ ds @ rest) = []" by (simp add: ascii_digit_def byte_val_def)
    then have "num_run (t @ rest) = m" using run [of "''e'' @ sg @ ds @ rest"] e(1) by simp
    moreover have "List.drop (length m) (t @ rest) = ''e'' @ sg @ ds @ rest" using e(1) by simp
    ultimately show ?thesis using ex e x(1) inf by (simp add: number_token_def Let_def)
  qed
  note c = digit_char_facts [OF m(2)]
  have fc: "first_char (t @ rest) = [c]" using tc first_char_ascii [OF c(1)] by simp
  show "next_token lib start (t @ rest) = Inr (Some (KNumber x), rest)"
    unfolding next_token_def Let_def fc number using c(2-4) m(2) by simp
qed

lemma display_shape:
  assumes "x \<noteq> 0"
  shows "mantissa (display_f64 x)"
    "\<exists>m sg ds. mantissa m \<and> display_exp x = m @ ''e'' @ sg @ ds \<and> (sg = [] \<or> sg = ''-'') \<and> list_all ascii_digit ds \<and> ds \<noteq> []"
proof -
  obtain q e where sh: "shortest x = (q, e)" by (cases "shortest x")
  let ?d = "dec (nat q)"
  show "mantissa (display_f64 x)" using assms sh plain_text_mantissa [OF dec_digits dec_nonempty] by (simp add: display_f64_def)
  have "mantissa (take 1 ?d @ (if length ?d = 1 then [] else ''.'' @ List.drop 1 ?d))"
  proof (cases "length ?d = 1")
    case True
    then show ?thesis using mantissa_digits [OF dec_digits dec_nonempty, of "nat q"] by simp
  next
    case False
    obtain c cs where d: "?d = c # cs" by (meson dec_nonempty neq_Nil_conv)
    then show ?thesis using False mantissa_point [of "[c]" cs] dec_digits [of "nat q"] by auto
  qed
  moreover obtain sg ds where "signed_dec e = sg @ ds" "sg = [] \<or> sg = ''-''" "list_all ascii_digit ds" "ds \<noteq> []"
  proof (cases "e < 0")
    case True
    then show ?thesis using that [of "''-''"] dec_digits dec_nonempty by (simp add: signed_dec_def)
  next
    case False
    then show ?thesis using that [of "[]"] dec_digits dec_nonempty by (simp add: signed_dec_def)
  qed
  moreover have "display_exp x = exp_text ?d e" using assms sh by (simp add: display_exp_def)
  ultimately show "\<exists>m sg ds. mantissa m \<and> display_exp x = m @ ''e'' @ sg @ ds \<and> (sg = [] \<or> sg = ''-'') \<and> list_all ascii_digit ds \<and> ds \<noteq> []"
    unfolding exp_text_def append_assoc [symmetric] by (metis append_assoc)
qed

section \<open>Function names\<close>

text \<open>At most four ASCII words with dots between them, behind an \<open>@\<close> perhaps.\<close>

fun dot_parts :: "string \<Rightarrow> string list" where
  "dot_parts [] = [[]]"
| "dot_parts (c # cs) =
     (if c = CHR ''.'' then [] # dot_parts cs
      else case dot_parts cs of p # ps \<Rightarrow> (c # p) # ps | [] \<Rightarrow> [[c]])"

definition word_byte :: "char \<Rightarrow> bool" where
  "word_byte c \<longleftrightarrow> ascii_alphabetic c \<or> ascii_digit c \<or> c = CHR ''_''"

definition fn_body :: "string \<Rightarrow> string" where
  "fn_body w = (case w of c # cs \<Rightarrow> if c = CHR ''@'' then cs else w | [] \<Rightarrow> [])"

definition fn_word :: "string \<Rightarrow> bool" where
  "fn_word w \<longleftrightarrow>
     (let ps = dot_parts (fn_body w)
      in list_all (\<lambda>p. p \<noteq> [] \<and> list_all word_byte p) ps \<and> length ps \<le> 4 \<and> ascii_alphabetic (hd (hd ps)))"

definition dots :: "string list \<Rightarrow> string" where
  "dots ps = concat (map (\<lambda>p. CHR ''.'' # p) ps)"

lemma dots_simps [simp]: "dots [] = []" "dots (p # ps) = CHR ''.'' # p @ dots ps"
  by (simp_all add: dots_def)

lemma dot_parts_text: "\<exists>p ps. dot_parts w = p # ps \<and> w = p @ dots ps"
  by (induction w) auto

definition word_named :: "fn_def \<Rightarrow> bool" where
  "word_named d \<longleftrightarrow> fn_word (fname d)"

lemma words_CORE: "list_all word_named CORE"
  by code_simp

lemma words_DATE: "list_all word_named DATE"
  by code_simp

lemma words_DIMENSIONAL: "list_all word_named DIMENSIONAL"
  by code_simp

lemma words_ARRAY: "list_all word_named ARRAY"
  by code_simp

lemma words_STATISTICAL: "list_all word_named STATISTICAL"
  by code_simp

lemma words_STATISTICAL_REDUCE: "list_all word_named STATISTICAL_REDUCE"
  by code_simp

lemma words_FINANCIAL: "list_all word_named FINANCIAL"
  by code_simp

lemma words_FINANCIAL_REDUCE: "list_all word_named FINANCIAL_REDUCE"
  by code_simp

lemma words_LOOKUP: "list_all word_named LOOKUP"
  by code_simp

lemma words_ENGINEERING: "list_all word_named ENGINEERING"
  by code_simp

lemma words_MATH_EXTRA: "list_all word_named MATH_EXTRA"
  by code_simp

lemma words_DIST_EXTRA: "list_all word_named DIST_EXTRA"
  by code_simp

lemma words_OPTIONS: "list_all word_named OPTIONS"
  by code_simp

lemma words_ANALYSIS: "list_all word_named ANALYSIS"
  by code_simp

lemmas table_words = words_CORE words_DATE words_DIMENSIONAL words_ARRAY words_STATISTICAL words_STATISTICAL_REDUCE 
  words_FINANCIAL words_FINANCIAL_REDUCE words_LOOKUP words_ENGINEERING words_MATH_EXTRA words_DIST_EXTRA words_OPTIONS words_ANALYSIS

lemma registered_words: "list_all word_named all_fns"
  unfolding all_fns_def FAMILIES_def by (simp only: concat.simps list_all_append list.pred_inject table_words simp_thms)

lemma word_byte_chars: "list_all word_byte p \<Longrightarrow> list_all (word_char lib) (chars p) \<and> whole_chars p"
proof -
  assume p: "list_all word_byte p"
  then have b: "list_all (\<lambda>c. byte_val c < 128) p" using ascii_word_byte by (auto simp: word_byte_def list_all_iff)
  then show ?thesis using p ascii_chars [OF b] ascii_whole [OF b]
    by (auto simp: word_char_def is_alphanumeric_def word_byte_def list_all_iff)
qed

lemma word_len_part:
  assumes "list_all word_byte p"
  shows "word_len lib (p @ dots ps @ CHR ''('' # rest) = length p"
proof (rule word_len_soft)
  show "takeWhile (word_char lib) (chars (dots ps @ CHR ''('' # rest)) = []"
    by (cases ps) (simp_all add: char_len_def byte_val_def word_char_def is_alphanumeric_def ascii_alphabetic_def
        ascii_uppercase_def ascii_digit_def)
qed (use assms word_byte_chars in auto)

lemma trim_start_plain:
  assumes "byte_val c < 128" "\<not> is_whitespace [c]"
  shows "trim_start (c # s) = c # s"
proof -
  have "list_all (\<lambda>w. w \<noteq> [] \<and> (128 \<le> byte_val (hd w) \<or> length w = 1)) white_space" by code_simp
  then have "find (\<lambda>w. w \<noteq> [] \<and> prefix w (c # s)) white_space = None"
    using assms by (auto simp: find_None_iff list_all_iff is_whitespace_def prefix_Cons length_Suc_conv neq_Nil_conv)
  then show ?thesis by (simp add: trim_start_def strip_front.simps)
qed

lemma dotted_end_parts:
  assumes "list_all (\<lambda>p. p \<noteq> [] \<and> list_all word_byte p) ps" "length ps \<le> k" "by_name (pre @ dots ps) \<noteq> []"
  shows "dotted_end lib k (pre @ dots ps @ CHR ''('' # rest) (length pre) best =
     (if ps = [] then best else Some (length (pre @ dots ps)))"
  using assms
proof (induction ps arbitrary: pre k best)
  case Nil
  then show ?case by (cases k) simp_all
next
  case (Cons p ps)
  then obtain j where k: "k = Suc j" by (cases k) auto
  obtain c cs where p: "p = c # cs" "word_byte c" using Cons.prems(1) by (cases p) auto
  have byte: "byte_val c < 128" using ascii_word_byte p(2) by (simp add: word_byte_def)
  let ?r = "p @ dots ps @ CHR ''('' # rest"
  let ?s = "pre @ dots (p # ps) @ CHR ''('' # rest"
  have len: "word_len lib ?r = length p" using Cons.prems(1) by (intro word_len_part) simp
  have "first_char ?r = [c]" using first_char_ascii [OF byte] p(1) by simp
  moreover have "word_char lib [c]" using p(2) by (auto simp: word_char_def is_alphanumeric_def word_byte_def)
  moreover have "List.drop (length pre) ?s = CHR ''.'' # ?r" by simp
  ultimately have step: "dotted_end lib k ?s (length pre) best =
      dotted_end lib j ?s (length (pre @ CHR ''.'' # p))
        (if prefix ''('' (trim_start (dots ps @ CHR ''('' # rest)) \<and> by_name (pre @ CHR ''.'' # p) \<noteq> []
         then Some (length (pre @ CHR ''.'' # p)) else best)"
    using len p(1) by (simp add: k Let_def)
  have "trim_start (dots ps @ CHR ''('' # rest) = dots ps @ CHR ''('' # rest"
  proof -
    have "\<not> is_whitespace ''.''" "\<not> is_whitespace ''(''" "byte_val (CHR ''.'') < 128" "byte_val (CHR ''('') < 128" by code_simp+
    then show ?thesis by (cases ps) (simp_all add: trim_start_plain)
  qed
  then have open_paren: "prefix ''('' (trim_start (dots ps @ CHR ''('' # rest)) \<longleftrightarrow> ps = []" by (cases ps) simp_all
  have s_eq: "?s = (pre @ CHR ''.'' # p) @ dots ps @ CHR ''('' # rest" by simp
  have "dotted_end lib j ?s (length (pre @ CHR ''.'' # p)) b = (if ps = [] then b else Some (length ((pre @ CHR ''.'' # p) @ dots ps)))" for b
    unfolding s_eq using Cons.prems k by (intro Cons.IH) simp_all
  then show ?case using step open_paren Cons.prems(3) by (cases ps) simp_all
qed

end
