(* ===== verification/Printer_Facts.thy ===== *)
theory Printer_Facts
  imports Printer_Text Lambda_Facts
begin

text \<open>
  Printing and parsing: the text of a plain formula is its tokens, and the parser reads them back.
\<close>

section \<open>Texts of tokens\<close>

lemma fn_takes:
  assumes w: "fn_word w" and n: "by_name w \<noteq> []"
  shows "takes lib w (Some (KIdent w)) (CHR ''('' # rest)"
  unfolding takes_def
proof (intro conjI allI)
  obtain p ps where ps: "dot_parts (fn_body w) = p # ps" "fn_body w = p @ dots ps" using dot_parts_text by blast
  have p: "p \<noteq> []" "list_all word_byte p" "list_all (\<lambda>p. p \<noteq> [] \<and> list_all word_byte p) ps" "length ps \<le> 3"
    "ascii_alphabetic (hd p)"
    using w ps(1) by (simp_all add: fn_word_def Let_def)
  obtain c cs where pc: "p = c # cs" "ascii_alphabetic c" "list_all word_byte cs" using p by (cases p) auto
  have body: "(\<exists>at. w = at @ p @ dots ps \<and> at = []) \<or> w = ''@'' @ p @ dots ps"
    using ps(2) p(1) by (cases w) (auto simp: fn_body_def split: if_splits)
  then obtain at where w_eq: "w = at @ p @ dots ps" "at = [] \<or> at = ''@''" by auto
  show "w \<noteq> []" using w_eq(1) p(1) by simp
  fix start
  let ?s = "w @ CHR ''('' # rest"
  have c_byte: "byte_val c < 128" using ascii_word_byte [of c] pc(2) by simp
  have at_byte: "byte_val (CHR ''@'') < 128" "\<not> is_whitespace ''@''" "\<not> ascii_digit (CHR ''@'')" by code_simp+
  have dots: "dotted_end lib 3 ((at @ p) @ dots ps @ CHR ''('' # rest) (length (at @ p)) None =
      (if ps = [] then None else Some (length ((at @ p) @ dots ps)))"
    using p(3,4) n w_eq(1) by (intro dotted_end_parts) simp_all
  have first: "first_char ?s = (if at = [] then [c] else ''@'')"
    using w_eq pc(1) first_char_ascii [OF c_byte] first_char_ascii [OF at_byte(1)] by auto
  have i: "length (first_char ?s) + word_len lib (List.drop (length (first_char ?s)) ?s) = length (at @ p)"
    using w_eq(2)
  proof
    assume "at = []"
    then show ?thesis using first w_eq(1) pc(1) word_len_part [OF pc(3), of lib ps rest] by simp
  next
    assume "at = ''@''"
    then show ?thesis using first w_eq(1) word_len_part [OF p(2), of lib ps rest] by simp
  qed
  have s_eq: "?s = (at @ p) @ dots ps @ CHR ''('' # rest" using w_eq(1) by simp
  have len: "ident_len lib ?s = length w"
    unfolding ident_len_def Let_def i unfolding s_eq dots by (simp add: w_eq(1))
  have letter: "is_alphabetic lib [c]" using pc(2) by (simp add: is_alphabetic_def)
  then have starts: "starts_ident lib ?s"
    using first w_eq pc(1) first_char_ascii [OF c_byte] by (auto simp: starts_ident_def)
  have "\<not> is_whitespace (first_char ?s) \<and> first_char ?s \<noteq> [CHR 0x22] \<and> first_char ?s \<noteq> ''#'' \<and>
      \<not> (length (first_char ?s) = 1 \<and> ascii_digit (hd (first_char ?s))) \<and> first_char ?s \<noteq> [CHR 0x27]"
  proof (cases "at = []")
    case True
    have "list_all (\<lambda>ch. case ch of [d] \<Rightarrow> \<not> ascii_alphabetic d | _ \<Rightarrow> True) white_space" by code_simp
    then have "\<not> is_whitespace [c]" using pc(2) by (auto simp: is_whitespace_def list_all_iff)
    moreover have "\<not> ascii_alphabetic (CHR 0x22)" "\<not> ascii_alphabetic (CHR 0x27)" "\<not> ascii_alphabetic (CHR ''#'')" by code_simp+
    moreover have "\<not> ascii_digit c" using pc(2) by (auto simp: ascii_alphabetic_def ascii_uppercase_def ascii_digit_def)
    ultimately show ?thesis using True first pc(2) by auto
  next
    case False
    then show ?thesis using first at_byte by simp
  qed
  then show "next_token lib start ?s = Inr (Some (KIdent w), CHR ''('' # rest)"
    using starts len unfolding next_token_def Let_def by auto
qed

text \<open>
  What the parser needs of chrono for a date: it reads the date's RFC 3339 text, which has no \<open>#\<close> and no
  space around it.
\<close>

definition date_reads_back :: "std_lib \<Rightarrow> (int \<Rightarrow> string) \<Rightarrow> int \<Rightarrow> bool" where
  "date_reads_back lib sd d \<longleftrightarrow>
     rfc3339 lib (sd d) = Some d \<and> trim (sd d) = sd d \<and> CHR ''#'' \<notin> set (sd d)"

fun dates :: "expr \<Rightarrow> int list" where
  "dates (Literal v) = (case v of DateTime d \<Rightarrow> [d] | _ \<Rightarrow> [])"
| "dates (UnaryOp u a) = dates a"
| "dates (BinaryOp b l r) = dates l @ dates r"
| "dates (Call f args) = concat (map dates args)"
| "dates _ = []"

lemma date_takes:
  assumes "date_reads_back lib sd d"
  shows "takes lib (''#'' @ sd d @ ''#'') (Some (KDate d)) rest"
proof -
  have d: "rfc3339 lib (sd d) = Some d" "trim (sd d) = sd d" "CHR ''#'' \<notin> set (sd d)"
    using assms by (simp_all add: date_reads_back_def)
  have "takeWhile ((\<noteq>) (CHR ''#'')) (sd d @ ''#'' @ rest) = sd d" "dropWhile ((\<noteq>) (CHR ''#'')) (sd d @ ''#'' @ rest) = ''#'' @ rest"
    using d(3) by (auto simp: takeWhile_append dropWhile_append)
  then have "split_once (CHR ''#'') (sd d @ ''#'' @ rest) = Some (sd d, rest)" by (simp add: split_once_def)
  moreover have "\<not> is_whitespace ''#''" "byte_val (CHR ''#'') < 128" by code_simp+
  ultimately show ?thesis using d(1,2)
    by (simp add: takes_def next_token_def first_char_ascii parse_date_literal_def Let_def)
qed

lemma literal_spells:
  assumes t: "literal_dsl sd v = Some t" and lib: "letters_no_space lib" "list_all (date_reads_back lib sd) (dates (Literal v))"
  shows "spells lib t [literal_tok v]"
proof (rule takes_spells)
  fix rest
  assume r: "soft rest"
  show "takes lib t (Some (literal_tok v)) rest"
  proof (cases v)
    case (Number x)
    have x: "f64_finite x" "\<not> f64_neg x" "parse_f64 t = Some x" 
      using number_literal_readable [of x] t Number by (simp_all split: option.splits)
    show ?thesis
    proof (cases "x = 0")
      case True
      then have "t = ''0''" using t Number x(1,2) by (simp add: number_literal_def display_f64_def split: if_splits)
      moreover have "mantissa ''0''" by (rule mantissa_digits) (simp_all add: ascii_digit_def byte_val_def)
      ultimately show ?thesis using number_takes [of "''0''" t x rest lib] x r Number by simp
    next
      case False
      consider "t = display_f64 x" | "t = display_exp x"
        using t Number by (auto simp: number_literal_def split: if_splits)
      then show ?thesis
      proof cases
        case 1
        then show ?thesis using number_takes [OF display_shape(1) [OF False] _ x(3,1) r] Number by simp
      next
        case 2
        obtain m sg ds where "mantissa m" "display_exp x = m @ ''e'' @ sg @ ds" "sg = [] \<or> sg = ''-''"
          "list_all ascii_digit ds" "ds \<noteq> []"
          using display_shape(2) [OF False] by blast
        then show ?thesis using number_takes [of m t x rest lib] x r Number 2 by auto
      qed
    qed
  next
    case (Boolean b)
    have "ascii_word ''TRUE''" "ascii_word ''FALSE''" by code_simp+
    then show ?thesis using t Boolean word_takes [OF lib(1) _ _ r] ascii_word_bare by (cases b) auto
  next
    case (Text s)
    then show ?thesis using t string_takes [OF r] by (auto split: if_splits)
  next
    case (DateTime d)
    then show ?thesis using t date_takes [of lib sd d rest] lib(2) by simp
  qed (use t in simp_all)
qed

section \<open>The text of a formula\<close>

lemma commas_Some:
  assumes "commas ts = Some t"
  obtains us where "ts = map Some us" "t = join_with '', '' us"
proof
  have "None \<notin> set ts" using assms by (simp add: commas_def split: if_splits)
  then show "ts = map Some (map the ts)" by (induction ts) auto
  show "t = join_with '', '' (map the ts)" using assms by (simp add: commas_def split: if_splits)
qed

lemma always_single: "single c \<Longrightarrow> always lib [c] [KOp [c]]"
  using takes_always [of lib "[c]" "Some (KOp [c])"] single_takes by simp

lemma always_space: "always lib '' '' []"
  using takes_always [of lib "'' ''" None] space_takes by simp

lemma always_comma: "always lib '', '' [KOp '','']"
  using always_append [OF always_single [OF singles(10)] always_space, of lib] by simp

lemma join_head: "join_with sep (x # xs) = x @ (if xs = [] then [] else sep @ join_with sep xs)"
  by (cases xs) simp_all

lemma comma_toks_Cons: "comma_toks (ts # tss) = ts @ (if tss = [] then [] else KOp '','' # comma_toks tss)"
  by (cases tss) simp_all

lemma join_spells:
  "list_all2 (\<lambda>t ts. spells lib t ts) us tss \<Longrightarrow> us \<noteq> [] \<Longrightarrow> spells lib (join_with '', '' us) (comma_toks tss)"
proof (induction rule: list_all2_induct)
  case (Cons u us ts tss)
  show ?case
  proof (cases "us = []")
    case True
    then show ?thesis using Cons by simp
  next
    case False
    then have "tss \<noteq> []" using Cons(2) by auto
    have "spells lib ('', '' @ join_with '', '' us) ([KOp '',''] @ comma_toks tss)"
      by (rule spells_always [OF always_comma]) (rule Cons(3) [OF False])
    then have "spells lib (u @ '', '' @ join_with '', '' us) (ts @ [KOp '',''] @ comma_toks tss)"
      by (rule spells_soft [OF Cons(1)]) (simp_all add: soft_def)
    then show ?thesis using False \<open>tss \<noteq> []\<close> by (simp add: join_head comma_toks_Cons)
  qed
qed simp

text \<open>Every name is a Rust string.\<close>

definition names_whole :: "model \<Rightarrow> bool" where
  "names_whole m \<longleftrightarrow>
     list_all (\<lambda>x. whole_chars (m_name x)) (hvalues (measure_map m)) \<and>
     list_all (\<lambda>k. whole_chars (cat_name k)) (hvalues (categories m))"

lemma category_spells:
  assumes "category_dsl lib m c = Some t" "letters_no_space lib" "names_whole m"
  shows "spells lib t [word_tok lib (category_name_of m c)]"
proof -
  obtain k where k: "hget (categories m) c = Some k" "ident_dsl lib (cat_name k) = Some t"
    using assms(1) by (auto simp: category_dsl_def bind_eq_Some_conv)
  then have "whole_chars (cat_name k)" using assms(3) hget_value [OF k(1)] by (simp add: names_whole_def list_all_iff)
  then show ?thesis using ident_spells [OF k(2) assms(2)] k(1) by (simp add: category_name_of_def)
qed

lemma reference_spells:
  assumes t: "reference_dsl lib m i cs = Some t" and lib: "letters_no_space lib" and m: "names_whole m"
  shows "spells lib t (ref_toks lib m i cs)"
proof -
  obtain x n where x: "hget (measure_map m) i = Some x" "ident_dsl lib (m_name x) = Some n"
    using t by (auto simp: reference_dsl_def bind_eq_Some_conv)
  then have "whole_chars (m_name x)" using m hget_value [OF x(1)] by (simp add: names_whole_def list_all_iff)
  then have n: "spells lib n [word_tok lib (measure_name_of m i)]"
    using ident_spells [OF x(2) lib] x(1) by (simp add: measure_name_of_def)
  show ?thesis
  proof (cases "cs = []")
    case True
    then show ?thesis using n t x by (simp add: reference_dsl_def ref_toks_def)
  next
    case False
    then obtain u where u: "commas (map (category_dsl lib m) cs) = Some u" "t = n @ ''['' @ u @ '']''"
      using t x by (auto simp: reference_dsl_def)
    obtain us where us: "map (category_dsl lib m) cs = map Some us" "u = join_with '', '' us" using u(1) by (rule commas_Some)
    have "list_all2 (spells lib) us (map (\<lambda>c. [word_tok lib (category_name_of m c)]) cs)"
    proof (rule list_all2_all_nthI)
      show len: "length us = length (map (\<lambda>c. [word_tok lib (category_name_of m c)]) cs)"
        using us(1) by (metis length_map)
      fix j assume j: "j < length us"
      then have "category_dsl lib m (cs ! j) = Some (us ! j)" using us(1) len by (metis length_map nth_map)
      then show "spells lib (us ! j) (map (\<lambda>c. [word_tok lib (category_name_of m c)]) cs ! j)"
        using category_spells [OF _ lib m] j len by simp
    qed
    moreover have "us \<noteq> []" using us(1) False by auto
    ultimately have "spells lib u (comma_toks (map (\<lambda>c. [word_tok lib (category_name_of m c)]) cs))"
      unfolding us(2) by (rule join_spells)
    then have "spells lib (u @ '']'') (comma_toks (map (\<lambda>c. [word_tok lib (category_name_of m c)]) cs) @ [KOp '']''])"
      by (rule spells_soft [OF _ always_spells [OF always_single [OF singles(9)]]]) (simp_all add: soft_def)
    then have "spells lib (''['' @ u @ '']'') ([KOp ''[''] @ comma_toks (map (\<lambda>c. [word_tok lib (category_name_of m c)]) cs) @ [KOp '']''])"
      by (rule spells_always [OF always_single [OF singles(8)]])
    from spells_soft [OF n this] show ?thesis using u(2) False by (simp add: soft_def ref_toks_def)
  qed
qed

text \<open>An operator between spaces.\<close>

lemma word_always:
  assumes "ascii_word w" "letters_no_space lib"
  shows "always lib (w @ '' '') [KIdent w]"
proof -
  have "takes lib w (Some (KIdent w)) ('' '' @ rest)" for rest
    using word_takes [OF assms(2)] ascii_word_bare [OF assms(1)] by (simp add: soft_def)
  then have "tokens_after lib (w @ '' '') ([KIdent w] @ []) rest" for rest
    using takes_after [of lib w "Some (KIdent w)"] always_space
    by (intro tokens_after_append) (auto simp: always_def)
  then show ?thesis by (simp add: always_def)
qed

lemma compare_takes:
  "takes lib ''=='' (Some (KOp ''=='')) rest" "takes lib ''<>'' (Some (KOp ''<>'')) rest"
  "takes lib ''<='' (Some (KOp ''<='')) rest" "takes lib ''>='' (Some (KOp ''>='')) rest"
  "takes lib ''<'' (Some (KOp ''<'')) ('' '' @ rest)" "takes lib ''>'' (Some (KOp ''>'')) ('' '' @ rest)"
proof -
  have c: "byte_val (CHR ''='') < 128" "byte_val (CHR ''<'') < 128" "byte_val (CHR ''>'') < 128"
    "\<not> is_whitespace ''=''" "\<not> is_whitespace ''<''" "\<not> is_whitespace ''>''"
    "\<not> ascii_alphabetic (CHR ''='')" "\<not> ascii_alphabetic (CHR ''<'')" "\<not> ascii_alphabetic (CHR ''>'')"
    "\<not> ascii_digit (CHR ''='')" "\<not> ascii_digit (CHR ''<'')" "\<not> ascii_digit (CHR ''>'')"
    by code_simp+
  then show "takes lib ''=='' (Some (KOp ''=='')) rest" "takes lib ''<>'' (Some (KOp ''<>'')) rest"
    "takes lib ''<='' (Some (KOp ''<='')) rest" "takes lib ''>='' (Some (KOp ''>='')) rest"
    "takes lib ''<'' (Some (KOp ''<'')) ('' '' @ rest)" "takes lib ''>'' (Some (KOp ''>'')) ('' '' @ rest)"
    by (simp_all add: takes_def next_token_def first_char_ascii starts_ident_def is_alphabetic_def Let_def
        two_ops_def single_ops_def numeral_2_eq_2)
qed

lemma always_spaced:
  assumes "\<And>rest. takes lib s (Some t) ('' '' @ rest)"
  shows "always lib ('' '' @ s @ '' '') [t]"
proof -
  have "tokens_after lib (s @ '' '') ([t] @ []) rest" for rest
    using takes_after [OF assms, of rest] always_space by (intro tokens_after_append) (auto simp: always_def)
  then have "always lib (s @ '' '') [t]" by (simp add: always_def)
  then show ?thesis using always_append [OF always_space] by fastforce
qed

lemma symbol_always:
  assumes "letters_no_space lib"
  shows "always lib ('' '' @ symbol b @ '' '') [symbol_tok b]"
proof -
  have w: "ascii_word ''AND''" "ascii_word ''OR''" by code_simp+
  show ?thesis
  proof (cases "b = And \<or> b = Or")
    case True
    then have "always lib (symbol b @ '' '') [KIdent (symbol b)]" using word_always [OF w(1) assms] word_always [OF w(2) assms] by auto
    then show ?thesis using True always_append [OF always_space] by (fastforce simp: symbol_tok_def)
  next
    case False
    then have "takes lib (symbol b) (Some (KOp (symbol b))) ('' '' @ rest)" for rest
      using compare_takes [of lib] single_takes singles by (cases b) auto
    then show ?thesis using False always_spaced by (simp add: symbol_tok_def)
  qed
qed

section \<open>The text of a plain formula\<close>

lemma form_names:
  "to_ascii_uppercase n \<notin> set FORMS \<Longrightarrow> n \<noteq> ''SCAN'' \<and> n \<noteq> ''REDUCE'' \<and> n \<noteq> ''FIXPOINT''"
proof -
  have "to_ascii_uppercase ''SCAN'' = ''SCAN''" "to_ascii_uppercase ''REDUCE'' = ''REDUCE''"
    "to_ascii_uppercase ''FIXPOINT'' = ''FIXPOINT''" by code_simp+
  then show "to_ascii_uppercase n \<notin> set FORMS \<Longrightarrow> ?thesis" by (auto simp: FORMS_def)
qed

lemma expr_dsl_eqs:
  "expr_dsl lib sd m (Literal v) = literal_dsl sd v"
  "lambda_slot_of i = None \<Longrightarrow> sover sp = [] \<Longrightarrow> sexcept sp = [] \<Longrightarrow>
     expr_dsl lib sd m (Ref i sp) = reference_dsl lib m i (sby sp)"
  "expr_dsl lib sd m (UnaryOp u a) =
     map_option (\<lambda>s. (case u of Neg \<Rightarrow> ''-'' | Not \<Rightarrow> ''NOT '') @ s)
       (child_dsl (expr_dsl lib sd m) a (prec (UnaryOp u a)))"
  "expr_dsl lib sd m (BinaryOp b l r) =
     Option.bind (child_dsl (expr_dsl lib sd m) l (fst (side_levels b (prec (BinaryOp b l r))))) (\<lambda>ls.
     map_option (\<lambda>rs. ls @ '' '' @ symbol b @ '' '' @ rs)
       (child_dsl (expr_dsl lib sd m) r (snd (side_levels b (prec (BinaryOp b l r))))))"
  "expr_dsl lib sd m (Category c) = category_dsl lib m c"
  by (subst expr_dsl.simps; simp add: expr_here_def child_dsl_def case_prod_beta)+

lemma expr_dsl_call:
  assumes "plain_call f args" "by_id f = Some d"
  shows "expr_dsl lib sd m (Call f args) = map_option (\<lambda>t. fname d @ parens t) (list_dsl (expr_dsl lib sd m) args)"
proof -
  have "list_dsl (\<lambda>a. if size a < size (Call f args) then expr_dsl lib sd m a else None) args =
      list_dsl (expr_dsl lib sd m) args"
    unfolding list_dsl_def by (rule arg_cong [of _ _ commas], rule map_cong) (auto simp: less_Suc_eq_le size_list_estimation')
  moreover have "named_lambda_of f = None" "\<not> is_aggregation f"
    "fname d \<noteq> ''SCAN'' \<and> fname d \<noteq> ''REDUCE'' \<and> fname d \<noteq> ''FIXPOINT''"
    using assms by (auto simp: plain_call_def dest: form_names)
  ultimately show ?thesis using assms(2)
    by (subst expr_dsl.simps) (simp add: expr_here_def call_dsl_def)
qed

lemma parens_spells: "spells lib t ts \<Longrightarrow> spells lib (parens t) (KOp ''('' # ts @ [KOp '')''])"
proof -
  assume "spells lib t ts"
  then have "spells lib (t @ '')'') (ts @ [KOp '')''])"
    by (rule spells_soft [OF _ always_spells [OF always_single [OF singles(7)]]]) (simp_all add: soft_def)
  then have "spells lib (''('' @ t @ '')'') ([KOp ''(''] @ ts @ [KOp '')''])"
    by (rule spells_always [OF always_single [OF singles(6)]])
  then show ?thesis by (simp add: parens_def)
qed

lemma child_spells:
  assumes "child_dsl ex e k = Some t" "\<And>u. ex e = Some u \<Longrightarrow> spells lib u (toks lib m e)"
  shows "spells lib t (child_toks lib m e k)"
  using assms parens_spells by (cases "prec e < k") (auto simp: child_dsl_def child_toks_def)

lemma rmap_append_nil [simp]: "rmap ((@) []) r = r"
  by (cases r) simp_all

lemma expr_spells:
  assumes lib: "letters_no_space lib" and m: "names_whole m"
  shows "expr_dsl lib sd m e = Some t \<Longrightarrow> plain m e \<Longrightarrow> list_all (date_reads_back lib sd) (dates e) \<Longrightarrow>
    spells lib t (toks lib m e) \<and> spelled sd e"
proof (induction e arbitrary: t)
  case (Literal v)
  then show ?case using literal_spells [OF _ lib, of sd v] by (simp add: expr_dsl_eqs)
next
  case (Ref i sp)
  then show ?case using reference_spells [OF _ lib m] by (simp add: expr_dsl_eqs)
next
  case (UnaryOp u a)
  obtain s where s: "child_dsl (expr_dsl lib sd m) a (prec (UnaryOp u a)) = Some s"
    "t = (case u of Neg \<Rightarrow> ''-'' | Not \<Rightarrow> ''NOT '') @ s"
    using UnaryOp.prems(1) by (auto simp: expr_dsl_eqs simp del: prec.simps)
  have "spelled sd a" using s(1) UnaryOp by (auto simp: child_dsl_def)
  have child: "spells lib s (child_toks lib m a (prec (UnaryOp u a)))"
    using s(1) UnaryOp by (intro child_spells [OF s(1)]) simp
  have "ascii_word ''NOT''" by code_simp
  then have "always lib (case u of Neg \<Rightarrow> ''-'' | Not \<Rightarrow> ''NOT '') [unary_tok u]"
    using word_always [OF _ lib, of "''NOT''"] always_single [OF singles(2)] by (cases u) simp_all
  from spells_always [OF this child] show ?case using s(2) \<open>spelled sd a\<close> by simp
next
  case (BinaryOp b l r)
  let ?p = "prec (BinaryOp b l r)"
  obtain ls rs where s: "child_dsl (expr_dsl lib sd m) l (fst (side_levels b ?p)) = Some ls"
    "child_dsl (expr_dsl lib sd m) r (snd (side_levels b ?p)) = Some rs" "t = ls @ '' '' @ symbol b @ '' '' @ rs"
    using BinaryOp.prems(1) unfolding expr_dsl_eqs by (auto simp: bind_eq_Some_conv simp del: prec.simps)
  have sp: "spelled sd l" "spelled sd r" using s(1,2) BinaryOp by (auto simp: child_dsl_def)
  have l: "spells lib ls (child_toks lib m l (fst (side_levels b ?p)))"
    using BinaryOp by (intro child_spells [OF s(1)]) simp
  have r: "spells lib rs (child_toks lib m r (snd (side_levels b ?p)))"
    using BinaryOp by (intro child_spells [OF s(2)]) simp
  have "spells lib (('' '' @ symbol b @ '' '') @ rs) ([symbol_tok b] @ child_toks lib m r (snd (side_levels b ?p)))"
    by (rule spells_always [OF symbol_always [OF lib] r])
  then have "spells lib (ls @ ('' '' @ symbol b @ '' '') @ rs)
      (child_toks lib m l (fst (side_levels b ?p)) @ [symbol_tok b] @ child_toks lib m r (snd (side_levels b ?p)))"
    by (rule spells_soft [OF l]) (simp_all add: soft_def)
  then show ?case unfolding s(3) toks_child using sp by (simp del: prec.simps)
next
  case (Call f args)
  obtain d where d: "by_id f = Some d" and pc: "plain_call f args"
    using Call.prems(2) by (auto simp: plain_call_def split: option.splits)
  obtain u where u: "commas (map (expr_dsl lib sd m) args) = Some u" "t = fname d @ parens u"
    using Call.prems(1) unfolding expr_dsl_call [OF pc d] by (auto simp: list_dsl_def)
  obtain us where us: "map (expr_dsl lib sd m) args = map Some us" "u = join_with '', '' us" using u(1) by (rule commas_Some)
  have len: "length us = length args" using us(1) by (metis length_map)
  have each: "spells lib (us ! j) (toks lib m (args ! j)) \<and> spelled sd (args ! j)" if j: "j < length args" for j
  proof -
    have "expr_dsl lib sd m (args ! j) = Some (us ! j)" using us(1) j len by (metis nth_map)
    moreover have "plain m (args ! j)" using Call.prems(2) j by (simp add: list_all_length)
    moreover have "list_all (date_reads_back lib sd) (dates (args ! j))" using Call.prems(3) j by (auto simp: list_all_iff)
    ultimately show ?thesis using Call.IH [of "args ! j"] j by simp
  qed
  have "spells lib u (comma_toks (map (toks lib m) args))"
  proof (cases "args = []")
    case True
    then show ?thesis using True us len by (simp add: spells_def tokens_after_def)
  next
    case False
    then show ?thesis unfolding us(2) using each len by (intro join_spells list_all2_all_nthI) auto
  qed
  then have p: "spells lib (parens u) (KOp ''('' # comma_toks (map (toks lib m) args) @ [KOp '')''])" by (rule parens_spells)
  have "d \<in> set all_fns" "fid d = f" using d by (auto simp: by_id_def find_Some_iff)
  then have word: "fn_word (fname d)" using registered_words by (auto simp: word_named_def list_all_iff)
  have "by_name (fname d) \<noteq> []" using \<open>d \<in> set all_fns\<close> by (auto simp: by_name_def filter_empty_conv eq_ignore_ascii_case_def)
  have "tokens_after lib (fname d @ parens u) ([KIdent (fname d)] @ KOp ''('' # comma_toks (map (toks lib m) args) @ [KOp '')'']) rest"
    if "soft rest" for rest
  proof (rule tokens_after_append)
    show "tokens_after lib (parens u) (KOp ''('' # comma_toks (map (toks lib m) args) @ [KOp '')'']) rest"
      using p that by (simp add: spells_def)
    have "takes lib (fname d) (Some (KIdent (fname d))) (parens u @ rest)"
      using fn_takes [OF word \<open>by_name (fname d) \<noteq> []\<close>, of lib "u @ '')'' @ rest"] by (simp add: parens_def)
    from takes_after [OF this] show "tokens_after lib (fname d) [KIdent (fname d)] (parens u @ rest)" by simp
  qed
  then show ?case using u(2) d each by (simp add: spells_def list_all_length)
next
  case (Category c)
  then show ?case using category_spells [OF _ lib m] by (simp add: expr_dsl_eqs)
qed

section \<open>Round trip\<close>

lemma plain_no_lambda: "plain m e \<Longrightarrow> called e = {}"
proof (induction e)
  case (Call f args)
  then show ?case by (auto simp: plain_call_def list_all_iff split: option.splits)
qed simp_all

lemma whole_expr_reads:
  assumes s: "rem s = toks lib m e" "p_model s = m" "p_scope s = []" "p_depth s = 0" "\<not> p_stored s"
    and e: "plain m e" "spelled sd e" "\<not> is_category e" "levels e \<le> 160" "node_count e \<le> MAX_FORMULA_NODES"
  shows "\<exists>s'. whole_expr s = Inr (e, s')"
proof -
  have nest: "nesting e \<le> max_nest s"
    using nesting_levels [of e] e(4) s(5) by (simp add: max_nest_def MAX_PARSE_DEPTH_def MAX_FORMULA_DEPTH_def)
  have small: "small s e" using e(4,5) s(5) by (simp add: small_def max_depth_def MAX_FORMULA_DEPTH_def)
  have "readable lib m e" using reads_readable [OF e(1-3)] by blast
  then have "reads m (nesting e) (level 1 (Suc (max_nest s))) (toks lib m e) 1 e"
    using nest by (intro readable_level) simp_all
  from readsD [OF this, of s "[]"] have "level 1 (Suc (max_nest s)) s = Inr (e, moved s (length (toks lib m e)))"
    using s small nest by (simp add: calm_def)
  then have top: "parse_top s = Inr (e, moved s (length (toks lib m e)))" by (simp add: parse_top_def level_def)
  let ?s = "moved s (length (toks lib m e))"
  have "rem ?s = []" using s(1) by simp
  then have "peek ?s = None" by (cases ?s rule: rem_cases) simp_all
  moreover have checked: "check_expr e pos ?s = Inr ((), ?s)" for pos
    using small by (simp add: check_expr_def runs plift_def check_depth_exact small_def map_err_def)
  moreover have "expand_lambdas e m = Inr e"
  proof -
    have "check_depth MAX_STORED_FORMULA_DEPTH e = Inr ()"
      using e(4,5) by (simp add: check_depth_exact MAX_STORED_FORMULA_DEPTH_def MAX_FORMULA_DEPTH_def)
    then show ?thesis using expand_at_id [OF plain_no_lambda [OF e(1)], of 0 m] by (simp add: expand_lambdas_def)
  qed
  then have "check_formula e pos ?s = Inr ((), ?s)" for pos
    using checked s(2) by (simp add: check_formula_def runs)
  ultimately show ?thesis using top by (simp add: whole_expr_def runs)
qed

section \<open>A sample formula\<close>

definition sample_lib :: std_lib where
  "sample_lib =
     \<lparr>u_alphabetic = (\<lambda>_. False), u_alphanumeric = (\<lambda>_. False), debug_str = id, debug_char = id,
      rfc3339 = (\<lambda>s. if s = ''2024-01-01T00:00:00+00:00'' then Some 1704067200 else None),
      naive_date = (\<lambda>_. None)\<rparr>"

definition sample_show :: "int \<Rightarrow> string" where
  "sample_show d = (if d = 1704067200 then ''2024-01-01T00:00:00+00:00'' else [])"

definition sample_measure :: "measure_id \<Rightarrow> string \<Rightarrow> measure" where
  "sample_measure i n =
     \<lparr>m_id = i, m_name = n, m_type = TNumber, m_cats = [CategoryId 1], m_kind = Input, m_desc = None, m_format = None\<rparr>"

definition sample_model :: model where
  "sample_model = new_model
     \<lparr>measure_map := [(MeasureId 1, sample_measure (MeasureId 1) ''Unit Price''),
                      (MeasureId 2, sample_measure (MeasureId 2) ''Sales'')],
      categories := [(CategoryId 1, \<lparr>cat_id = CategoryId 1, cat_name = ''Product'', cat_items = []\<rparr>)]\<rparr>"

definition sample_formula :: formula where
  "sample_formula = new_formula
     (BinaryOp And
        (BinaryOp Gt (BinaryOp Mul (Ref (MeasureId 1) (default_spec\<lparr>sby := [CategoryId 1]\<rparr>))
                                   (BinaryOp Sub (Ref (MeasureId 2) default_spec) (Ref (MeasureId 1) default_spec)))
                     (UnaryOp Neg (Ref (MeasureId 2) default_spec)))
        (UnaryOp Not (BinaryOp Eq (Literal (DateTime 1704067200)) (Literal (Text [CHR ''a'', CHR 0x22])))))"


lemma sample_letters: "letters_no_space sample_lib"
proof -
  have "list_all (\<lambda>ch. case ch of [d] \<Rightarrow> \<not> ascii_alphabetic d | _ \<Rightarrow> True) white_space" by code_simp
  then show ?thesis by (auto simp: letters_no_space_def is_alphabetic_def sample_lib_def list_all_iff split: list.splits)
qed

lemma sample_nodes: "node_count (fexpr sample_formula) \<le> MAX_FORMULA_NODES" by (simp add: sample_formula_def new_formula_def MAX_FORMULA_NODES_def)

lemma ident_prints: "name \<noteq> [] \<Longrightarrow> \<exists>t. ident_dsl lib name = Some t"
  by (simp add: ident_dsl_def)

lemma sample_text: "literal_dsl sample_show (Text [CHR ''a'', CHR 0x22]) = Some [CHR 0x22, CHR ''a'', CHR 0x22, CHR 0x22, CHR 0x22]"
  by (simp add: doubled_def char_len_def byte_val_def is_control_def code_point_def)

lemma sample_date: "literal_dsl sd (DateTime d) = Some (''#'' @ sd d @ ''#'')" by simp

lemma sample_plain: "plain sample_model (fexpr sample_formula)" by code_simp

lemma sample_prints: "\<exists>t. formula_dsl sample_lib sample_show sample_model sample_formula = Some t"
proof -
  obtain a b c where n: "ident_dsl sample_lib ''Unit Price'' = Some a" "ident_dsl sample_lib ''Sales'' = Some b"
    "ident_dsl sample_lib ''Product'' = Some c" using ident_prints by (metis list.distinct(1))
  have "lambda_slot_of (MeasureId 1) = None" "lambda_slot_of (MeasureId 2) = None" by code_simp+
  then show ?thesis using n unfolding sample_formula_def formula_dsl_def new_formula_def formula.simps
  by (simp add: sample_date expr_dsl_eqs default_spec_def child_dsl_def reference_dsl_def category_dsl_def commas_def sample_text sample_model_def new_model_def sample_measure_def del: literal_dsl.simps)
qed

lemma sample_levels: "levels (fexpr sample_formula) \<le> 160" by code_simp

text \<open>
  C10. Printing and parsing round trip: a formula of literals, references, operators and calls of
  functions, whose names find what they name, is read back from its printed text exactly as it was,
  when it is at most 160 levels deep.
\<close>

theorem printed_formula_parses:
  assumes "letters_no_space lib" "list_all (date_reads_back lib show_date) (dates (fexpr f))" "names_whole m"
    and "plain m (fexpr f)" "\<not> is_category (fexpr f)" "levels (fexpr f) \<le> 160"
    and "node_count (fexpr f) \<le> MAX_FORMULA_NODES"
    and "formula_dsl lib show_date m f = Some t"
  shows "parse_expr lib m t = Inr f"
proof -
  let ?e = "fexpr f"
  have t: "spells lib t (toks lib m ?e)" "spelled show_date ?e"
    using expr_spells [OF assms(1,3) _ assms(4,2)] assms(8) by (auto simp: formula_dsl_def)
  then obtain us where us: "map fst us = toks lib m ?e" "tokens_from lib 0 t = rmap (\<lambda>vs. us @ vs) (tokens_from lib (length t) [])"
    unfolding spells_def tokens_after_def by (metis append_Nil2 add_0 soft_def)
  then have tokens: "tokenize lib t = Inr us" by (simp add: tokenize_def tokens_from.simps [of lib _ "[]"])
  have "us \<noteq> []" using us(1) toks_nonempty [of lib m ?e] by (metis list.map_disc_iff)
  define s where "s = new_parser lib (param_default lib) us m False"
  have "\<exists>s'. whole_expr s = Inr (?e, s')"
    using us(1) t(2) assms(4-7) by (intro whole_expr_reads) (simp_all add: s_def new_parser_def rem_def)
  then show ?thesis using tokens \<open>us \<noteq> []\<close>
    by (auto simp: parse_expr_def expr_text_def run_def new_formula_def simp flip: s_def)
qed

lemma printed_formula_parses_witness:
  "\<exists>t. formula_dsl sample_lib sample_show sample_model sample_formula = Some t \<and>
     parse_expr sample_lib sample_model t = Inr sample_formula" 
proof -
  obtain t where t: "formula_dsl sample_lib sample_show sample_model sample_formula = Some t" using sample_prints by blast
  moreover have "parse_expr sample_lib sample_model t = Inr sample_formula"
    by (rule printed_formula_parses [OF sample_letters _ _ sample_plain _ sample_levels sample_nodes t]; code_simp)
  ultimately show ?thesis by blast
qed

end
