(* ===== verification/Spec2Isabelle.thy ===== *)
theory Spec2Isabelle
  imports
    Improv_Prelude Take_Range Bit_Ops Gcd_Lcm Coord_Keys Radix_Digits Build_Order Doubles Exact_Sum
    Text_Bytes Values Formula_Ast Fn_Registry Fn_Tables Fn_Facts Maps Cube_Model Cube_Facts
    Named_Lambda Lambda_Facts Plan_Types Compiler_Plan Compiler_Infer Infer Compile Infer_Facts Infer_Panics
    Compile_Facts Engine_Order Engine_Order_Facts Cell_Values Session_Rounds Session_Facts
    Text_Chars Fn_Params Tokens Parser_State Parser_Forms Parser Parser_Logic Parser_Sound Parser_Facts
    Edit_Distance Number_Text Number_Facts Printer Printer_Parse Printer_Text Printer_Facts
begin

text \<open>
  Improv is a multidimensional spreadsheet: a model holds categories (dimensions) of items,
  measures over them (inputs or derived by a formula), named LAMBDAs, scenarios and views; the
  engine compiles each formula to a plan and runs the plans incrementally.

  Parts and theories, in the order the code layers them:

  \<^item> \<open>crates/verified/src\<close>: the small kernels the engine calls. \<open>Take_Range\<close> (\<open>take.rs\<close>),
    \<open>Bit_Ops\<close> (\<open>bits.rs\<close>), \<open>Gcd_Lcm\<close> (\<open>gcd.rs\<close>), \<open>Coord_Keys\<close> (\<open>keys.rs\<close>), \<open>Radix_Digits\<close>
    (\<open>radix.rs\<close>), \<open>Build_Order\<close> (\<open>graph.rs\<close>). Machine integers are words of their width, so
    wrap-around is the words'; each theory shows that no step wraps and that the result meets
    the specification the file states. \<open>Coord_Keys\<close> states what a join needs of its keys as a
    locale and interprets it on \<open>project\<close> and \<open>union_keys\<close>.
  \<^item> \<open>crates/engine/src/exact.rs\<close>: \<open>Doubles\<close> reads binary64 bit patterns exactly, in units of
    2 to the -1074; \<open>Exact_Sum\<close> models \<open>ExactSum\<close>, \<open>Exact\<close> and \<open>WindowSum\<close> digit by digit
    (67 digits of 32 bits in \<open>i64\<close>, an overflow or an index out of range being \<open>None\<close>) and
    shows the sum exact and independent of order, of blocks and of what a window has dropped,
    for fewer than 2 to the 31 terms, the bound its digit invariant gives. \<open>Exact::value\<close>, the
    one rounding to a double, is not modelled.
  \<^item> \<open>crates/core_model/src\<close>: \<open>Text_Bytes\<close> (the standard library's text operations, on UTF-8
    bytes), \<open>Values\<close> (\<open>ids.rs\<close>, \<open>value.rs\<close>), \<open>Formula_Ast\<close> (\<open>formula.rs\<close>: the tree, its limits,
    its references), \<open>Fn_Registry\<close> and \<open>Fn_Tables\<close> (\<open>functions.rs\<close> and \<open>functions/\<close>: the rows
    of every table without their doc strings), \<open>Fn_Facts\<close> (ids and names identify functions),
    \<open>Maps\<close> (a \<open>HashMap\<close> as an association list in an arbitrary order, a \<open>BTreeMap\<close> as a sorted
    one), \<open>Cube_Model\<close> and \<open>Cube_Facts\<close> (\<open>lib.rs\<close>: the model's records and operations),
    \<open>Named_Lambda\<close> and \<open>Lambda_Facts\<close> (\<open>lib.rs\<close>: substitution, users, expansion).
  \<^item> \<open>crates/core_model/src/parser.rs\<close>, formulas from text: \<open>Text_Chars\<close> (characters over UTF-8 bytes, the
    conversion of decimal text to a double; what the standard library and chrono do with tables of their
    own is the record \<open>std_lib\<close>, a parameter), \<open>Fn_Params\<close> (\<open>functions.rs\<close> and \<open>functions/params.rs\<close>: the
    names and defaults of parameters, the nearest names), \<open>Tokens\<close> (the tokenizer), \<open>Parser_State\<close>,
    \<open>Parser_Forms\<close> and \<open>Parser\<close> (\<open>struct Parser\<close>, its rules one definition each, the public entry points).
    A rule is a function of the parser's state to an error or a value and the next state. A loop has one
    unit of fuel per token and one more, each round taking a token; \<open>unary_at\<close> ties the grammar's recursion
    by the nesting left, \<open>max_nest + 1\<close> levels, as every cycle of the grammar counts one level up to that
    bound. \<open>Parser_Logic\<close> has a weakest precondition for the rules; \<open>Parser_Sound\<close> walks over them once, for
    any set of formulas closed under what the rules build (the locale \<open>formula_values\<close>); \<open>Parser_Facts\<close>
    interprets it twice and shows that every text is answered (no panic, no loop without end), that an
    accepted formula is within the limits and only names what the model has, and that type inference
    then answers it.
    \<open>Edit_Distance\<close> shows that the rows of \<open>edit_distance\<close> (\<open>functions.rs\<close>, behind "did you mean") are the
    Levenshtein distance.
  \<^item> Formulas to text: \<open>Number_Text\<close> (\<open>number_literal\<close> of \<open>parser.rs\<close> and the shortest decimal form of a
    double it prints, which the standard library computes) and \<open>Number_Facts\<close> (seventeen digits always read
    back, so every literal does); \<open>Printer\<close> (\<open>crates/client/src/dsl.rs\<close>, one definition per function and
    per form of call). \<open>Printer_Parse\<close> runs the grammar on the tokens of a formula, level by level;
    \<open>Printer_Text\<close> runs the tokenizer on a printed text; \<open>Printer_Facts\<close> joins them: a printed formula of
    literals, references, operators and function calls is read back as it was. The round trip leaves out
    aggregations, folds, LAMBDA calls, formulas deeper than 160 levels (the parser counts a
    parenthesis as a level too, up to twice the depth), and names that another measure has too; it takes
    as hypotheses that no whitespace character is a letter to Unicode, that a name is well-formed UTF-8 and
    that chrono reads back the dates it prints.
  \<^item> \<open>crates/engine/src\<close>, the formula compiler: \<open>Plan_Types\<close> (\<open>typed.rs\<close>, \<open>plan.rs\<close>);
    \<open>Compiler_Plan\<close> (\<open>compiler.rs\<close>: the context, the errors and the second pass, from a typed
    expression to a plan); \<open>Compiler_Infer\<close> (the first pass's typing rules, one definition per
    helper, each taking the recursive \<open>infer\<close> as its argument, and \<open>scalar.rs\<close>'s \<open>check\<close>); \<open>Infer\<close>
    (\<open>infer\<close> itself: it ends because a lazy call's rewriting pays for itself in a weight and a
    LAMBDA's expansion calls none); \<open>Compile\<close> (recurrences, \<open>compile_formula\<close>, \<open>derived_shape\<close>;
    \<open>compile_fixpoint\<close>, which evaluates scalars, is the parameter \<open>fixpoint\<close>). \<open>Infer_Facts\<close> shows
    that what types compiles, \<open>Infer_Panics\<close> that the first pass panics only on a clause without
    its arguments, \<open>Compile_Facts\<close> that a recurrence reads its own measure only at earlier items.

  \<^item> \<open>crates/engine/src\<close>, the live engine: \<open>Engine_Order\<close> (\<open>dataflow.rs\<close>: the graph of derived
    measures, \<open>derived_build_order\<close> on the verified kernel's \<open>build_order\<close>, the names of a cycle,
    found by a breadth-first search with one unit of fuel per node, and \<open>compile_plans\<close>);
    \<open>Engine_Order_Facts\<close> shows that the order is what the targets need, dependencies first, and
    that a refusal names a real shortest cycle. \<open>Cell_Values\<close> (\<open>lib.rs\<close>: cells and keys) and
    \<open>Session_Rounds\<close> (\<open>session.rs\<close>: the worker's seed, edit rounds, snapshot, log and replies).
    The dataflow is the parameter \<open>flow\<close>, the deltas it sends for a batch of records after the
    batches before. \<open>Session_Facts\<close> shows that a round settles by net counts whatever the order of its
    deltas, that with a dataflow whose deltas add up (\<open>flow_ok\<close>) the snapshot of every reachable worker
    is the function of its input cells, and that the changes replied are the cells changed.

  Conventions. A fallible function returns \<open>error + value\<close>; an index out of range or an
  \<open>expect\<close> is an error value of its own. Recursion is total: where the code bounds it
  (\<open>expand_here\<close> by the number of LAMBDAs) the model has the same bound, elsewhere a measure
  shows that it ends. Dates are UTC instants as integers.

  Not modelled: serde forms and the loading of LAMBDAs from stored rows, the built-in
  functions' numerics, the dataflow's operators (differential-dataflow is not part of the repository),
  the iteration of a \<open>FIXPOINT\<close>, storage, policies, servers and user interfaces.
\<close>

end
